(* ===== verification/Prelude.thy ===== *)
theory Prelude
  imports Main "HOL-Library.Word" "HOL-Library.Sublist"
begin

text \<open>
  Shared vocabulary of the development: results as sums (Left an error, Right a value),
  operations that thread a state and may fail, Rust's checked integer arithmetic on \<^verbatim>\<open>i64\<close>,
  decimal rendering and parsing, and the string functions of the Rust standard library the
  server uses. Strings are lists of characters; every string the modelled code inspects
  (keys, roles, digits, SQL keywords) is ASCII, and \<^verbatim>\<open>to_lowercase\<close> is its ASCII part.
\<close>

named_theorems prog_simps \<open>equations of the state-and-error combinators\<close>
named_theorems str_simps \<open>equations of the string functions\<close>

section \<open>Results and stateful operations\<close>

type_synonym ('e, 'a) res = "'e + 'a"

definition bindE :: "('e, 'a) res \<Rightarrow> ('a \<Rightarrow> ('e, 'b) res) \<Rightarrow> ('e, 'b) res" where
  "bindE m f = (case m of Inl e \<Rightarrow> Inl e | Inr a \<Rightarrow> f a)"

definition mapErr :: "('e \<Rightarrow> 'f) \<Rightarrow> ('e, 'a) res \<Rightarrow> ('f, 'a) res" where
  "mapErr g m = (case m of Inl e \<Rightarrow> Inl (g e) | Inr a \<Rightarrow> Inr a)"

definition ok_or :: "'e \<Rightarrow> 'a option \<Rightarrow> ('e, 'a) res" where
  "ok_or e x = (case x of None \<Rightarrow> Inl e | Some a \<Rightarrow> Inr a)"

lemma bindE_simps [simp, prog_simps]:
  "bindE (Inl e) f = Inl e" "bindE (Inr a) f = f a"
  by (simp_all add: bindE_def)

lemma mapErr_simps [simp, prog_simps]:
  "mapErr g (Inl e) = Inl (g e)" "mapErr g (Inr a) = Inr a"
  by (simp_all add: mapErr_def)

lemma ok_or_simps [simp, prog_simps]:
  "ok_or e None = Inl e" "ok_or e (Some a) = Inr a"
  by (simp_all add: ok_or_def)

lemma ok_or_iff [simp]:
  "ok_or e x = Inr a \<longleftrightarrow> x = Some a" "ok_or e x = Inl f \<longleftrightarrow> x = None \<and> e = f"
  by (cases x; auto)+

lemma mapErr_iff [simp]:
  "mapErr g m = Inr a \<longleftrightarrow> m = Inr a" "mapErr g m = Inl f \<longleftrightarrow> (\<exists>e. m = Inl e \<and> g e = f)"
  by (cases m; auto)+

lemma bindE_Inr_conv: "bindE m f = Inr b \<longleftrightarrow> (\<exists>a. m = Inr a \<and> f a = Inr b)"
  by (cases m) auto

lemma bindE_Inl_conv: "bindE m f = Inl e \<longleftrightarrow> m = Inl e \<or> (\<exists>a. m = Inr a \<and> f a = Inl e)"
  by (cases m) auto

text \<open>An operation on a state: the result and the state it leaves, also when it fails.\<close>

type_synonym ('s, 'e, 'a) prog = "'s \<Rightarrow> ('e, 'a) res \<times> 's"

definition retS :: "'a \<Rightarrow> ('s, 'e, 'a) prog" where
  "retS a s = (Inr a, s)"

definition raiseS :: "'e \<Rightarrow> ('s, 'e, 'a) prog" where
  "raiseS e s = (Inl e, s)"

definition bindS :: "('s, 'e, 'a) prog \<Rightarrow> ('a \<Rightarrow> ('s, 'e, 'b) prog) \<Rightarrow> ('s, 'e, 'b) prog" where
  "bindS m f s = (case m s of (Inl e, s') \<Rightarrow> (Inl e, s') | (Inr a, s') \<Rightarrow> f a s')"

definition liftE :: "('e, 'a) res \<Rightarrow> ('s, 'e, 'a) prog" where
  "liftE r s = (r, s)"

lemma prog_basic [simp, prog_simps]:
  "retS a s = (Inr a, s)" "raiseS e s = (Inl e, s)" "liftE r s = (r, s)"
  by (simp_all add: retS_def raiseS_def liftE_def)

lemma bindS_cases [prog_simps]:
  "m s = (Inl e, s') \<Longrightarrow> bindS m f s = (Inl e, s')"
  "m s = (Inr a, s') \<Longrightarrow> bindS m f s = f a s'"
  by (simp_all add: bindS_def)

lemma bindS_Inr_conv:
  "bindS m f s = (Inr b, t) \<longleftrightarrow> (\<exists>a u. m s = (Inr a, u) \<and> f a u = (Inr b, t))"
  by (auto simp: bindS_def split: prod.splits sum.splits)

lemma bindS_Inl_conv:
  "bindS m f s = (Inl e, t) \<longleftrightarrow>
     m s = (Inl e, t) \<or> (\<exists>a u. m s = (Inr a, u) \<and> f a u = (Inl e, t))"
  by (auto simp: bindS_def split: prod.splits sum.splits)

lemma bindS_snd_cases:
  "snd (bindS m f s) = t \<Longrightarrow>
     (\<exists>e. m s = (Inl e, t)) \<or> (\<exists>a u. m s = (Inr a, u) \<and> snd (f a u) = t)"
  by (auto simp: bindS_def split: prod.splits sum.splits)

text \<open>
  Weakest preconditions: \<^verbatim>\<open>wp m Q E s\<close> holds when running \<^verbatim>\<open>m\<close> from \<^verbatim>\<open>s\<close> ends in \<^verbatim>\<open>Q\<close> on
  success and in \<^verbatim>\<open>E\<close> on an error. The equations in \<^verbatim>\<open>wp_simps\<close> reduce it along the
  structure of an operation.
\<close>

named_theorems wp_simps \<open>weakest preconditions of the operations\<close>

definition wp :: "('s, 'e, 'a) prog \<Rightarrow> ('a \<Rightarrow> 's \<Rightarrow> bool) \<Rightarrow> ('e \<Rightarrow> 's \<Rightarrow> bool) \<Rightarrow> 's \<Rightarrow> bool" where
  "wp m Q E s = (case m s of (Inl e, s') \<Rightarrow> E e s' | (Inr a, s') \<Rightarrow> Q a s')"

lemma wp_basic [wp_simps]:
  "wp (retS a) Q E s = Q a s"
  "wp (raiseS e) Q E s = E e s"
  by (simp_all add: wp_def)

lemma wp_bindS [wp_simps]:
  "wp (bindS m f) Q E s = wp m (\<lambda>a. wp (f a) Q E) E s"
  by (auto simp: wp_def bindS_def split: prod.splits sum.splits)

lemma wp_if [wp_simps]:
  "wp (if c then m else m') Q E s = (if c then wp m Q E s else wp m' Q E s)"
  by simp

lemma wp_liftE [wp_simps]:
  "wp (liftE r) Q E s = (case r of Inl e \<Rightarrow> E e s | Inr a \<Rightarrow> Q a s)"
  by (simp add: wp_def)

lemma wp_case_option [wp_simps]:
  "wp (case x of None \<Rightarrow> m | Some a \<Rightarrow> f a) Q E s =
    (case x of None \<Rightarrow> wp m Q E s | Some a \<Rightarrow> wp (f a) Q E s)"
  by (cases x) simp_all

lemma wp_case_sum [wp_simps]:
  "wp (case x of Inl e \<Rightarrow> g e | Inr a \<Rightarrow> f a) Q E s =
    (case x of Inl e \<Rightarrow> wp (g e) Q E s | Inr a \<Rightarrow> wp (f a) Q E s)"
  by (cases x) simp_all

lemma wp_case_prod [wp_simps]:
  "wp (case x of (a, b) \<Rightarrow> f a b) Q E s = (case x of (a, b) \<Rightarrow> wp (f a b) Q E s)"
  by (cases x) simp

lemma wp_Let [wp_simps]: "wp (Let x f) Q E s = wp (f x) Q E s"
  by simp

lemma wpI: "(\<And>a s'. m s = (Inr a, s') \<Longrightarrow> Q a s') \<Longrightarrow> (\<And>e s'. m s = (Inl e, s') \<Longrightarrow> E e s') \<Longrightarrow> wp m Q E s"
  by (auto simp: wp_def split: prod.splits sum.splits)

lemma wp_Inr: "wp m Q E s \<Longrightarrow> m s = (Inr a, s') \<Longrightarrow> Q a s'"
  by (simp add: wp_def)

lemma wp_Inl: "wp m Q E s \<Longrightarrow> m s = (Inl e, s') \<Longrightarrow> E e s'"
  by (simp add: wp_def)

lemma wp_snd: "wp m (\<lambda>_. I) (\<lambda>_. I) s \<Longrightarrow> I (snd (m s))"
  by (auto simp: wp_def split: prod.splits sum.splits)

lemma wp_mono:
  "wp m Q E s \<Longrightarrow> (\<And>a s'. Q a s' \<Longrightarrow> Q' a s') \<Longrightarrow> (\<And>e s'. E e s' \<Longrightarrow> E' e s') \<Longrightarrow> wp m Q' E' s"
  by (auto simp: wp_def split: prod.splits sum.splits)

lemma wp_conj: "wp m Q E s \<Longrightarrow> wp m Q' E' s \<Longrightarrow> wp m (\<lambda>a s. Q a s \<and> Q' a s) (\<lambda>e s. E e s \<and> E' e s) s"
  by (auto simp: wp_def split: prod.splits sum.splits)

section \<open>Machine integers\<close>

text \<open>
  An \<^verbatim>\<open>i64\<close> is an \<^typ>\<open>int\<close> kept in its range; atomic additions wrap, the
  checked operations of the code return \<^const>\<open>None\<close> out of range.
\<close>

definition i64_min :: int where "i64_min = - (2 ^ 63)"
definition i64_max :: int where "i64_max = 2 ^ 63 - 1"
definition i32_max :: int where "i32_max = 2 ^ 31 - 1"

definition in_i64 :: "int \<Rightarrow> bool" where
  "in_i64 x \<longleftrightarrow> i64_min \<le> x \<and> x \<le> i64_max"

definition wrap_i64 :: "int \<Rightarrow> int" where
  "wrap_i64 x = (x + 2 ^ 63) mod 2 ^ 64 - 2 ^ 63"

definition checked_add_i64 :: "int \<Rightarrow> int \<Rightarrow> int option" where
  "checked_add_i64 x y = (if in_i64 (x + y) then Some (x + y) else None)"

definition checked_sub_i64 :: "int \<Rightarrow> int \<Rightarrow> int option" where
  "checked_sub_i64 x y = (if in_i64 (x - y) then Some (x - y) else None)"

lemma wrap_i64_id: "in_i64 x \<Longrightarrow> wrap_i64 x = x"
  by (simp add: wrap_i64_def in_i64_def i64_min_def i64_max_def)

lemma in_i64_wrap: "in_i64 (wrap_i64 x)"
proof -
  have "0 \<le> (x + 2 ^ 63) mod 2 ^ 64" "(x + 2 ^ 63) mod 2 ^ 64 < (2 ^ 64 :: int)"
    by (simp_all only: pos_mod_sign pos_mod_bound zero_less_power zero_less_numeral)
  then show ?thesis by (simp add: in_i64_def wrap_i64_def i64_min_def i64_max_def)
qed

lemma checked_add_i64_Some:
  "checked_add_i64 x y = Some z \<longleftrightarrow> z = x + y \<and> in_i64 (x + y)"
  by (auto simp: checked_add_i64_def)

text \<open>Ceiling division, as \<^verbatim>\<open>div_ceil\<close> on unsigned integers.\<close>

definition div_ceil :: "nat \<Rightarrow> nat \<Rightarrow> nat" where
  "div_ceil a b = (if a mod b = 0 then a div b else a div b + 1)"

lemma div_ceil_bounds:
  assumes "0 < b"
  shows "a \<le> div_ceil a b * b" and "div_ceil a b * b < a + b"
proof -
  have e: "a = b * (a div b) + a mod b" by simp
  have m: "a mod b < b" using assms by simp
  have d: "div_ceil a b * b = (if a mod b = 0 then b * (a div b) else b * (a div b) + b)"
    by (simp add: div_ceil_def algebra_simps)
  show "a \<le> div_ceil a b * b"
    unfolding d using m by (subst e) (simp only: split: if_split, linarith)
  show "div_ceil a b * b < a + b"
  proof (cases "a mod b = 0")
    case True
    then show ?thesis unfolding d if_P[OF True] using e assms by linarith
  next
    case False
    then show ?thesis unfolding d if_not_P[OF False] using e by linarith
  qed
qed

section \<open>Strings\<close>

definition is_digit :: "char \<Rightarrow> bool" where
  "is_digit c \<longleftrightarrow> 48 \<le> (of_char c :: nat) \<and> (of_char c :: nat) \<le> 57"

definition digit_char :: "nat \<Rightarrow> char" where
  "digit_char d = char_of (48 + d)"

definition digit_val :: "char \<Rightarrow> nat" where
  "digit_val c = of_char c - 48"

definition is_alpha :: "char \<Rightarrow> bool" where
  "is_alpha c \<longleftrightarrow>
     (65 \<le> (of_char c :: nat) \<and> (of_char c :: nat) \<le> 90) \<or>
     (97 \<le> (of_char c :: nat) \<and> (of_char c :: nat) \<le> 122)"

definition is_alnum :: "char \<Rightarrow> bool" where
  "is_alnum c \<longleftrightarrow> is_alpha c \<or> is_digit c"

text \<open>\<^verbatim>\<open>is_whitespace\<close> on ASCII: tab, line feed, vertical tab, form feed, return, space.\<close>

definition is_space :: "char \<Rightarrow> bool" where
  "is_space c \<longleftrightarrow> (of_char c :: nat) \<in> {9, 10, 11, 12, 13, 32}"

definition lower_char :: "char \<Rightarrow> char" where
  "lower_char c =
     (if 65 \<le> (of_char c :: nat) \<and> (of_char c :: nat) \<le> 90 then char_of ((of_char c :: nat) + 32) else c)"

definition upper_char :: "char \<Rightarrow> char" where
  "upper_char c =
     (if 97 \<le> (of_char c :: nat) \<and> (of_char c :: nat) \<le> 122 then char_of ((of_char c :: nat) - 32) else c)"

definition to_lower :: "string \<Rightarrow> string" where "to_lower = map lower_char"
definition to_upper :: "string \<Rightarrow> string" where "to_upper = map upper_char"

definition trim_start :: "string \<Rightarrow> string" where "trim_start = dropWhile is_space"
definition trim_end :: "string \<Rightarrow> string" where "trim_end s = rev (dropWhile is_space (rev s))"
definition trim :: "string \<Rightarrow> string" where "trim s = trim_end (trim_start s)"

fun starts_with :: "string \<Rightarrow> string \<Rightarrow> bool" where
  "starts_with s [] = True"
| "starts_with [] (p # ps) = False"
| "starts_with (c # s) (p # ps) = (c = p \<and> starts_with s ps)"

fun str_contains :: "string \<Rightarrow> string \<Rightarrow> bool" where
  "str_contains [] p = (p = [])"
| "str_contains (c # s) p = (starts_with (c # s) p \<or> str_contains s p)"

definition strip_prefix :: "string \<Rightarrow> string \<Rightarrow> string option" where
  "strip_prefix s p = (if starts_with s p then Some (drop (length p) s) else None)"

lemma starts_with_iff_prefix: "starts_with s p \<longleftrightarrow> prefix p s"
  by (induction s p rule: starts_with.induct) auto

lemma strip_prefix_append [simp, str_simps]: "strip_prefix (p @ s) p = Some s"
  by (simp add: strip_prefix_def starts_with_iff_prefix)

lemma str_contains_iff_sublist: "str_contains s p \<longleftrightarrow> sublist p s"
proof (induction s)
  case Nil
  show ?case by simp
next
  case (Cons c s)
  have "str_contains (c # s) p \<longleftrightarrow> prefix p (c # s) \<or> sublist p s"
    by (simp only: str_contains.simps Cons starts_with_iff_prefix)
  then show ?case by (simp only: sublist_Cons_right)
qed

lemma lower_char_idem [simp, str_simps]: "lower_char (lower_char c) = lower_char c"
proof (cases "65 \<le> (of_char c :: nat) \<and> (of_char c :: nat) \<le> 90")
  case True
  then have "of_char (lower_char c) = (of_char c :: nat) + 32"
    by (simp add: lower_char_def of_char_of)
  with True show ?thesis by (simp add: lower_char_def)
next
  case False
  then have "lower_char c = c" by (simp only: lower_char_def if_False)
  then show ?thesis by simp
qed

lemma to_lower_idem [simp, str_simps]: "to_lower (to_lower s) = to_lower s"
  by (simp add: to_lower_def)

definition quoted :: "string \<Rightarrow> string" where "quoted s = [CHR 0x27] @ s @ [CHR 0x27]"

section \<open>Decimal numbers\<close>

fun show_nat :: "nat \<Rightarrow> string" where
  "show_nat n = (if n < 10 then [digit_char n] else show_nat (n div 10) @ [digit_char (n mod 10)])"

declare show_nat.simps [simp del]

definition show_int :: "int \<Rightarrow> string" where
  "show_int i = (if i < 0 then CHR ''-'' # show_nat (nat (- i)) else show_nat (nat i))"

definition digits_val :: "string \<Rightarrow> nat" where
  "digits_val s = foldl (\<lambda>a c. a * 10 + digit_val c) 0 s"

text \<open>\<^verbatim>\<open>str::parse\<close> for unsigned and signed integers: an optional sign, at least one digit,
  nothing else, and the value in range.\<close>

definition parse_digits :: "string \<Rightarrow> nat option" where
  "parse_digits s = (if s \<noteq> [] \<and> list_all is_digit s then Some (digits_val s) else None)"

definition parse_i64 :: "string \<Rightarrow> int option" where
  "parse_i64 s =
     (case s of
        [] \<Rightarrow> None
      | c # r \<Rightarrow>
          (case (if c = CHR ''-'' then map_option (\<lambda>n. - int n) (parse_digits r)
                 else if c = CHR ''+'' then map_option int (parse_digits r)
                 else map_option int (parse_digits s)) of
             None \<Rightarrow> None
           | Some i \<Rightarrow> if in_i64 i then Some i else None))"

definition parse_unsigned :: "nat \<Rightarrow> string \<Rightarrow> nat option" where
  "parse_unsigned bits s =
     (case (case s of [] \<Rightarrow> None
            | c # r \<Rightarrow> if c = CHR ''+'' then parse_digits r else parse_digits s) of
        None \<Rightarrow> None
      | Some n \<Rightarrow> if n < 2 ^ bits then Some n else None)"

lemma digit_chars:
  "digit_char 0 = CHR ''0''" "digit_char 1 = CHR ''1''" "digit_char 2 = CHR ''2''"
  "digit_char 3 = CHR ''3''" "digit_char 4 = CHR ''4''" "digit_char 5 = CHR ''5''"
  "digit_char 6 = CHR ''6''" "digit_char 7 = CHR ''7''" "digit_char 8 = CHR ''8''"
  "digit_char 9 = CHR ''9''"
  by (simp_all add: digit_char_def char_of_def bit_iff_odd)

lemma of_char_digit_char [simp]: "d < 10 \<Longrightarrow> (of_char (digit_char d) :: nat) = 48 + d"
  by (simp add: digit_char_def of_char_of)

lemma digit_val_digit_char [simp]: "d < 10 \<Longrightarrow> digit_val (digit_char d) = d"
  by (simp add: digit_val_def)

lemma is_digit_digit_char [simp]: "d < 10 \<Longrightarrow> is_digit (digit_char d)"
  by (simp add: is_digit_def)

lemma show_nat_digits: "list_all is_digit (show_nat n)"
  by (induction n rule: show_nat.induct) (subst show_nat.simps, simp)

lemma show_nat_not_Nil [simp]: "show_nat n \<noteq> []"
  by (subst show_nat.simps) simp

lemma digits_val_append [simp]: "digits_val (s @ [c]) = digits_val s * 10 + digit_val c"
  by (simp add: digits_val_def)

lemma digits_val_show_nat [simp]: "digits_val (show_nat n) = n"
proof (induction n rule: show_nat.induct)
  case (1 n)
  show ?case
  proof (cases "n < 10")
    case True
    then show ?thesis by (subst show_nat.simps) (simp add: digits_val_def)
  next
    case False
    with 1 show ?thesis by (subst show_nat.simps) simp
  qed
qed

lemma parse_digits_show_nat [simp]: "parse_digits (show_nat n) = Some n"
  by (simp add: parse_digits_def show_nat_digits)

lemma show_nat_inj: "show_nat a = show_nat b \<longleftrightarrow> a = b"
  by (metis digits_val_show_nat)

lemma sign_not_digit: "\<not> is_digit CHR ''-''" "\<not> is_digit CHR ''+''"
  by (simp_all add: is_digit_def)

lemma parse_i64_show_int: "in_i64 i \<Longrightarrow> parse_i64 (show_int i) = Some i"
proof (cases "i < 0")
  case True
  then show "in_i64 i \<Longrightarrow> ?thesis" by (simp add: parse_i64_def show_int_def)
next
  case False
  obtain c r where s: "show_nat (nat i) = c # r"
    by (cases "show_nat (nat i)") auto
  have "is_digit c" using show_nat_digits[of "nat i"] s by simp
  then have "c \<noteq> CHR ''-''" "c \<noteq> CHR ''+''" using sign_not_digit by auto
  moreover have "parse_digits (c # r) = Some (nat i)"
    using parse_digits_show_nat[of "nat i"] s by simp
  ultimately show "in_i64 i \<Longrightarrow> ?thesis"
    using False s by (simp add: parse_i64_def show_int_def)
qed

text \<open>The integers \<^verbatim>\<open>serde_json\<close> reads: between blanks of JSON, without a plus sign, a leading zero or the sign of a negative zero.\<close>

definition is_json_space :: "char \<Rightarrow> bool" where
  "is_json_space c \<longleftrightarrow> c = CHR '' '' \<or> c = CHR 0x09 \<or> c = CHR 0x0A \<or> c = CHR 0x0D"

definition json_trim :: "string \<Rightarrow> string" where
  "json_trim s = rev (dropWhile is_json_space (rev (dropWhile is_json_space s)))"

definition json_int :: "string \<Rightarrow> int option" where
  "json_int s = (let t = json_trim s in case parse_i64 t of None \<Rightarrow> None | Some v \<Rightarrow> if show_int v = t then Some v else None)"

definition json_nat :: "string \<Rightarrow> nat option" where
  "json_nat s = (let t = json_trim s in case parse_digits t of None \<Rightarrow> None | Some n \<Rightarrow> if show_nat n = t then Some n else None)"

lemma json_trim_id: "list_all (\<lambda>c. \<not> is_json_space c) s \<Longrightarrow> json_trim s = s"
proof -
  have d: "list_all (\<lambda>c. \<not> is_json_space c) t \<Longrightarrow> dropWhile is_json_space t = t" for t by (cases t) auto
  assume "list_all (\<lambda>c. \<not> is_json_space c) s"
  then show "json_trim s = s" using d[of s] d[of "rev s"] by (simp add: json_trim_def list_all_iff)
qed

lemma digits_no_space: "list_all is_digit s \<Longrightarrow> list_all (\<lambda>c. \<not> is_json_space c) s"
  by (auto simp: list_all_iff is_digit_def is_json_space_def)

lemma json_int_show [simp]: "in_i64 i \<Longrightarrow> json_int (show_int i) = Some i"
proof -
  have "list_all (\<lambda>c. \<not> is_json_space c) (show_int i)"
    using digits_no_space[OF show_nat_digits] by (auto simp: show_int_def) (simp_all add: is_json_space_def)
  then show "in_i64 i \<Longrightarrow> json_int (show_int i) = Some i"
    by (simp add: json_int_def json_trim_id parse_i64_show_int)
qed

lemma show_int_inj: "show_int a = show_int b \<Longrightarrow> a = b"
proof -
  have neg: "show_nat n \<noteq> CHR ''-'' # s" for n s
    using show_nat_digits[of n] sign_not_digit by auto
  assume e: "show_int a = show_int b"
  show "a = b"
  proof (cases "a < 0")
    case True
    then show ?thesis using e neg[of "nat b"] neg[of "nat b", symmetric]
      by (auto simp: show_int_def show_nat_inj split: if_splits)
  next
    case False
    then show ?thesis using e neg[of "nat a", symmetric] neg[of "nat a"]
      by (auto simp: show_int_def show_nat_inj split: if_splits)
  qed
qed

end
