(* ===== verification/Redis.thy ===== *)
theory Redis
  imports Prelude
begin

text \<open>
  The Redis server is a service outside the repository: its commands are a parameter
  of the model, the record \<^verbatim>\<open>redis_ops\<close>, over an opaque server state. What the code relies on
  is the predicate \<^verbatim>\<open>redis_laws\<close>: the documented effect of each command, stated on what
  a reader sees at a time (\<^verbatim>\<open>view\<close>), expiry included. Every exchange with the server may lose the request or
  the reply (\<^verbatim>\<open>link\<close>). Times are seconds. The key-value store at the end of the
  theory meets the laws and is used where a concrete run is needed.
\<close>

datatype link = Delivered | RequestLost | ReplyLost

record 'r redis_ops =
  link_op :: "'r \<Rightarrow> link \<times> 'r"
  srv_get :: "nat \<Rightarrow> string \<Rightarrow> 'r \<Rightarrow> string option"
  srv_setex :: "nat \<Rightarrow> string \<Rightarrow> nat \<Rightarrow> string \<Rightarrow> 'r \<Rightarrow> 'r option"
  srv_set_nx_ex :: "nat \<Rightarrow> string \<Rightarrow> string \<Rightarrow> nat \<Rightarrow> 'r \<Rightarrow> (bool \<times> 'r) option"
  srv_del :: "nat \<Rightarrow> string \<Rightarrow> 'r \<Rightarrow> bool \<times> 'r"
  srv_incr :: "nat \<Rightarrow> string \<Rightarrow> 'r \<Rightarrow> (nat \<times> 'r) option"
  srv_expire :: "nat \<Rightarrow> string \<Rightarrow> nat \<Rightarrow> 'r \<Rightarrow> 'r"

type_synonym 'r redis_view = "'r \<Rightarrow> nat \<Rightarrow> string \<Rightarrow> string option"

text \<open>
  One exchange: the server runs \<^verbatim>\<open>f\<close> unless the request is lost, and the caller gets the
  answer only when the reply arrives. \<^verbatim>\<open>f\<close> answers \<^const>\<open>None\<close> for a command error.
\<close>

definition exchange :: "'r redis_ops \<Rightarrow> ('r \<Rightarrow> 'a option \<times> 'r) \<Rightarrow> 'r \<Rightarrow> 'a option \<times> 'r" where
  "exchange ops f r =
     (case link_op ops r of
        (Delivered, r') \<Rightarrow> f r'
      | (RequestLost, r') \<Rightarrow> (None, r')
      | (ReplyLost, r') \<Rightarrow> (None, snd (f r')))"

definition cmd_get :: "'r redis_ops \<Rightarrow> nat \<Rightarrow> string \<Rightarrow> 'r \<Rightarrow> string option option \<times> 'r" where
  "cmd_get ops now k = exchange ops (\<lambda>r. (Some (srv_get ops now k r), r))"

definition cmd_setex :: "'r redis_ops \<Rightarrow> nat \<Rightarrow> string \<Rightarrow> nat \<Rightarrow> string \<Rightarrow> 'r \<Rightarrow> unit option \<times> 'r" where
  "cmd_setex ops now k ttl v = exchange ops (\<lambda>r.
     case srv_setex ops now k ttl v r of None \<Rightarrow> (None, r) | Some r' \<Rightarrow> (Some (), r'))"

definition cmd_set_nx_ex :: "'r redis_ops \<Rightarrow> nat \<Rightarrow> string \<Rightarrow> string \<Rightarrow> nat \<Rightarrow> 'r \<Rightarrow> bool option \<times> 'r" where
  "cmd_set_nx_ex ops now k v ttl = exchange ops (\<lambda>r.
     case srv_set_nx_ex ops now k v ttl r of None \<Rightarrow> (None, r) | Some (b, r') \<Rightarrow> (Some b, r'))"

fun srv_del_all :: "'r redis_ops \<Rightarrow> nat \<Rightarrow> string list \<Rightarrow> 'r \<Rightarrow> 'r" where
  "srv_del_all ops now [] r = r"
| "srv_del_all ops now (k # ks) r = srv_del_all ops now ks (snd (srv_del ops now k r))"

definition cmd_del :: "'r redis_ops \<Rightarrow> nat \<Rightarrow> string list \<Rightarrow> 'r \<Rightarrow> unit option \<times> 'r" where
  "cmd_del ops now ks = exchange ops (\<lambda>r. (Some (), srv_del_all ops now ks r))"

definition cmd_exists :: "'r redis_ops \<Rightarrow> nat \<Rightarrow> string \<Rightarrow> 'r \<Rightarrow> nat option \<times> 'r" where
  "cmd_exists ops now k = exchange ops (\<lambda>r.
     (Some (if srv_get ops now k r = None then 0 else 1), r))"

section \<open>The documented effects\<close>

definition law_link :: "'r redis_ops \<Rightarrow> 'r redis_view \<Rightarrow> bool" where
  "law_link ops view \<longleftrightarrow>
     (\<forall>r. view (snd (link_op ops r)) = view r) \<and>
     (\<forall>r t t' k v. t \<le> t' \<longrightarrow> view r t' k = Some v \<longrightarrow> view r t k = Some v)"

definition law_setex :: "'r redis_ops \<Rightarrow> 'r redis_view \<Rightarrow> bool" where
  "law_setex ops view \<longleftrightarrow>
     (\<forall>now k ttl v r. case srv_setex ops now k ttl v r of
        None \<Rightarrow> ttl = 0
      | Some r' \<Rightarrow> \<forall>t k'. now \<le> t \<longrightarrow>
          view r' t k' = (if k' = k then if t < now + ttl then Some v else None else view r t k'))"

definition law_set_nx :: "'r redis_ops \<Rightarrow> 'r redis_view \<Rightarrow> bool" where
  "law_set_nx ops view \<longleftrightarrow>
     (\<forall>now k ttl v r. case srv_set_nx_ex ops now k v ttl r of
        None \<Rightarrow> ttl = 0
      | Some (b, r') \<Rightarrow> b = (view r now k = None) \<and>
          (\<forall>t k'. now \<le> t \<longrightarrow> view r' t k' =
             (if b \<and> k' = k then if t < now + ttl then Some v else None else view r t k')))"

definition law_del :: "'r redis_ops \<Rightarrow> 'r redis_view \<Rightarrow> bool" where
  "law_del ops view \<longleftrightarrow>
     (\<forall>now k r. fst (srv_del ops now k r) = (view r now k \<noteq> None) \<and>
        (\<forall>t k'. now \<le> t \<longrightarrow> view (snd (srv_del ops now k r)) t k' = (if k' = k then None else view r t k')))"

definition law_incr :: "'r redis_ops \<Rightarrow> 'r redis_view \<Rightarrow> bool" where
  "law_incr ops view \<longleftrightarrow>
     (\<forall>now k r n. view r now k = None \<and> n = 0 \<or> view r now k = Some (show_nat n) \<longrightarrow>
        (\<exists>r'. srv_incr ops now k r = Some (n + 1, r') \<and>
          (\<forall>t k'. now \<le> t \<longrightarrow> view r' t k' =
             (if k' = k
              then if view r now k = None then Some (show_nat 1)
                   else map_option (\<lambda>_. show_nat (n + 1)) (view r t k)
              else view r t k'))))"

definition law_expire :: "'r redis_ops \<Rightarrow> 'r redis_view \<Rightarrow> bool" where
  "law_expire ops view \<longleftrightarrow>
     (\<forall>now k ttl r t k'. now \<le> t \<longrightarrow> 0 < ttl \<longrightarrow> view (srv_expire ops now k ttl r) t k' =
        (if k' = k then if t < now + ttl then view r now k else None else view r t k'))"

definition redis_laws :: "'r redis_ops \<Rightarrow> 'r redis_view \<Rightarrow> bool" where
  "redis_laws ops view \<longleftrightarrow>
     law_link ops view \<and> (\<forall>now k r. srv_get ops now k r = view r now k) \<and> law_setex ops view \<and>
     law_set_nx ops view \<and> law_del ops view \<and> law_incr ops view \<and> law_expire ops view"

lemma redis_lawsD:
  assumes "redis_laws ops view"
  shows "law_link ops view" "srv_get ops now k r = view r now k" "law_setex ops view"
    "law_set_nx ops view" "law_del ops view" "law_incr ops view" "law_expire ops view"
  using assms by (simp_all add: redis_laws_def)

lemmas law_linkD = redis_lawsD(1)[unfolded law_link_def]
lemmas law_setexD = redis_lawsD(3)[unfolded law_setex_def, rule_format]
lemmas law_set_nxD = redis_lawsD(4)[unfolded law_set_nx_def, rule_format]

lemma redis_link: "redis_laws ops view \<Longrightarrow> view (snd (link_op ops r)) = view r"
  by (drule law_linkD) simp

lemma redis_alive: "redis_laws ops view \<Longrightarrow> t \<le> t' \<Longrightarrow> view r t' k = Some v \<Longrightarrow> view r t k = Some v"
  by (drule law_linkD) simp

lemma redis_expired: "redis_laws ops view \<Longrightarrow> t \<le> t' \<Longrightarrow> view r t k = None \<Longrightarrow> view r t' k = None"
  using redis_alive[of ops view t t' r k] by (cases "view r t' k") auto

lemma redis_get: "redis_laws ops view \<Longrightarrow> srv_get ops now k r = view r now k"
  by (rule redis_lawsD)

lemma redis_setex_None: "redis_laws ops view \<Longrightarrow> srv_setex ops now k ttl v r = None \<Longrightarrow> ttl = 0"
  using law_setexD[where ops = ops and view = view and now = now and k = k and ttl = ttl and v = v and r = r] by simp

lemma redis_setex:
  assumes "redis_laws ops view" "srv_setex ops now k ttl v r = Some r'" "now \<le> t"
  shows "view r' t k' = (if k' = k then if t < now + ttl then Some v else None else view r t k')"
  using law_setexD[OF assms(1), where now = now and k = k and ttl = ttl and v = v and r = r] assms(2,3) by simp

lemma redis_set_nx_None: "redis_laws ops view \<Longrightarrow> srv_set_nx_ex ops now k v ttl r = None \<Longrightarrow> ttl = 0"
  using law_set_nxD[where ops = ops and view = view and now = now and k = k and ttl = ttl and v = v and r = r] by simp

lemma redis_set_nx:
  assumes "redis_laws ops view" "srv_set_nx_ex ops now k v ttl r = Some (b, r')"
  shows "b = (view r now k = None)"
    and "now \<le> t \<Longrightarrow> view r' t k' =
       (if b \<and> k' = k then if t < now + ttl then Some v else None else view r t k')"
  using law_set_nxD[OF assms(1), where now = now and k = k and ttl = ttl and v = v and r = r] assms(2) by simp_all

lemma redis_del: "redis_laws ops view \<Longrightarrow> fst (srv_del ops now k r) = (view r now k \<noteq> None)"
  by (simp add: redis_laws_def law_del_def)

lemma redis_del_view: "redis_laws ops view \<Longrightarrow> now \<le> t \<Longrightarrow>
    view (snd (srv_del ops now k r)) t k' = (if k' = k then None else view r t k')"
  by (simp add: redis_laws_def law_del_def)

lemma redis_del_all_view: "redis_laws ops view \<Longrightarrow> now \<le> t \<Longrightarrow>
    view (srv_del_all ops now ks r) t k' = (if k' \<in> set ks then None else view r t k')"
  by (induction ks arbitrary: r) (simp_all add: redis_del_view)

lemma redis_incr:
  assumes "redis_laws ops view" "view r now k = None \<and> n = 0 \<or> view r now k = Some (show_nat n)"
  obtains r' where "srv_incr ops now k r = Some (n + 1, r')"
    "\<And>t k'. now \<le> t \<Longrightarrow> view r' t k' =
             (if k' = k
              then if view r now k = None then Some (show_nat 1)
                   else map_option (\<lambda>_. show_nat (n + 1)) (view r t k)
              else view r t k')"
proof -
  have "law_incr ops view" using assms(1) by (simp add: redis_laws_def)
  then have "\<exists>r'. srv_incr ops now k r = Some (n + 1, r') \<and>
          (\<forall>t k'. now \<le> t \<longrightarrow> view r' t k' =
             (if k' = k
              then if view r now k = None then Some (show_nat 1)
                   else map_option (\<lambda>_. show_nat (n + 1)) (view r t k)
              else view r t k'))"
    using assms(2) unfolding law_incr_def by blast
  then show thesis using that by blast
qed

lemma redis_expire: "redis_laws ops view \<Longrightarrow> now \<le> t \<Longrightarrow> 0 < ttl \<Longrightarrow>
    view (srv_expire ops now k ttl r) t k' =
      (if k' = k then if t < now + ttl then view r now k else None else view r t k')"
  by (simp add: redis_laws_def law_expire_def)

section \<open>What a command leaves\<close>

text \<open>Every exchange acts on a state with the same view, and either answers with what the server
  computed or fails, having run or not.\<close>

lemma exchange_Some:
  assumes "redis_laws ops view" "exchange ops f r = (Some x, r')"
  obtains r0 where "view r0 = view r" "f r0 = (Some x, r')"
  using assms(2) redis_link[OF assms(1), of r] that
  by (cases "link_op ops r") (auto simp: exchange_def split: link.splits)

lemma exchange_state:
  assumes "redis_laws ops view"
  obtains r0 where "view r0 = view r" "snd (exchange ops f r) = r0 \<or> snd (exchange ops f r) = snd (f r0)"
  using redis_link[OF assms, of r] that
  by (cases "link_op ops r") (auto simp: exchange_def split: link.splits)

lemma cmd_get_result:
  assumes "redis_laws ops view" "cmd_get ops now k r = (Some x, r')"
  shows "x = view r now k" and "view r' = view r"
  using exchange_Some[OF assms(1) assms(2)[unfolded cmd_get_def]]
  by (auto simp: redis_get[OF assms(1)])

lemma exchange_read:
  assumes "redis_laws ops view" "\<And>r. snd (f r) = r"
  shows "view (snd (exchange ops f r)) = view r"
  using redis_link[OF assms(1), of r] assms(2)
  by (cases "link_op ops r") (auto simp: exchange_def split: link.splits)

lemma cmd_get_view: "redis_laws ops view \<Longrightarrow> view (snd (cmd_get ops now k r)) = view r"
  unfolding cmd_get_def by (rule exchange_read) simp_all

lemma cmd_exists_view: "redis_laws ops view \<Longrightarrow> view (snd (cmd_exists ops now k r)) = view r"
  unfolding cmd_exists_def by (rule exchange_read) simp_all

lemma cmd_exists_result:
  assumes "redis_laws ops view" "cmd_exists ops now k r = (Some n, r')"
  shows "0 < n \<longleftrightarrow> view r now k \<noteq> None" and "view r' = view r"
proof -
  obtain r0 where v: "view r0 = view r"
    and f: "(Some (if srv_get ops now k r0 = None then 0 else 1), r0) = (Some n, r')"
    by (rule exchange_Some[OF assms(1) assms(2)[unfolded cmd_exists_def]])
  from f have "n = (if srv_get ops now k r0 = None then 0 else 1)" "r0 = r'" by auto
  with v show "0 < n \<longleftrightarrow> view r now k \<noteq> None" and "view r' = view r"
    by (simp_all add: redis_get[OF assms(1)])
qed

lemma cmd_setex_result:
  assumes "redis_laws ops view" "cmd_setex ops now k ttl v r = (Some u, r')" "now \<le> t"
  shows "view r' t k' = (if k' = k then if t < now + ttl then Some v else None else view r t k')"
proof -
  obtain r0 where v: "view r0 = view r"
    and "(case srv_setex ops now k ttl v r0 of None \<Rightarrow> (None, r0) | Some r' \<Rightarrow> (Some (), r')) = (Some u, r')"
    by (rule exchange_Some[OF assms(1) assms(2)[unfolded cmd_setex_def]])
  then have f: "srv_setex ops now k ttl v r0 = Some r'" by (auto split: option.splits)
  with v show ?thesis using redis_setex[OF assms(1) f assms(3)] by simp
qed

lemma cmd_setex_other:
  assumes "redis_laws ops view" "now \<le> t" "k' \<noteq> k"
  shows "view (snd (cmd_setex ops now k ttl v r)) t k' = view r t k'"
proof -
  let ?f = "\<lambda>r. case srv_setex ops now k ttl v r of None \<Rightarrow> (None, r) | Some r' \<Rightarrow> (Some (), r')"
  obtain r0 where v: "view r0 = view r"
    and s: "snd (exchange ops ?f r) = r0 \<or> snd (exchange ops ?f r) = snd (?f r0)"
    by (rule exchange_state[OF assms(1)])
  have "view (snd (?f r0)) t k' = view r t k'"
    using redis_setex[OF assms(1) _ assms(2)] assms(3) v by (auto split: option.splits)
  with v s show ?thesis unfolding cmd_setex_def by auto
qed

lemma cmd_del_result:
  assumes "redis_laws ops view" "cmd_del ops now ks r = (Some u, r')" "now \<le> t"
  shows "view r' t k' = (if k' \<in> set ks then None else view r t k')"
proof -
  obtain r0 where v: "view r0 = view r" and "(Some (), srv_del_all ops now ks r0) = (Some u, r')"
    by (rule exchange_Some[OF assms(1) assms(2)[unfolded cmd_del_def]])
  then have f: "r' = srv_del_all ops now ks r0" by simp
  show ?thesis unfolding f using redis_del_all_view[OF assms(1,3)] v by simp
qed

lemma cmd_del_other:
  assumes "redis_laws ops view" "now \<le> t" "k' \<notin> set ks"
  shows "view (snd (cmd_del ops now ks r)) t k' = view r t k'"
proof -
  let ?f = "\<lambda>r. (Some (), srv_del_all ops now ks r)"
  obtain r0 where v: "view r0 = view r"
    and s: "snd (exchange ops ?f r) = r0 \<or> snd (exchange ops ?f r) = snd (?f r0)"
    by (rule exchange_state[OF assms(1)])
  have "view (snd (?f r0)) t k' = view r t k'"
    using redis_del_all_view[OF assms(1,2), of ks r0 k'] assms(3) v by simp
  with v s show ?thesis unfolding cmd_del_def by auto
qed

lemma cmd_set_nx_result:
  assumes "redis_laws ops view" "cmd_set_nx_ex ops now k v ttl r = (Some b, r')"
  shows "b = (view r now k = None)"
    and "now \<le> t \<Longrightarrow> view r' t k' =
       (if b \<and> k' = k then if t < now + ttl then Some v else None else view r t k')"
proof -
  obtain r0 where v: "view r0 = view r"
    and "(case srv_set_nx_ex ops now k v ttl r0 of None \<Rightarrow> (None, r0) | Some (b, r') \<Rightarrow> (Some b, r')) = (Some b, r')"
    by (rule exchange_Some[OF assms(1) assms(2)[unfolded cmd_set_nx_ex_def]])
  then have f: "srv_set_nx_ex ops now k v ttl r0 = Some (b, r')" by (auto split: option.splits)
  show "b = (view r now k = None)" using redis_set_nx(1)[OF assms(1) f] v by simp
  show "now \<le> t \<Longrightarrow> view r' t k' =
       (if b \<and> k' = k then if t < now + ttl then Some v else None else view r t k')"
    using redis_set_nx(2)[OF assms(1) f] v by simp
qed

lemma cmd_set_nx_held:
  assumes "redis_laws ops view" "view r now k \<noteq> None" "now \<le> t"
  shows "view (snd (cmd_set_nx_ex ops now k v ttl r)) t k' = view r t k'"
proof -
  let ?f = "\<lambda>r. case srv_set_nx_ex ops now k v ttl r of None \<Rightarrow> (None, r) | Some (b, r') \<Rightarrow> (Some b, r')"
  obtain r0 where v: "view r0 = view r"
    and s: "snd (exchange ops ?f r) = r0 \<or> snd (exchange ops ?f r) = snd (?f r0)"
    by (rule exchange_state[OF assms(1)])
  have "view (snd (?f r0)) t k' = view r t k'"
  proof (cases "srv_set_nx_ex ops now k v ttl r0")
    case None
    with v show ?thesis by simp
  next
    case (Some p)
    obtain b r1 where p: "p = (b, r1)" by (cases p)
    have "\<not> b" using redis_set_nx(1)[OF assms(1) Some[unfolded p]] assms(2) v by simp
    then show ?thesis using redis_set_nx(2)[OF assms(1) Some[unfolded p] assms(3)] v Some p by simp
  qed
  with v s show ?thesis unfolding cmd_set_nx_ex_def by auto
qed

section \<open>A key-value store that meets the laws\<close>

text \<open>Each key has a value and an optional deadline; the link delivers everything.\<close>

type_synonym kv = "string \<Rightarrow> (string \<times> nat option) option"

definition kv_view :: "kv redis_view" where
  "kv_view r t k =
     (case r k of None \<Rightarrow> None
      | Some (v, d) \<Rightarrow> (case d of None \<Rightarrow> Some v | Some e \<Rightarrow> if t < e then Some v else None))"

definition kv_ops :: "kv redis_ops" where
  "kv_ops = \<lparr>
     link_op = (\<lambda>r. (Delivered, r)),
     srv_get = (\<lambda>now k r. kv_view r now k),
     srv_setex = (\<lambda>now k ttl v r. if ttl = 0 then None else Some (r(k \<mapsto> (v, Some (now + ttl))))),
     srv_set_nx_ex = (\<lambda>now k v ttl r.
        if ttl = 0 then None
        else if kv_view r now k = None then Some (True, r(k \<mapsto> (v, Some (now + ttl)))) else Some (False, r)),
     srv_del = (\<lambda>now k r. (kv_view r now k \<noteq> None, r(k := None))),
     srv_incr = (\<lambda>now k r.
        case kv_view r now k of
          None \<Rightarrow> Some (1, r(k \<mapsto> (show_nat 1, None)))
        | Some s \<Rightarrow> (case parse_digits s of None \<Rightarrow> None
                    | Some n \<Rightarrow> Some (n + 1, r(k \<mapsto> (show_nat (n + 1), snd (the (r k))))))),
     srv_expire = (\<lambda>now k ttl r.
        case kv_view r now k of None \<Rightarrow> r(k := None) | Some v \<Rightarrow> r(k \<mapsto> (v, Some (now + ttl)))) \<rparr>"

lemma kv_laws: "redis_laws kv_ops kv_view"
  unfolding redis_laws_def
proof (intro conjI allI)
  show "law_link kv_ops kv_view"
    by (auto simp: law_link_def kv_ops_def kv_view_def split: option.splits if_splits)
  show "srv_get kv_ops now k r = kv_view r now k" for now k r
    by (simp add: kv_ops_def)
  show "law_setex kv_ops kv_view"
    by (auto simp: law_setex_def kv_ops_def kv_view_def)
  show "law_set_nx kv_ops kv_view"
    by (auto simp: law_set_nx_def kv_ops_def kv_view_def)
  show "law_del kv_ops kv_view"
    by (simp add: law_del_def kv_ops_def kv_view_def)
  show "law_incr kv_ops kv_view"
    unfolding law_incr_def
    by (auto simp: kv_ops_def kv_view_def split: option.splits if_splits prod.splits)
  show "law_expire kv_ops kv_view"
    by (auto simp: law_expire_def kv_ops_def kv_view_def split: option.splits if_splits)
qed

end
