(* ===== verification/Lock.thy ===== *)
theory Lock
  imports Redis
begin

text \<open>
  \<^verbatim>\<open>server/src/services/lock.rs\<close>: the Redis lock with its retry loop, the release by the
  ownership script, and the guard that releases on drop. The state an operation threads is the
  time and the server state. \<^verbatim>\<open>sleep\<close> is what passes during one retry delay: time, and
  the commands of every other client.
\<close>

type_synonym 'r world = "nat \<times> 'r"

datatype lock_error = RedisNotAvailable | LockRedisError string

text \<open>\<^verbatim>\<open>get_connection_manager\<close>: one exchange that changes nothing on the server.\<close>

definition connect :: "'r redis_ops \<Rightarrow> string \<Rightarrow> ('r world, lock_error, unit) prog" where
  "connect ops ctx w =
     (case exchange ops (\<lambda>r. (Some (), r)) (snd w) of
        (None, r') \<Rightarrow> (Inl (LockRedisError ctx), (fst w, r'))
      | (Some _, r') \<Rightarrow> (Inr (), (fst w, r')))"

text \<open>\<^verbatim>\<open>SAFE_RELEASE_SCRIPT\<close>, run by the server as one step.\<close>

definition safe_release_script :: "'r redis_ops \<Rightarrow> nat \<Rightarrow> string \<Rightarrow> string \<Rightarrow> 'r \<Rightarrow> nat \<times> 'r" where
  "safe_release_script ops now key v r =
     (if srv_get ops now key r = Some v
      then (case srv_del ops now key r of (b, r') \<Rightarrow> (if b then 1 else 0, r'))
      else (0, r))"

fun try_acquire_with_retry ::
    "'r redis_ops \<Rightarrow> ('r world \<Rightarrow> 'r world) \<Rightarrow> string \<Rightarrow> string \<Rightarrow> nat \<Rightarrow> nat \<Rightarrow> ('r world, lock_error, bool) prog" where
  "try_acquire_with_retry ops sleep key v expiry 0 w = (Inr False, w)"
| "try_acquire_with_retry ops sleep key v expiry (Suc left) w =
     (case cmd_set_nx_ex ops (fst w) key v expiry (snd w) of
        (None, r') \<Rightarrow> (Inl (LockRedisError ''Failed to execute SET NX EX command''), (fst w, r'))
      | (Some True, r') \<Rightarrow> (Inr True, (fst w, r'))
      | (Some False, r') \<Rightarrow>
          try_acquire_with_retry ops sleep key v expiry left
            (if 0 < left then sleep (fst w, r') else (fst w, r')))"

definition acquire_lock_with_client ::
    "'r redis_ops \<Rightarrow> ('r world \<Rightarrow> 'r world) \<Rightarrow> string \<Rightarrow> string \<Rightarrow> nat \<Rightarrow> nat \<Rightarrow>
      ('r world, lock_error, bool \<times> string) prog" where
  "acquire_lock_with_client ops sleep uuid key expiry max_retries =
     bindS (connect ops ''Failed to get async Redis connection'') (\<lambda>_.
     bindS (try_acquire_with_retry ops sleep key uuid expiry max_retries) (\<lambda>acquired.
     retS (acquired, uuid)))"

definition acquire_lock ::
    "'r redis_ops option \<Rightarrow> ('r world \<Rightarrow> 'r world) \<Rightarrow> string \<Rightarrow> string \<Rightarrow> nat \<Rightarrow> nat \<Rightarrow>
      ('r world, lock_error, bool \<times> string) prog" where
  "acquire_lock client sleep uuid key expiry max_retries =
     (case client of
        None \<Rightarrow> raiseS RedisNotAvailable
      | Some ops \<Rightarrow>
          bindS (connect ops ''Failed to get async Redis connection'') (\<lambda>_.
          bindS (try_acquire_with_retry ops sleep key uuid expiry max_retries) (\<lambda>acquired.
          retS (acquired, uuid))))"

definition release_lock_with_client ::
    "'r redis_ops \<Rightarrow> string \<Rightarrow> string \<Rightarrow> ('r world, lock_error, unit) prog" where
  "release_lock_with_client ops key v =
     bindS (connect ops ''Failed to get async Redis connection'') (\<lambda>_ w.
       case exchange ops (\<lambda>r. case safe_release_script ops (fst w) key v r of (n, r') \<Rightarrow> (Some n, r')) (snd w) of
         (None, r') \<Rightarrow> (Inl (LockRedisError ''Failed to execute safe release script''), (fst w, r'))
       | (Some deleted, r') \<Rightarrow> (Inr (), (fst w, r')))"

definition release_lock ::
    "'r redis_ops option \<Rightarrow> string \<Rightarrow> string \<Rightarrow> ('r world, lock_error, unit) prog" where
  "release_lock client key v =
     (case client of
        None \<Rightarrow> raiseS RedisNotAvailable
      | Some ops \<Rightarrow>
          bindS (connect ops ''Failed to get async Redis connection'') (\<lambda>_ w.
            case exchange ops (\<lambda>r. case safe_release_script ops (fst w) key v r of (n, r') \<Rightarrow> (Some n, r')) (snd w) of
              (None, r') \<Rightarrow> (Inl (LockRedisError ''Failed to execute safe release script''), (fst w, r'))
            | (Some deleted, r') \<Rightarrow> (Inr (), (fst w, r'))))"

section \<open>The guard\<close>

record 'r lock_guard =
  lg_client :: "'r redis_ops option"
  lg_lock_key :: string
  lg_lock_value :: string

datatype 'r acquire_result = Acquired "'r lock_guard" | Contended

definition new_guard :: "'r redis_ops option \<Rightarrow> string \<Rightarrow> string \<Rightarrow> 'r lock_guard" where
  "new_guard client key v = \<lparr>lg_client = client, lg_lock_key = key, lg_lock_value = v\<rparr>"

definition guard_acquire ::
    "'r redis_ops option \<Rightarrow> ('r world \<Rightarrow> 'r world) \<Rightarrow> string \<Rightarrow> string \<Rightarrow> nat \<Rightarrow> nat \<Rightarrow>
      ('r world, lock_error, 'r acquire_result option) prog" where
  "guard_acquire client sleep uuid key expiry max_retries =
     (if client = None then retS None
      else bindS (acquire_lock client sleep uuid key expiry max_retries) (\<lambda>(acquired, v).
             if acquired then retS (Some (Acquired (new_guard client key v)))
             else retS (Some Contended)))"

definition guard_acquire_with_client ::
    "'r redis_ops option \<Rightarrow> ('r world \<Rightarrow> 'r world) \<Rightarrow> string \<Rightarrow> string \<Rightarrow> nat \<Rightarrow> nat \<Rightarrow>
      ('r world, lock_error, 'r acquire_result option) prog" where
  "guard_acquire_with_client client sleep uuid key expiry max_retries =
     (case client of
        None \<Rightarrow> retS None
      | Some c \<Rightarrow>
          bindS (acquire_lock_with_client c sleep uuid key expiry max_retries) (\<lambda>(acquired, v).
            if acquired then retS (Some (Acquired (new_guard (Some c) key v)))
            else retS (Some Contended)))"

text \<open>
  \<^verbatim>\<open>Drop\<close>: \<^verbatim>\<open>runtime\<close> says whether a tokio runtime is there to run the release, which
  is spawned and its error only logged. The guard value that is left is empty.
\<close>

definition guard_drop :: "bool \<Rightarrow> 'r lock_guard \<Rightarrow> 'r world \<Rightarrow> 'r world" where
  "guard_drop runtime g w =
     (case lg_client g of
        None \<Rightarrow> w
      | Some c \<Rightarrow>
          if lg_lock_key g \<noteq> [] \<and> runtime
          then snd (release_lock (Some c) (lg_lock_key g) (lg_lock_value g) w) else w)"

text \<open>\<^verbatim>\<open>release\<close> consumes the guard: its fields are taken, restored on failure, and the guard is
  dropped at the end of the call in either case.\<close>

definition guard_release :: "bool \<Rightarrow> 'r lock_guard \<Rightarrow> ('r world, lock_error, unit) prog" where
  "guard_release runtime g w =
     (let taken = \<lparr>lg_client = None, lg_lock_key = [], lg_lock_value = []\<rparr> in
      case release_lock (lg_client g) (lg_lock_key g) (lg_lock_value g) w of
        (Inr _, w') \<Rightarrow> (Inr (), guard_drop runtime taken w')
      | (Inl e, w') \<Rightarrow> (Inl e, guard_drop runtime g w'))"

section \<open>Lemmas\<close>

text \<open>The lock is held: a reader sees the owner's value until the deadline.\<close>

definition lock_held :: "'r redis_view \<Rightarrow> string \<Rightarrow> string \<Rightarrow> nat \<Rightarrow> 'r world \<Rightarrow> bool" where
  "lock_held view key v deadline w \<longleftrightarrow> (\<forall>t. fst w \<le> t \<longrightarrow> t < deadline \<longrightarrow> view (snd w) t key = Some v)"

lemma connect_view:
  assumes "redis_laws ops view" "connect ops ctx w = (x, w')"
  shows "fst w' = fst w" "view (snd w') = view (snd w)"
  using exchange_read[OF assms(1), of "\<lambda>r. (Some (), r)" "snd w"] assms(2)
  by (auto simp: connect_def split: prod.splits option.splits)

lemma release_lock_unfold:
  "release_lock (Some ops) key v = release_lock_with_client ops key v"
  by (simp add: release_lock_def release_lock_with_client_def)

lemma script_view:
  assumes "redis_laws ops view" "now \<le> t"
  shows "view (snd (safe_release_script ops now key v r)) t k =
    (if k = key \<and> view r now key = Some v then None else view r t k)"
  using redis_del_view[OF assms, of key r k]
  by (auto simp: safe_release_script_def redis_get[OF assms(1)] split: prod.splits)

lemma release_lock_view:
  assumes "redis_laws ops view" "release_lock (Some ops) key v w = (x, w')"
  shows "fst w' = fst w"
    and "fst w \<le> t \<Longrightarrow> view (snd w) (fst w) key \<noteq> Some v \<Longrightarrow> view (snd w') t k = view (snd w) t k"
    and "fst w \<le> t \<Longrightarrow> k \<noteq> key \<Longrightarrow> view (snd w') t k = view (snd w) t k"
    and "x = Inr () \<Longrightarrow> fst w \<le> t \<Longrightarrow> view (snd w') t k =
      (if k = key \<and> view (snd w) (fst w) key = Some v then None else view (snd w) t k)"
proof -
  let ?s = "\<lambda>now r. case safe_release_script ops now key v r of (n, r') \<Rightarrow> (Some n, r')"
  have s: "snd (?s now r) = snd (safe_release_script ops now key v r)" for now r
    by (simp split: prod.splits)
  obtain y w1 where c: "connect ops ''Failed to get async Redis connection'' w = (y, w1)"
    by (cases "connect ops ''Failed to get async Redis connection'' w")
  note cv = connect_view[OF assms(1) c]
  obtain r0 where v0: "view r0 = view (snd w1)"
    and st: "snd (exchange ops (?s (fst w1)) (snd w1)) = r0
      \<or> snd (exchange ops (?s (fst w1)) (snd w1)) = snd (?s (fst w1) r0)"
    by (rule exchange_state[OF assms(1)])
  have w': "fst w' = fst w \<and> (snd w' = snd w1 \<or> snd w' = snd (exchange ops (?s (fst w1)) (snd w1)))"
    using assms(2) c cv(1)
    by (auto simp: release_lock_def bindS_def split: sum.splits prod.splits option.splits)
  show "fst w' = fst w" using w' by simp
  have sv: "view (snd w') t k = view (snd w) t k \<or>
      (k = key \<and> view (snd w) (fst w) key = Some v)" if "fst w \<le> t" for t k
    using w' st v0 cv that script_view[OF assms(1) that, of key v r0 k]
    by (auto simp: s split: if_splits)
  show "fst w \<le> t \<Longrightarrow> view (snd w) (fst w) key \<noteq> Some v \<Longrightarrow> view (snd w') t k = view (snd w) t k"
    using sv by blast
  show "fst w \<le> t \<Longrightarrow> k \<noteq> key \<Longrightarrow> view (snd w') t k = view (snd w) t k"
    using sv by blast
  assume x: "x = Inr ()" and t: "fst w \<le> t"
  obtain n where "exchange ops (?s (fst w1)) (snd w1) = (Some n, snd w')"
    using assms(2) c x by (auto simp: release_lock_def bindS_def split: sum.splits prod.splits option.splits)
  then obtain r1 where v1: "view r1 = view (snd w1)" and f: "?s (fst w1) r1 = (Some n, snd w')"
    by (rule exchange_Some[OF assms(1)])
  from f have "snd w' = snd (safe_release_script ops (fst w) key v r1)"
    using cv(1) s[of "fst w" r1] by simp
  then show "view (snd w') t k =
      (if k = key \<and> view (snd w) (fst w) key = Some v then None else view (snd w) t k)"
    using script_view[OF assms(1) t, of key v r1 k] v1 cv(2) by simp
qed

lemma try_acquire_held:
  assumes "redis_laws ops view"
    and "try_acquire_with_retry ops sleep key v expiry n w = (Inr True, w')"
  shows "lock_held view key v (fst w' + expiry) w'"
  using assms(2)
proof (induction n arbitrary: w)
  case 0
  then show ?case by simp
next
  case (Suc n)
  show ?case
  proof (cases "cmd_set_nx_ex ops (fst w) key v expiry (snd w)")
    case (Pair b r1)
    show ?thesis
    proof (cases "b = Some True")
      case True
      with Suc.prems Pair have w': "w' = (fst w, r1)" by simp
      show ?thesis
        using cmd_set_nx_result(2)[OF assms(1) Pair[unfolded True], of _ key]
        unfolding w' lock_held_def by simp
    next
      case False
      with Suc.prems Pair
      have "try_acquire_with_retry ops sleep key v expiry n
          (if 0 < n then sleep (fst w, r1) else (fst w, r1)) = (Inr True, w')"
        by (simp split: option.splits bool.splits split del: if_split)
      then show ?thesis by (rule Suc.IH)
    qed
  qed
qed

text \<open>What other clients do with the same lock key: single attempts and releases, each at its time.\<close>

datatype lock_cmd = TryLock string nat | Unlock string

definition lock_cmd_value :: "lock_cmd \<Rightarrow> string" where
  "lock_cmd_value c = (case c of TryLock v _ \<Rightarrow> v | Unlock v \<Rightarrow> v)"

definition run_lock_cmd :: "'r redis_ops \<Rightarrow> string \<Rightarrow> nat \<times> lock_cmd \<Rightarrow> 'r \<Rightarrow> bool \<times> 'r" where
  "run_lock_cmd ops key tc r =
     (case snd tc of
        TryLock v expiry \<Rightarrow>
          (case acquire_lock (Some ops) id v key expiry 1 (fst tc, r) of
             (x, w) \<Rightarrow> (x = Inr (True, v), snd w))
      | Unlock v \<Rightarrow> (False, snd (snd (release_lock (Some ops) key v (fst tc, r)))))"

fun run_lock_cmds :: "'r redis_ops \<Rightarrow> string \<Rightarrow> (nat \<times> lock_cmd) list \<Rightarrow> 'r \<Rightarrow> bool list \<times> 'r" where
  "run_lock_cmds ops key [] r = ([], r)"
| "run_lock_cmds ops key (tc # tcs) r =
     (case run_lock_cmd ops key tc r of (b, r1) \<Rightarrow>
      case run_lock_cmds ops key tcs r1 of (bs, r2) \<Rightarrow> (b # bs, r2))"

lemma acquire_lock_once_held:
  assumes "redis_laws ops view" "view r now key = Some u"
    and "acquire_lock (Some ops) sleep v key expiry 1 (now, r) = (x, w)"
  shows "x \<noteq> Inr (True, v)" and "now \<le> t \<Longrightarrow> view (snd w) t k = view r t k"
proof -
  obtain y w1 where c: "connect ops ''Failed to get async Redis connection'' (now, r) = (y, w1)"
    by (cases "connect ops ''Failed to get async Redis connection'' (now, r)")
  note cv = connect_view[OF assms(1) c]
  obtain b r1 where s: "cmd_set_nx_ex ops now key v expiry (snd w1) = (b, r1)"
    by (cases "cmd_set_nx_ex ops now key v expiry (snd w1)")
  have held: "view (snd w1) now key \<noteq> None" using cv(2) assms(2) by simp
  have nb: "b \<noteq> Some True" using cmd_set_nx_result(1)[OF assms(1), of now key v expiry "snd w1"] s held by auto
  have v1: "view r1 t k = view r t k" if "now \<le> t" for t k
    using cmd_set_nx_held[OF assms(1) held that, of v expiry k] s cv(2) by simp
  have "(\<forall>a. x \<noteq> Inr (True, a)) \<and> (snd w = snd w1 \<or> snd w = r1)"
    using assms(3) c s cv(1) nb
    by (auto simp: acquire_lock_def bindS_def split: sum.splits option.splits bool.splits prod.splits)
  then show "x \<noteq> Inr (True, v)" and "now \<le> t \<Longrightarrow> view (snd w) t k = view r t k"
    using v1 cv(2) by auto
qed

lemma run_lock_cmd_held:
  assumes "redis_laws ops view" "lock_held view key v deadline (t0, r)"
    and "t0 \<le> fst tc" "fst tc < deadline" "lock_cmd_value (snd tc) \<noteq> v"
    and "run_lock_cmd ops key tc r = (b, r')"
  shows "\<not> b \<and> lock_held view key v deadline (fst tc, r')"
proof -
  have h: "view r t key = Some v" if "fst tc \<le> t" "t < deadline" for t
    using assms(2,3) that by (auto simp: lock_held_def)
  show ?thesis
  proof (cases "snd tc")
    case (TryLock u expiry)
    obtain x w where a: "acquire_lock (Some ops) id u key expiry 1 (fst tc, r) = (x, w)"
      by (cases "acquire_lock (Some ops) id u key expiry 1 (fst tc, r)")
    note once = acquire_lock_once_held[OF assms(1) h[OF order_refl assms(4)] a]
    show ?thesis using TryLock a once h assms(6)
      by (auto simp: run_lock_cmd_def lock_held_def)
  next
    case (Unlock u)
    then have u: "u \<noteq> v" using assms(5) by (simp add: lock_cmd_value_def)
    obtain x w where a: "release_lock (Some ops) key u (fst tc, r) = (x, w)"
      by (cases "release_lock (Some ops) key u (fst tc, r)")
    have "view (snd w) t key = view r t key" if "fst tc \<le> t" for t
      using release_lock_view(2)[OF assms(1) a, of t key] that h[OF order_refl assms(4)] u by simp
    with Unlock a h assms(6) show ?thesis by (auto simp: run_lock_cmd_def lock_held_def)
  qed
qed

lemma run_lock_cmds_held:
  assumes "redis_laws ops view" "lock_held view key v deadline (t0, r)"
    and "sorted (t0 # map fst tcs)" "\<forall>tc \<in> set tcs. fst tc < deadline \<and> lock_cmd_value (snd tc) \<noteq> v"
    and "run_lock_cmds ops key tcs r = (bs, r')"
  shows "True \<notin> set bs \<and> lock_held view key v deadline (last (t0 # map fst tcs), r')"
  using assms(2-5)
proof (induction tcs arbitrary: t0 r bs)
  case Nil
  then show ?case by simp
next
  case (Cons tc tcs)
  obtain b r1 where b: "run_lock_cmd ops key tc r = (b, r1)" by (cases "run_lock_cmd ops key tc r")
  obtain bs1 where bs: "run_lock_cmds ops key tcs r1 = (bs1, r')" "bs = b # bs1"
    using Cons.prems(4) b by (auto split: prod.splits)
  have h: "\<not> b \<and> lock_held view key v deadline (fst tc, r1)"
    by (rule run_lock_cmd_held[OF assms(1) Cons.prems(1) _ _ _ b]) (use Cons.prems(2,3) in auto)
  have "True \<notin> set bs1 \<and> lock_held view key v deadline (last (fst tc # map fst tcs), r')"
    by (rule Cons.IH[OF _ _ _ bs(1)]) (use h Cons.prems(2,3) in auto)
  with h bs(2) show ?case by simp
qed

section \<open>Properties\<close>

lemma lock_mutual_exclusion_parts:
  assumes "redis_laws ops view"
    and "acquire_lock (Some ops) sleep v key expiry max_retries w = (Inr (True, v), (t0, r))"
    and "sorted (t0 # map fst tcs)"
    and "\<forall>tc \<in> set tcs. fst tc < t0 + expiry \<and> lock_cmd_value (snd tc) \<noteq> v"
    and "run_lock_cmds ops key tcs r = (bs, r')"
  shows "True \<notin> set bs"
    and "last (t0 # map fst tcs) \<le> t \<Longrightarrow> t < t0 + expiry \<Longrightarrow> view r' t key = Some v"
proof -
  obtain u where "try_acquire_with_retry ops sleep key v expiry max_retries u = (Inr True, (t0, r))"
    using assms(2) by (auto simp: acquire_lock_def bindS_def split: sum.splits prod.splits)
  from try_acquire_held[OF assms(1) this] have "lock_held view key v (t0 + expiry) (t0, r)" by simp
  from run_lock_cmds_held[OF assms(1) this assms(3-5)] show "True \<notin> set bs"
    and "last (t0 # map fst tcs) \<le> t \<Longrightarrow> t < t0 + expiry \<Longrightarrow> view r' t key = Some v"
    by (auto simp: lock_held_def)
qed

text \<open>C12: mutual exclusion. Once a caller has acquired the lock, no attempt of another client before
  the lock's expiry succeeds, whatever attempts and releases the others make in between and whatever
  messages are lost; and the owner's value is still in place after all of them.\<close>

theorem lock_mutual_exclusion:
  assumes "redis_laws ops view"
    and "acquire_lock (Some ops) sleep v key expiry max_retries w = (Inr (True, v), (t0, r))"
    and "sorted (t0 # map fst tcs)"
    and "\<forall>tc \<in> set tcs. fst tc < t0 + expiry \<and> lock_cmd_value (snd tc) \<noteq> v"
    and "run_lock_cmds ops key tcs r = (bs, r')"
  shows "True \<notin> set bs \<and>
    (\<forall>t. last (t0 # map fst tcs) \<le> t \<and> t < t0 + expiry \<longrightarrow> view r' t key = Some v)"
  using lock_mutual_exclusion_parts[OF assms] by blast

lemma lock_mutual_exclusion_witness:
  "fst (run_lock_cmds kv_ops ''job'' [(11, TryLock ''B'' 5), (12, Unlock ''B''), (19, TryLock ''C'' 5)]
     [''job'' \<mapsto> (''A'', Some 20)]) = [False, False, False]
   \<and> True \<notin> set [False, False, False]"
proof -
  let ?r = "[''job'' \<mapsto> (''A'', Some 20)]"
  let ?t = "[(11, TryLock ''B'' 5), (12, Unlock ''B''), (19, TryLock ''C'' 5)]"
  have a: "acquire_lock (Some kv_ops) id ''A'' ''job'' 10 1 (10, \<lambda>_. None) = (Inr (True, ''A''), (10, ?r))"
    by (simp add: acquire_lock_def bindS_def connect_def exchange_def cmd_set_nx_ex_def kv_ops_def kv_view_def)
  have b: "run_lock_cmds kv_ops ''job'' ?t ?r = ([False, False, False], ?r)"
    by (simp add: run_lock_cmd_def acquire_lock_def release_lock_def safe_release_script_def bindS_def
        connect_def exchange_def cmd_set_nx_ex_def kv_ops_def kv_view_def)
  from lock_mutual_exclusion[OF kv_laws a _ _ b] show ?thesis
    unfolding b by (simp add: lock_cmd_value_def)
qed

lemma lock_release_safe_parts:
  assumes "redis_laws ops view" and "release_lock (Some ops) key v w = (x, w')" and "fst w \<le> t"
  shows "view (snd w) (fst w) key \<noteq> Some v \<Longrightarrow> view (snd w') t k = view (snd w) t k"
    and "view (snd w) (fst w) key = Some v \<Longrightarrow> x = Inr () \<Longrightarrow>
      view (snd w') t key = None
      \<and> (acquire_lock (Some ops) sleep u key expiry 1 (t, snd w') = (Inr (b, u'), w2) \<longrightarrow> b)"
    and "release_lock None key v w = (Inl RedisNotAvailable, w)"
proof -
  show "view (snd w) (fst w) key \<noteq> Some v \<Longrightarrow> view (snd w') t k = view (snd w) t k"
    by (rule release_lock_view(2)[OF assms(1,2,3)])
  show "release_lock None key v w = (Inl RedisNotAvailable, w)"
    by (simp add: release_lock_def)
  assume "view (snd w) (fst w) key = Some v" "x = Inr ()"
  then have n: "view (snd w') t key = None"
    using release_lock_view(4)[OF assms(1,2) _ assms(3), of key] by simp
  moreover have b if acq: "acquire_lock (Some ops) sleep u key expiry 1 (t, snd w') = (Inr (b, u'), w2)"
  proof -
    obtain y w1 where c: "connect ops ''Failed to get async Redis connection'' (t, snd w') = (y, w1)"
      by (cases "connect ops ''Failed to get async Redis connection'' (t, snd w')")
    note cv = connect_view[OF assms(1) c]
    obtain r1 where s: "cmd_set_nx_ex ops t key u expiry (snd w1) = (Some b, r1)"
      using acq c cv(1)
      by (auto simp: acquire_lock_def bindS_def split: sum.splits prod.splits option.splits bool.splits)
    show b using cmd_set_nx_result(1)[OF assms(1) s] cv(2) n by simp
  qed
  ultimately show "view (snd w') t key = None
      \<and> (acquire_lock (Some ops) sleep u key expiry 1 (t, snd w') = (Inr (b, u'), w2) \<longrightarrow> b)"
    by blast
qed

text \<open>Release is safe. A release with any value but the owner's leaves every key as it is; a
  release by the owner that gets its reply removes the key, and the next attempt of any client
  that gets its replies succeeds. A client without Redis gets RedisNotAvailable and changes nothing.\<close>

theorem lock_release_safe:
  assumes "redis_laws ops view" and "release_lock (Some ops) key v w = (x, w')" and "fst w \<le> t"
  shows "(view (snd w) (fst w) key \<noteq> Some v \<longrightarrow> view (snd w') t k = view (snd w) t k)
    \<and> (view (snd w) (fst w) key = Some v \<and> x = Inr () \<longrightarrow>
         view (snd w') t key = None
         \<and> (acquire_lock (Some ops) sleep u key expiry 1 (t, snd w') = (Inr (b, u'), w2) \<longrightarrow> b))
    \<and> release_lock None key v w = (Inl RedisNotAvailable, w)"
  using lock_release_safe_parts[OF assms] by blast

lemma lock_release_safe_witness:
  "kv_view ([''job'' \<mapsto> (''A'', Some 20)](''job'' := None)) 12 ''job'' = None"
proof -
  let ?r = "[''job'' \<mapsto> (''A'', Some 20)]"
  have "release_lock (Some kv_ops) ''job'' ''A'' (12, ?r) = (Inr (), (12, ?r(''job'' := None)))"
    by (simp add: release_lock_def safe_release_script_def bindS_def connect_def exchange_def kv_ops_def kv_view_def)
  from lock_release_safe[OF kv_laws this, of 12] show ?thesis by (simp add: kv_view_def)
qed

lemma lock_guard_release_parts:
  "release_lock (lg_client g) (lg_lock_key g) (lg_lock_value g) w = (Inr (), w1) \<Longrightarrow>
     guard_release runtime g w = (Inr (), w1)"
  "release_lock (lg_client g) (lg_lock_key g) (lg_lock_value g) w = (Inl e, w1) \<Longrightarrow>
     guard_release runtime g w =
       (Inl e, if lg_client g \<noteq> None \<and> lg_lock_key g \<noteq> [] \<and> runtime
               then snd (release_lock (lg_client g) (lg_lock_key g) (lg_lock_value g) w1) else w1)"
  "redis_laws ops view \<Longrightarrow> lg_client g = Some ops \<Longrightarrow> fst w \<le> t \<Longrightarrow>
     view (snd w) (fst w) (lg_lock_key g) \<noteq> Some (lg_lock_value g) \<Longrightarrow>
     view (snd (snd (guard_release runtime g w))) t k = view (snd w) t k
   \<and> view (snd (guard_drop runtime g w)) t k = view (snd w) t k"
proof -
  show "release_lock (lg_client g) (lg_lock_key g) (lg_lock_value g) w = (Inr (), w1) \<Longrightarrow>
     guard_release runtime g w = (Inr (), w1)"
    by (simp add: guard_release_def guard_drop_def Let_def)
  show "release_lock (lg_client g) (lg_lock_key g) (lg_lock_value g) w = (Inl e, w1) \<Longrightarrow>
     guard_release runtime g w =
       (Inl e, if lg_client g \<noteq> None \<and> lg_lock_key g \<noteq> [] \<and> runtime
               then snd (release_lock (lg_client g) (lg_lock_key g) (lg_lock_value g) w1) else w1)"
    by (auto simp: guard_release_def guard_drop_def Let_def split: option.splits)
  assume a: "redis_laws ops view" "lg_client g = Some ops" "fst w \<le> t"
    "view (snd w) (fst w) (lg_lock_key g) \<noteq> Some (lg_lock_value g)"
  obtain x w1 where r: "release_lock (Some ops) (lg_lock_key g) (lg_lock_value g) w = (x, w1)"
    by (cases "release_lock (Some ops) (lg_lock_key g) (lg_lock_value g) w")
  have f1: "fst w1 = fst w" by (rule release_lock_view(1)[OF a(1) r])
  have v1: "view (snd w1) t' k' = view (snd w) t' k'" if "fst w \<le> t'" for t' k'
    by (rule release_lock_view(2)[OF a(1) r that a(4)])
  have d: "view (snd (guard_drop runtime g u)) t' k' = view (snd u) t' k'"
    if "fst u \<le> t'" "view (snd u) (fst u) (lg_lock_key g) \<noteq> Some (lg_lock_value g)" for u t' k'
  proof -
    obtain y u1 where "release_lock (Some ops) (lg_lock_key g) (lg_lock_value g) u = (y, u1)"
      by (cases "release_lock (Some ops) (lg_lock_key g) (lg_lock_value g) u")
    with release_lock_view(2)[OF a(1) this that] show ?thesis
      by (simp add: guard_drop_def a(2))
  qed
  have "view (snd (guard_drop runtime g w1)) t k = view (snd w) t k"
    using d[of w1 t k] a(3,4) f1 v1 by simp
  then show "view (snd (snd (guard_release runtime g w))) t k = view (snd w) t k
   \<and> view (snd (guard_drop runtime g w)) t k = view (snd w) t k"
    using d[OF a(3,4)] r v1[OF a(3)]
    by (cases x) (auto simp: guard_release_def a(2) Let_def guard_drop_def)
qed

text \<open>The guard releases exactly once. After a release that succeeded, the drop at the end of the call
  does nothing; after one that failed, the drop tries again with the guard's own key and value; a
  guard whose lock has passed to another owner changes no key at all, neither by release nor by drop.\<close>

theorem lock_guard_release:
  "(release_lock (lg_client g) (lg_lock_key g) (lg_lock_value g) w = (Inr (), w1) \<longrightarrow>
     guard_release runtime g w = (Inr (), w1))
  \<and> (release_lock (lg_client g) (lg_lock_key g) (lg_lock_value g) w = (Inl e, w1) \<longrightarrow>
     guard_release runtime g w =
       (Inl e, if lg_client g \<noteq> None \<and> lg_lock_key g \<noteq> [] \<and> runtime
               then snd (release_lock (lg_client g) (lg_lock_key g) (lg_lock_value g) w1) else w1))
  \<and> (redis_laws ops view \<and> lg_client g = Some ops \<and> fst w \<le> t \<and>
     view (snd w) (fst w) (lg_lock_key g) \<noteq> Some (lg_lock_value g) \<longrightarrow>
     view (snd (snd (guard_release runtime g w))) t k = view (snd w) t k
     \<and> view (snd (guard_drop runtime g w)) t k = view (snd w) t k)"
proof (intro conjI impI; (elim conjE)?)
  assume a: "redis_laws ops view" "lg_client g = Some ops" "fst w \<le> t"
    "view (snd w) (fst w) (lg_lock_key g) \<noteq> Some (lg_lock_value g)"
  show "view (snd (snd (guard_release runtime g w))) t k = view (snd w) t k"
    and "view (snd (guard_drop runtime g w)) t k = view (snd w) t k"
    using lock_guard_release_parts(3)[OF a] by auto
qed (fact lock_guard_release_parts(1), fact lock_guard_release_parts(2))

lemma lock_guard_release_witness:
  "guard_release True (new_guard (Some kv_ops) ''job'' ''A'') (12, [''job'' \<mapsto> (''A'', Some 20)])
   = (Inr (), (12, [''job'' \<mapsto> (''A'', Some 20)](''job'' := None)))"
  by (rule lock_guard_release[THEN conjunct1, THEN mp])
    (simp add: release_lock_def new_guard_def safe_release_script_def bindS_def connect_def exchange_def
      kv_ops_def kv_view_def)

end
