(* ===== verification/Cache.thy ===== *)
theory Cache
  imports Lock
begin

text \<open>
  \<^verbatim>\<open>server/src/services/cache.rs\<close>: the cache service over Redis. A value is stored as the
  JSON text that \<^verbatim>\<open>ser\<close> gives and read back by \<^verbatim>\<open>de\<close>; both are parameters (serde_json). Every
  operation degrades to doing nothing when there is no pool or no connection can be had.
\<close>

datatype cache_error =
    CacheRedis
  | Serialization
  | Deserialization
  | CacheNotAvailable
  | FallbackFailed string

record 'r cache =
  pool :: "'r redis_ops option"
  cache_client :: "'r redis_ops option"

text \<open>\<^verbatim>\<open>new\<close>: an empty URL gives no pool and no client; otherwise the three constructors of the
  libraries, each of which may fail, decide.\<close>

definition new_cache :: "string \<Rightarrow> 'r redis_ops option \<Rightarrow> 'r redis_ops option \<Rightarrow> bool \<Rightarrow> 'r cache" where
  "new_cache redis_url opened manager pool_built =
     (if redis_url = [] then \<lparr>pool = None, cache_client = None\<rparr>
      else case manager of
             None \<Rightarrow> \<lparr>pool = None, cache_client = opened\<rparr>
           | Some m \<Rightarrow> if pool_built then \<lparr>pool = Some m, cache_client = opened\<rparr>
                       else \<lparr>pool = None, cache_client = opened\<rparr>)"

definition cache_is_available :: "'r cache \<Rightarrow> bool" where
  "cache_is_available c \<longleftrightarrow> pool c \<noteq> None"

text \<open>\<^verbatim>\<open>conn\<close>: a connection from the pool, or nothing when the pool is absent, exhausted or its
  connection is down.\<close>

definition cache_conn :: "'r cache \<Rightarrow> 'r world \<Rightarrow> 'r redis_ops option \<times> 'r world" where
  "cache_conn c w =
     (case pool c of
        None \<Rightarrow> (None, w)
      | Some ops \<Rightarrow>
          (case exchange ops (\<lambda>r. (Some (), r)) (snd w) of
             (None, r') \<Rightarrow> (None, (fst w, r'))
           | (Some _, r') \<Rightarrow> (Some ops, (fst w, r'))))"

definition cache_get :: "(string \<Rightarrow> 'a option) \<Rightarrow> 'r cache \<Rightarrow> string \<Rightarrow> ('r world, cache_error, 'a option) prog" where
  "cache_get de c key w =
     (case cache_conn c w of
        (None, w1) \<Rightarrow> (Inr None, w1)
      | (Some ops, w1) \<Rightarrow>
          (case cmd_get ops (fst w1) key (snd w1) of
             (None, r) \<Rightarrow> (Inl CacheRedis, (fst w1, r))
           | (Some None, r) \<Rightarrow> (Inr None, (fst w1, r))
           | (Some (Some s), r) \<Rightarrow>
               (case de s of None \<Rightarrow> (Inl Deserialization, (fst w1, r))
                | Some v \<Rightarrow> (Inr (Some v), (fst w1, r)))))"

definition cache_set ::
    "('a \<Rightarrow> string option) \<Rightarrow> 'r cache \<Rightarrow> string \<Rightarrow> 'a \<Rightarrow> nat \<Rightarrow> ('r world, cache_error, unit) prog" where
  "cache_set ser c key val ttl w =
     (case cache_conn c w of
        (None, w1) \<Rightarrow> (Inr (), w1)
      | (Some ops, w1) \<Rightarrow>
          (case ser val of
             None \<Rightarrow> (Inl Serialization, w1)
           | Some json \<Rightarrow>
               (case cmd_setex ops (fst w1) key ttl json (snd w1) of
                  (None, r) \<Rightarrow> (Inl CacheRedis, (fst w1, r))
                | (Some _, r) \<Rightarrow> (Inr (), (fst w1, r)))))"

definition null_key :: "string \<Rightarrow> string" where "null_key key = key @ '':null''"

definition cache_set_null :: "'r cache \<Rightarrow> string \<Rightarrow> nat \<Rightarrow> ('r world, cache_error, unit) prog" where
  "cache_set_null c key ttl w =
     (case cache_conn c w of
        (None, w1) \<Rightarrow> (Inr (), w1)
      | (Some ops, w1) \<Rightarrow>
          (case cmd_setex ops (fst w1) (null_key key) ttl ''1'' (snd w1) of
             (None, r) \<Rightarrow> (Inl CacheRedis, (fst w1, r))
           | (Some _, r) \<Rightarrow> (Inr (), (fst w1, r))))"

definition cache_invalidate :: "'r cache \<Rightarrow> string \<Rightarrow> ('r world, cache_error, unit) prog" where
  "cache_invalidate c key w =
     (case cache_conn c w of
        (None, w1) \<Rightarrow> (Inr (), w1)
      | (Some ops, w1) \<Rightarrow>
          (case cmd_del ops (fst w1) [key, null_key key] (snd w1) of
             (None, r) \<Rightarrow> (Inl CacheRedis, (fst w1, r))
           | (Some _, r) \<Rightarrow> (Inr (), (fst w1, r))))"

definition cache_exists :: "'r cache \<Rightarrow> string \<Rightarrow> ('r world, cache_error, bool) prog" where
  "cache_exists c key w =
     (case cache_conn c w of
        (None, w1) \<Rightarrow> (Inr False, w1)
      | (Some ops, w1) \<Rightarrow>
          (case cmd_exists ops (fst w1) key (snd w1) of
             (None, r) \<Rightarrow> (Inl CacheRedis, (fst w1, r))
           | (Some n, r) \<Rightarrow> (Inr (0 < n), (fst w1, r))))"

definition cache_ping :: "'r cache \<Rightarrow> ('r world, cache_error, unit) prog" where
  "cache_ping c w =
     (case cache_conn c w of
        (None, w1) \<Rightarrow> (Inl CacheNotAvailable, w1)
      | (Some ops, w1) \<Rightarrow>
          (case exchange ops (\<lambda>r. (Some (), r)) (snd w1) of
             (None, r) \<Rightarrow> (Inl CacheRedis, (fst w1, r))
           | (Some _, r) \<Rightarrow> (Inr (), (fst w1, r))))"

text \<open>Steps 3 and 4 of the source: run the fallback, then store its value, whose failure is only logged.\<close>

definition compute_and_store ::
    "('a \<Rightarrow> string option) \<Rightarrow> 'r cache \<Rightarrow> string \<Rightarrow> nat \<Rightarrow> ('r world, string, 'a) prog \<Rightarrow>
      ('r world, cache_error, 'a) prog" where
  "compute_and_store ser c key ttl f w =
     (case f w of
        (Inl e, w1) \<Rightarrow> (Inl (FallbackFailed (''Fallback failed: '' @ e)), w1)
      | (Inr val, w1) \<Rightarrow> (Inr val, snd (cache_set ser c key val ttl w1)))"

definition negative_error :: cache_error where
  "negative_error = FallbackFailed ''Entity does not exist (negative cache)''"

definition get_or_insert ::
    "(string \<Rightarrow> 'a option) \<Rightarrow> ('a \<Rightarrow> string option) \<Rightarrow> 'r cache \<Rightarrow> string \<Rightarrow> nat \<Rightarrow>
      ('r world, string, 'a) prog \<Rightarrow> ('r world, cache_error, 'a) prog" where
  "get_or_insert de ser c key ttl f w =
     (if cache_is_available c then
        (case cache_get de c key w of
           (Inl e, w1) \<Rightarrow> (Inl e, w1)
         | (Inr (Some val), w1) \<Rightarrow> (Inr val, w1)
         | (Inr None, w1) \<Rightarrow>
             (case cache_exists c (null_key key) w1 of
                (Inl e, w2) \<Rightarrow> (Inl e, w2)
              | (Inr True, w2) \<Rightarrow> (Inl negative_error, w2)
              | (Inr False, w2) \<Rightarrow> compute_and_store ser c key ttl f w2))
      else compute_and_store ser c key ttl f w)"

text \<open>Step 3b: poll the cache \<^verbatim>\<open>n\<close> times, sleeping before each look.\<close>

fun poll_cache ::
    "(string \<Rightarrow> 'a option) \<Rightarrow> 'r cache \<Rightarrow> string \<Rightarrow> ('r world \<Rightarrow> 'r world) \<Rightarrow> nat \<Rightarrow> ('r world, cache_error, 'a option) prog" where
  "poll_cache de c key sleep 0 w = (Inr None, w)"
| "poll_cache de c key sleep (Suc n) w =
     (let w1 = sleep w in
      if cache_is_available c then
        (case cache_get de c key w1 of
           (Inl e, w2) \<Rightarrow> (Inl e, w2)
         | (Inr (Some val), w2) \<Rightarrow> (Inr (Some val), w2)
         | (Inr None, w2) \<Rightarrow> poll_cache de c key sleep n w2)
      else poll_cache de c key sleep n w1)"

definition lock_key_of :: "string \<Rightarrow> string" where "lock_key_of key = ''cache:lock:'' @ key"

definition locked_part ::
    "(string \<Rightarrow> 'a option) \<Rightarrow> ('a \<Rightarrow> string option) \<Rightarrow> 'r cache \<Rightarrow> string \<Rightarrow> nat \<Rightarrow> nat \<Rightarrow>
      ('r world \<Rightarrow> 'r world) \<Rightarrow> nat \<Rightarrow> string \<Rightarrow> bool \<Rightarrow>
      ('r world, string, 'a) prog \<Rightarrow> ('r world, cache_error, 'a) prog" where
  "locked_part de ser c key ttl lock_expiry sleep max_retries uuid runtime f w =
     (case guard_acquire_with_client (cache_client c) sleep uuid (lock_key_of key) lock_expiry max_retries w of
        (Inr (Some (Acquired g)), w1) \<Rightarrow>
          (case (if cache_is_available c then cache_get de c key w1 else (Inr None, w1)) of
             (Inl e, w2) \<Rightarrow> (Inl e, guard_drop runtime g w2)
           | (Inr (Some val), w2) \<Rightarrow> (Inr val, guard_drop runtime g w2)
           | (Inr None, w2) \<Rightarrow>
               (case compute_and_store ser c key ttl f w2 of (x, w3) \<Rightarrow> (x, guard_drop runtime g w3)))
      | (Inr _, w1) \<Rightarrow>
          (case poll_cache de c key sleep max_retries w1 of
             (Inl e, w2) \<Rightarrow> (Inl e, w2)
           | (Inr (Some val), w2) \<Rightarrow> (Inr val, w2)
           | (Inr None, w2) \<Rightarrow> compute_and_store ser c key ttl f w2)
      | (Inl _, w1) \<Rightarrow> compute_and_store ser c key ttl f w1)"

definition get_or_insert_with_lock ::
    "(string \<Rightarrow> 'a option) \<Rightarrow> ('a \<Rightarrow> string option) \<Rightarrow> 'r cache \<Rightarrow> string \<Rightarrow> nat \<Rightarrow> nat \<Rightarrow>
      ('r world \<Rightarrow> 'r world) \<Rightarrow> nat \<Rightarrow> string \<Rightarrow> bool \<Rightarrow>
      ('r world, string, 'a) prog \<Rightarrow> ('r world, cache_error, 'a) prog" where
  "get_or_insert_with_lock de ser c key ttl lock_expiry sleep max_retries uuid runtime f w =
     (case (if cache_is_available c then cache_get de c key w else (Inr None, w)) of
        (Inl e, w1) \<Rightarrow> (Inl e, w1)
      | (Inr (Some val), w1) \<Rightarrow> (Inr val, w1)
      | (Inr None, w1) \<Rightarrow>
          (case (if cache_is_available c then cache_exists c (null_key key) w1 else (Inr False, w1)) of
             (Inl e, w2) \<Rightarrow> (Inl e, w2)
           | (Inr True, w2) \<Rightarrow> (Inl negative_error, w2)
           | (Inr False, w2) \<Rightarrow>
               locked_part de ser c key ttl lock_expiry sleep max_retries uuid runtime f w2))"

section \<open>Lemmas\<close>

text \<open>What a reader of the cache sees: the server's view through the pool.\<close>

lemma cache_conn_view:
  assumes "redis_laws ops view" "pool c = Some ops" "cache_conn c w = (x, w1)"
  shows "fst w1 = fst w" "view (snd w1) = view (snd w)" "x = None \<or> x = Some ops"
  using assms(2,3) exchange_read[OF assms(1), of "\<lambda>r. (Some (), r)" "snd w"]
  by (auto simp: cache_conn_def split: prod.splits option.splits)

lemma cache_get_view:
  assumes "redis_laws ops view" "pool c = Some ops"
  shows "fst (snd (cache_get de c key w)) = fst w" "view (snd (snd (cache_get de c key w))) = view (snd w)"
proof -
  obtain x w1 where c: "cache_conn c w = (x, w1)" by (cases "cache_conn c w")
  note cv = cache_conn_view[OF assms c]
  show "fst (snd (cache_get de c key w)) = fst w"
    using c cv by (auto simp: cache_get_def split: prod.splits option.splits)
  show "view (snd (snd (cache_get de c key w))) = view (snd w)"
    using c cv cmd_get_view[OF assms(1), of "fst w1" key "snd w1"]
    by (auto simp: cache_get_def split: prod.splits option.splits)
qed

lemma cache_exists_view:
  assumes "redis_laws ops view" "pool c = Some ops"
  shows "fst (snd (cache_exists c key w)) = fst w" "view (snd (snd (cache_exists c key w))) = view (snd w)"
proof -
  obtain x w1 where c: "cache_conn c w = (x, w1)" by (cases "cache_conn c w")
  note cv = cache_conn_view[OF assms c]
  show "fst (snd (cache_exists c key w)) = fst w"
    using c cv by (auto simp: cache_exists_def split: prod.splits option.splits)
  show "view (snd (snd (cache_exists c key w))) = view (snd w)"
    using c cv cmd_exists_view[OF assms(1), of "fst w1" key "snd w1"]
    by (auto simp: cache_exists_def split: prod.splits option.splits)
qed

lemma cache_get_hit:
  assumes "redis_laws ops view" "pool c = Some ops" "cache_get de c key w = (Inr (Some v), w1)"
  shows "\<exists>s. view (snd w) (fst w) key = Some s \<and> de s = Some v"
proof -
  obtain x w0 where c: "cache_conn c w = (x, w0)" by (cases "cache_conn c w")
  note cv = cache_conn_view[OF assms(1,2) c]
  obtain y r where g: "cmd_get ops (fst w0) key (snd w0) = (y, r)" by (cases "cmd_get ops (fst w0) key (snd w0)")
  from assms(3) c g cv(3) obtain s where "y = Some (Some s)" "de s = Some v"
    by (auto simp: cache_get_def split: option.splits)
  have "Some s = view (snd w0) (fst w0) key"
    by (rule cmd_get_result(1)[OF assms(1)]) (use g \<open>y = Some (Some s)\<close> in simp)
  with \<open>de s = Some v\<close> cv(1,2) show ?thesis by (metis (no_types))
qed

lemma cache_set_view:
  assumes "redis_laws ops view" "pool c = Some ops" "fst w \<le> t"
  shows "fst (snd (cache_set ser c key v ttl w)) = fst w"
    and "k \<noteq> key \<Longrightarrow> view (snd (snd (cache_set ser c key v ttl w))) t k = view (snd w) t k"
proof -
  obtain x w1 where c: "cache_conn c w = (x, w1)" by (cases "cache_conn c w")
  note cv = cache_conn_view[OF assms(1,2) c]
  show "fst (snd (cache_set ser c key v ttl w)) = fst w"
    using c cv by (auto simp: cache_set_def split: prod.splits option.splits)
  assume k: "k \<noteq> key"
  have "view (snd (cmd_setex ops (fst w1) key ttl (the (ser v)) (snd w1))) t k = view (snd w) t k"
    using cmd_setex_other[OF assms(1) _ k, of "fst w1" t] assms(3) cv by simp
  then show "view (snd (snd (cache_set ser c key v ttl w))) t k = view (snd w) t k"
    using c cv by (auto simp: cache_set_def split: prod.splits option.splits)
qed

text \<open>A link that delivers every request and reply.\<close>

definition reliable :: "'r redis_ops \<Rightarrow> bool" where
  "reliable ops \<longleftrightarrow> (\<forall>r. fst (link_op ops r) = Delivered)"

lemma exchange_reliable:
  assumes "redis_laws ops view" "reliable ops"
  obtains r0 where "view r0 = view r" "exchange ops f r = f r0"
proof -
  obtain l r0 where l: "link_op ops r = (l, r0)" by (cases "link_op ops r")
  have "l = Delivered" using assms(2) l by (metis fst_conv reliable_def)
  then have "exchange ops f r = f r0" using l by (simp add: exchange_def)
  moreover have "view r0 = view r" using redis_link[OF assms(1), of r] l by simp
  ultimately show thesis using that by blast
qed

lemma cache_conn_reliable:
  assumes "redis_laws ops view" "reliable ops" "pool c = Some ops"
  obtains w1 where "cache_conn c w = (Some ops, w1)" "fst w1 = fst w" "view (snd w1) = view (snd w)"
proof -
  obtain r0 where "view r0 = view (snd w)" "exchange ops (\<lambda>r. (Some (), r)) (snd w) = (Some (), r0)"
    by (rule exchange_reliable[OF assms(1,2), of "snd w" "\<lambda>r. (Some (), r)"])
  then show thesis using that[of "(fst w, r0)"] assms(3) by (simp add: cache_conn_def)
qed

lemma cache_get_reliable:
  assumes "redis_laws ops view" "reliable ops" "pool c = Some ops"
  shows "fst (cache_get de c key w) =
    (case view (snd w) (fst w) key of None \<Rightarrow> Inr None
     | Some s \<Rightarrow> (case de s of None \<Rightarrow> Inl Deserialization | Some v \<Rightarrow> Inr (Some v)))"
proof -
  obtain w1 where c: "cache_conn c w = (Some ops, w1)" "fst w1 = fst w" "view (snd w1) = view (snd w)"
    by (rule cache_conn_reliable[OF assms])
  obtain r0 where "view r0 = view (snd w1)"
    "cmd_get ops (fst w1) key (snd w1) = (Some (srv_get ops (fst w1) key r0), r0)"
    by (rule exchange_reliable[OF assms(1,2), of "snd w1" "\<lambda>r. (Some (srv_get ops (fst w1) key r), r)"])
      (simp add: cmd_get_def)
  with c show ?thesis
    by (simp add: cache_get_def redis_get[OF assms(1)] split: option.split)
qed

lemma cache_exists_reliable:
  assumes "redis_laws ops view" "reliable ops" "pool c = Some ops"
  shows "fst (cache_exists c key w) = Inr (view (snd w) (fst w) key \<noteq> None)"
proof -
  obtain w1 where c: "cache_conn c w = (Some ops, w1)" "fst w1 = fst w" "view (snd w1) = view (snd w)"
    by (rule cache_conn_reliable[OF assms])
  obtain r0 where "view r0 = view (snd w1)"
    "cmd_exists ops (fst w1) key (snd w1) = (Some (if srv_get ops (fst w1) key r0 = None then 0 else 1), r0)"
    by (rule exchange_reliable[OF assms(1,2), of "snd w1"
          "\<lambda>r. (Some (if srv_get ops (fst w1) key r = None then 0 else 1), r)"])
      (simp add: cmd_exists_def)
  with c show ?thesis
    by (simp add: cache_exists_def redis_get[OF assms(1)])
qed

lemma cache_set_reliable:
  assumes "redis_laws ops view" "reliable ops" "pool c = Some ops" "ser v = Some json" "0 < ttl"
  obtains r where "cache_set ser c key v ttl w = (Inr (), (fst w, r))"
    "\<And>t k. fst w \<le> t \<Longrightarrow> view r t k =
      (if k = key then if t < fst w + ttl then Some json else None else view (snd w) t k)"
proof -
  obtain w1 where c: "cache_conn c w = (Some ops, w1)" "fst w1 = fst w" "view (snd w1) = view (snd w)"
    by (rule cache_conn_reliable[OF assms(1-3)])
  let ?f = "\<lambda>r. case srv_setex ops (fst w1) key ttl json r of None \<Rightarrow> (None, r) | Some r' \<Rightarrow> (Some (), r')"
  obtain r0 where r0: "view r0 = view (snd w1)" "cmd_setex ops (fst w1) key ttl json (snd w1) = ?f r0"
    by (rule exchange_reliable[OF assms(1,2), of "snd w1" ?f]) (simp add: cmd_setex_def)
  obtain r where r: "srv_setex ops (fst w1) key ttl json r0 = Some r"
    using redis_setex_None[OF assms(1), of "fst w1" key ttl json r0] assms(5)
    by (cases "srv_setex ops (fst w1) key ttl json r0") auto
  show thesis
  proof (rule that[of r])
    show "cache_set ser c key v ttl w = (Inr (), (fst w, r))"
      using c r0 r assms(4) by (simp add: cache_set_def)
    show "view r t k = (if k = key then if t < fst w + ttl then Some json else None else view (snd w) t k)"
      if "fst w \<le> t" for t k
      using redis_setex[OF assms(1) r, of t k] c r0 that by simp
  qed
qed

lemma cache_invalidate_reliable:
  assumes "redis_laws ops view" "reliable ops" "pool c = Some ops"
  obtains r where "cache_invalidate c key w = (Inr (), (fst w, r))"
    "\<And>t k. fst w \<le> t \<Longrightarrow> view r t k = (if k = key \<or> k = null_key key then None else view (snd w) t k)"
proof -
  obtain w1 where c: "cache_conn c w = (Some ops, w1)" "fst w1 = fst w" "view (snd w1) = view (snd w)"
    by (rule cache_conn_reliable[OF assms])
  let ?f = "\<lambda>r. (Some (), srv_del_all ops (fst w1) [key, null_key key] r)"
  obtain r0 where r0: "view r0 = view (snd w1)" "cmd_del ops (fst w1) [key, null_key key] (snd w1) = ?f r0"
    by (rule exchange_reliable[OF assms(1,2), of "snd w1" ?f]) (simp add: cmd_del_def)
  show thesis
  proof (rule that[of "srv_del_all ops (fst w1) [key, null_key key] r0"])
    show "cache_invalidate c key w = (Inr (), (fst w, srv_del_all ops (fst w1) [key, null_key key] r0))"
      using c r0 by (simp add: cache_invalidate_def)
    show "view (srv_del_all ops (fst w1) [key, null_key key] r0) t k =
        (if k = key \<or> k = null_key key then None else view (snd w) t k)" if "fst w \<le> t" for t k
      using redis_del_all_view[OF assms(1), of "fst w1" t "[key, null_key key]" r0 k] c r0 that
      by simp
  qed
qed

lemma kv_reliable: "reliable kv_ops"
  by (simp add: reliable_def kv_ops_def)

text \<open>Without a pool every operation is the identity on the world.\<close>

lemma no_pool:
  assumes "pool c = None"
  shows "cache_get de c key w = (Inr None, w)" "cache_set ser c key v ttl w = (Inr (), w)"
    "cache_set_null c key ttl w = (Inr (), w)" "cache_invalidate c key w = (Inr (), w)"
    "cache_exists c key w = (Inr False, w)" "cache_ping c w = (Inl CacheNotAvailable, w)"
    "cache_is_available c = False"
  by (simp_all add: assms cache_get_def cache_set_def cache_set_null_def cache_invalidate_def
      cache_exists_def cache_ping_def cache_conn_def cache_is_available_def)

lemma poll_no_pool:
  assumes "pool c = None"
  shows "poll_cache de c key sleep n w = (Inr None, (sleep ^^ n) w)"
  by (induction n arbitrary: w) (simp_all add: no_pool(7)[OF assms] funpow_swap1)

section \<open>Properties\<close>

lemma cache_set_get_invalidate_parts:
  assumes "redis_laws ops view" "reliable ops" "pool c = Some ops"
    and "ser v = Some json" "de json = Some v" "0 < ttl"
    and "cache_set ser c key v ttl w = (x, (t0, r))" "t0 \<le> t"
  shows "x = Inr ()"
    and "fst (cache_get de c key (t, r)) = Inr (if t < t0 + ttl then Some v else None)"
    and "k \<noteq> key \<Longrightarrow> fst (cache_get de c k (t, r)) = fst (cache_get de c k (t, snd w))"
    and "fst (cache_get de c key (snd (cache_invalidate c key (t, r)))) = Inr None
       \<and> fst (cache_exists c (null_key key) (snd (cache_invalidate c key (t, r)))) = Inr False"
proof -
  obtain r' where s: "cache_set ser c key v ttl w = (Inr (), (fst w, r'))"
    "\<And>t k. fst w \<le> t \<Longrightarrow> view r' t k =
      (if k = key then if t < fst w + ttl then Some json else None else view (snd w) t k)"
    by (rule cache_set_reliable[OF assms(1-3), where ser = ser and v = v and json = json and ttl = ttl and key = key and w = w])
      (use assms(4,6) in auto)
  with assms(7) have e: "x = Inr ()" "t0 = fst w" "r' = r" by auto
  show "x = Inr ()" by (rule e(1))
  note g = cache_get_reliable[OF assms(1-3), where de = de]
  show "fst (cache_get de c key (t, r)) = Inr (if t < t0 + ttl then Some v else None)"
    using s(2)[of t key] e assms(5,8) by (simp add: g)
  show "k \<noteq> key \<Longrightarrow> fst (cache_get de c k (t, r)) = fst (cache_get de c k (t, snd w))"
    using s(2)[of t k] e assms(8) by (simp add: g)
  obtain r2 where i: "cache_invalidate c key (t, r) = (Inr (), (t, r2))"
    "\<And>t' k. t \<le> t' \<Longrightarrow> view r2 t' k = (if k = key \<or> k = null_key key then None else view r t' k)"
    by (rule cache_invalidate_reliable[OF assms(1-3), of key "(t, r)"]) simp
  show "fst (cache_get de c key (snd (cache_invalidate c key (t, r)))) = Inr None
       \<and> fst (cache_exists c (null_key key) (snd (cache_invalidate c key (t, r)))) = Inr False"
    using i(2)[of t key] i(2)[of t "null_key key"]
    by (simp add: i(1) g cache_exists_reliable[OF assms(1-3)])
qed

text \<open>Read your writes. Over a link that delivers, a value that was set is what every later get returns
  until its time to live is over, then the cache is empty; no other key is affected; and an
  invalidation removes both the value and the negative marker of its key.\<close>

theorem cache_set_get_invalidate:
  assumes "redis_laws ops view" "reliable ops" "pool c = Some ops"
    and "ser v = Some json" "de json = Some v" "0 < ttl"
    and "cache_set ser c key v ttl w = (x, (t0, r))" "t0 \<le> t"
  shows "x = Inr ()
    \<and> fst (cache_get de c key (t, r)) = Inr (if t < t0 + ttl then Some v else None)
    \<and> (\<forall>k. k \<noteq> key \<longrightarrow> fst (cache_get de c k (t, r)) = fst (cache_get de c k (t, snd w)))
    \<and> fst (cache_get de c key (snd (cache_invalidate c key (t, r)))) = Inr None
    \<and> fst (cache_exists c (null_key key) (snd (cache_invalidate c key (t, r)))) = Inr False"
  using cache_set_get_invalidate_parts[where ser = ser and de = de and key = key and ttl = ttl and v = v and json = json
      and ops = ops and view = view and c = c and w = w and x = x and r = r and ?t0.0 = t0 and t = t, OF assms] by blast

lemma cache_set_get_invalidate_witness:
  "fst (cache_get (\<lambda>s. Some s) \<lparr>pool = Some kv_ops, cache_client = None\<rparr> ''k''
     (12, [''k'' \<mapsto> (''v'', Some 15)])) = Inr (Some ''v'')"
proof -
  let ?c = "\<lparr>pool = Some kv_ops, cache_client = None\<rparr>"
  have "cache_set Some ?c ''k'' ''v'' 5 (10, \<lambda>_. None) = (Inr (), (10, [''k'' \<mapsto> (''v'', Some 15)]))"
    by (simp add: cache_set_def cache_conn_def exchange_def cmd_setex_def kv_ops_def)
  from cache_set_get_invalidate[OF kv_laws kv_reliable _ _ _ _ this, where de = Some and t = 12]
  show ?thesis by simp
qed

lemma get_or_insert_behaviour_parts:
  assumes "redis_laws ops view" "reliable ops" "pool c = Some ops"
  shows "view (snd w) (fst w) key = Some s \<Longrightarrow> de s = Some v \<Longrightarrow>
      fst (get_or_insert de ser c key ttl f w) = Inr v
      \<and> view (snd (snd (get_or_insert de ser c key ttl f w))) = view (snd w)"
    and "view (snd w) (fst w) key = None \<Longrightarrow> view (snd w) (fst w) (null_key key) = Some s \<Longrightarrow>
      fst (get_or_insert de ser c key ttl f w) = Inl negative_error
      \<and> view (snd (snd (get_or_insert de ser c key ttl f w))) = view (snd w)"
    and "view (snd w) (fst w) key = None \<Longrightarrow> view (snd w) (fst w) (null_key key) = None \<Longrightarrow>
      \<exists>w0. fst w0 = fst w \<and> view (snd w0) = view (snd w) \<and>
        (\<forall>e w1. f w0 = (Inl e, w1) \<longrightarrow>
           get_or_insert de ser c key ttl f w = (Inl (FallbackFailed (''Fallback failed: '' @ e)), w1)) \<and>
        (\<forall>v w1 json. f w0 = (Inr v, w1) \<longrightarrow> ser v = Some json \<longrightarrow> de json = Some v \<longrightarrow> 0 < ttl \<longrightarrow>
           fst (get_or_insert de ser c key ttl f w) = Inr v \<and>
           fst (cache_get de c key (snd (get_or_insert de ser c key ttl f w))) = Inr (Some v))"
proof -
  note g = cache_get_reliable[OF assms, where de = de] and gv = cache_get_view[OF assms(1,3)]
  note ex = cache_exists_reliable[OF assms] and ev = cache_exists_view[OF assms(1,3)]
  have av: "cache_is_available c" using assms(3) by (simp add: cache_is_available_def)
  obtain x w1 where get: "cache_get de c key w = (x, w1)" by (cases "cache_get de c key w")
  have w1: "fst w1 = fst w" "view (snd w1) = view (snd w)"
    using gv[of de key w] get by auto
  obtain y w2 where exi: "cache_exists c (null_key key) w1 = (y, w2)" by (cases "cache_exists c (null_key key) w1")
  have w2: "fst w2 = fst w" "view (snd w2) = view (snd w)"
    using ev[of "null_key key" w1] exi w1 by auto
  have x: "x = (case view (snd w) (fst w) key of None \<Rightarrow> Inr None
     | Some s \<Rightarrow> (case de s of None \<Rightarrow> Inl Deserialization | Some v \<Rightarrow> Inr (Some v)))"
    using g[of key w] get by simp
  have y: "y = Inr (view (snd w) (fst w) (null_key key) \<noteq> None)"
    using ex[of "null_key key" w1] exi w1 by simp
  show "view (snd w) (fst w) key = Some s \<Longrightarrow> de s = Some v \<Longrightarrow>
      fst (get_or_insert de ser c key ttl f w) = Inr v
      \<and> view (snd (snd (get_or_insert de ser c key ttl f w))) = view (snd w)"
    using av get x w1 by (simp add: get_or_insert_def)
  show "view (snd w) (fst w) key = None \<Longrightarrow> view (snd w) (fst w) (null_key key) = Some s \<Longrightarrow>
      fst (get_or_insert de ser c key ttl f w) = Inl negative_error
      \<and> view (snd (snd (get_or_insert de ser c key ttl f w))) = view (snd w)"
    using av get x exi y w2 by (simp add: get_or_insert_def)
  assume n: "view (snd w) (fst w) key = None" "view (snd w) (fst w) (null_key key) = None"
  have goi: "get_or_insert de ser c key ttl f w = compute_and_store ser c key ttl f w2"
    using av get x exi y n by (simp add: get_or_insert_def)
  have store: "fst (cache_get de c key (snd (cache_set ser c key v ttl w3))) = Inr (Some v)"
    if "ser v = Some json" "de json = Some v" "0 < ttl" for v json w3
    by (rule cache_set_reliable[OF assms, where ser = ser and v = v and json = json and ttl = ttl and key = key and w = w3])
      (use that in \<open>simp_all add: g\<close>)
  show "\<exists>w0. fst w0 = fst w \<and> view (snd w0) = view (snd w) \<and>
        (\<forall>e w1. f w0 = (Inl e, w1) \<longrightarrow>
           get_or_insert de ser c key ttl f w = (Inl (FallbackFailed (''Fallback failed: '' @ e)), w1)) \<and>
        (\<forall>v w1 json. f w0 = (Inr v, w1) \<longrightarrow> ser v = Some json \<longrightarrow> de json = Some v \<longrightarrow> 0 < ttl \<longrightarrow>
           fst (get_or_insert de ser c key ttl f w) = Inr v \<and>
           fst (cache_get de c key (snd (get_or_insert de ser c key ttl f w))) = Inr (Some v))"
    unfolding goi using w2 store by (intro exI[of _ w2]) (auto simp: compute_and_store_def)
qed

text \<open>Read-through. Over a link that delivers, a live value is returned without running the fallback, a live negative marker
  refuses without running it, and otherwise the fallback runs once on an unchanged
  view: its error is reported and nothing is stored, its value is returned and found by the next get.\<close>

theorem get_or_insert_behaviour:
  assumes "redis_laws ops view" "reliable ops" "pool c = Some ops"
  shows "(\<forall>s v. view (snd w) (fst w) key = Some s \<and> de s = Some v \<longrightarrow>
      fst (get_or_insert de ser c key ttl f w) = Inr v
      \<and> view (snd (snd (get_or_insert de ser c key ttl f w))) = view (snd w))
    \<and> (view (snd w) (fst w) key = None \<and> view (snd w) (fst w) (null_key key) \<noteq> None \<longrightarrow>
      fst (get_or_insert de ser c key ttl f w) = Inl negative_error
      \<and> view (snd (snd (get_or_insert de ser c key ttl f w))) = view (snd w))
    \<and> (view (snd w) (fst w) key = None \<and> view (snd w) (fst w) (null_key key) = None \<longrightarrow>
      (\<exists>w0. fst w0 = fst w \<and> view (snd w0) = view (snd w) \<and>
        (\<forall>e w1. f w0 = (Inl e, w1) \<longrightarrow>
           get_or_insert de ser c key ttl f w = (Inl (FallbackFailed (''Fallback failed: '' @ e)), w1)) \<and>
        (\<forall>v w1 json. f w0 = (Inr v, w1) \<longrightarrow> ser v = Some json \<longrightarrow> de json = Some v \<longrightarrow> 0 < ttl \<longrightarrow>
           fst (get_or_insert de ser c key ttl f w) = Inr v \<and>
           fst (cache_get de c key (snd (get_or_insert de ser c key ttl f w))) = Inr (Some v))))"
proof (intro conjI allI impI; (elim conjE)?)
  fix s v assume "view (snd w) (fst w) key = Some s" "de s = Some v"
  from get_or_insert_behaviour_parts(1)[where de = de, OF assms this]
  show "fst (get_or_insert de ser c key ttl f w) = Inr v"
    "view (snd (snd (get_or_insert de ser c key ttl f w))) = view (snd w)" by auto
next
  assume a: "view (snd w) (fst w) key = None" "view (snd w) (fst w) (null_key key) \<noteq> None"
  then obtain s where "view (snd w) (fst w) (null_key key) = Some s" by blast
  from get_or_insert_behaviour_parts(2)[where de = de, OF assms a(1) this]
  show "fst (get_or_insert de ser c key ttl f w) = Inl negative_error"
    "view (snd (snd (get_or_insert de ser c key ttl f w))) = view (snd w)" by auto
next
  assume "view (snd w) (fst w) key = None" "view (snd w) (fst w) (null_key key) = None"
  from get_or_insert_behaviour_parts(3)[where de = de, OF assms this]
  show "\<exists>w0. fst w0 = fst w \<and> view (snd w0) = view (snd w) \<and>
        (\<forall>e w1. f w0 = (Inl e, w1) \<longrightarrow>
           get_or_insert de ser c key ttl f w = (Inl (FallbackFailed (''Fallback failed: '' @ e)), w1)) \<and>
        (\<forall>v w1 json. f w0 = (Inr v, w1) \<longrightarrow> ser v = Some json \<longrightarrow> de json = Some v \<longrightarrow> 0 < ttl \<longrightarrow>
           fst (get_or_insert de ser c key ttl f w) = Inr v \<and>
           fst (cache_get de c key (snd (get_or_insert de ser c key ttl f w))) = Inr (Some v))" .
qed

lemma get_or_insert_behaviour_witness:
  "fst (get_or_insert Some Some \<lparr>pool = Some kv_ops, cache_client = None\<rparr> ''k'' 5 (\<lambda>w. (Inl ''down'', w))
     (12, [''k'' \<mapsto> (''v'', Some 15)])) = Inr ''v''"
  using get_or_insert_behaviour[OF kv_laws kv_reliable,
      where c = "\<lparr>pool = Some kv_ops, cache_client = None\<rparr>" and w = "(12, [''k'' \<mapsto> (''v'', Some 15)])"
      and key = "''k''" and de = Some and ser = Some and ttl = 5 and f = "\<lambda>w. (Inl ''down'', w)"]
  by (simp add: kv_view_def)

text \<open>Without Redis the stampede-protected variant is not the lock-free one: it sleeps through the
  whole retry budget before it runs the fallback, where the plain variant runs it at once.\<close>

theorem get_or_insert_with_lock_no_redis:
  assumes "pool c = None" "cache_client c = None"
  shows "get_or_insert_with_lock de ser c key ttl lock_expiry sleep max_retries uuid runtime f w
      = get_or_insert de ser c key ttl f ((sleep ^^ max_retries) w)"
  by (simp add: get_or_insert_with_lock_def locked_part_def get_or_insert_def no_pool[OF assms(1)]
      guard_acquire_with_client_def assms(2) poll_no_pool[OF assms(1)])

lemma get_or_insert_with_lock_no_redis_witness:
  "get_or_insert_with_lock Some Some (new_cache [] None None False) ''k'' 300 5 (\<lambda>w. (fst w + 1, snd w)) 5 ''u'' True
     (\<lambda>w. (Inr ''v'', w)) (0, \<lambda>_. None) = (Inr ''v'', (5, \<lambda>_. None :: (string \<times> nat option) option))"
  by (subst get_or_insert_with_lock_no_redis)
    (simp_all add: new_cache_def get_or_insert_def cache_is_available_def compute_and_store_def
      cache_set_def cache_conn_def eval_nat_numeral)

end
