(* ===== verification/RateLimit.thy ===== *)
theory RateLimit
  imports Redis
begin

text \<open>
  \<^verbatim>\<open>crates/distributed-ratelimit\<close>: the fixed-window limiter. The counter and its expiry are
  set by one Lua script; the connection manager is created on the first check and kept.
\<close>

datatype rate_limit_error = NotAvailable | RateRedis

record rate_limit_config =
  key_prefix :: string
  cfg_fail_open :: bool

definition default_rate_limit_config :: rate_limit_config where
  "default_rate_limit_config = \<lparr>key_prefix = ''ratelimit'', cfg_fail_open = True\<rparr>"

record 'r limiter =
  rl_client :: "'r redis_ops option"
  rl_conn :: bool
  rl_config :: rate_limit_config

definition new_limiter :: "'r redis_ops \<Rightarrow> rate_limit_config \<Rightarrow> 'r limiter" where
  "new_limiter client config = \<lparr>rl_client = Some client, rl_conn = False, rl_config = config\<rparr>"

definition disabled_limiter :: "rate_limit_config \<Rightarrow> 'r limiter" where
  "disabled_limiter config = \<lparr>rl_client = None, rl_conn = False, rl_config = config\<rparr>"

definition limiter_is_available :: "'r limiter \<Rightarrow> bool" where
  "limiter_is_available l \<longleftrightarrow> rl_client l \<noteq> None"

definition limiter_fail_open :: "'r limiter \<Rightarrow> bool" where
  "limiter_fail_open l = cfg_fail_open (rl_config l)"

definition build_key :: "rate_limit_config \<Rightarrow> string \<Rightarrow> string" where
  "build_key config bare = (if key_prefix config = [] then bare else key_prefix config @ '':'' @ bare)"

text \<open>\<^verbatim>\<open>conn\<close>: the cached manager, or one exchange that makes it.\<close>

definition limiter_conn :: "'r limiter \<Rightarrow> 'r \<Rightarrow> (rate_limit_error, 'r redis_ops) res \<times> 'r limiter \<times> 'r" where
  "limiter_conn l r =
     (case rl_client l of
        None \<Rightarrow> (Inl NotAvailable, l, r)
      | Some ops \<Rightarrow>
          if rl_conn l then (Inr ops, l, r)
          else (case exchange ops (\<lambda>r. (Some (), r)) r of
                  (None, r') \<Rightarrow> (Inl RateRedis, l, r')
                | (Some _, r') \<Rightarrow> (Inr ops, l\<lparr>rl_conn := True\<rparr>, r')))"

text \<open>The script: INCR, and EXPIRE when the counter was created by it.\<close>

definition inc_and_expire :: "'r redis_ops \<Rightarrow> nat \<Rightarrow> string \<Rightarrow> nat \<Rightarrow> 'r \<Rightarrow> nat option \<times> 'r" where
  "inc_and_expire ops now key window r =
     (case srv_incr ops now key r of
        None \<Rightarrow> (None, r)
      | Some (count, r') \<Rightarrow> (Some count, if count = 1 then srv_expire ops now key window r' else r'))"

definition check_limit ::
    "nat \<Rightarrow> string \<Rightarrow> nat \<Rightarrow> nat \<Rightarrow> 'r limiter \<Rightarrow> 'r \<Rightarrow> (rate_limit_error, bool) res \<times> 'r limiter \<times> 'r" where
  "check_limit now key max_requests window_seconds l r =
     (case limiter_conn l r of
        (Inl e, l', r') \<Rightarrow> (Inl e, l', r')
      | (Inr ops, l', r') \<Rightarrow>
          (case exchange ops (inc_and_expire ops now (build_key (rl_config l) key) window_seconds) r' of
             (None, r'') \<Rightarrow> (Inl RateRedis, l', r'')
           | (Some count, r'') \<Rightarrow> (Inr (count \<le> max_requests), l', r'')))"

text \<open>Requests with the same key, one after the other at the given times.\<close>

fun run_checks ::
    "string \<Rightarrow> nat \<Rightarrow> nat \<Rightarrow> nat list \<Rightarrow> 'r limiter \<Rightarrow> 'r \<Rightarrow> (rate_limit_error, bool) res list \<times> 'r limiter \<times> 'r" where
  "run_checks key m win [] l r = ([], l, r)"
| "run_checks key m win (t # ts) l r =
     (case check_limit t key m win l r of (x, l1, r1) \<Rightarrow>
      case run_checks key m win ts l1 r1 of (xs, l2, r2) \<Rightarrow> (x # xs, l2, r2))"

section \<open>Lemmas\<close>

lemma limiter_conn_result:
  assumes "limiter_conn l r = (x, l', r')"
  shows "rl_config l' = rl_config l" "rl_client l' = rl_client l"
    and "x = Inr ops \<Longrightarrow> rl_client l = Some ops"
    and "rl_client l = Some ops \<Longrightarrow> redis_laws ops view \<Longrightarrow> view r' = view r"
proof -
  show "rl_config l' = rl_config l" "rl_client l' = rl_client l"
    and "x = Inr ops \<Longrightarrow> rl_client l = Some ops"
    using assms by (auto simp: limiter_conn_def split: option.splits if_splits prod.splits)
  assume c: "rl_client l = Some ops" and laws: "redis_laws ops view"
  show "view r' = view r"
    using assms c exchange_read[OF laws, of "\<lambda>r. (Some (), r)" r]
    by (auto simp: limiter_conn_def split: if_splits prod.splits option.splits)
qed

text \<open>The counter of a window that ends at \<^verbatim>\<open>deadline\<close>, after \<^verbatim>\<open>n\<close> requests.\<close>

definition counter_at :: "'r redis_view \<Rightarrow> string \<Rightarrow> nat \<Rightarrow> nat \<Rightarrow> nat \<Rightarrow> 'r \<Rightarrow> bool" where
  "counter_at view key n t0 deadline r \<longleftrightarrow>
     (\<forall>t. t0 \<le> t \<longrightarrow> view r t key = (if t < deadline \<and> 0 < n then Some (show_nat n) else None))"

lemma inc_and_expire_first:
  assumes "redis_laws ops view" "view r now key = None" "0 < window"
  obtains r' where "inc_and_expire ops now key window r = (Some 1, r')"
    "counter_at view key 1 now (now + window) r'"
proof -
  obtain r1 where i: "srv_incr ops now key r = Some (0 + 1, r1)"
    and v: "\<And>t k'. now \<le> t \<Longrightarrow> view r1 t k' = (if k' = key then if view r now key = None then Some (show_nat 1)
        else map_option (\<lambda>_. show_nat (0 + 1)) (view r t key) else view r t k')"
    by (rule redis_incr[OF assms(1), of r now key 0]) (use assms(2) in auto)
  show thesis
  proof (rule that)
    show "inc_and_expire ops now key window r = (Some 1, srv_expire ops now key window r1)"
      using i by (simp add: inc_and_expire_def)
    show "counter_at view key 1 now (now + window) (srv_expire ops now key window r1)"
      using v[of now key] assms by (simp add: counter_at_def redis_expire[OF assms(1)])
  qed
qed

lemma inc_and_expire_next:
  assumes "redis_laws ops view" "counter_at view key n t0 deadline r" "0 < n" "t0 \<le> now" "now < deadline"
  obtains r' where "inc_and_expire ops now key window r = (Some (n + 1), r')"
    "counter_at view key (n + 1) now deadline r'"
proof -
  have s: "view r t key = (if t < deadline then Some (show_nat n) else None)" if "now \<le> t" for t
    using assms(2-4) that by (auto simp: counter_at_def)
  obtain r1 where i: "srv_incr ops now key r = Some (n + 1, r1)"
    and v: "\<And>t k'. now \<le> t \<Longrightarrow> view r1 t k' = (if k' = key then if view r now key = None then Some (show_nat 1)
        else map_option (\<lambda>_. show_nat (n + 1)) (view r t key) else view r t k')"
    by (rule redis_incr[OF assms(1), of r now key n]) (use s[of now] assms(5) in auto)
  show thesis
  proof (rule that)
    show "inc_and_expire ops now key window r = (Some (n + 1), r1)"
      using i assms(3) by (simp add: inc_and_expire_def)
    show "counter_at view key (n + 1) now deadline r1"
      using v[of _ key] s assms(5) by (simp add: counter_at_def)
  qed
qed

lemma counter_at_view: "view r' = view r \<Longrightarrow> counter_at view key n t0 d r' = counter_at view key n t0 d r"
  by (simp add: counter_at_def)

lemma check_limit_Inr:
  assumes "redis_laws ops view" "rl_client l = Some ops" "check_limit now key m win l r = (Inr b, l', r')"
  obtains r0 where "view r0 = view r" "rl_config l' = rl_config l" "rl_client l' = Some ops"
    "\<exists>count. inc_and_expire ops now (build_key (rl_config l) key) win r0 = (Some count, r') \<and> b = (count \<le> m)"
proof -
  obtain x l1 r1 where c: "limiter_conn l r = (x, l1, r1)" by (cases "limiter_conn l r") auto
  note cr = limiter_conn_result[OF c]
  obtain ops' where x: "x = Inr ops'" using assms(3) c by (cases x) (auto simp: check_limit_def)
  have o: "ops' = ops" using cr(3)[OF x] assms(2) by simp
  obtain count where e: "exchange ops (inc_and_expire ops now (build_key (rl_config l) key) win) r1 = (Some count, r')"
    and b: "b = (count \<le> m)" and l: "l' = l1"
    using assms(3) c x o by (auto simp: check_limit_def split: option.splits prod.splits)
  from e obtain r0 where "view r0 = view r1"
    "inc_and_expire ops now (build_key (rl_config l) key) win r0 = (Some count, r')"
    by (rule exchange_Some[OF assms(1)])
  with cr(1,2) cr(4)[OF assms(2,1)] b l assms(2) show thesis
    by (intro that[of r0]) auto
qed

lemma run_checks_counting:
  assumes "redis_laws ops view" "rl_client l = Some ops" "0 < n"
    and "counter_at view (build_key (rl_config l) key) n t0 deadline r"
    and "sorted (t0 # ts)" "\<forall>t \<in> set ts. t < deadline"
    and "run_checks key m win ts l r = (xs, l', r')" "\<forall>x \<in> set xs. \<not> isl x"
  shows "xs = map (\<lambda>i. Inr (n + i < m)) [0..<length ts]"
  using assms(2-8)
proof (induction ts arbitrary: n t0 l r xs)
  case Nil
  then show ?case by simp
next
  case (Cons t ts)
  obtain x l1 r1 where c: "check_limit t key m win l r = (x, l1, r1)" by (cases "check_limit t key m win l r") auto
  obtain xs1 where rc: "run_checks key m win ts l1 r1 = (xs1, l', r')" "xs = x # xs1"
    using Cons.prems(6) c by (auto split: prod.splits)
  obtain b where b: "x = Inr b" using Cons.prems(7) rc(2) by (cases x) auto
  from check_limit_Inr[OF assms(1) Cons.prems(1) c[unfolded b]] obtain r0 where
    k: "view r0 = view r" "rl_config l1 = rl_config l" "rl_client l1 = Some ops"
    and i: "\<exists>count. inc_and_expire ops t (build_key (rl_config l) key) win r0 = (Some count, r1) \<and> b = (count \<le> m)"
    by blast
  have c0: "counter_at view (build_key (rl_config l) key) n t0 deadline r0"
    using Cons.prems(3) by (simp add: counter_at_view[OF k(1)])
  obtain r2 where e: "inc_and_expire ops t (build_key (rl_config l) key) win r0 = (Some (n + 1), r2)"
    "counter_at view (build_key (rl_config l) key) (n + 1) t deadline r2"
    by (rule inc_and_expire_next[OF assms(1) c0 Cons.prems(2)]) (use Cons.prems(4,5) in auto)
  with i have b': "b = (n < m)" and r2: "r2 = r1" by auto
  have "xs1 = map (\<lambda>i. Inr (n + 1 + i < m)) [0..<length ts]"
    by (rule Cons.IH[OF k(3) _ _ _ _ rc(1)])
      (use e(2) r2 k(2) Cons.prems rc(2) in auto)
  then show ?case
    by (simp add: rc(2) b b' map_upt_Suc del: upt_Suc)
qed

section \<open>Properties\<close>

text \<open>C38: a window admits exactly its quota. When no counter is alive and every exchange of
  the checks succeeds, the first \<^verbatim>\<open>m\<close> requests within the window are allowed and every
  later one is refused, however the requests are spread over the window.\<close>

theorem rate_limit_window:
  assumes "redis_laws ops view" "rl_client l = Some ops" "0 < win"
    and "view r t0 (build_key (rl_config l) key) = None"
    and "sorted (t0 # ts)" "\<forall>t \<in> set ts. t < t0 + win"
    and "run_checks key m win (t0 # ts) l r = (xs, l', r')" "\<forall>x \<in> set xs. \<not> isl x"
  shows "xs = map (\<lambda>i. Inr (i < m)) [0..<Suc (length ts)]"
proof -
  obtain x l1 r1 where c: "check_limit t0 key m win l r = (x, l1, r1)" by (cases "check_limit t0 key m win l r") auto
  obtain xs1 where rc: "run_checks key m win ts l1 r1 = (xs1, l', r')" "xs = x # xs1"
    using assms(7) c by (auto split: prod.splits)
  obtain b where b: "x = Inr b" using assms(8) rc(2) by (cases x) auto
  from check_limit_Inr[OF assms(1,2) c[unfolded b]] obtain r0 where
    k: "view r0 = view r" "rl_config l1 = rl_config l" "rl_client l1 = Some ops"
    and i: "\<exists>count. inc_and_expire ops t0 (build_key (rl_config l) key) win r0 = (Some count, r1) \<and> b = (count \<le> m)"
    by blast
  obtain r2 where e: "inc_and_expire ops t0 (build_key (rl_config l) key) win r0 = (Some 1, r2)"
    "counter_at view (build_key (rl_config l) key) 1 t0 (t0 + win) r2"
    by (rule inc_and_expire_first[OF assms(1) _ assms(3), of r0 t0]) (use assms(4) k(1) in auto)
  with i have b': "b = (0 < m)" and r2: "r2 = r1" by auto
  have "xs1 = map (\<lambda>i. Inr (1 + i < m)) [0..<length ts]"
    by (rule run_checks_counting[OF assms(1) k(3) _ _ assms(5,6) rc(1)])
      (use e(2) r2 k(2) assms(8) rc(2) in auto)
  then show ?thesis
    by (simp add: rc(2) b b' map_upt_Suc del: upt_Suc)
qed

lemma rate_limit_window_witness:
  "fst (run_checks ''login'' 2 60 [100, 110, 159] (new_limiter kv_ops default_rate_limit_config) (\<lambda>_. None))
   = [Inr True, Inr True, Inr False]"
proof -
  let ?l = "new_limiter kv_ops default_rate_limit_config"
  have k: "build_key (rl_config ?l) ''login'' = ''ratelimit:login''"
    by (simp add: new_limiter_def default_rate_limit_config_def build_key_def)
  obtain xs l' r' where x: "run_checks ''login'' 2 60 [100, 110, 159] ?l (\<lambda>_. None) = (xs, l', r')"
    by (cases "run_checks ''login'' 2 60 [100, 110, 159] ?l (\<lambda>_. None)") auto
  have s: "show_nat 1 = ''1''" "show_nat 2 = ''2''" "parse_digits ''1'' = Some 1" "parse_digits ''2'' = Some 2"
    by (simp_all add: show_nat.simps digit_chars digit_chars(2)[unfolded One_nat_def] parse_digits_def is_digit_def digits_val_def digit_val_def)
  have d: "\<forall>x \<in> set xs. \<not> isl x"
    using x by (auto simp: check_limit_def limiter_conn_def new_limiter_def exchange_def inc_and_expire_def
        kv_ops_def kv_view_def s[simplified] s numeral_2_eq_2[symmetric] build_key_def default_rate_limit_config_def)
  have "xs = map (\<lambda>i. Inr (i < 2)) [0..<Suc (length [110, 159 :: nat])]"
    by (rule rate_limit_window[OF kv_laws _ _ _ _ _ x d])
      (simp_all add: new_limiter_def kv_view_def)
  then show ?thesis using x by (simp add: upt_rec)
qed

text \<open>A limiter without Redis never decides: every check fails with NotAvailable, whatever the
  limit, and changes nothing. It is the caller's fail-open flag that lets such requests through.\<close>

theorem disabled_limiter_never_allows:
  "check_limit now key m win (disabled_limiter config) r = (Inl NotAvailable, disabled_limiter config, r)"
  by (simp add: check_limit_def limiter_conn_def disabled_limiter_def)

end
