(* ===== verification/Snowflake.thy ===== *)
theory Snowflake
  imports Prelude
begin

text \<open>
  \<^verbatim>\<open>server/src/utils/snowflake.rs\<close>: the id generator, its id layout, the registration of
  worker ids in the database table, and the newtype that travels as a decimal string.
  The generator is modelled twice: as a function of the clock readings of a single caller
  (\<^verbatim>\<open>generate\<close>), and as a step relation on the shared atomics for several callers
  (\<^verbatim>\<open>gen_step\<close>), one atomic operation per step.
\<close>

unbundle bit_operations_syntax

section \<open>Id layout\<close>

definition CUSTOM_EPOCH :: int where "CUSTOM_EPOCH = 1704067200000"
definition WORKER_ID_BITS :: nat where "WORKER_ID_BITS = 10"
definition SEQUENCE_BITS :: nat where "SEQUENCE_BITS = 12"
definition MAX_WORKER_ID :: nat where "MAX_WORKER_ID = 2 ^ WORKER_ID_BITS - 1"
definition MAX_SEQUENCE :: int where "MAX_SEQUENCE = 2 ^ SEQUENCE_BITS - 1"
definition WORKER_ID_SHIFT :: nat where "WORKER_ID_SHIFT = SEQUENCE_BITS"
definition TIMESTAMP_SHIFT :: nat where "TIMESTAMP_SHIFT = SEQUENCE_BITS + WORKER_ID_BITS"

lemmas snowflake_consts =
  CUSTOM_EPOCH_def WORKER_ID_BITS_def SEQUENCE_BITS_def MAX_WORKER_ID_def MAX_SEQUENCE_def
  WORKER_ID_SHIFT_def TIMESTAMP_SHIFT_def

text \<open>\<^verbatim>\<open>compose_id\<close>: the casts, shifts and disjunctions of the source on 64-bit words.\<close>

definition compose_id :: "int \<Rightarrow> nat \<Rightarrow> int \<Rightarrow> int" where
  "compose_id timestamp worker_id seq =
     (let ts_part = push_bit TIMESTAMP_SHIFT (word_of_int timestamp - word_of_int CUSTOM_EPOCH :: 64 word);
          wk_part = push_bit WORKER_ID_SHIFT (word_of_nat worker_id :: 64 word)
      in sint (ts_part OR wk_part OR word_of_int seq))"

definition in_epoch :: "int \<Rightarrow> bool" where
  "in_epoch ts \<longleftrightarrow> CUSTOM_EPOCH \<le> ts \<and> ts < CUSTOM_EPOCH + 2 ^ 41"

lemma or_fields:
  fixes d w s :: "64 word"
  shows "push_bit 22 d OR push_bit 12 (take_bit 10 w) OR take_bit 12 s
         = push_bit 22 d + (push_bit 12 (take_bit 10 w) + take_bit 12 s)"
proof -
  have 1: "push_bit 12 (take_bit 10 w) + take_bit 12 s = push_bit 12 (take_bit 10 w) OR take_bit 12 s"
    by (rule disjunctive_add_eq_or, rule bit_eqI) (auto simp: bit_simps)
  have 2: "push_bit 22 d + (push_bit 12 (take_bit 10 w) OR take_bit 12 s)
           = push_bit 22 d OR (push_bit 12 (take_bit 10 w) OR take_bit 12 s)"
    by (rule disjunctive_add_eq_or, rule bit_eqI) (auto simp: bit_simps)
  show ?thesis unfolding 1 2 by (simp add: or.assoc)
qed

lemma compose_id_value:
  assumes ts: "in_epoch ts" and wk: "wk \<le> MAX_WORKER_ID" and seq: "0 \<le> seq" "seq \<le> MAX_SEQUENCE"
  shows "compose_id ts wk seq = (ts - CUSTOM_EPOCH) * 2 ^ 22 + int wk * 2 ^ 12 + seq"
proof -
  let ?d = "word_of_int (ts - CUSTOM_EPOCH) :: 64 word"
  have w: "word_of_nat wk = (take_bit 10 (word_of_nat wk) :: 64 word)"
    using wk by (simp add: take_bit_of_nat take_bit_nat_eq_self snowflake_consts)
  have s: "word_of_int seq = (take_bit 12 (word_of_int seq) :: 64 word)"
    using seq by (simp add: take_bit_of_int take_bit_int_eq_self snowflake_consts)
  have "push_bit 22 ?d OR push_bit 12 (word_of_nat wk) OR word_of_int seq
        = push_bit 22 ?d + (push_bit 12 (word_of_nat wk) + word_of_int seq)"
    using or_fields[of ?d "word_of_nat wk" "word_of_int seq"] w s by simp
  also have "\<dots> = word_of_int ((ts - CUSTOM_EPOCH) * 2 ^ 22 + int wk * 2 ^ 12 + seq)"
    by (simp add: push_bit_eq_mult)
  finally have e: "compose_id ts wk seq
      = sint (word_of_int ((ts - CUSTOM_EPOCH) * 2 ^ 22 + int wk * 2 ^ 12 + seq) :: 64 word)"
    by (simp add: compose_id_def snowflake_consts)
  have b: "0 \<le> (ts - CUSTOM_EPOCH) * 2 ^ 22 + int wk * 2 ^ 12 + seq"
    "(ts - CUSTOM_EPOCH) * 2 ^ 22 + int wk * 2 ^ 12 + seq < 2 ^ 63"
    using assms by (auto simp: in_epoch_def snowflake_consts)
  then have "signed_take_bit 63 ((ts - CUSTOM_EPOCH) * 2 ^ 22 + int wk * 2 ^ 12 + seq)
      = (ts - CUSTOM_EPOCH) * 2 ^ 22 + int wk * 2 ^ 12 + seq"
    by (intro signed_take_bit_int_eq_self) auto
  then show ?thesis unfolding e sint_sbintrunc' by simp
qed

lemma compose_id_fields:
  assumes "in_epoch ts" "wk \<le> MAX_WORKER_ID" "0 \<le> seq" "seq \<le> MAX_SEQUENCE"
  shows "compose_id ts wk seq div 2 ^ TIMESTAMP_SHIFT + CUSTOM_EPOCH = ts"
    and "compose_id ts wk seq div 2 ^ WORKER_ID_SHIFT mod 2 ^ WORKER_ID_BITS = int wk"
    and "compose_id ts wk seq mod 2 ^ SEQUENCE_BITS = seq"
    and "0 \<le> compose_id ts wk seq" and "in_i64 (compose_id ts wk seq)"
proof -
  let ?d = "ts - CUSTOM_EPOCH"
  have r: "0 \<le> ?d" "?d < 2 ^ 41" "int wk < 2 ^ 10" "0 \<le> seq" "seq < 2 ^ 12"
    using assms by (auto simp: in_epoch_def MAX_WORKER_ID_def MAX_SEQUENCE_def WORKER_ID_BITS_def SEQUENCE_BITS_def)
  have v: "compose_id ts wk seq = ?d * 2 ^ 22 + int wk * 2 ^ 12 + seq"
    using assms by (rule compose_id_value)
  have m: "?d * 2 ^ 22 + int wk * 2 ^ 12 + seq = (?d * 1024 + int wk) * 4096 + seq" by simp
  have q: "compose_id ts wk seq div 4096 = ?d * 1024 + int wk" "compose_id ts wk seq mod 4096 = seq"
    unfolding v m using r(4,5) by (subst div_mult_self3 mod_mult_self3; simp)+
  have t: "compose_id ts wk seq div 4194304 = ?d"
    using r zdiv_zmult2_eq[of 1024 "compose_id ts wk seq" 4096] q(1) by simp
  have w: "(?d * 1024 + int wk) mod 1024 = int wk"
    using r(3) by (subst mod_mult_self3) simp
  have c: "2 ^ TIMESTAMP_SHIFT = (4194304 :: int)" "2 ^ WORKER_ID_SHIFT = (4096 :: int)"
    "2 ^ WORKER_ID_BITS = (1024 :: int)" "2 ^ SEQUENCE_BITS = (4096 :: int)"
    by (simp_all add: TIMESTAMP_SHIFT_def WORKER_ID_SHIFT_def SEQUENCE_BITS_def WORKER_ID_BITS_def)
  show "compose_id ts wk seq div 2 ^ TIMESTAMP_SHIFT + CUSTOM_EPOCH = ts"
    unfolding c t by simp
  show "compose_id ts wk seq div 2 ^ WORKER_ID_SHIFT mod 2 ^ WORKER_ID_BITS = int wk"
    unfolding c q(1) by (rule w)
  show "compose_id ts wk seq mod 2 ^ SEQUENCE_BITS = seq"
    unfolding c by (rule q(2))
  show "0 \<le> compose_id ts wk seq" using r unfolding v by simp
  show "in_i64 (compose_id ts wk seq)"
    using r unfolding v in_i64_def i64_min_def i64_max_def by simp
qed

section \<open>The generator called by one thread\<close>

record snowflake_gen =
  gen_worker_id :: nat
  sequence :: int
  last_timestamp :: int

text \<open>\<^verbatim>\<open>new\<close> panics (\<^const>\<open>None\<close>) on a worker id out of range.\<close>

definition new_generator :: "nat \<Rightarrow> snowflake_gen option" where
  "new_generator wid =
     (if wid \<le> MAX_WORKER_ID
      then Some \<lparr>gen_worker_id = wid, sequence = 0, last_timestamp = 0\<rparr> else None)"

text \<open>
  The clock is the sequence of readings of \<^verbatim>\<open>current_timestamp\<close>: \<^verbatim>\<open>clock k\<close> is the
  k-th reading, and every function returns the number of readings taken so far. A spin loop
  that the clock never leaves is the value \<^const>\<open>None\<close>.
\<close>

partial_function (option) spin_while :: "(nat \<Rightarrow> int) \<Rightarrow> (int \<Rightarrow> bool) \<Rightarrow> nat \<Rightarrow> nat option" where
  "spin_while clock p k = (if p (clock k) then spin_while clock p (Suc k) else Some (Suc k))"

partial_function (option) generate ::
    "(nat \<Rightarrow> int) \<Rightarrow> nat \<Rightarrow> snowflake_gen \<Rightarrow> (int \<times> snowflake_gen \<times> nat) option" where
  "generate clock k g =
     (let last_ts = last_timestamp g; current_ts = clock k in
      if current_ts < last_ts then
        Option.bind (spin_while clock (\<lambda>t. t < last_ts) (Suc k)) (\<lambda>k'. generate clock k' g)
      else if current_ts = last_ts then
        (let seq = sequence g; g' = g\<lparr>sequence := wrap_i64 (seq + 1)\<rparr> in
         if seq mod 2 ^ 64 < MAX_SEQUENCE
         then Some (compose_id current_ts (gen_worker_id g) seq, g', Suc k)
         else Option.bind (spin_while clock (\<lambda>t. t \<le> current_ts) (Suc k))
                (\<lambda>k'. generate clock k' g'))
      else
        Some (compose_id current_ts (gen_worker_id g) 0,
              g\<lparr>last_timestamp := current_ts, sequence := 1\<rparr>, Suc k))"

text \<open>Ids issued one after the other.\<close>

fun generate_many ::
    "(nat \<Rightarrow> int) \<Rightarrow> nat \<Rightarrow> snowflake_gen \<Rightarrow> nat \<Rightarrow> (int list \<times> snowflake_gen \<times> nat) option" where
  "generate_many clock k g 0 = Some ([], g, k)"
| "generate_many clock k g (Suc n) =
     (case generate clock k g of
        None \<Rightarrow> None
      | Some (i, g', k') \<Rightarrow>
          map_option (\<lambda>(is, g'', k''). (i # is, g'', k'')) (generate_many clock k' g' n))"

lemma spin_while_progress:
  "spin_while clock p k = Some k' \<Longrightarrow> k < k'"
  by (erule spin_while.raw_induct[rotated, where P = "\<lambda>clock p k k'. k < k'"])
     (metis Suc_lessD lessI option.inject)

lemma spin_while_returns:
  assumes "\<not> p (clock m)" "k \<le> m"
  shows "\<exists>k'. spin_while clock p k = Some k' \<and> k < k' \<and> k' \<le> Suc m"
  using assms(2)
proof (induction "m - k" arbitrary: k)
  case 0
  then show ?case using assms(1) by (subst spin_while.simps) simp
next
  case (Suc d)
  show ?case
  proof (cases "p (clock k)")
    case True
    from Suc(2) have "d = m - Suc k" "Suc k \<le> m" by simp_all
    from Suc(1)[OF this] obtain k' where "spin_while clock p (Suc k) = Some k'" "Suc k < k'" "k' \<le> Suc m"
      by blast
    with True show ?thesis by (subst spin_while.simps) simp
  next
    case False
    with Suc show ?thesis by (subst spin_while.simps) simp
  qed
qed


lemma generate_induct [consumes 1, case_names backward same exhausted fresh]:
  assumes res: "generate clock k g = Some r"
    and backward: "\<And>k k' g r. clock k < last_timestamp g \<Longrightarrow> k < k' \<Longrightarrow>
          generate clock k' g = Some r \<Longrightarrow> P k' g r \<Longrightarrow> P k g r"
    and same: "\<And>k g. clock k = last_timestamp g \<Longrightarrow> sequence g mod 2 ^ 64 < MAX_SEQUENCE \<Longrightarrow>
          P k g (compose_id (clock k) (gen_worker_id g) (sequence g),
                 g\<lparr>sequence := wrap_i64 (sequence g + 1)\<rparr>, Suc k)"
    and exhausted: "\<And>k k' g r. clock k = last_timestamp g \<Longrightarrow> \<not> sequence g mod 2 ^ 64 < MAX_SEQUENCE \<Longrightarrow>
          k < k' \<Longrightarrow> generate clock k' (g\<lparr>sequence := wrap_i64 (sequence g + 1)\<rparr>) = Some r \<Longrightarrow>
          P k' (g\<lparr>sequence := wrap_i64 (sequence g + 1)\<rparr>) r \<Longrightarrow> P k g r"
    and fresh: "\<And>k g. last_timestamp g < clock k \<Longrightarrow>
          P k g (compose_id (clock k) (gen_worker_id g) 0,
                 g\<lparr>last_timestamp := clock k, sequence := 1\<rparr>, Suc k)"
  shows "P k g r"
proof -
  have "generate clock k g = Some r \<and> P k g r"
    using res
  proof (rule generate.raw_induct[where P = "\<lambda>c k g r. c = clock \<longrightarrow> generate c k g = Some r \<and> P k g r",
        THEN mp, rotated])
    show "clock = clock" by (rule refl)
  next
    fix rec c k g r
    assume IH: "\<And>c k g r. rec c k g = Some r \<Longrightarrow> c = clock \<longrightarrow> generate c k g = Some r \<and> P k g r"
      and body: "(let last_ts = last_timestamp g; current_ts = c k in
      if current_ts < last_ts then
        Option.bind (spin_while c (\<lambda>t. t < last_ts) (Suc k)) (\<lambda>k'. rec c k' g)
      else if current_ts = last_ts then
        (let seq = sequence g; g' = g\<lparr>sequence := wrap_i64 (seq + 1)\<rparr> in
         if seq mod 2 ^ 64 < MAX_SEQUENCE
         then Some (compose_id current_ts (gen_worker_id g) seq, g', Suc k)
         else Option.bind (spin_while c (\<lambda>t. t \<le> current_ts) (Suc k)) (\<lambda>k'. rec c k' g'))
      else
        Some (compose_id current_ts (gen_worker_id g) 0,
              g\<lparr>last_timestamp := current_ts, sequence := 1\<rparr>, Suc k)) = Some r"
    show "c = clock \<longrightarrow> generate c k g = Some r \<and> P k g r"
    proof
      assume c: "c = clock"
      note b = body[unfolded c Let_def]
      consider (B) "clock k < last_timestamp g"
        | (S) "clock k = last_timestamp g" "sequence g mod 2 ^ 64 < MAX_SEQUENCE"
        | (E) "clock k = last_timestamp g" "\<not> sequence g mod 2 ^ 64 < MAX_SEQUENCE"
        | (F) "last_timestamp g < clock k"
        by linarith
      then have "generate clock k g = Some r \<and> P k g r"
      proof cases
        case B
        with b obtain k' where sp: "spin_while clock (\<lambda>t. t < last_timestamp g) (Suc k) = Some k'"
          and rc: "rec clock k' g = Some r"
          by (auto simp: Option.bind_eq_Some_conv)
        have "k < k'" using spin_while_progress[OF sp] by simp
        with B sp IH[OF rc] show ?thesis
          by (auto intro: backward simp: generate.simps[of clock k])
      next
        case S
        with b have "r = (compose_id (clock k) (gen_worker_id g) (sequence g),
                 g\<lparr>sequence := wrap_i64 (sequence g + 1)\<rparr>, Suc k)" by simp
        with S show ?thesis using same[OF S] by (simp add: generate.simps[of clock k] Let_def)
      next
        case E
        with b obtain k' where sp: "spin_while clock (\<lambda>t. t \<le> clock k) (Suc k) = Some k'"
          and rc: "rec clock k' (g\<lparr>sequence := wrap_i64 (sequence g + 1)\<rparr>) = Some r"
          by (auto simp: Option.bind_eq_Some_conv)
        have "k < k'" using spin_while_progress[OF sp] by simp
        with E sp IH[OF rc] show ?thesis
          by (auto intro: exhausted simp: generate.simps[of clock k])
      next
        case F
        with b have "r = (compose_id (clock k) (gen_worker_id g) 0,
                 g\<lparr>last_timestamp := clock k, sequence := 1\<rparr>, Suc k)" by simp
        with F show ?thesis using fresh[OF F] by (simp add: generate.simps[of clock k] Let_def)
      qed
      with c show "generate c k g = Some r \<and> P k g r" by simp
    qed
  qed
  then show ?thesis ..
qed

lemma generate_fresh:
  "last_timestamp g < clock k \<Longrightarrow> generate clock k g =
     Some (compose_id (clock k) (gen_worker_id g) 0, g\<lparr>last_timestamp := clock k, sequence := 1\<rparr>, Suc k)"
  by (subst generate.simps) (simp add: Let_def)

lemma generate_same:
  "clock k = last_timestamp g \<Longrightarrow> sequence g mod 2 ^ 64 < MAX_SEQUENCE \<Longrightarrow> generate clock k g =
     Some (compose_id (clock k) (gen_worker_id g) (sequence g),
           g\<lparr>sequence := wrap_i64 (sequence g + 1)\<rparr>, Suc k)"
  by (subst generate.simps) (simp add: Let_def)

text \<open>
  What every issued id lies below: all ids a generator has issued are smaller than
  \<^verbatim>\<open>gen_bound\<close>, and the next one is not.
\<close>

definition gen_bound :: "snowflake_gen \<Rightarrow> int" where
  "gen_bound g =
     (if last_timestamp g = 0 then 0
      else (last_timestamp g - CUSTOM_EPOCH) * 2 ^ 22 + int (gen_worker_id g) * 2 ^ 12
           + min (sequence g) MAX_SEQUENCE)"

definition gen_inv :: "nat \<Rightarrow> snowflake_gen \<Rightarrow> bool" where
  "gen_inv k g \<longleftrightarrow>
     gen_worker_id g \<le> MAX_WORKER_ID \<and>
     0 \<le> sequence g \<and> sequence g \<le> MAX_SEQUENCE + 1 + int k \<and>
     (last_timestamp g = 0 \<or> in_epoch (last_timestamp g))"

lemma gen_inv_new: "new_generator wid = Some g \<Longrightarrow> gen_inv 0 g \<and> gen_bound g = 0 \<and> gen_worker_id g = wid"
  by (auto simp: new_generator_def gen_inv_def gen_bound_def MAX_SEQUENCE_def split: if_splits)

lemma gen_inv_mono: "gen_inv k g \<Longrightarrow> k \<le> k' \<Longrightarrow> gen_inv k' g"
  by (auto simp: gen_inv_def)

lemma gen_inv_fetch_add:
  assumes "gen_inv k g" "k < 2 ^ 62"
  shows "wrap_i64 (sequence g + 1) = sequence g + 1"
    and "sequence g mod 2 ^ 64 = sequence g"
    and "gen_inv (Suc k) (g\<lparr>sequence := sequence g + 1\<rparr>)"
proof -
  have k: "int k < 2 ^ 62" using assms(2) by (metis of_nat_less_iff of_nat_numeral of_nat_power)
  have "in_i64 (sequence g + 1)"
    using assms(1) k by (auto simp: gen_inv_def in_i64_def i64_min_def i64_max_def snowflake_consts)
  then show "wrap_i64 (sequence g + 1) = sequence g + 1" by (rule wrap_i64_id)
  show "sequence g mod 2 ^ 64 = sequence g"
    using assms(1) k by (auto simp: gen_inv_def snowflake_consts intro!: mod_pos_pos_trivial)
  show "gen_inv (Suc k) (g\<lparr>sequence := sequence g + 1\<rparr>)"
    using assms(1) by (auto simp: gen_inv_def)
qed

lemma generate_progress: "generate clock k g = Some (i, g', k') \<Longrightarrow> k < k'"
  by (induction k g "(i, g', k')" rule: generate_induct) auto

lemma generate_sound:
  assumes "generate clock k g = Some (i, g', k')"
    and "\<And>j. in_epoch (clock j)" "gen_inv k g" "k' < 2 ^ 62"
  shows "gen_inv k' g' \<and> gen_worker_id g' = gen_worker_id g
         \<and> gen_bound g \<le> i \<and> i < gen_bound g'
         \<and> (\<exists>ts seq. in_epoch ts \<and> 0 \<le> seq \<and> seq < MAX_SEQUENCE \<and> i = compose_id ts (gen_worker_id g) seq)"
  using assms(1,3)
proof (induction k g "(i, g', k')" rule: generate_induct)
  case (backward k k1 g)
  then have "gen_inv k1 g" using gen_inv_mono less_imp_le by blast
  with backward show ?case by blast
next
  case (same k g)
  have e: "in_epoch (last_timestamp g)" and nz: "last_timestamp g \<noteq> 0"
    using assms(2)[of k] same by (auto simp: in_epoch_def CUSTOM_EPOCH_def)
  have k: "k < 2 ^ 62" using same assms(4) by simp
  note fa = gen_inv_fetch_add[OF same(6) k]
  have sq: "0 \<le> sequence g" "sequence g < MAX_SEQUENCE" "gen_worker_id g \<le> MAX_WORKER_ID"
    using same fa(2) by (auto simp: gen_inv_def)
  have v: "compose_id (last_timestamp g) (gen_worker_id g) (sequence g)
      = (last_timestamp g - CUSTOM_EPOCH) * 2 ^ 22 + int (gen_worker_id g) * 2 ^ 12 + sequence g"
    by (rule compose_id_value) (use e sq in auto)
  have "\<exists>ts seq. in_epoch ts \<and> 0 \<le> seq \<and> seq < MAX_SEQUENCE
      \<and> compose_id (last_timestamp g) (gen_worker_id g) (sequence g) = compose_id ts (gen_worker_id g) seq"
    using e sq by blast
  moreover have "gen_bound g = compose_id (last_timestamp g) (gen_worker_id g) (sequence g)"
    "gen_bound (g\<lparr>sequence := sequence g + 1\<rparr>) = gen_bound g + 1"
    using v nz sq by (simp_all add: gen_bound_def)
  ultimately show ?case using same(1,3,4,5) fa(3) unfolding fa(1) by auto
next
  case (exhausted k k1 g)
  have k: "k < 2 ^ 62" using exhausted assms(4) generate_progress by fastforce
  note fa = gen_inv_fetch_add[OF exhausted(6) k]
  have nz: "last_timestamp g \<noteq> 0" and m: "MAX_SEQUENCE \<le> sequence g"
    using assms(2)[of k] exhausted(1,2) fa(2) by (auto simp: in_epoch_def CUSTOM_EPOCH_def)
  have "gen_inv k1 (g\<lparr>sequence := sequence g + 1\<rparr>)"
    using fa(3) exhausted(3) gen_inv_mono by (metis Suc_leI)
  moreover have "gen_bound (g\<lparr>sequence := sequence g + 1\<rparr>) = gen_bound g"
    using nz m by (auto simp: gen_bound_def)
  ultimately show ?case using exhausted(5) unfolding fa(1) by simp
next
  case (fresh k g)
  have e: "in_epoch (clock k)" and nz: "clock k \<noteq> 0"
    using assms(2)[of k] by (auto simp: in_epoch_def CUSTOM_EPOCH_def)
  have w: "gen_worker_id g \<le> MAX_WORKER_ID" using fresh by (simp add: gen_inv_def)
  have v: "compose_id (clock k) (gen_worker_id g) 0
      = (clock k - CUSTOM_EPOCH) * 2 ^ 22 + int (gen_worker_id g) * 2 ^ 12"
    using compose_id_value[OF e w, of 0] by (simp add: MAX_SEQUENCE_def)
  have le: "gen_bound g \<le> compose_id (clock k) (gen_worker_id g) 0"
  proof (cases "last_timestamp g = 0")
    case True
    then show ?thesis using e unfolding v by (simp add: gen_bound_def in_epoch_def)
  next
    case False
    have "(last_timestamp g - CUSTOM_EPOCH + 1) * 2 ^ 22 \<le> (clock k - CUSTOM_EPOCH) * 2 ^ 22"
      using fresh(1) by (intro mult_right_mono) auto
    moreover have "min (sequence g) MAX_SEQUENCE < 2 ^ 12" by (auto simp: snowflake_consts)
    ultimately show ?thesis using False unfolding v by (simp add: gen_bound_def)
  qed
  have "\<exists>ts seq. in_epoch ts \<and> 0 \<le> seq \<and> seq < MAX_SEQUENCE
      \<and> compose_id (clock k) (gen_worker_id g) 0 = compose_id ts (gen_worker_id g) seq"
    using e by (intro exI[of _ "clock k"] exI[of _ "0 :: int"]) (simp add: snowflake_consts)
  moreover have "gen_inv (Suc k) (g\<lparr>last_timestamp := clock k, sequence := 1\<rparr>)"
    "compose_id (clock k) (gen_worker_id g) 0 < gen_bound (g\<lparr>last_timestamp := clock k, sequence := 1\<rparr>)"
    using v e nz w by (simp_all add: gen_inv_def gen_bound_def snowflake_consts)
  ultimately show ?case using fresh(2,3,4) le by auto
qed

lemma generate_returns:
  assumes "\<And>j. m \<le> j \<Longrightarrow> last_timestamp g < clock j"
  shows "\<exists>r. generate clock k g = Some r"
  using assms
proof (induction "m - k" arbitrary: k g rule: less_induct)
  case less
  show ?case
  proof (cases "last_timestamp g < clock k")
    case True
    then show ?thesis by (subst generate.simps) (simp add: Let_def)
  next
    case False
    then have km: "k < m" using less(2)[of k] by (meson not_le)
    have later: "\<exists>k'. spin_while clock p (Suc k) = Some k' \<and> Suc k < k'"
      if "\<not> p (clock m)" for p
      using spin_while_returns[of p clock m "Suc k"] that km by auto
    have ih: "\<exists>r. generate clock k' g' = Some r"
      if "Suc k < k'" "last_timestamp g' = last_timestamp g" for k' g'
      by (rule less(1)) (use that km less(2) in auto)
    have lm: "last_timestamp g < clock m" using less(2)[of m] by simp
    obtain k1 where k1: "spin_while clock (\<lambda>t. t < last_timestamp g) (Suc k) = Some k1" "Suc k < k1"
      using later[of "\<lambda>t. t < last_timestamp g"] lm by auto
    obtain k2 where k2: "spin_while clock (\<lambda>t. t \<le> last_timestamp g) (Suc k) = Some k2" "Suc k < k2"
      using later[of "\<lambda>t. t \<le> last_timestamp g"] lm by auto
    obtain r where r: "generate clock k1 g = Some r" using ih[OF k1(2)] by blast
    obtain r' where "generate clock k2 (g\<lparr>sequence := wrap_i64 (sequence g + 1)\<rparr>) = Some r'"
      using ih[OF k2(2), of "g\<lparr>sequence := wrap_i64 (sequence g + 1)\<rparr>"] by auto
    with r k1(1) k2(1) False show ?thesis
      by (cases r; cases r') (subst generate.simps, simp add: Let_def)
  qed
qed

lemma generate_many_progress: "generate_many clock k g n = Some (is, g', k') \<Longrightarrow> k \<le> k'"
  by (induction n arbitrary: k g "is")
    (auto split: option.splits dest!: generate_progress, fastforce)

lemma generate_many_sound:
  assumes "generate_many clock k g n = Some (is, g', k')"
    and "\<And>j. in_epoch (clock j)" "gen_inv k g" "k' < 2 ^ 62"
  shows "gen_inv k' g' \<and> sorted_wrt (<) is \<and> (\<forall>i \<in> set is. gen_bound g \<le> i) \<and> length is = n
         \<and> (\<forall>i \<in> set is. \<exists>ts seq. in_epoch ts \<and> 0 \<le> seq \<and> seq < MAX_SEQUENCE
                \<and> i = compose_id ts (gen_worker_id g) seq)"
  using assms(1,3)
proof (induction n arbitrary: k g "is")
  case 0
  then show ?case by simp
next
  case (Suc n)
  obtain i g1 k1 is1 where g1: "generate clock k g = Some (i, g1, k1)"
    and m: "generate_many clock k1 g1 n = Some (is1, g', k')" and "is": "is = i # is1"
    using Suc.prems(1) by (auto split: option.splits)
  have "k1 \<le> k'" using m by (rule generate_many_progress)
  then have "k1 < 2 ^ 62" using assms(4) by simp
  note s = generate_sound[OF g1 assms(2) Suc.prems(2) this]
  note t = Suc.IH[OF m] s
  then have "\<forall>j \<in> set is1. i < j" by fastforce
  then show ?case unfolding "is" using t by (auto intro: less_imp_le order.trans)
qed

section \<open>Several callers\<close>

text \<open>
  The same method run by several threads on the shared atomics: each step is one atomic
  operation (a load, a clock reading, a fetch-and-add, a compare-exchange, a store).
  A thread's program counter remembers the values it has read.
\<close>

datatype gen_pc =
    Idle
  | LoadedTs int
  | HaveTs int int
  | SpinUntil int
  | WonCas int
  | ResetDone int

record gen_shared =
  sh_worker_id :: nat
  sh_sequence :: int
  sh_last :: int
  sh_clock :: int
  sh_pc :: "nat \<Rightarrow> gen_pc"
  sh_issued :: "int list"

abbreviation goto :: "nat \<Rightarrow> gen_pc \<Rightarrow> gen_shared \<Rightarrow> gen_shared" where
  "goto i pc s \<equiv> s\<lparr>sh_pc := (sh_pc s)(i := pc)\<rparr>"

text \<open>The next atomic operation of thread \<^verbatim>\<open>i\<close> of the loop of \<^verbatim>\<open>generate\<close>.\<close>

definition thread_step :: "nat \<Rightarrow> gen_shared \<Rightarrow> gen_shared" where
  "thread_step i s =
     (case sh_pc s i of
        Idle \<Rightarrow> goto i (LoadedTs (sh_last s)) s
      | LoadedTs l \<Rightarrow> goto i (HaveTs l (sh_clock s)) s
      | HaveTs l c \<Rightarrow>
          if c < l then goto i (SpinUntil l) s
          else if c = l then
            (let seq = sh_sequence s; s' = s\<lparr>sh_sequence := wrap_i64 (seq + 1)\<rparr> in
             if seq mod 2 ^ 64 < MAX_SEQUENCE
             then goto i Idle (s'\<lparr>sh_issued := compose_id c (sh_worker_id s) seq # sh_issued s\<rparr>)
             else goto i (SpinUntil (c + 1)) s')
          else if sh_last s = l then goto i (WonCas c) (s\<lparr>sh_last := c\<rparr>)
          else goto i Idle s
      | SpinUntil l \<Rightarrow> if sh_clock s < l then s else goto i Idle s
      | WonCas c \<Rightarrow> goto i (ResetDone c) (s\<lparr>sh_sequence := 0\<rparr>)
      | ResetDone c \<Rightarrow>
          (let seq = sh_sequence s in
           goto i Idle (s\<lparr>sh_sequence := wrap_i64 (seq + 1),
                          sh_issued := compose_id c (sh_worker_id s) seq # sh_issued s\<rparr>)))"

inductive gen_step :: "gen_shared \<Rightarrow> gen_shared \<Rightarrow> bool" where
  clock_read: "gen_step s (s\<lparr>sh_clock := c\<rparr>)"
| thread: "gen_step s (thread_step i s)"

inductive gen_reachable :: "gen_shared \<Rightarrow> gen_shared \<Rightarrow> bool" for s0 where
  start: "gen_reachable s0 s0"
| step: "gen_reachable s0 s \<Longrightarrow> gen_step s s' \<Longrightarrow> gen_reachable s0 s'"

inductive_cases gen_stepE: "gen_step s s'"

definition gen_start :: "nat \<Rightarrow> int \<Rightarrow> gen_shared" where
  "gen_start wid now =
     \<lparr>sh_worker_id = wid, sh_sequence = 0, sh_last = 0, sh_clock = now, sh_pc = (\<lambda>_. Idle), sh_issued = []\<rparr>"

text \<open>A schedule: the threads in the order they take their steps, at a standing clock.\<close>

definition run_threads :: "nat list \<Rightarrow> gen_shared \<Rightarrow> gen_shared" where
  "run_threads is s = foldl (\<lambda>s i. thread_step i s) s is"

lemma run_threads_reachable:
  "gen_reachable s0 s \<Longrightarrow> gen_reachable s0 (run_threads is s)"
  unfolding run_threads_def
  by (induction "is" arbitrary: s) (auto intro: gen_reachable.step gen_step.thread)

text \<open>The shared timestamp never moves backwards, whatever the schedule and the clock do.\<close>

lemma thread_step_last_mono: "sh_last s \<le> sh_last (thread_step i s)"
  by (auto simp: thread_step_def Let_def split: gen_pc.splits)

lemma gen_reachable_last_mono: "gen_reachable s s' \<Longrightarrow> sh_last s \<le> sh_last s'"
proof (induction rule: gen_reachable.induct)
  case start
  show ?case by simp
next
  case (step s s')
  from step.hyps(2) have "sh_last s \<le> sh_last s'"
    by (cases rule: gen_step.cases) (simp_all add: thread_step_last_mono)
  with step.IH show ?case by simp
qed

section \<open>Worker registration\<close>

text \<open>
  The table \<^verbatim>\<open>snowflake_worker\<close>, keyed by its primary key; times in milliseconds. Database
  failures are an input: \<^verbatim>\<open>db_err\<close> says which statement fails and with what message.
  Inserts of other nodes between the query and our insert are the input \<^verbatim>\<open>others\<close>.
\<close>

record worker_row =
  w_host :: string
  w_pid :: int
  w_heartbeat :: int
  w_created_at :: int

type_synonym worker_table = "nat \<rightharpoonup> worker_row"

datatype snowflake_error = NoAvailableWorker | WorkerIdTaken | Db string

datatype worker_stmt = CleanStale | SelectUsed | InsertWorker nat | Heartbeat | Deregister

type_synonym worker_db_err = "worker_stmt \<Rightarrow> string option"

definition STALE_WORKER_SECS :: int where "STALE_WORKER_SECS = 30"
definition HEARTBEAT_INTERVAL_SECS :: int where "HEARTBEAT_INTERVAL_SECS = 10"

definition clean_stale_workers ::
    "worker_db_err \<Rightarrow> int \<Rightarrow> worker_table \<Rightarrow> (snowflake_error, worker_table) res" where
  "clean_stale_workers db_err now tbl =
     (case db_err CleanStale of
        Some e \<Rightarrow> Inl (Db e)
      | None \<Rightarrow> Inr (\<lambda>w. case tbl w of None \<Rightarrow> None
                   | Some r \<Rightarrow> if w_heartbeat r < now - STALE_WORKER_SECS * 1000 then None else Some r))"

definition try_insert_worker ::
    "worker_db_err \<Rightarrow> int \<Rightarrow> string \<Rightarrow> int \<Rightarrow> nat \<Rightarrow> worker_table \<Rightarrow> (snowflake_error, worker_table) res" where
  "try_insert_worker db_err now host pid wid tbl =
     (case db_err (InsertWorker wid) of
        Some e \<Rightarrow> Inl (Db e)
      | None \<Rightarrow>
          if tbl wid \<noteq> None then Inl WorkerIdTaken
          else Inr (tbl(wid \<mapsto> \<lparr>w_host = host, w_pid = pid, w_heartbeat = now, w_created_at = now\<rparr>)))"

fun find_worker_id ::
    "worker_db_err \<Rightarrow> int \<Rightarrow> string \<Rightarrow> int \<Rightarrow> (nat \<Rightarrow> worker_table \<Rightarrow> worker_table) \<Rightarrow> (nat \<Rightarrow> bool) \<Rightarrow>
      nat list \<Rightarrow> worker_table \<Rightarrow> (snowflake_error, nat) res \<times> worker_table" where
  "find_worker_id db_err now host pid others used [] tbl = (Inl NoAvailableWorker, tbl)"
| "find_worker_id db_err now host pid others used (wid # wids) tbl =
     (if used wid then find_worker_id db_err now host pid others used wids tbl
      else
        let tbl' = others wid tbl in
        case try_insert_worker db_err now host pid wid tbl' of
          Inr tbl'' \<Rightarrow> (Inr wid, tbl'')
        | Inl WorkerIdTaken \<Rightarrow> find_worker_id db_err now host pid others used wids tbl'
        | Inl e \<Rightarrow> (Inl e, tbl'))"

definition register_worker ::
    "worker_db_err \<Rightarrow> int \<Rightarrow> string \<Rightarrow> int \<Rightarrow> (nat \<Rightarrow> worker_table \<Rightarrow> worker_table) \<Rightarrow>
      worker_table \<Rightarrow> (snowflake_error, nat) res \<times> worker_table" where
  "register_worker db_err now host pid others tbl =
     (case clean_stale_workers db_err now tbl of
        Inl e \<Rightarrow> (Inl e, tbl)
      | Inr tbl1 \<Rightarrow>
          (case db_err SelectUsed of
             Some e \<Rightarrow> (Inl (Db e), tbl1)
           | None \<Rightarrow> find_worker_id db_err now host pid others (\<lambda>w. tbl1 w \<noteq> None)
                       [0..<Suc MAX_WORKER_ID] tbl1))"

definition heartbeat :: "worker_db_err \<Rightarrow> int \<Rightarrow> nat \<Rightarrow> worker_table \<Rightarrow> (snowflake_error, worker_table) res" where
  "heartbeat db_err now wid tbl =
     (case db_err Heartbeat of
        Some e \<Rightarrow> Inl (Db e)
      | None \<Rightarrow> Inr (case tbl wid of None \<Rightarrow> tbl | Some r \<Rightarrow> tbl(wid \<mapsto> r\<lparr>w_heartbeat := now\<rparr>)))"

definition deregister_worker :: "worker_db_err \<Rightarrow> nat \<Rightarrow> worker_table \<Rightarrow> (snowflake_error, worker_table) res" where
  "deregister_worker db_err wid tbl =
     (case db_err Deregister of Some e \<Rightarrow> Inl (Db e) | None \<Rightarrow> Inr (tbl(wid := None)))"

text \<open>
  \<^verbatim>\<open>init\<close>: the process state is the table, the global generator (a \<^verbatim>\<open>OnceLock\<close>) and the
  worker ids whose heartbeat task runs. \<^verbatim>\<open>race\<close> is the generator another task of the process
  stores while \<^verbatim>\<open>register_worker\<close> is awaited.
\<close>

record snowflake_sys =
  sf_table :: worker_table
  sf_global :: "snowflake_gen option"
  sf_tasks :: "nat list"

record worker_handle =
  wh_worker_id :: nat
  wh_stop :: bool

definition snowflake_init ::
    "worker_db_err \<Rightarrow> int \<Rightarrow> string \<Rightarrow> int \<Rightarrow> (nat \<Rightarrow> worker_table \<Rightarrow> worker_table) \<Rightarrow>
      snowflake_gen option \<Rightarrow> (snowflake_sys, snowflake_error, worker_handle) prog" where
  "snowflake_init db_err now host pid others race s =
     (case sf_global s of
        Some _ \<Rightarrow> (Inr \<lparr>wh_worker_id = 0, wh_stop = False\<rparr>, s)
      | None \<Rightarrow>
          (case register_worker db_err now host pid others (sf_table s) of
             (Inl e, tbl) \<Rightarrow> (Inl e, s\<lparr>sf_table := tbl\<rparr>)
           | (Inr wid, tbl) \<Rightarrow>
               (case race of
                  Some g \<Rightarrow>
                    (Inr \<lparr>wh_worker_id = 0, wh_stop = False\<rparr>,
                     s\<lparr>sf_global := Some g,
                       sf_table := (case deregister_worker db_err wid tbl of Inl _ \<Rightarrow> tbl | Inr t \<Rightarrow> t)\<rparr>)
                | None \<Rightarrow>
                    (Inr \<lparr>wh_worker_id = wid, wh_stop = True\<rparr>,
                     s\<lparr>sf_global := new_generator wid, sf_table := tbl, sf_tasks := wid # sf_tasks s\<rparr>))))"

text \<open>The background task: ticks of the interval until the handle is dropped.\<close>

datatype heartbeat_event = HbTick int | HbStop

fun heartbeat_task :: "worker_db_err \<Rightarrow> nat \<Rightarrow> heartbeat_event list \<Rightarrow> worker_table \<Rightarrow> worker_table" where
  "heartbeat_task db_err wid [] tbl = tbl"
| "heartbeat_task db_err wid (HbTick now # es) tbl =
     heartbeat_task db_err wid es (case heartbeat db_err now wid tbl of Inl _ \<Rightarrow> tbl | Inr t \<Rightarrow> t)"
| "heartbeat_task db_err wid (HbStop # es) tbl =
     (case deregister_worker db_err wid tbl of Inl _ \<Rightarrow> tbl | Inr t \<Rightarrow> t)"

section \<open>The serialised id\<close>

text \<open>The three kinds of JSON value the visitor accepts; every other kind is a type error.\<close>

datatype id_json = JsonI64 int | JsonU64 nat | JsonStr string | JsonOther

datatype snowflake_id = SnowflakeId (as_i64: int)

definition serialize_id :: "snowflake_id \<Rightarrow> id_json" where
  "serialize_id i = JsonStr (show_int (as_i64 i))"

definition id_from_str :: "string \<Rightarrow> snowflake_id option" where
  "id_from_str s = map_option SnowflakeId (parse_i64 s)"

definition deserialize_id :: "id_json \<Rightarrow> snowflake_id option" where
  "deserialize_id j =
     (case j of
        JsonI64 v \<Rightarrow> Some (SnowflakeId v)
      | JsonU64 v \<Rightarrow> if int v > i64_max then None else Some (SnowflakeId (int v))
      | JsonStr v \<Rightarrow> map_option SnowflakeId (parse_i64 v)
      | JsonOther \<Rightarrow> None)"

section \<open>Lemmas on registration\<close>

lemma clean_keeps_fresh:
  "clean_stale_workers db_err now tbl = Inr tbl1 \<Longrightarrow> tbl w = Some r \<Longrightarrow>
   now - STALE_WORKER_SECS * 1000 \<le> w_heartbeat r \<Longrightarrow> tbl1 w = Some r"
  by (auto simp: clean_stale_workers_def split: option.splits)

lemma find_worker_id_sound:
  assumes "find_worker_id db_err now host pid others used wids tbl = (Inr wid, tbl')"
    and "\<And>v t w. t w \<noteq> None \<Longrightarrow> others v t w \<noteq> None"
  shows "wid \<in> set wids \<and> \<not> used wid
         \<and> (\<exists>t. t wid = None \<and> (\<forall>w. tbl w \<noteq> None \<longrightarrow> t w \<noteq> None)
              \<and> tbl' = t(wid \<mapsto> \<lparr>w_host = host, w_pid = pid, w_heartbeat = now, w_created_at = now\<rparr>))"
  using assms(1)
proof (induction wids arbitrary: tbl)
  case Nil
  then show ?case by simp
next
  case (Cons v wids)
  show ?case
  proof (cases "used v")
    case True
    then show ?thesis using Cons.IH Cons.prems by auto
  next
    case False
    show ?thesis
    proof (cases "try_insert_worker db_err now host pid v (others v tbl)")
      case (Inl e)
      then have "find_worker_id db_err now host pid others used wids (others v tbl) = (Inr wid, tbl')"
        using False Cons.prems by (cases e) (auto simp: Let_def)
      from Cons.IH[OF this] show ?thesis using assms(2) by (metis list.set_intros(2))
    next
      case (Inr t)
      then show ?thesis using False Cons.prems assms(2)[of tbl _ v]
        by (auto simp: Let_def try_insert_worker_def split: option.splits if_splits
            intro!: exI[of _ "others v tbl"])
    qed
  qed
qed

lemma find_worker_id_quiet:
  assumes "\<And>x. db_err x = None"
  shows "find_worker_id db_err now host pid (\<lambda>_ t. t) (\<lambda>w. tbl w \<noteq> None) wids tbl =
    (case find (\<lambda>w. tbl w = None) wids of
       None \<Rightarrow> (Inl NoAvailableWorker, tbl)
     | Some w \<Rightarrow> (Inr w, tbl(w \<mapsto> \<lparr>w_host = host, w_pid = pid, w_heartbeat = now, w_created_at = now\<rparr>)))"
  by (induction wids) (auto simp: try_insert_worker_def assms)

section \<open>Properties\<close>

text \<open>C7: ids issued one after the other by one caller are strictly increasing 64-bit integers, and
  each holds its millisecond, the worker id of its generator and a sequence number below the
  limit in disjoint bit fields. The clock may stand still or jump backwards.\<close>

theorem snowflake_ids_increasing:
  assumes "new_generator wid = Some g"
    and "generate_many clock 0 g n = Some (is, g', k')"
    and "\<And>j. in_epoch (clock j)" and "k' < 2 ^ 62"
  shows "sorted_wrt (<) is \<and> length is = n
    \<and> (\<forall>i \<in> set is. in_i64 i \<and> 0 \<le> i \<and> i div 2 ^ WORKER_ID_SHIFT mod 2 ^ WORKER_ID_BITS = int wid
          \<and> in_epoch (i div 2 ^ TIMESTAMP_SHIFT + CUSTOM_EPOCH) \<and> i mod 2 ^ SEQUENCE_BITS < MAX_SEQUENCE)"
proof -
  note new = gen_inv_new[OF assms(1)]
  then have w: "wid \<le> MAX_WORKER_ID" by (auto simp: gen_inv_def)
  have s: "gen_inv 0 g" using new by simp
  note r = generate_many_sound[OF assms(2,3) s assms(4)]
  have "in_i64 i \<and> 0 \<le> i \<and> i div 2 ^ WORKER_ID_SHIFT mod 2 ^ WORKER_ID_BITS = int wid
          \<and> in_epoch (i div 2 ^ TIMESTAMP_SHIFT + CUSTOM_EPOCH) \<and> i mod 2 ^ SEQUENCE_BITS < MAX_SEQUENCE"
    if i: "i \<in> set is" for i
  proof -
    obtain ts sq where c: "in_epoch ts" "0 \<le> sq" "sq < MAX_SEQUENCE" "i = compose_id ts wid sq"
      using r i new by auto
    from compose_id_fields[OF c(1) w c(2) less_imp_le[OF c(3)]] c show ?thesis by simp
  qed
  then show ?thesis using r by blast
qed

lemma snowflake_ids_increasing_witness:
  "sorted_wrt (<) [4096, 4097, 4098 :: int]"
proof -
  let ?c = "\<lambda>_ :: nat. CUSTOM_EPOCH"
  let ?g = "\<lparr>gen_worker_id = 1, sequence = 0, last_timestamp = 0\<rparr>"
  have n: "new_generator 1 = Some ?g" by (simp add: new_generator_def snowflake_consts)
  have v: "compose_id CUSTOM_EPOCH 1 q = 4096 + q" if "q \<in> {0, 1, 2}" for q
    using that compose_id_value[of CUSTOM_EPOCH 1 q] by (auto simp: in_epoch_def snowflake_consts)
  have m: "generate_many ?c 0 ?g 3 = Some ([4096, 4097, 4098],
      ?g\<lparr>last_timestamp := CUSTOM_EPOCH, sequence := 3\<rparr>, 3)"
    by (simp add: numeral_3_eq_3 generate_fresh generate_same v CUSTOM_EPOCH_def MAX_SEQUENCE_def
        SEQUENCE_BITS_def wrap_i64_def v[unfolded CUSTOM_EPOCH_def One_nat_def])
  show ?thesis
    using snowflake_ids_increasing[OF n m] by (simp add: in_epoch_def)
qed

text \<open>The generator always returns when the clock gets past the last timestamp for good: neither the
  wait after a clock step backwards nor the wait after an exhausted sequence can spin forever.\<close>

theorem snowflake_generate_returns:
  assumes "\<And>j. m \<le> j \<Longrightarrow> last_timestamp g < clock j"
  shows "\<exists>i g' k'. generate clock k g = Some (i, g', k') \<and> k < k'"
  using generate_returns[of m g clock k] assms generate_progress by fastforce

lemma snowflake_generate_returns_witness:
  "\<exists>i g' k'. generate (\<lambda>j. int j) 0 \<lparr>gen_worker_id = 1, sequence = 5000, last_timestamp = 7\<rparr> = Some (i, g', k') \<and> 0 < k'"
  by (rule snowflake_generate_returns[of 8]) simp

text \<open>C35: under concurrent callers the same id can be issued twice in one millisecond: a second
  caller that reads the timestamp the winner of the compare-exchange has just published, and runs
  its fetch-and-add before the winner resets the sequence, gets a number the winner hands out
  again after the reset. It holds for every worker id and every millisecond.\<close>

theorem snowflake_duplicate_id_reachable:
  "\<exists>s. gen_reachable (gen_start wid (CUSTOM_EPOCH + int ms)) s
     \<and> sh_issued s = [compose_id (CUSTOM_EPOCH + int ms) wid 0, compose_id (CUSTOM_EPOCH + int ms) wid 0]"
proof -
  let ?s = "run_threads [1, 1, 1, 2, 2, 2, 1, 1] (gen_start wid (CUSTOM_EPOCH + int ms))"
  have "gen_reachable (gen_start wid (CUSTOM_EPOCH + int ms)) ?s"
    by (rule run_threads_reachable) (rule gen_reachable.start)
  moreover have "sh_issued ?s = [compose_id (CUSTOM_EPOCH + int ms) wid 0, compose_id (CUSTOM_EPOCH + int ms) wid 0]"
    by (simp add: run_threads_def gen_start_def thread_step_def Let_def CUSTOM_EPOCH_def
        MAX_SEQUENCE_def SEQUENCE_BITS_def)
  ultimately show ?thesis by blast
qed

text \<open>C39: a successful registration never takes the worker id of a live node: an id whose row was
  refreshed within the last 30 seconds stays in the table and is not handed out, whatever other
  nodes insert meanwhile; the id handed out is in range and its row is the new node's.\<close>

theorem register_worker_exclusive:
  assumes "register_worker db_err now host pid others tbl = (Inr wid, tbl')"
    and "tbl w = Some r" and "now - STALE_WORKER_SECS * 1000 \<le> w_heartbeat r"
    and "\<And>v t x. t x \<noteq> None \<Longrightarrow> others v t x \<noteq> None"
  shows "wid \<noteq> w \<and> tbl' w \<noteq> None \<and> wid \<le> MAX_WORKER_ID
    \<and> tbl' wid = Some \<lparr>w_host = host, w_pid = pid, w_heartbeat = now, w_created_at = now\<rparr>"
proof -
  obtain tbl1 where c: "clean_stale_workers db_err now tbl = Inr tbl1"
    and f: "find_worker_id db_err now host pid others (\<lambda>w. tbl1 w \<noteq> None) [0..<Suc MAX_WORKER_ID] tbl1 = (Inr wid, tbl')"
    using assms(1) by (auto simp: register_worker_def split: sum.splits option.splits)
  have "tbl1 w = Some r" by (rule clean_keeps_fresh[OF c assms(2,3)])
  with find_worker_id_sound[OF f assms(4)] show ?thesis by fastforce
qed

lemma register_worker_exclusive_witness:
  "snd (register_worker (\<lambda>_. None) 120000 ''b'' 8 (\<lambda>_ t. t)
      [0 \<mapsto> \<lparr>w_host = ''a'', w_pid = 7, w_heartbeat = 100000, w_created_at = 0\<rparr>]) 1
   = Some \<lparr>w_host = ''b'', w_pid = 8, w_heartbeat = 120000, w_created_at = 120000\<rparr>"
proof -
  let ?r = "\<lparr>w_host = ''a'', w_pid = 7, w_heartbeat = 100000, w_created_at = 0\<rparr>"
  let ?n = "\<lparr>w_host = ''b'', w_pid = 8, w_heartbeat = 120000, w_created_at = 120000\<rparr>"
  have m: "Suc MAX_WORKER_ID = 1024" by (simp add: MAX_WORKER_ID_def WORKER_ID_BITS_def)
  have u: "[0..<Suc MAX_WORKER_ID] = 0 # 1 # [2..<1024]"
    unfolding m using upt_conv_Cons[of 0 1024] upt_conv_Cons[of "Suc 0" 1024]
    by (simp add: numeral_2_eq_2 del: upt_rec_numeral)
  have c: "clean_stale_workers (\<lambda>_. None) 120000 [0 \<mapsto> ?r] = Inr [0 \<mapsto> ?r]"
    by (simp add: clean_stale_workers_def STALE_WORKER_SECS_def fun_eq_iff)
  have reg: "register_worker (\<lambda>_. None) 120000 ''b'' 8 (\<lambda>_ t. t) [0 \<mapsto> ?r] = (Inr 1, [0 \<mapsto> ?r, 1 \<mapsto> ?n])"
    unfolding register_worker_def c u by (simp add: try_insert_worker_def del: upt_rec_numeral)
  from register_worker_exclusive[OF reg, of 0 ?r] show ?thesis
    unfolding reg by (simp add: STALE_WORKER_SECS_def)
qed

text \<open>Without interference and database errors, registration takes the lowest worker id that is
  free after the stale rows are removed, and fails with NoAvailableWorker exactly when all 1024
  are held by live nodes.\<close>

theorem register_worker_lowest:
  fixes tbl :: worker_table and now :: int
  defines "live \<equiv> (\<lambda>w. \<exists>r. tbl w = Some r \<and> now - 30000 \<le> w_heartbeat r)"
  shows "(case fst (register_worker (\<lambda>_. None) now host pid (\<lambda>_ t. t) tbl) of
            Inr wid \<Rightarrow> \<not> live wid \<and> wid < 1024 \<and> {w. w < wid} \<subseteq> {w. live w}
          | Inl e \<Rightarrow> e = NoAvailableWorker \<and> {w. w < 1024} \<subseteq> {w. live w})"
proof -
  obtain tbl1 where t: "clean_stale_workers (\<lambda>_. None) now tbl = Inr tbl1"
    by (simp add: clean_stale_workers_def)
  then have l: "tbl1 w = None \<longleftrightarrow> \<not> live w" for w
    by (auto simp: clean_stale_workers_def live_def STALE_WORKER_SECS_def split: option.splits)
  have m: "Suc MAX_WORKER_ID = 1024" by (simp add: MAX_WORKER_ID_def WORKER_ID_BITS_def)
  have r: "register_worker (\<lambda>_. None) now host pid (\<lambda>_ t. t) tbl =
      find_worker_id (\<lambda>_. None) now host pid (\<lambda>_ t. t) (\<lambda>w. tbl1 w \<noteq> None) [0..<1024] tbl1"
    unfolding register_worker_def t m by simp
  show ?thesis
  proof (cases "find (\<lambda>w. tbl1 w = None) [0..<1024]")
    case None
    then have "\<forall>v < 1024. live v" unfolding find_None_iff by (auto simp: l)
    then show ?thesis unfolding r using None
      by (subst find_worker_id_quiet) auto
  next
    case (Some w)
    then have "\<not> live w \<and> w < 1024 \<and> (\<forall>v < w. live v)"
      unfolding find_Some_iff by (auto simp: l)
    then show ?thesis unfolding r using Some
      by (subst find_worker_id_quiet) auto
  qed
qed

text \<open>Every id survives the trip through JSON: it is written as a decimal string and read back
  unchanged, both as that string and as a JSON number; numbers above the signed range are refused.\<close>

theorem snowflake_id_roundtrip:
  "in_i64 v \<Longrightarrow>
     deserialize_id (serialize_id (SnowflakeId v)) = Some (SnowflakeId v)
   \<and> id_from_str (show_int v) = Some (SnowflakeId v)
   \<and> deserialize_id (if v < 0 then JsonI64 v else JsonU64 (nat v)) = Some (SnowflakeId v)
   \<and> deserialize_id (JsonU64 (nat i64_max + 1 + n)) = None"
  by (auto simp: deserialize_id_def serialize_id_def id_from_str_def parse_i64_show_int
      in_i64_def i64_max_def)

lemma snowflake_id_roundtrip_witness:
  "deserialize_id (serialize_id (SnowflakeId (-42))) = Some (SnowflakeId (-42))"
  using snowflake_id_roundtrip[of "-42" 0] by (simp add: in_i64_def i64_min_def i64_max_def)

end
