(* ===== verification/Validator.thy ===== *)
theory Validator
  imports Prelude
begin

text \<open>\<^verbatim>\<open>server/src/utils/validator.rs\<close>: the password policy.\<close>

definition is_lower :: "char \<Rightarrow> bool" where
  "is_lower c \<longleftrightarrow> 97 \<le> (of_char c :: nat) \<and> (of_char c :: nat) \<le> 122"

definition is_upper :: "char \<Rightarrow> bool" where
  "is_upper c \<longleftrightarrow> 65 \<le> (of_char c :: nat) \<and> (of_char c :: nat) \<le> 90"

definition is_punct :: "char \<Rightarrow> bool" where
  "is_punct c \<longleftrightarrow>
     (let n = (of_char c :: nat) in
      33 \<le> n \<and> n \<le> 47 \<or> 58 \<le> n \<and> n \<le> 64 \<or> 91 \<le> n \<and> n \<le> 96 \<or> 123 \<le> n \<and> n \<le> 126)"

definition validate_password :: "string \<Rightarrow> bool" where
  "validate_password password =
     (if length password < 8 \<or> length password > 128 then False
      else list_ex is_lower password \<and> list_ex is_upper password \<and>
           list_ex is_digit password \<and> list_ex is_punct password)"

definition weak_password_message :: string where
  "weak_password_message = ''Password must be at least 8 characters and contain at least one uppercase letter, one lowercase letter, one digit, and one special character''"

definition require_password :: "string \<Rightarrow> (string, unit) res" where
  "require_password password = (if validate_password password then Inr () else Inl weak_password_message)"

lemma require_password_cases [simp]:
  "require_password p = Inr u \<longleftrightarrow> validate_password p"
  "require_password p = Inl m \<longleftrightarrow> \<not> validate_password p \<and> m = weak_password_message"
  by (auto simp: require_password_def)

end
