(* ===== verification/Database.thy ===== *)
theory Database
  imports Cache
begin

text \<open>
  The PostgreSQL tables \<^verbatim>\<open>users\<close> and \<^verbatim>\<open>refresh_tokens\<close>
  (\<^verbatim>\<open>server/migrations/001_init.sql\<close>, \<^verbatim>\<open>server/src/repositories\<close>) and the statements the services run on them, as
  functions on lists of rows, with the constraints of the schema: primary keys, the unique email, openid and token
  hash, the foreign key with its cascade, the range of the integer columns. A statement fails with the context
  message the source attaches to it whenever the environment says so; a transaction that does not
  commit leaves both tables as they were.
\<close>

section \<open>Rows\<close>

record user =
  u_id :: int
  u_email :: string
  u_password_hash :: string
  u_name :: string
  u_role :: string
  u_created_at :: int
  u_updated_at :: int
  u_token_version :: int
  u_email_verified :: bool
  u_verification_code_hash :: "string option"
  u_verification_code_expires_at :: "int option"
  u_verification_code_sent_at :: "int option"
  u_verification_failed_attempts :: int
  u_password_reset_token_hash :: "string option"
  u_password_reset_expires_at :: "int option"
  u_password_reset_sent_at :: "int option"
  u_password_reset_failed_attempts :: int
  u_balance :: int
  u_wx_openid :: "string option"

record refresh_token =
  rt_id :: nat
  rt_user_id :: int
  rt_token_hash :: string
  rt_expires_at :: int
  rt_created_at :: int

text \<open>The state the services act on: the two tables, the sequence of the token ids, and Redis.\<close>

record 'r app =
  users :: "user list"
  tokens :: "refresh_token list"
  next_token_id :: nat
  redis :: 'r

text \<open>
  What an operation finds around it: the time in milliseconds, the statements that fail, the
  cache service, what other requests commit between two statements that share no transaction, the password hash and its check
  (Argon2, \<^const>\<open>None\<close> when the library reports an error), and the next generated id.
\<close>

record 'r env =
  now :: int
  db_err :: "string \<Rightarrow> bool"
  cache_svc :: "'r cache"
  between :: "'r app \<Rightarrow> 'r app"
  hash_password :: "string \<Rightarrow> string option"
  verify_password :: "string \<Rightarrow> string \<Rightarrow> bool option"
  new_id :: int

section \<open>Statements and transactions\<close>

definition db_stmt :: "'r env \<Rightarrow> (string \<Rightarrow> 'e) \<Rightarrow> string \<Rightarrow> ('r app, 'e, 'a) prog \<Rightarrow> ('r app, 'e, 'a) prog" where
  "db_stmt env err ctx m s = (if db_err env ctx then (Inl (err ctx), s) else m s)"

definition rollback :: "'r app \<Rightarrow> 'r app \<Rightarrow> 'r app" where
  "rollback s s' = s'\<lparr>users := users s, tokens := tokens s\<rparr>"

text \<open>The body answers whether it reaches the commit; a transaction that is dropped rolls back.\<close>

definition in_txn ::
    "'r env \<Rightarrow> (string \<Rightarrow> 'e) \<Rightarrow> string \<Rightarrow> string \<Rightarrow> ('r app, 'e, bool \<times> 'a) prog \<Rightarrow> ('r app, 'e, 'a) prog" where
  "in_txn env err begin_ctx commit_ctx body s =
     (if db_err env begin_ctx then (Inl (err begin_ctx), s)
      else case body s of
             (Inl e, s') \<Rightarrow> (Inl e, rollback s s')
           | (Inr (c, a), s') \<Rightarrow>
               if \<not> c then (Inr a, rollback s s')
               else if db_err env commit_ctx then (Inl (err commit_ctx), rollback s s')
               else (Inr a, s'))"

definition interfere :: "'r env \<Rightarrow> ('r app, 'e, unit) prog" where
  "interfere env s = (Inr (), between env s)"

definition read_db :: "('r app \<Rightarrow> 'a) \<Rightarrow> ('r app, 'e, 'a) prog" where
  "read_db f s = (Inr (f s), s)"

definition write_db :: "('r app \<Rightarrow> 'r app) \<Rightarrow> ('r app, 'e, unit) prog" where
  "write_db f s = (Inr (), f s)"

text \<open>A cache operation of a service: its result is a value, for the caller always looks at it or drops it.\<close>

definition cache_time :: "'r env \<Rightarrow> nat" where "cache_time env = nat (now env div 1000)"

definition cache_do :: "'r env \<Rightarrow> ('r cache \<Rightarrow> ('r world, cache_error, 'a) prog) \<Rightarrow> ('r app, 'e, (cache_error, 'a) res) prog" where
  "cache_do env m s =
     (case m (cache_svc env) (cache_time env, redis s) of (x, w) \<Rightarrow> (Inr x, s\<lparr>redis := snd w\<rparr>))"

lemma wp_db [wp_simps]:
  "wp (db_stmt env err ctx m) Q E s = (if db_err env ctx then E (err ctx) s else wp m Q E s)"
  by (simp add: wp_def db_stmt_def)

lemma wp_interfere [wp_simps]: "wp (interfere env) Q E s = Q () (between env s)"
  by (simp add: wp_def interfere_def)

lemma wp_read_db [wp_simps]: "wp (read_db f) Q E s = Q (f s) s"
  by (simp add: wp_def read_db_def)

lemma wp_write_db [wp_simps]: "wp (write_db g) Q E s = Q () (g s)"
  by (simp add: wp_def write_db_def)

lemma wp_in_txn [wp_simps]:
  "wp (in_txn env err bc cc body) Q E s =
    (if db_err env bc then E (err bc) s
     else wp body (\<lambda>(c, a) s'. if \<not> c then Q a (rollback s s')
                     else if db_err env cc then E (err cc) (rollback s s') else Q a s')
            (\<lambda>e s'. E e (rollback s s')) s)"
  by (auto simp: wp_def in_txn_def split: prod.splits sum.splits)

lemma wp_cache_do: "(\<And>x r. Q x (s\<lparr>redis := r\<rparr>)) \<Longrightarrow> wp (cache_do env m) Q E s"
  by (auto simp: wp_def cache_do_def split: prod.splits)

section \<open>Queries and updates\<close>

datatype 'a db_result = DbOk 'a | UniqueViolation | RecordNotUpdated | OutOfRange

definition user_by_id :: "int \<Rightarrow> 'r app \<Rightarrow> user option" where
  "user_by_id i s = find (\<lambda>u. u_id u = i) (users s)"

definition user_by_email :: "string \<Rightarrow> 'r app \<Rightarrow> user option" where
  "user_by_email e s = find (\<lambda>u. u_email u = e) (users s)"

definition user_by_openid :: "string \<Rightarrow> 'r app \<Rightarrow> user option" where
  "user_by_openid o1 s = find (\<lambda>u. u_wx_openid u = Some o1) (users s)"

text \<open>Two rows clash when they share a key, an email or an openid.\<close>

definition clashes :: "user \<Rightarrow> user \<Rightarrow> bool" where
  "clashes u v \<longleftrightarrow> u_email u = u_email v \<or> (u_wx_openid u \<noteq> None \<and> u_wx_openid u = u_wx_openid v)"

definition insert_user :: "user \<Rightarrow> 'r app \<Rightarrow> 'r app db_result" where
  "insert_user u s =
     (if list_ex (\<lambda>v. u_id v = u_id u \<or> clashes u v) (users s) then UniqueViolation
      else DbOk (s\<lparr>users := users s @ [u]\<rparr>))"

text \<open>\<^verbatim>\<open>ActiveModel::update\<close>: the set columns \<^verbatim>\<open>f\<close> on the row with the key; \<^verbatim>\<open>RETURNING\<close> gives the new row.\<close>

definition update_user_row :: "int \<Rightarrow> (user \<Rightarrow> user) \<Rightarrow> 'r app \<Rightarrow> ('r app \<times> user) db_result" where
  "update_user_row i f s =
     (case user_by_id i s of
        None \<Rightarrow> RecordNotUpdated
      | Some u \<Rightarrow>
          if list_ex (\<lambda>v. u_id v \<noteq> i \<and> clashes (f u) v) (users s) then UniqueViolation
          else DbOk (s\<lparr>users := map (\<lambda>v. if u_id v = i then f v else v) (users s)\<rparr>, f u))"

text \<open>\<^verbatim>\<open>UPDATE users SET token_version = token_version + 1 WHERE id = $1\<close>\<close>

definition bump_token_version :: "int \<Rightarrow> 'r app \<Rightarrow> 'r app db_result" where
  "bump_token_version i s =
     (if list_ex (\<lambda>u. u_id u = i \<and> u_token_version u = i32_max) (users s) then OutOfRange
      else DbOk (s\<lparr>users := map (\<lambda>u. if u_id u = i then u\<lparr>u_token_version := u_token_version u + 1\<rparr> else u) (users s)\<rparr>))"

text \<open>\<^verbatim>\<open>DELETE FROM users\<close>: the rows, and by the cascade their tokens; the number of rows.\<close>

definition delete_users :: "(user \<Rightarrow> bool) \<Rightarrow> 'r app \<Rightarrow> nat \<times> 'r app" where
  "delete_users p s =
     (length (filter p (users s)),
      s\<lparr>users := filter (\<lambda>u. \<not> p u) (users s),
        tokens := filter (\<lambda>t. \<not> list_ex (\<lambda>u. p u \<and> u_id u = rt_user_id t) (users s)) (tokens s)\<rparr>)"

definition delete_tokens :: "(refresh_token \<Rightarrow> bool) \<Rightarrow> 'r app \<Rightarrow> 'r app" where
  "delete_tokens p s = s\<lparr>tokens := filter (\<lambda>t. \<not> p t) (tokens s)\<rparr>"

definition insert_token :: "int \<Rightarrow> string \<Rightarrow> int \<Rightarrow> int \<Rightarrow> 'r app \<Rightarrow> 'r app db_result" where
  "insert_token uid h expires created s =
     (if list_ex (\<lambda>t. rt_token_hash t = h) (tokens s) then UniqueViolation
      else if user_by_id uid s = None then RecordNotUpdated
      else DbOk (s\<lparr>tokens := tokens s @ [\<lparr>rt_id = next_token_id s, rt_user_id = uid, rt_token_hash = h,
                                         rt_expires_at = expires, rt_created_at = created\<rparr>],
                   next_token_id := next_token_id s + 1\<rparr>))"

section \<open>The invariant of the tables\<close>

definition row_ok :: "user \<Rightarrow> bool" where
  "row_ok u \<longleftrightarrow> u_role u \<in> {''user'', ''admin'', ''system''}
      \<and> 0 \<le> u_balance u \<and> u_balance u \<le> i64_max \<and> 0 \<le> u_token_version u \<and> u_token_version u \<le> i32_max"

definition users_ok :: "user list \<Rightarrow> bool" where
  "users_ok us \<longleftrightarrow> distinct (map u_id us)
     \<and> (\<forall>u \<in> set us. \<forall>v \<in> set us. clashes u v \<longrightarrow> u_id u = u_id v)
     \<and> (\<forall>u \<in> set us. row_ok u)"

definition tokens_ok :: "user list \<Rightarrow> refresh_token list \<Rightarrow> bool" where
  "tokens_ok us ts \<longleftrightarrow> distinct (map rt_token_hash ts) \<and> (\<forall>t \<in> set ts. rt_user_id t \<in> u_id ` set us)"

definition db_ok :: "'r app \<Rightarrow> bool" where
  "db_ok s \<longleftrightarrow> users_ok (users s) \<and> tokens_ok (users s) (tokens s)"

lemma db_ok_redis [simp]: "db_ok (s\<lparr>redis := r\<rparr>) = db_ok s"
  by (simp add: db_ok_def)

lemma db_ok_rollback [simp]: "db_ok (rollback s s') = db_ok s"
  by (simp add: db_ok_def rollback_def)

lemma rollback_tables [simp]: "users (rollback s s') = users s" "tokens (rollback s s') = tokens s"
  by (simp_all add: rollback_def)

lemma clashes_sym: "clashes u v = clashes v u"
  unfolding clashes_def by metis

lemma users_ok_inj: "users_ok us \<Longrightarrow> u \<in> set us \<Longrightarrow> v \<in> set us \<Longrightarrow> u_id u = u_id v \<Longrightarrow> u = v"
  by (simp add: users_ok_def distinct_map inj_on_def)

lemma users_ok_row: "users_ok us \<Longrightarrow> u \<in> set us \<Longrightarrow> row_ok u"
  by (simp add: users_ok_def)

lemma users_ok_clash: "users_ok us \<Longrightarrow> u \<in> set us \<Longrightarrow> v \<in> set us \<Longrightarrow> clashes u v \<Longrightarrow> u_id u = u_id v"
  by (simp add: users_ok_def)

lemma users_ok_email: "users_ok us \<Longrightarrow> distinct (map u_email us)"
  unfolding users_ok_def clashes_def distinct_map inj_on_def by metis

lemma user_by_id_Some:
  "user_by_id i s = Some u \<Longrightarrow> u \<in> set (users s) \<and> u_id u = i"
  by (auto simp: user_by_id_def find_Some_iff in_set_conv_nth)

lemma user_by_id_None: "user_by_id i s = None \<longleftrightarrow> (\<forall>u \<in> set (users s). u_id u \<noteq> i)"
  by (auto simp: user_by_id_def find_None_iff)

lemma user_by_id_unique:
  assumes "users_ok (users s)" "u \<in> set (users s)" "u_id u = i"
  shows "user_by_id i s = Some u"
proof (cases "user_by_id i s")
  case None
  then show ?thesis using assms(2,3) by (simp add: user_by_id_None)
next
  case (Some v)
  then have "v \<in> set (users s)" "u_id v = i" using user_by_id_Some by auto
  then have "u = v" using assms unfolding users_ok_def by (metis distinct_map inj_onD)
  with Some show ?thesis by simp
qed

lemma user_by_id_redis [simp]:
  "user_by_id i (s\<lparr>redis := r\<rparr>) = user_by_id i s" "user_by_email e (s\<lparr>redis := r\<rparr>) = user_by_email e s"
  "user_by_openid e (s\<lparr>redis := r\<rparr>) = user_by_openid e s"
  by (simp_all add: user_by_id_def user_by_email_def user_by_openid_def)

section \<open>Every statement keeps the invariant\<close>

lemma insert_user_ok:
  assumes "insert_user u s = DbOk s'" "db_ok s" "row_ok u"
  shows "db_ok s'" "users s' = users s @ [u]" "tokens s' = tokens s" "redis s' = redis s"
proof -
  have n: "\<forall>v \<in> set (users s). u_id v \<noteq> u_id u \<and> \<not> clashes u v" and s': "s' = s\<lparr>users := users s @ [u]\<rparr>"
    using assms(1) by (auto simp: insert_user_def list_ex_iff split: if_splits)
  then show "users s' = users s @ [u]" "tokens s' = tokens s" "redis s' = redis s" by simp_all
  have ok: "users_ok (users s)" using assms(2) by (simp add: db_ok_def)
  have "users_ok (users s @ [u])"
    unfolding users_ok_def
  proof (intro conjI ballI impI)
    show "distinct (map u_id (users s @ [u]))"
      using ok n by (auto simp: users_ok_def)
    show "row_ok v" if "v \<in> set (users s @ [u])" for v
      using that assms(3) users_ok_row[OF ok] by auto
    show "u_id v = u_id w" if "v \<in> set (users s @ [u])" "w \<in> set (users s @ [u])" "clashes v w" for v w
      using that n users_ok_clash[OF ok, of v w] clashes_sym[of v w] by auto
  qed
  moreover have "tokens_ok (users s @ [u]) (tokens s)"
    using assms(2) by (auto simp: db_ok_def tokens_ok_def)
  ultimately show "db_ok s'" by (simp add: s' db_ok_def)
qed

lemma update_rows_ok:
  assumes "users_ok us" "u \<in> set us" "u_id u = i" "u_id (f u) = i" "row_ok (f u)"
    and "\<forall>v \<in> set us. u_id v \<noteq> i \<longrightarrow> \<not> clashes (f u) v"
  shows "users_ok (map (\<lambda>v. if u_id v = i then f v else v) us)"
proof -
  let ?g = "\<lambda>v. if u_id v = i then f v else v"
  have only: "v = u" if "v \<in> set us" "u_id v = i" for v
    using users_ok_inj[OF assms(1) that(1) assms(2)] that(2) assms(3) by simp
  have g: "?g v = (if v = u then f u else v) \<and> (v \<noteq> u \<longrightarrow> u_id v \<noteq> i)" if "v \<in> set us" for v
  proof (cases "v = u")
    case True
    then show ?thesis using assms(3) by simp
  next
    case False
    then have "u_id v \<noteq> i" using only[OF that] by blast
    with False show ?thesis by simp
  qed
  have "u_id (?g v) = u_id v" if "v \<in> set us" for v
    using only[OF that] assms(4) by (cases "u_id v = i") simp_all
  then have ids: "map u_id (map ?g us) = map u_id us"
    unfolding map_map comp_def map_eq_conv by blast
  have "u_id a = u_id b" if "a \<in> ?g ` set us" "b \<in> ?g ` set us" "clashes a b" for a b
  proof -
    obtain v w where v: "v \<in> set us" "a = ?g v" and w: "w \<in> set us" "b = ?g w"
      using \<open>a \<in> ?g ` set us\<close> \<open>b \<in> ?g ` set us\<close> by blast
    have "clashes v w \<longrightarrow> u_id v = u_id w" using users_ok_clash[OF assms(1) v(1) w(1)] by simp
    moreover have "v = u \<longrightarrow> w \<noteq> u \<longrightarrow> \<not> clashes (f u) w" "w = u \<longrightarrow> v \<noteq> u \<longrightarrow> \<not> clashes (f u) v"
      using assms(6) g[OF v(1)] g[OF w(1)] v(1) w(1) by blast+
    moreover have "a = (if v = u then f u else v)" "b = (if w = u then f u else w)"
      using g[OF v(1)] g[OF w(1)] v(2) w(2) by simp_all
    ultimately show ?thesis
      using that(3) clashes_sym[of v "f u"] by (cases "v = u"; cases "w = u") simp_all
  qed
  moreover have "row_ok a" if "a \<in> ?g ` set us" for a
  proof -
    obtain v where v: "v \<in> set us" "a = ?g v" using \<open>a \<in> ?g ` set us\<close> by blast
    then have "a = (if v = u then f u else v)" using g[OF v(1)] by simp
    then show ?thesis using users_ok_row[OF assms(1) v(1)] assms(5) by simp
  qed
  ultimately show ?thesis
    using assms(1) unfolding users_ok_def ids set_map by simp
qed

lemma update_user_row_ok:
  assumes "update_user_row i f s = DbOk (s', u')" "db_ok s"
    and "\<And>u. u \<in> set (users s) \<Longrightarrow> u_id u = i \<Longrightarrow> u_id (f u) = i \<and> row_ok (f u)"
  shows "db_ok s'" "users s' = map (\<lambda>v. if u_id v = i then f v else v) (users s)"
    "tokens s' = tokens s" "redis s' = redis s" "\<exists>u. user_by_id i s = Some u \<and> u' = f u"
    "next_token_id s' = next_token_id s"
proof -
  obtain u where u: "user_by_id i s = Some u" "u' = f u"
    and n: "\<forall>v \<in> set (users s). u_id v \<noteq> i \<longrightarrow> \<not> clashes (f u) v"
    and s': "s' = s\<lparr>users := map (\<lambda>v. if u_id v = i then f v else v) (users s)\<rparr>"
    using assms(1) by (auto simp: update_user_row_def list_ex_iff split: option.splits if_splits)
  show "users s' = map (\<lambda>v. if u_id v = i then f v else v) (users s)"
    "tokens s' = tokens s" "redis s' = redis s" "\<exists>u. user_by_id i s = Some u \<and> u' = f u"
    "next_token_id s' = next_token_id s"
    using u s' by simp_all
  have m: "u \<in> set (users s)" "u_id u = i" using user_by_id_Some[OF u(1)] by auto
  have "users_ok (map (\<lambda>v. if u_id v = i then f v else v) (users s))"
    using assms(2) assms(3)[OF m] update_rows_ok[of "users s" u i f] m n by (simp add: db_ok_def)
  moreover have "map u_id (map (\<lambda>v. if u_id v = i then f v else v) (users s)) = map u_id (users s)"
    using assms(3) by auto
  then have "u_id ` set (map (\<lambda>v. if u_id v = i then f v else v) (users s)) = u_id ` set (users s)"
    by (metis set_map)
  ultimately show "db_ok s'"
    using assms(2) unfolding s' db_ok_def tokens_ok_def by simp
qed

lemma bump_token_version_ok:
  assumes "bump_token_version i s = DbOk s'" "db_ok s"
  shows "db_ok s'" "tokens s' = tokens s" "redis s' = redis s" "next_token_id s' = next_token_id s"
    "users s' = map (\<lambda>u. if u_id u = i then u\<lparr>u_token_version := u_token_version u + 1\<rparr> else u) (users s)"
proof -
  let ?f = "\<lambda>u. u\<lparr>u_token_version := u_token_version u + 1\<rparr>"
  have n: "\<forall>u \<in> set (users s). u_id u = i \<longrightarrow> u_token_version u \<noteq> i32_max"
    and s': "s' = s\<lparr>users := map (\<lambda>u. if u_id u = i then ?f u else u) (users s)\<rparr>"
    using assms(1) by (auto simp: bump_token_version_def list_ex_iff split: if_splits)
  show "tokens s' = tokens s" "redis s' = redis s" "next_token_id s' = next_token_id s"
    "users s' = map (\<lambda>u. if u_id u = i then u\<lparr>u_token_version := u_token_version u + 1\<rparr> else u) (users s)"
    by (simp_all add: s')
  have "map u_id (users s') = map u_id (users s)" by (simp add: s')
  then have ids: "u_id ` set (users s') = u_id ` set (users s)" by (metis set_map)
  have "users_ok (users s')"
  proof (cases "\<exists>u \<in> set (users s). u_id u = i")
    case True
    then obtain u where u: "u \<in> set (users s)" "u_id u = i" by blast
    have ok: "users_ok (users s)" using assms(2) by (simp add: db_ok_def)
    then have r: "row_ok u" using u by (simp add: users_ok_row)
    have "\<forall>v \<in> set (users s). u_id v \<noteq> i \<longrightarrow> \<not> clashes (?f u) v"
    proof (intro ballI impI notI)
      fix v assume v: "v \<in> set (users s)" "u_id v \<noteq> i" "clashes (?f u) v"
      then have "clashes u v" by (simp add: clashes_def)
      from users_ok_clash[OF ok u(1) v(1) this] u(2) v(2) show False by simp
    qed
    with update_rows_ok[OF ok u, of ?f] r n u show ?thesis
      by (force simp: s' row_ok_def)
  next
    case False
    then have "users s' = users s" by (simp add: s' map_idI)
    then show ?thesis using assms(2) by (simp add: db_ok_def)
  qed
  then show "db_ok s'" using assms(2) ids by (simp add: db_ok_def tokens_ok_def s')
qed

lemma delete_users_ok:
  assumes "db_ok s"
  shows "db_ok (snd (delete_users p s))"
proof -
  have "users_ok (filter (\<lambda>u. \<not> p u) (users s))"
    using assms by (auto simp: db_ok_def users_ok_def distinct_map_filter)
  moreover have "rt_user_id t \<in> u_id ` set (filter (\<lambda>u. \<not> p u) (users s))"
    if "t \<in> set (tokens s)" "\<not> list_ex (\<lambda>u. p u \<and> u_id u = rt_user_id t) (users s)" for t
    using that assms by (force simp: db_ok_def tokens_ok_def list_ex_iff)
  ultimately show ?thesis
    using assms by (auto simp: delete_users_def db_ok_def tokens_ok_def distinct_map_filter)
qed

lemma delete_tokens_ok: "db_ok s \<Longrightarrow> db_ok (delete_tokens p s)"
  by (auto simp: delete_tokens_def db_ok_def tokens_ok_def distinct_map_filter)

lemma insert_token_ok:
  assumes "insert_token uid h e c s = DbOk s'" "db_ok s"
  shows "db_ok s'" "users s' = users s" "redis s' = redis s"
    "tokens s' = tokens s @ [\<lparr>rt_id = next_token_id s, rt_user_id = uid, rt_token_hash = h,
        rt_expires_at = e, rt_created_at = c\<rparr>]"
proof -
  have n: "\<forall>t \<in> set (tokens s). rt_token_hash t \<noteq> h" and u: "user_by_id uid s \<noteq> None"
    and s': "s' = s\<lparr>tokens := tokens s @ [\<lparr>rt_id = next_token_id s, rt_user_id = uid, rt_token_hash = h,
        rt_expires_at = e, rt_created_at = c\<rparr>], next_token_id := next_token_id s + 1\<rparr>"
    using assms(1) by (auto simp: insert_token_def list_ex_iff split: if_splits)
  then show "users s' = users s" "redis s' = redis s"
    "tokens s' = tokens s @ [\<lparr>rt_id = next_token_id s, rt_user_id = uid, rt_token_hash = h,
        rt_expires_at = e, rt_created_at = c\<rparr>]" by simp_all
  have "uid \<in> u_id ` set (users s)" using u user_by_id_Some by (fastforce simp: image_iff)
  then show "db_ok s'" using assms(2) n by (auto simp: s' db_ok_def tokens_ok_def)
qed

end
