(* ===== verification/UserService.thy ===== *)
theory UserService
  imports Database Validator
begin

text \<open>
  \<^verbatim>\<open>server/src/services/user.rs\<close>: creation, lookup through the cache, update with role changes, password
  change, deletion, paginated listing, and the balance operations, with their access rules. A profile
  in the cache is JSON; its conversion is a parameter (\<^verbatim>\<open>user_json\<close>), of which the code relies
  on reading back what was written but for the two fields that are not serialised.
\<close>

definition BALANCE_SCALE :: int where "BALANCE_SCALE = 10000000000"

datatype user_error =
    NotFound
  | EmailConflict
  | InvalidCredentials
  | Forbidden string
  | WeakPassword string
  | SamePassword string
  | NotAllowed string
  | Internal string

record user_response =
  r_id :: int
  r_email :: string
  r_name :: string
  r_role :: string
  r_email_verified :: bool
  r_created_at :: int
  r_updated_at :: int
  r_token_version :: int
  r_balance :: int
  r_wx_openid :: "string option"

definition response_of :: "user \<Rightarrow> user_response" where
  "response_of u = \<lparr>r_id = u_id u, r_email = u_email u, r_name = u_name u, r_role = u_role u,
     r_email_verified = u_email_verified u, r_created_at = u_created_at u, r_updated_at = u_updated_at u,
     r_token_version = u_token_version u, r_balance = u_balance u, r_wx_openid = u_wx_openid u\<rparr>"

record user_json =
  write_user :: "user_response \<Rightarrow> string option"
  read_user :: "string \<Rightarrow> user_response option"

text \<open>What \<^verbatim>\<open>serde\<close> documents for the derived conversions of a response with 64-bit numbers: the skipped fields come back as defaults.\<close>

definition user_json_ok :: "user_json \<Rightarrow> bool" where
  "user_json_ok j \<longleftrightarrow>
     (\<forall>r. in_i64 (r_id r) \<and> in_i64 (r_balance r) \<longrightarrow>
        (\<exists>s. write_user j r = Some s \<and> read_user j s = Some (r\<lparr>r_token_version := 0, r_wx_openid := None\<rparr>)))"

record create_user_input =
  ci_email :: string
  ci_password :: string
  ci_name :: string
  ci_role :: "string option"

record update_user_input =
  ui_email :: "string option"
  ui_name :: "string option"
  ui_role :: "string option"

definition USER_CACHE_TTL_SECS :: nat where "USER_CACHE_TTL_SECS = 300"
definition USER_NULL_TTL_SECS :: nat where "USER_NULL_TTL_SECS = 30"
definition USER_COUNT_TTL_SECS :: nat where "USER_COUNT_TTL_SECS = 30"

definition user_cache_key :: "int \<Rightarrow> string" where "user_cache_key i = ''user:'' @ show_int i"
definition token_version_key :: "int \<Rightarrow> string" where "token_version_key i = ''user:token_version:'' @ show_int i"
definition user_count_cache_key :: "string \<Rightarrow> string" where "user_count_cache_key role = ''user:count:'' @ role"

text \<open>The access rule of the balance operations.\<close>

definition check_balance_rbac :: "user \<Rightarrow> string \<Rightarrow> (user_error, unit) res" where
  "check_balance_rbac target actor_role =
     (if u_role target = ''system'' then Inl NotFound
      else if actor_role = ''admin'' \<and> u_role target \<noteq> ''user'' then Inl NotFound
      else if actor_role = ''user'' then Inl (NotAllowed ''Users cannot modify balance'')
      else if actor_role \<noteq> ''system'' \<and> actor_role \<noteq> ''admin''
        then Inl (NotAllowed (''Role '' @ quoted actor_role @ '' is not allowed to modify balance''))
      else Inr ())"

definition drop_cache :: "'r env \<Rightarrow> string \<Rightarrow> ('r app, 'e, unit) prog" where
  "drop_cache env key = bindS (cache_do env (\<lambda>c. cache_invalidate c key)) (\<lambda>_. retS ())"

definition drop_counts :: "'r env \<Rightarrow> ('r app, 'e, unit) prog" where
  "drop_counts env =
     bindS (drop_cache env (user_count_cache_key ''admin'')) (\<lambda>_.
     bindS (drop_cache env (user_count_cache_key ''user'')) (\<lambda>_.
     drop_cache env (user_count_cache_key ''system'')))"

text \<open>The row of a database result, with the error the caller's \<^verbatim>\<open>map_err\<close> makes of the rest.\<close>

definition stmt_result :: "'e \<Rightarrow> 'e \<Rightarrow> 'a db_result \<Rightarrow> ('e, 'a) res" where
  "stmt_result unique other d = (case d of DbOk a \<Rightarrow> Inr a | UniqueViolation \<Rightarrow> Inl unique | _ \<Rightarrow> Inl other)"

definition run_stmt :: "('r app \<Rightarrow> ('r app \<times> 'a) db_result) \<Rightarrow> 'e \<Rightarrow> 'e \<Rightarrow> ('r app, 'e, 'a) prog" where
  "run_stmt f unique other s =
     (case stmt_result unique other (f s) of Inl e \<Rightarrow> (Inl e, s) | Inr (s', a) \<Rightarrow> (Inr a, s'))"

definition bad_role_message :: string where
  "bad_role_message = ''Role must be '' @ quoted ''user'' @ '' or '' @ quoted ''admin''"

definition bad_role :: "string option \<Rightarrow> bool" where
  "bad_role role = (case role of None \<Rightarrow> False | Some r \<Rightarrow> r \<noteq> ''user'' \<and> r \<noteq> ''admin'')"

definition create_role :: "string \<Rightarrow> string option \<Rightarrow> (user_error, string) res" where
  "create_role actor_role role =
     (if actor_role = ''system'' then
        (let r = (case role of None \<Rightarrow> ''user'' | Some r \<Rightarrow> r) in
         if r \<noteq> ''user'' \<and> r \<noteq> ''admin'' then Inl (NotAllowed bad_role_message) else Inr r)
      else if actor_role = ''admin'' then
        (if role = Some ''admin'' then Inl (NotAllowed ''Admin can only create user accounts'') else Inr ''user'')
      else Inr ''user'')"

definition new_user_row :: "'r env \<Rightarrow> create_user_input \<Rightarrow> string \<Rightarrow> string \<Rightarrow> user" where
  "new_user_row env input h role =
     \<lparr>u_id = new_id env, u_email = to_lower (ci_email input), u_password_hash = h, u_name = ci_name input,
      u_role = role, u_created_at = now env, u_updated_at = now env, u_token_version = 1, u_email_verified = False,
      u_verification_code_hash = None, u_verification_code_expires_at = None, u_verification_code_sent_at = None,
      u_verification_failed_attempts = 0, u_password_reset_token_hash = None, u_password_reset_expires_at = None,
      u_password_reset_sent_at = None, u_password_reset_failed_attempts = 0, u_balance = 0, u_wx_openid = None\<rparr>"

definition create_user :: "'r env \<Rightarrow> create_user_input \<Rightarrow> string \<Rightarrow> ('r app, user_error, user_response) prog" where
  "create_user env input actor_role =
     bindS (liftE (mapErr WeakPassword (require_password (ci_password input)))) (\<lambda>_.
     bindS (liftE (ok_or (Internal ''Failed to hash password'') (hash_password env (ci_password input)))) (\<lambda>h.
     bindS (liftE (create_role actor_role (ci_role input))) (\<lambda>role.
     bindS (db_stmt env Internal ''Failed to create user''
             (run_stmt (\<lambda>s. case insert_user (new_user_row env input h role) s of
                              DbOk s' \<Rightarrow> DbOk (s', new_user_row env input h role)
                            | UniqueViolation \<Rightarrow> UniqueViolation
                            | RecordNotUpdated \<Rightarrow> RecordNotUpdated | OutOfRange \<Rightarrow> OutOfRange)
               EmailConflict (Internal ''Failed to create user''))) (\<lambda>u.
     bindS (drop_counts env) (\<lambda>_.
     retS (response_of u))))))"

definition get_user :: "'r env \<Rightarrow> user_json \<Rightarrow> int \<Rightarrow> ('r app, user_error, user_response option) prog" where
  "get_user env j i =
     bindS (cache_do env (\<lambda>c. cache_get (read_user j) c (user_cache_key i))) (\<lambda>hit.
     case hit of
       Inr (Some u) \<Rightarrow> retS (Some u)
     | _ \<Rightarrow>
         bindS (cache_do env (\<lambda>c. cache_exists c (null_key (user_cache_key i)))) (\<lambda>neg.
         if neg = Inr True then retS None
         else
           bindS (db_stmt env Internal ''Failed to query user'' (read_db (user_by_id i))) (\<lambda>row.
           case row of
             Some u \<Rightarrow>
               bindS (cache_do env (\<lambda>c. cache_set (write_user j) c (user_cache_key i) (response_of u) USER_CACHE_TTL_SECS))
                 (\<lambda>_. retS (Some (response_of u)))
           | None \<Rightarrow>
               bindS (cache_do env (\<lambda>c. cache_set_null c (user_cache_key i) USER_NULL_TTL_SECS)) (\<lambda>_. retS None))))"

definition get_user_scoped :: "'r env \<Rightarrow> user_json \<Rightarrow> int \<Rightarrow> string \<Rightarrow> ('r app, user_error, user_response option) prog" where
  "get_user_scoped env j i actor_role =
     bindS (get_user env j i) (\<lambda>u.
     case u of
       None \<Rightarrow> retS None
     | Some r \<Rightarrow> if actor_role = ''admin'' \<and> r_role r \<noteq> ''user'' then retS None else retS (Some r))"

text \<open>The columns an update sets: email and name when given, the role when given, the timestamp always.\<close>

definition update_columns :: "'r env \<Rightarrow> update_user_input \<Rightarrow> user \<Rightarrow> user" where
  "update_columns env input u =
     u\<lparr>u_email := (case ui_email input of None \<Rightarrow> u_email u | Some e \<Rightarrow> to_lower e),
       u_name := (case ui_name input of None \<Rightarrow> u_name u | Some n \<Rightarrow> n),
       u_role := (case ui_role input of None \<Rightarrow> u_role u | Some r \<Rightarrow> r),
       u_updated_at := now env\<rparr>"

definition bump_stmt :: "'r env \<Rightarrow> (string \<Rightarrow> 'e) \<Rightarrow> string \<Rightarrow> int \<Rightarrow> ('r app, 'e, unit) prog" where
  "bump_stmt env err ctx i =
     db_stmt env err ctx
       (run_stmt (\<lambda>s. case bump_token_version i s of DbOk s' \<Rightarrow> DbOk (s', ()) | _ \<Rightarrow> OutOfRange) (err ctx) (err ctx))"

text \<open>The two transactions: a role change with its version bump, and a password change with its version bump and
  the revocation of the refresh tokens.\<close>

definition role_change_txn :: "'r env \<Rightarrow> int \<Rightarrow> update_user_input \<Rightarrow> ('r app, user_error, unit) prog" where
  "role_change_txn env i input =
     in_txn env Internal ''Failed to begin transaction for role change'' ''Failed to commit role-change transaction''
       (bindS (bump_stmt env Internal ''Failed to atomically increment token_version'' i) (\<lambda>_.
        bindS (db_stmt env Internal ''Failed to update user in transaction''
                (run_stmt (update_user_row i (update_columns env input))
                   EmailConflict (Internal ''Failed to update user in transaction''))) (\<lambda>_.
        retS (True, ()))))"

definition password_columns :: "'r env \<Rightarrow> string \<Rightarrow> user \<Rightarrow> user" where
  "password_columns env h u = u\<lparr>u_password_hash := h, u_updated_at := now env\<rparr>"

definition password_txn :: "'r env \<Rightarrow> int \<Rightarrow> string \<Rightarrow> ('r app, user_error, unit) prog" where
  "password_txn env i new_hash =
     in_txn env Internal ''Failed to begin transaction for password change''
                         ''Failed to commit password-change transaction''
       (bindS (bump_stmt env Internal ''Failed to atomically increment token_version'' i) (\<lambda>_.
        bindS (db_stmt env Internal ''Failed to update password''
                (run_stmt (update_user_row i (password_columns env new_hash))
                   (Internal ''Failed to update password'') (Internal ''Failed to update password''))) (\<lambda>_.
        bindS (db_stmt env Internal ''Failed to revoke refresh tokens during password change''
                (write_db (delete_tokens (\<lambda>t. rt_user_id t = i)))) (\<lambda>_.
        retS (True, ())))))"

text \<open>The write of an update: in a transaction with the version bump when the role changes, else one statement.\<close>

definition apply_update :: "'r env \<Rightarrow> int \<Rightarrow> update_user_input \<Rightarrow> bool \<Rightarrow> ('r app, user_error, user) prog" where
  "apply_update env i input role_changed =
     (if role_changed then
        bindS (role_change_txn env i input) (\<lambda>_.
        bindS (db_stmt env Internal ''Failed to re-query user after role change'' (read_db (user_by_id i))) (\<lambda>row.
        liftE (ok_or NotFound row)))
      else
        db_stmt env Internal ''Failed to update user''
          (run_stmt (update_user_row i (update_columns env input))
             EmailConflict (Internal ''Failed to update user'')))"

definition finish_update :: "'r env \<Rightarrow> int \<Rightarrow> update_user_input \<Rightarrow> bool \<Rightarrow> ('r app, user_error, user_response) prog" where
  "finish_update env i input role_changed =
     bindS (interfere env) (\<lambda>_.
     bindS (apply_update env i input role_changed) (\<lambda>result.
     bindS (drop_cache env (user_cache_key i)) (\<lambda>_.
     bindS (if role_changed then drop_cache env (token_version_key i) else retS ()) (\<lambda>_.
     retS (response_of result)))))"

definition update_user ::
    "'r env \<Rightarrow> int \<Rightarrow> update_user_input \<Rightarrow> string \<Rightarrow> ('r app, user_error, user_response) prog" where
  "update_user env i input actor_role =
     bindS (db_stmt env Internal ''Failed to query user'' (read_db (user_by_id i))) (\<lambda>row.
     case row of
       None \<Rightarrow> raiseS NotFound
     | Some user \<Rightarrow>
         if u_role user = ''system'' then raiseS NotFound
         else if actor_role = ''admin'' \<and> u_role user \<noteq> ''user'' then raiseS NotFound
         else if actor_role = ''admin'' \<and> ui_role input = Some ''admin''
           then raiseS (NotAllowed ''Admin cannot promote users to admin'')
         else if bad_role (ui_role input)
           then raiseS (NotAllowed bad_role_message)
         else
           finish_update env i input (ui_role input \<noteq> None \<and> ui_role input \<noteq> Some (u_role user)))"

definition change_password ::
    "'r env \<Rightarrow> int \<Rightarrow> string \<Rightarrow> string \<Rightarrow> ('r app, user_error, user_response \<times> int) prog" where
  "change_password env i current_password new_password =
     bindS (db_stmt env Internal ''Failed to query user'' (read_db (user_by_id i))) (\<lambda>row.
     bindS (liftE (ok_or NotFound row)) (\<lambda>user.
     bindS (liftE (ok_or (Internal ''Failed to verify password'')
                    (verify_password env current_password (u_password_hash user)))) (\<lambda>is_valid.
     if \<not> is_valid then raiseS InvalidCredentials
     else if current_password = new_password
       then raiseS (SamePassword ''New password must be different from current password'')
     else
       bindS (liftE (mapErr WeakPassword (require_password new_password))) (\<lambda>_.
       bindS (liftE (ok_or (Internal ''Failed to hash password'') (hash_password env new_password))) (\<lambda>new_hash.
       bindS (interfere env) (\<lambda>_.
       bindS (password_txn env i new_hash) (\<lambda>_.
       bindS (db_stmt env Internal ''Failed to re-query user after password change'' (read_db (user_by_id i))) (\<lambda>row'.
       bindS (liftE (ok_or NotFound row')) (\<lambda>updated.
       bindS (drop_cache env (user_cache_key i)) (\<lambda>_.
       bindS (drop_cache env (token_version_key i)) (\<lambda>_.
       retS (response_of updated, u_token_version updated))))))))))))"

definition delete_user :: "'r env \<Rightarrow> int \<Rightarrow> string \<Rightarrow> int \<Rightarrow> ('r app, user_error, unit) prog" where
  "delete_user env i actor_role actor_id =
     bindS (db_stmt env Internal ''Failed to query user'' (read_db (user_by_id i))) (\<lambda>row.
     bindS (liftE (ok_or NotFound row)) (\<lambda>target.
     if i = actor_id then raiseS (NotAllowed ''Cannot delete your own account'')
     else if u_role target = ''system'' then raiseS NotFound
     else if actor_role = ''admin'' \<and> u_role target \<noteq> ''user'' then raiseS NotFound
     else
       bindS (interfere env) (\<lambda>_.
       bindS (db_stmt env Internal ''Failed to delete user'' (\<lambda>s.
                case delete_users (\<lambda>u. u_id u = i \<and> (actor_role = ''admin'' \<longrightarrow> u_role u = ''user'')) s of
                  (n, s') \<Rightarrow> (Inr n, s'))) (\<lambda>rows_affected.
       if rows_affected = 0 then raiseS NotFound
       else
         bindS (drop_cache env (user_cache_key i)) (\<lambda>_.
         bindS (drop_cache env (token_version_key i)) (\<lambda>_.
         drop_counts env))))))"

section \<open>Listing\<close>

record pagination_params =
  page :: nat
  per_page :: nat

record paginated =
  pg_items :: "user_response list"
  pg_total :: nat
  pg_page :: nat
  pg_per_page :: nat
  pg_total_pages :: nat

definition default_pagination :: pagination_params where
  "default_pagination = \<lparr>page = 1, per_page = 10\<rparr>"

definition clamp :: "nat \<Rightarrow> nat \<Rightarrow> nat \<Rightarrow> nat" where
  "clamp x lo hi = min hi (max lo x)"

text \<open>The query: newest first, only plain users for an admin.\<close>

definition visible_users :: "string \<Rightarrow> user list \<Rightarrow> user list" where
  "visible_users actor_role us =
     sort_key (\<lambda>u. - u_created_at u) (if actor_role = ''admin'' then filter (\<lambda>u. u_role u = ''user'') us else us)"

definition fetch_page :: "nat \<Rightarrow> nat \<Rightarrow> 'a list \<Rightarrow> 'a list" where
  "fetch_page sz n xs = take sz (drop (n * sz) xs)"

definition read_count :: "string \<Rightarrow> nat option" where
  "read_count s = (case json_nat s of None \<Rightarrow> None | Some n \<Rightarrow> if n < 2 ^ 64 then Some n else None)"

definition list_users :: "'r env \<Rightarrow> pagination_params \<Rightarrow> string \<Rightarrow> ('r app, user_error, paginated) prog" where
  "list_users env params actor_role =
     (let pg = clamp (page params) 1 1000000; sz = clamp (per_page params) 1 100;
          key = user_count_cache_key actor_role in
      bindS (cache_do env (\<lambda>c. cache_get read_count c key)) (\<lambda>hit.
      bindS (case hit of
               Inr (Some count) \<Rightarrow> retS count
             | _ \<Rightarrow>
                 bindS (db_stmt env Internal ''Failed to count users''
                         (read_db (\<lambda>s. length (visible_users actor_role (users s))))) (\<lambda>count.
                 bindS (cache_do env (\<lambda>c. cache_set (\<lambda>n. Some (show_nat n)) c key count USER_COUNT_TTL_SECS)) (\<lambda>_.
                 retS count))) (\<lambda>total.
      bindS (db_stmt env Internal ''Failed to fetch users''
              (read_db (\<lambda>s. fetch_page sz (pg - 1) (visible_users actor_role (users s))))) (\<lambda>rows.
      retS \<lparr>pg_items = map response_of rows, pg_total = total, pg_page = pg, pg_per_page = sz,
            pg_total_pages = div_ceil total sz\<rparr>))))"

section \<open>Balance\<close>

definition write_balance :: "'r env \<Rightarrow> string \<Rightarrow> int \<Rightarrow> int \<Rightarrow> ('r app, user_error, user) prog" where
  "write_balance env ctx i b =
     db_stmt env Internal ctx
       (run_stmt (update_user_row i (\<lambda>u. u\<lparr>u_balance := b, u_updated_at := now env\<rparr>)) (Internal ctx) (Internal ctx))"

definition set_balance :: "'r env \<Rightarrow> int \<Rightarrow> int \<Rightarrow> string \<Rightarrow> ('r app, user_error, user_response) prog" where
  "set_balance env i balance actor_role =
     bindS (in_txn env Internal ''Failed to start transaction'' ''Failed to commit transaction''
       (bindS (db_stmt env Internal ''Failed to query user'' (read_db (user_by_id i))) (\<lambda>row.
        bindS (liftE (ok_or NotFound row)) (\<lambda>target.
        bindS (liftE (check_balance_rbac target actor_role)) (\<lambda>_.
        if balance < 0 then raiseS (NotAllowed ''Balance cannot be negative'')
        else bindS (write_balance env ''Failed to set balance'' i balance) (\<lambda>u. retS (True, u))))))) (\<lambda>result.
     bindS (drop_cache env (user_cache_key i)) (\<lambda>_.
     retS (response_of result)))"

definition adjust_balance :: "'r env \<Rightarrow> int \<Rightarrow> int \<Rightarrow> string \<Rightarrow> ('r app, user_error, user_response) prog" where
  "adjust_balance env i amount actor_role =
     bindS (in_txn env Internal ''Failed to start transaction'' ''Failed to commit transaction''
       (bindS (db_stmt env Internal ''Failed to query user'' (read_db (user_by_id i))) (\<lambda>row.
        bindS (liftE (ok_or NotFound row)) (\<lambda>target.
        bindS (liftE (check_balance_rbac target actor_role)) (\<lambda>_.
        bindS (liftE (ok_or (NotAllowed ''Balance overflow'') (checked_add_i64 (u_balance target) amount))) (\<lambda>new_balance.
        if new_balance < 0 then raiseS (NotAllowed ''Insufficient balance'')
        else bindS (write_balance env ''Failed to adjust balance'' i new_balance) (\<lambda>u. retS (True, u)))))))) (\<lambda>result.
     bindS (drop_cache env (user_cache_key i)) (\<lambda>_.
     retS (response_of result)))"

section \<open>Lemmas\<close>

lemma wp_run_stmt [wp_simps]:
  "wp (run_stmt f unique other) Q E s =
    (case f s of DbOk (s', a) \<Rightarrow> Q a s' | UniqueViolation \<Rightarrow> E unique s | _ \<Rightarrow> E other s)"
  by (auto simp: wp_def run_stmt_def stmt_result_def split: db_result.splits prod.splits)

text \<open>Cache traffic changes nothing but Redis.\<close>

lemma wp_drop_cache: "(\<And>r. Q () (s\<lparr>redis := r\<rparr>)) \<Longrightarrow> wp (drop_cache env key) Q E s"
  by (simp add: drop_cache_def wp_simps wp_cache_do)

lemma wp_drop_counts: "(\<And>r. Q () (s\<lparr>redis := r\<rparr>)) \<Longrightarrow> wp (drop_counts env) Q E s"
  by (auto simp: drop_counts_def wp_simps intro!: wp_drop_cache)

lemma wp_bump_stmt [wp_simps]:
  "wp (bump_stmt env err ctx i) Q E s =
    (if db_err env ctx then E (err ctx) s
     else case bump_token_version i s of DbOk s' \<Rightarrow> Q () s' | _ \<Rightarrow> E (err ctx) s)"
  by (simp add: bump_stmt_def wp_simps split: db_result.split)

lemmas wp_intros = wp_drop_counts wp_drop_cache wp_cache_do

lemma row_ok_simps [simp]:
  "row_ok (u\<lparr>u_password_hash := h, u_updated_at := t\<rparr>) = row_ok u"
  by (simp add: row_ok_def)

lemma update_columns_ok:
  "row_ok u \<Longrightarrow> \<not> bad_role (ui_role input) \<Longrightarrow>
    u_id (update_columns env input u) = u_id u \<and> row_ok (update_columns env input u)"
  by (auto simp: update_columns_def row_ok_def bad_role_def split: option.splits)

lemma create_user_db_ok:
  assumes "db_ok s"
  shows "db_ok (snd (create_user env input actor s))"
proof -
  have r: "row_ok (new_user_row env input h role)" if "create_role actor (ci_role input) = Inr role" for h role
    using that by (auto simp: new_user_row_def row_ok_def create_role_def Let_def i64_max_def i32_max_def split: if_splits)
  show ?thesis
    by (rule wp_snd)
      (use assms r in \<open>auto simp: create_user_def wp_simps split: sum.splits db_result.splits
        intro!: wp_intros dest: insert_user_ok(1)\<close>)
qed

lemma get_user_db_ok: "db_ok s \<Longrightarrow> db_ok (snd (get_user env j i s))"
  by (rule wp_snd)
    (auto simp: get_user_def wp_simps split: sum.splits option.splits intro!: wp_intros)

lemma get_user_scoped_db_ok: "db_ok s \<Longrightarrow> db_ok (snd (get_user_scoped env j i a s))"
  by (rule wp_snd)
    (auto simp: get_user_scoped_def get_user_def wp_simps split: sum.splits option.splits intro!: wp_intros)

lemma update_columns_row_ok:
  assumes "update_user_row i (update_columns env input) s = DbOk (s', u')" "db_ok s"
    and "\<not> bad_role (ui_role input)"
  shows "db_ok s'"
proof (rule update_user_row_ok(1)[OF assms(1,2)])
  fix u assume u: "u \<in> set (users s)" "u_id u = i"
  have "row_ok u" using assms(2) u(1) by (auto simp: db_ok_def dest: users_ok_row)
  from update_columns_ok[OF this assms(3), of env] u(2)
  show "u_id (update_columns env input u) = i \<and> row_ok (update_columns env input u)" by simp
qed

lemma role_change_txn_cases:
  assumes "role_change_txn env i input s = (r, t)"
  shows "case r of
      Inl e \<Rightarrow> users t = users s \<and> tokens t = tokens s \<and> redis t = redis s
    | Inr _ \<Rightarrow> \<exists>s1 u. bump_token_version i s = DbOk s1 \<and> update_user_row i (update_columns env input) s1 = DbOk (t, u)"
proof -
  have "wp (role_change_txn env i input)
     (\<lambda>_ t. \<exists>s1 u. bump_token_version i s = DbOk s1 \<and> update_user_row i (update_columns env input) s1 = DbOk (t, u))
     (\<lambda>_ t. users t = users s \<and> tokens t = tokens s \<and> redis t = redis s) s"
    by (auto simp: role_change_txn_def wp_simps bump_token_version_def update_user_row_def rollback_def
        split: db_result.splits option.splits if_splits)
  then show ?thesis using assms by (cases r) (simp_all add: wp_def)
qed

lemma password_txn_cases:
  assumes "password_txn env i h s = (r, t)"
  shows "case r of
      Inl e \<Rightarrow> users t = users s \<and> tokens t = tokens s \<and> redis t = redis s
    | Inr _ \<Rightarrow> \<exists>s1 s2 u. bump_token_version i s = DbOk s1 \<and> update_user_row i (password_columns env h) s1 = DbOk (s2, u)
          \<and> t = delete_tokens (\<lambda>t. rt_user_id t = i) s2"
proof -
  have "wp (password_txn env i h)
     (\<lambda>_ t. \<exists>s1 s2 u. bump_token_version i s = DbOk s1 \<and> update_user_row i (password_columns env h) s1 = DbOk (s2, u)
          \<and> t = delete_tokens (\<lambda>t. rt_user_id t = i) s2)
     (\<lambda>_ t. users t = users s \<and> tokens t = tokens s \<and> redis t = redis s) s"
    by (auto simp: password_txn_def wp_simps bump_token_version_def update_user_row_def rollback_def delete_tokens_def
        split: db_result.splits option.splits if_splits)
  then show ?thesis using assms by (cases r) (simp_all add: wp_def)
qed

lemma db_ok_cong: "users t = users s \<Longrightarrow> tokens t = tokens s \<Longrightarrow> db_ok s \<Longrightarrow> db_ok t"
  by (simp add: db_ok_def)

lemma wp_inv: "(\<And>r t. m s = (r, t) \<Longrightarrow> I t) \<Longrightarrow> (\<And>a t. I t \<Longrightarrow> Q a t) \<Longrightarrow> (\<And>e t. I t \<Longrightarrow> E e t) \<Longrightarrow> wp m Q E s"
  by (auto simp: wp_def split: prod.splits sum.splits)

lemma wp_role_change_txn:
  assumes "db_ok s" "\<not> bad_role (ui_role input)"
    and "\<And>t. db_ok t \<Longrightarrow> Q () t" "\<And>e t. db_ok t \<Longrightarrow> E e t"
  shows "wp (role_change_txn env i input) Q E s"
proof (rule wp_inv[where I = db_ok])
  fix r t assume "role_change_txn env i input s = (r, t)"
  from role_change_txn_cases[OF this] show "db_ok t"
    using db_ok_cong[OF _ _ assms(1)] bump_token_version_ok(1)[OF _ assms(1)]
    by (cases r) (auto intro: update_columns_row_ok[OF _ _ assms(2)])
qed (use assms(3,4) in auto)

lemma password_row_ok:
  assumes "update_user_row i (password_columns env h) s = DbOk (s', u')"
    and "db_ok s"
  shows "db_ok s'"
  by (rule update_user_row_ok(1)[OF assms])
    (use assms(2) in \<open>auto simp: db_ok_def password_columns_def dest: users_ok_row\<close>)

lemma wp_password_txn:
  assumes "db_ok s" "\<And>t. db_ok t \<Longrightarrow> Q () t" "\<And>e t. db_ok t \<Longrightarrow> E e t"
  shows "wp (password_txn env i h) Q E s"
proof (rule wp_inv[where I = db_ok])
  fix r t assume "password_txn env i h s = (r, t)"
  from password_txn_cases[OF this] show "db_ok t"
    using db_ok_cong[OF _ _ assms(1)] bump_token_version_ok(1)[OF _ assms(1)]
    by (cases r) (auto intro!: delete_tokens_ok intro: password_row_ok)
qed (use assms(2,3) in auto)

lemma wp_apply_update:
  assumes "db_ok s" "\<not> bad_role (ui_role input)"
    and "\<And>a t. db_ok t \<Longrightarrow> Q a t" "\<And>e t. db_ok t \<Longrightarrow> E e t"
  shows "wp (apply_update env i input c) Q E s"
  using assms by (auto simp: apply_update_def wp_simps split: sum.splits db_result.splits
      intro!: wp_role_change_txn intro: update_columns_row_ok)

lemma wp_finish_update:
  assumes "db_ok s" "\<not> bad_role (ui_role input)" "\<And>t. db_ok t \<Longrightarrow> db_ok (between env t)"
    and "\<And>a t. db_ok t \<Longrightarrow> Q a t" "\<And>e t. db_ok t \<Longrightarrow> E e t"
  shows "wp (finish_update env i input c) Q E s"
  unfolding finish_update_def wp_simps
  by (rule wp_apply_update) (use assms in \<open>auto intro!: wp_drop_cache\<close>)

lemma update_user_db_ok:
  assumes "db_ok s" "\<And>t. db_ok t \<Longrightarrow> db_ok (between env t)"
  shows "db_ok (snd (update_user env i input a s))"
  by (rule wp_snd)
    (use assms in \<open>auto simp: update_user_def wp_simps split: option.split intro!: wp_finish_update\<close>)

lemma change_password_db_ok:
  assumes "db_ok s" "\<And>t. db_ok t \<Longrightarrow> db_ok (between env t)"
  shows "db_ok (snd (change_password env i p q s))"
  by (rule wp_snd)
    (use assms in \<open>auto simp: change_password_def wp_simps split: option.splits sum.splits
      intro!: wp_intros wp_password_txn\<close>)

lemma delete_user_db_ok:
  assumes "db_ok s" "\<And>t. db_ok t \<Longrightarrow> db_ok (between env t)"
  shows "db_ok (snd (delete_user env i a j s))"
proof -
  have d: "wp (\<lambda>s. case delete_users p s of (n, s') \<Rightarrow> (Inr n, s')) Q E t =
      Q (fst (delete_users p t)) (snd (delete_users p t))" for p Q E and t :: "'a app"
    by (simp add: wp_def split: prod.splits)
  show ?thesis
    by (rule wp_snd)
      (use assms in \<open>auto simp: delete_user_def wp_simps d split: option.splits sum.splits
        intro!: wp_intros delete_users_ok\<close>)
qed

lemma list_users_db_ok: "db_ok s \<Longrightarrow> db_ok (snd (list_users env params a s))"
  by (rule wp_snd)
    (auto simp: list_users_def wp_simps Let_def split: sum.splits option.splits intro!: wp_intros)

lemma balance_row_ok:
  assumes "update_user_row i (\<lambda>u. u\<lparr>u_balance := b, u_updated_at := n\<rparr>) s = DbOk (s', u')"
    and "db_ok s" "0 \<le> b" "b \<le> i64_max"
  shows "db_ok s'"
  by (rule update_user_row_ok(1)[OF assms(1,2)])
    (use assms(2-4) in \<open>auto simp: db_ok_def row_ok_def dest!: users_ok_row\<close>)

lemma set_balance_db_ok:
  assumes "db_ok s" "b \<le> i64_max"
  shows "db_ok (snd (set_balance env i b a s))"
  by (rule wp_snd)
    (use assms in \<open>auto simp: set_balance_def write_balance_def wp_simps split: option.splits sum.splits db_result.splits
      intro!: wp_intros dest: balance_row_ok\<close>)

lemma adjust_balance_db_ok:
  assumes "db_ok s"
  shows "db_ok (snd (adjust_balance env i m a s))"
  by (rule wp_snd)
    (use assms in \<open>auto simp: adjust_balance_def write_balance_def wp_simps checked_add_i64_Some in_i64_def
      split: option.splits sum.splits db_result.splits intro!: wp_intros dest: balance_row_ok\<close>)

end
