(* ===== verification/UserProps.thy ===== *)
theory UserProps
  imports UserService "HOL-Library.Multiset"
begin

text \<open>
  Properties of the user service: the tables keep their invariant, protected accounts are out of
  reach, balances stay in range, credentials changes revoke sessions, pages cover the listing.
\<close>

section \<open>Rows an operation may not touch\<close>

definition rows_with :: "(string \<Rightarrow> bool) \<Rightarrow> 'r app \<Rightarrow> user set" where
  "rows_with P s = {u \<in> set (users s). P (u_role u)}"

definition untouched :: "(string \<Rightarrow> bool) \<Rightarrow> 'r app \<Rightarrow> 'r app \<Rightarrow> bool" where
  "untouched P s t \<longleftrightarrow> rows_with P t = rows_with P s"

lemma untouched_redis [simp]: "untouched P s (t\<lparr>redis := r\<rparr>) = untouched P s t"
  by (simp add: untouched_def rows_with_def)

lemma untouched_cong: "users t = users s \<Longrightarrow> untouched P s t"
  by (simp add: untouched_def rows_with_def)

lemma untouched_refl [simp]: "untouched P s s"
  by (simp add: untouched_def)

lemma untouched_rollback [simp]: "untouched P s (rollback s t)"
  by (simp add: untouched_cong)

lemma untouched_trans: "untouched P s t \<Longrightarrow> untouched P t u \<Longrightarrow> untouched P s u"
  by (simp add: untouched_def)

lemma rows_with_map:
  assumes "db_ok s" "users t = map (\<lambda>v. if u_id v = i then f v else v) (users s)"
    and "\<And>u. user_by_id i s = Some u \<Longrightarrow> \<not> P (u_role u) \<and> \<not> P (u_role (f u))"
  shows "untouched P s t"
proof -
  have ok: "users_ok (users s)" using assms(1) by (simp add: db_ok_def)
  have n: "\<not> P (u_role v) \<and> \<not> P (u_role (f v))" if "v \<in> set (users s)" "u_id v = i" for v
    using assms(3)[OF user_by_id_unique[OF ok that]] .
  then show ?thesis
    unfolding untouched_def rows_with_def assms(2) set_map by (auto 0 3)
qed

lemma rows_with_update:
  assumes "update_user_row i f s = DbOk (t, u')" "db_ok s"
    and "\<And>u. user_by_id i s = Some u \<Longrightarrow> \<not> P (u_role u) \<and> \<not> P (u_role (f u))"
  shows "untouched P s t"
  by (rule rows_with_map[OF assms(2) _ assms(3)])
    (use assms(1) in \<open>auto simp: update_user_row_def split: option.splits if_splits\<close>)

lemma rows_with_bump:
  assumes "bump_token_version i s = DbOk t" "db_ok s"
    and "\<And>u. user_by_id i s = Some u \<Longrightarrow> \<not> P (u_role u)"
  shows "untouched P s t"
  by (rule rows_with_map[OF assms(2) bump_token_version_ok(5)[OF assms(1,2)]]) (use assms(3) in auto)

lemma user_by_id_map:
  assumes "users t = map (\<lambda>v. if u_id v = i then f v else v) (users s)" "\<And>u. u_id (f u) = u_id u"
  shows "user_by_id i t = map_option f (user_by_id i s)"
    and "j \<noteq> i \<Longrightarrow> user_by_id j t = user_by_id j s"
proof -
  have e: "find (\<lambda>u. u_id u = k) (map (\<lambda>v. if u_id v = i then f v else v) us) =
      map_option (\<lambda>v. if u_id v = i then f v else v) (find (\<lambda>u. u_id u = k) us)" for k us
    by (induction us) (auto simp: assms(2))
  have g: "(\<lambda>v. if u_id v = i then f v else v) v = (if k = i then f v else v)"
    if "find (\<lambda>u. u_id u = k) us = Some v" for k us v
    using that by (auto simp: find_Some_iff)
  show "user_by_id i t = map_option f (user_by_id i s)"
    unfolding user_by_id_def assms(1) e
    by (cases "find (\<lambda>u. u_id u = i) (users s)") (use g in force)+
  show "j \<noteq> i \<Longrightarrow> user_by_id j t = user_by_id j s"
    unfolding user_by_id_def assms(1) e
    by (cases "find (\<lambda>u. u_id u = j) (users s)") (use g in force)+
qed

lemma user_by_id_bump:
  assumes "bump_token_version i s = DbOk t" "db_ok s"
  shows "user_by_id i t = map_option (\<lambda>u. u\<lparr>u_token_version := u_token_version u + 1\<rparr>) (user_by_id i s)"
    and "j \<noteq> i \<Longrightarrow> user_by_id j t = user_by_id j s"
  using user_by_id_map[OF bump_token_version_ok(5)[OF assms]] by auto

lemma user_by_id_update:
  assumes "update_user_row i f s = DbOk (t, u')" "\<And>u. u_id (f u) = u_id u"
  shows "user_by_id i t = map_option f (user_by_id i s)" "user_by_id i t = Some u'"
    and "j \<noteq> i \<Longrightarrow> user_by_id j t = user_by_id j s"
proof -
  obtain u where u: "user_by_id i s = Some u" "u' = f u"
    and t: "users t = map (\<lambda>v. if u_id v = i then f v else v) (users s)"
    using assms(1) by (auto simp: update_user_row_def split: option.splits if_splits)
  note m = user_by_id_map[OF t assms(2)]
  show "user_by_id i t = map_option f (user_by_id i s)" by (rule m)
  then show "user_by_id i t = Some u'" by (simp add: u)
  show "j \<noteq> i \<Longrightarrow> user_by_id j t = user_by_id j s" by (rule m)
qed

lemma update_columns_simps [simp]:
  "u_id (update_columns env input u) = u_id u"
  "u_token_version (update_columns env input u) = u_token_version u"
  "u_role (update_columns env input u) = (case ui_role input of None \<Rightarrow> u_role u | Some r \<Rightarrow> r)"
  by (simp_all add: update_columns_def)

lemma password_columns_simps [simp]:
  "u_id (password_columns env h u) = u_id u" "u_role (password_columns env h u) = u_role u"
  "u_token_version (password_columns env h u) = u_token_version u"
  by (simp_all add: password_columns_def)

section \<open>Protected rows through each operation\<close>

lemma wp_rows_create:
  assumes "\<And>role. create_role a (ci_role input) = Inr role \<Longrightarrow> \<not> P role"
  shows "wp (create_user env input a) (\<lambda>_. untouched P s) (\<lambda>_. untouched P s) s"
  using assms
  by (auto simp: create_user_def wp_simps insert_user_def new_user_row_def split: sum.splits db_result.splits if_splits
      intro!: wp_intros) (auto simp: untouched_def rows_with_def)

lemma wp_rows_role_change:
  assumes "db_ok s" "\<And>u. user_by_id i s = Some u \<Longrightarrow> \<not> P (u_role u) \<and> \<not> P (u_role (update_columns env input u))"
  shows "wp (role_change_txn env i input) (\<lambda>_. untouched P s) (\<lambda>_. untouched P s) s"
proof (rule wp_inv[where I = "untouched P s"])
  fix r t assume m: "role_change_txn env i input s = (r, t)"
  show "untouched P s t"
  proof (cases r)
    case (Inl e)
    with role_change_txn_cases[OF m] show ?thesis by (auto intro: untouched_cong)
  next
    case (Inr x)
    with role_change_txn_cases[OF m] obtain s1 u where
      b: "bump_token_version i s = DbOk s1" and up: "update_user_row i (update_columns env input) s1 = DbOk (t, u)"
      by auto
    have "untouched P s1 t"
    proof (rule rows_with_update[OF up bump_token_version_ok(1)[OF b assms(1)]])
      fix v assume "user_by_id i s1 = Some v"
      then obtain u0 where "user_by_id i s = Some u0" "v = u0\<lparr>u_token_version := u_token_version u0 + 1\<rparr>"
        using user_by_id_bump(1)[OF b assms(1)] by auto
      with assms(2)[of u0] show "\<not> P (u_role v) \<and> \<not> P (u_role (update_columns env input v))"
        by (auto split: option.splits)
    qed
    moreover have "untouched P s s1"
      by (rule rows_with_bump[OF b assms(1)]) (use assms(2) in auto)
    ultimately show ?thesis using untouched_trans by blast
  qed
qed auto

lemma wp_rows_update:
  assumes "db_ok s" "between env s = s"
    and "\<And>u. user_by_id i s = Some u \<Longrightarrow> u_role u \<noteq> ''system'' \<Longrightarrow> \<not> (a = ''admin'' \<and> u_role u \<noteq> ''user'') \<Longrightarrow>
      \<not> (a = ''admin'' \<and> ui_role input = Some ''admin'') \<Longrightarrow> \<not> bad_role (ui_role input) \<Longrightarrow>
      \<not> P (u_role u) \<and> \<not> P (u_role (update_columns env input u))"
  shows "wp (update_user env i input a) (\<lambda>_. untouched P s) (\<lambda>_. untouched P s) s"
proof -
  have fin: "wp (finish_update env i input c) (\<lambda>_. untouched P s) (\<lambda>_. untouched P s) s"
    if p: "\<And>u. user_by_id i s = Some u \<Longrightarrow> \<not> P (u_role u) \<and> \<not> P (u_role (update_columns env input u))" for c
  proof -
    have "wp (apply_update env i input c) (\<lambda>_. untouched P s) (\<lambda>_. untouched P s) s"
    proof (cases c)
      case True
      show ?thesis
        unfolding apply_update_def wp_simps if_P[OF True]
        by (rule wp_mono[OF wp_rows_role_change[OF assms(1) p]]) (auto split: sum.splits)
    next
      case False
      then show ?thesis
        by (auto simp: apply_update_def wp_simps split: db_result.splits intro: rows_with_update[OF _ assms(1) p])
    qed
    then show ?thesis
      unfolding finish_update_def wp_simps assms(2)
      by (rule wp_mono) (auto simp: wp_simps intro!: wp_drop_cache)
  qed
  show ?thesis
    using fin assms(3) by (auto simp: update_user_def wp_simps split: option.split)
qed

lemma wp_delete_rows: "wp (\<lambda>s. case delete_users p s of (n, s') \<Rightarrow> (Inr n, s')) Q E t =
    Q (length (filter p (users t))) (snd (delete_users p t))"
  by (simp add: wp_def delete_users_def)

lemma untouched_delete:
  assumes "\<And>u. u \<in> set (users t) \<Longrightarrow> p u \<Longrightarrow> \<not> P (u_role u)"
  shows "untouched P t (snd (delete_users p t))"
  using assms by (auto simp: untouched_def rows_with_def delete_users_def)

lemma wp_rows_delete:
  assumes "db_ok s" "between env s = s"
    and "\<And>u. user_by_id i s = Some u \<Longrightarrow> u_role u \<noteq> ''system'' \<Longrightarrow> \<not> (a = ''admin'' \<and> u_role u \<noteq> ''user'') \<Longrightarrow>
      \<not> P (u_role u)"
  shows "wp (delete_user env i a j) (\<lambda>_. untouched P s) (\<lambda>_. untouched P s) s"
proof -
  have d: "untouched P s (snd (delete_users p s))"
    if "user_by_id i s = Some u" "\<not> P (u_role u)" "\<forall>v. p v \<longrightarrow> u_id v = i" for u p
    by (rule untouched_delete) (use that user_by_id_unique assms(1) in \<open>fastforce simp: db_ok_def\<close>)
  show ?thesis
    using assms(3)
    by (auto simp: delete_user_def wp_simps wp_delete_rows assms(2) split: sum.split intro!: wp_intros)
      (rule d, assumption, simp, simp)+
qed

lemma check_balance_rbac_Inr:
  "check_balance_rbac u a = Inr x \<longleftrightarrow>
    u_role u \<noteq> ''system'' \<and> (a = ''system'' \<or> a = ''admin'' \<and> u_role u = ''user'')"
  by (auto simp: check_balance_rbac_def)

lemma untouched_balance:
  assumes "update_user_row i (\<lambda>u. u\<lparr>u_balance := b, u_updated_at := n\<rparr>) s = DbOk (t, u')" "db_ok s"
    and "user_by_id i s = Some u0" "\<not> P (u_role u0)"
  shows "untouched P s t"
  by (rule rows_with_update[OF assms(1,2)]) (use assms(3,4) in auto)

lemma wp_rows_set_balance:
  assumes "db_ok s"
    and "\<And>u. user_by_id i s = Some u \<Longrightarrow> check_balance_rbac u a = Inr () \<Longrightarrow> \<not> P (u_role u)"
  shows "wp (set_balance env i b a) (\<lambda>_. untouched P s) (\<lambda>_. untouched P s) s"
  using assms
  by (auto simp: set_balance_def write_balance_def wp_simps split: sum.splits db_result.splits
      intro!: wp_intros intro: untouched_balance)

lemma wp_rows_adjust_balance:
  assumes "db_ok s"
    and "\<And>u. user_by_id i s = Some u \<Longrightarrow> check_balance_rbac u a = Inr () \<Longrightarrow> \<not> P (u_role u)"
  shows "wp (adjust_balance env i m a) (\<lambda>_. untouched P s) (\<lambda>_. untouched P s) s"
  using assms
  by (auto simp: adjust_balance_def write_balance_def wp_simps split: sum.splits db_result.splits
      intro!: wp_intros intro: untouched_balance)

section \<open>Requests of an administrator\<close>

text \<open>The operations an administrator can ask for, in one type, so that a property can speak of all of them.\<close>

datatype admin_request =
    Create create_user_input
  | Update int update_user_input
  | Delete int int
  | SetBalance int int
  | AdjustBalance int int

definition run_admin :: "'r env \<Rightarrow> string \<Rightarrow> admin_request \<Rightarrow> 'r app \<Rightarrow> 'r app" where
  "run_admin env actor req s =
     (case req of
        Create input \<Rightarrow> snd (create_user env input actor s)
      | Update i input \<Rightarrow> snd (update_user env i input actor s)
      | Delete i actor_id \<Rightarrow> snd (delete_user env i actor actor_id s)
      | SetBalance i b \<Rightarrow> snd (set_balance env i b actor s)
      | AdjustBalance i m \<Rightarrow> snd (adjust_balance env i m actor s))"

lemma untouched_admin:
  assumes "db_ok s" "between env s = s"
    and create: "\<And>role r. create_role a r = Inr role \<Longrightarrow> \<not> P role"
    and sys: "\<And>u :: user. u_role u \<noteq> ''system'' \<Longrightarrow> \<not> (a = ''admin'' \<and> u_role u \<noteq> ''user'') \<Longrightarrow> \<not> P (u_role u)"
    and upd: "\<And>r. \<not> (a = ''admin'' \<and> r = ''admin'') \<Longrightarrow> r = ''user'' \<or> r = ''admin'' \<Longrightarrow> \<not> P r"
  shows "untouched P s (run_admin env a req s)"
proof (cases req)
  case (Create input)
  then show ?thesis
    using wp_snd[OF wp_rows_create[of a input P env s]] create by (simp add: run_admin_def)
next
  case (Update i input)
  have "wp (update_user env i input a) (\<lambda>_. untouched P s) (\<lambda>_. untouched P s) s"
  proof (rule wp_rows_update[OF assms(1,2)])
    fix u :: user
    assume a: "u_role u \<noteq> ''system''" "\<not> (a = ''admin'' \<and> u_role u \<noteq> ''user'')"
      "\<not> (a = ''admin'' \<and> ui_role input = Some ''admin'')" "\<not> bad_role (ui_role input)"
    have "\<not> P r" if "ui_role input = Some r" for r
      by (rule upd) (use a(3,4) that in \<open>auto simp: bad_role_def\<close>)
    with sys[OF a(1,2)] show "\<not> P (u_role u) \<and> \<not> P (u_role (update_columns env input u))"
      by (simp split: option.split)
  qed
  from wp_snd[OF this] show ?thesis by (simp add: run_admin_def Update)
next
  case (Delete i j)
  have "wp (delete_user env i a j) (\<lambda>_. untouched P s) (\<lambda>_. untouched P s) s"
    by (rule wp_rows_delete[OF assms(1,2)]) (use sys in auto)
  from wp_snd[OF this] show ?thesis by (simp add: run_admin_def Delete)
next
  case (SetBalance i b)
  have "wp (set_balance env i b a) (\<lambda>_. untouched P s) (\<lambda>_. untouched P s) s"
    by (rule wp_rows_set_balance[OF assms(1)]) (use sys in \<open>auto simp: check_balance_rbac_Inr\<close>)
  from wp_snd[OF this] show ?thesis by (simp add: run_admin_def SetBalance)
next
  case (AdjustBalance i m)
  have "wp (adjust_balance env i m a) (\<lambda>_. untouched P s) (\<lambda>_. untouched P s) s"
    by (rule wp_rows_adjust_balance[OF assms(1)]) (use sys in \<open>auto simp: check_balance_rbac_Inr\<close>)
  from wp_snd[OF this] show ?thesis by (simp add: run_admin_def AdjustBalance)
qed

section \<open>Properties\<close>

text \<open>A small table for the witnesses: the system account, an admin and a user, each with a balance.\<close>

definition sample_user :: "int \<Rightarrow> string \<Rightarrow> string \<Rightarrow> user" where
  "sample_user i email role =
     \<lparr>u_id = i, u_email = email, u_password_hash = ''h'' @ email, u_name = email, u_role = role,
      u_created_at = i, u_updated_at = i, u_token_version = 1, u_email_verified = True,
      u_verification_code_hash = None, u_verification_code_expires_at = None, u_verification_code_sent_at = None,
      u_verification_failed_attempts = 0, u_password_reset_token_hash = None, u_password_reset_expires_at = None,
      u_password_reset_sent_at = None, u_password_reset_failed_attempts = 0, u_balance = 10, u_wx_openid = None\<rparr>"

definition sample_token :: "int \<Rightarrow> string \<Rightarrow> int \<Rightarrow> refresh_token" where
  "sample_token uid h e = \<lparr>rt_id = 1, rt_user_id = uid, rt_token_hash = h, rt_expires_at = e, rt_created_at = 0\<rparr>"

definition sample_app :: "kv app" where
  "sample_app = \<lparr>users = [sample_user 1 ''s'' ''system'', sample_user 2 ''a'' ''admin'', sample_user 3 ''u'' ''user''],
     tokens = [sample_token 3 ''t'' 5000000], next_token_id = 2, redis = (\<lambda>_. None)\<rparr>"

definition sample_env :: "kv env" where
  "sample_env = \<lparr>now = 1000000, db_err = (\<lambda>_. False), cache_svc = \<lparr>pool = Some kv_ops, cache_client = Some kv_ops\<rparr>,
     between = id, hash_password = (\<lambda>p. Some (''h'' @ p)), verify_password = (\<lambda>p h. Some (h = ''h'' @ p)), new_id = 99\<rparr>"

lemma sample_app_ok: "db_ok sample_app"
  by (auto simp: sample_app_def sample_user_def sample_token_def db_ok_def users_ok_def tokens_ok_def clashes_def
      row_ok_def i64_max_def i32_max_def)

lemma user_service_keeps_tables_parts:
  assumes "db_ok s" "\<And>t. db_ok t \<Longrightarrow> db_ok (between env t)"
  shows "db_ok (snd (create_user env input a s))" "db_ok (snd (get_user env j i s))"
    "db_ok (snd (get_user_scoped env j i a s))" "db_ok (snd (update_user env i upd a s))"
    "db_ok (snd (change_password env i p q s))" "db_ok (snd (delete_user env i a k s))"
    "db_ok (snd (list_users env params a s))" "b \<le> i64_max \<Longrightarrow> db_ok (snd (set_balance env i b a s))"
    "db_ok (snd (adjust_balance env i m a s))"
  by (rule create_user_db_ok[OF assms(1)], rule get_user_db_ok[OF assms(1)],
      rule get_user_scoped_db_ok[OF assms(1)], rule update_user_db_ok[OF assms], assumption,
      rule change_password_db_ok[OF assms], assumption, rule delete_user_db_ok[OF assms], assumption,
      rule list_users_db_ok[OF assms(1)], rule set_balance_db_ok[OF assms(1)], assumption,
      rule adjust_balance_db_ok[OF assms(1)])

text \<open>Every operation of the user service keeps the tables consistent, on success and on every error path and
  whatever other requests commit in between: ids, emails and openids stay unique, every refresh token belongs to a
  user, every role is one of the three, and no balance is negative or out of the 64-bit range.\<close>

theorem user_service_keeps_tables:
  assumes "db_ok s" "\<And>t. db_ok t \<Longrightarrow> db_ok (between env t)"
  shows "db_ok (snd (create_user env input a s)) \<and> db_ok (snd (get_user env j i s))
    \<and> db_ok (snd (get_user_scoped env j i a s)) \<and> db_ok (snd (update_user env i upd a s))
    \<and> db_ok (snd (change_password env i p q s)) \<and> db_ok (snd (delete_user env i a k s))
    \<and> db_ok (snd (list_users env params a s)) \<and> (b \<le> i64_max \<longrightarrow> db_ok (snd (set_balance env i b a s)))
    \<and> db_ok (snd (adjust_balance env i m a s))"
  by (intro conjI impI user_service_keeps_tables_parts[OF assms])

lemma user_service_keeps_tables_witness:
  "db_ok (snd (adjust_balance sample_env 3 (-4) ''admin'' sample_app))"
proof -
  have "db_ok (between sample_env t)" if "db_ok t" for t
    using that by (simp add: sample_env_def)
  from user_service_keeps_tables[OF sample_app_ok this, of _ "''admin''"] show ?thesis by blast
qed

text \<open>C14: a balance adjustment is exact or has no effect. On success the caller may adjust the target, the new balance is the
  old one plus the amount, between zero and the largest 64-bit integer, and no other row and no token changes; on
  any error both tables are as before.\<close>

theorem adjust_balance_exact:
  assumes "adjust_balance env i m actor s = (r, t)"
  shows "case r of
      Inl e \<Rightarrow> users t = users s \<and> tokens t = tokens s
    | Inr resp \<Rightarrow> \<exists>u. user_by_id i s = Some u \<and> u_role u \<noteq> ''system''
        \<and> (actor = ''system'' \<or> actor = ''admin'' \<and> u_role u = ''user'')
        \<and> r_balance resp = u_balance u + m \<and> 0 \<le> u_balance u + m \<and> u_balance u + m \<le> i64_max
        \<and> users t = map (\<lambda>v. if u_id v = i then v\<lparr>u_balance := u_balance u + m, u_updated_at := now env\<rparr> else v) (users s)
        \<and> tokens t = tokens s"
proof -
  have "wp (adjust_balance env i m actor)
    (\<lambda>resp t. \<exists>u. user_by_id i s = Some u \<and> u_role u \<noteq> ''system''
        \<and> (actor = ''system'' \<or> actor = ''admin'' \<and> u_role u = ''user'')
        \<and> r_balance resp = u_balance u + m \<and> 0 \<le> u_balance u + m \<and> u_balance u + m \<le> i64_max
        \<and> users t = map (\<lambda>v. if u_id v = i then v\<lparr>u_balance := u_balance u + m, u_updated_at := now env\<rparr> else v) (users s)
        \<and> tokens t = tokens s)
    (\<lambda>_ t. users t = users s \<and> tokens t = tokens s) s"
    by (auto simp: adjust_balance_def write_balance_def wp_simps checked_add_i64_Some in_i64_def check_balance_rbac_Inr
        update_user_row_def response_of_def split: sum.splits db_result.splits option.splits if_splits intro!: wp_intros)
  then show ?thesis using assms by (cases r) (simp_all add: wp_def)
qed

lemma adjust_balance_exact_witness:
  "r_balance (the (case fst (adjust_balance sample_env 3 (-4) ''admin'' sample_app) of Inr x \<Rightarrow> Some x | Inl e \<Rightarrow> None)) = 6"
proof -
  obtain r t where r: "adjust_balance sample_env 3 (-4) ''admin'' sample_app = (r, t)"
    by (cases "adjust_balance sample_env 3 (-4) ''admin'' sample_app")
  have "\<not> isl r"
    using r by (auto simp: adjust_balance_def in_txn_def bindS_def db_stmt_def read_db_def run_stmt_def stmt_result_def
        write_balance_def update_user_row_def user_by_id_def check_balance_rbac_def checked_add_i64_def in_i64_def
        i64_min_def i64_max_def clashes_def sample_app_def sample_env_def sample_user_def drop_cache_def cache_do_def
        split: prod.splits)
  then show ?thesis
    using adjust_balance_exact[OF r] r by (cases r) (auto simp: sample_app_def sample_user_def user_by_id_def)
qed

section \<open>Credentials and roles\<close>

lemma user_by_id_delete_tokens [simp]: "user_by_id i (delete_tokens p s) = user_by_id i s"
  by (simp add: user_by_id_def delete_tokens_def)

definition password_done :: "'r env \<Rightarrow> int \<Rightarrow> string \<Rightarrow> 'r app \<Rightarrow> 'r app \<Rightarrow> bool" where
  "password_done env i h s t \<longleftrightarrow>
     (\<exists>u. user_by_id i s = Some u \<and>
        user_by_id i t = Some (password_columns env h (u\<lparr>u_token_version := u_token_version u + 1\<rparr>))) \<and>
     (\<forall>j. j \<noteq> i \<longrightarrow> user_by_id j t = user_by_id j s) \<and>
     tokens t = filter (\<lambda>x. rt_user_id x \<noteq> i) (tokens s)"

definition same_tables :: "'r app \<Rightarrow> 'r app \<Rightarrow> bool" where
  "same_tables s t \<longleftrightarrow> users t = users s \<and> tokens t = tokens s"

lemma same_tables_simps [simp]:
  "same_tables s s" "same_tables s (t\<lparr>redis := r\<rparr>) = same_tables s t" "same_tables s (rollback s t)"
  by (simp_all add: same_tables_def)

lemma password_done_redis [simp]: "password_done env i h s (t\<lparr>redis := r\<rparr>) = password_done env i h s t"
  by (simp add: password_done_def)

lemma wp_password_done:
  assumes "db_ok s"
  shows "wp (password_txn env i h) (\<lambda>_. password_done env i h s) (\<lambda>_. same_tables s) s"
proof (rule wpI)
  fix e t assume "password_txn env i h s = (Inl e, t)"
  from password_txn_cases[OF this] show "same_tables s t" by (simp add: same_tables_def)
next
  fix a t assume "password_txn env i h s = (Inr a, t)"
  from password_txn_cases[OF this] obtain s1 s2 u where
    b: "bump_token_version i s = DbOk s1" and up: "update_user_row i (password_columns env h) s1 = DbOk (s2, u)"
    and t: "t = delete_tokens (\<lambda>t. rt_user_id t = i) s2" by auto
  note ub = user_by_id_bump[OF b assms] and uu = user_by_id_update[OF up]
  have "tokens s2 = tokens s"
    using up bump_token_version_ok(2)[OF b assms]
    by (auto simp: update_user_row_def split: option.splits if_splits)
  moreover have "\<exists>u. user_by_id i s = Some u"
    using uu(2) uu(1) ub(1) by (cases "user_by_id i s") auto
  ultimately show "password_done env i h s t"
    using uu ub by (auto simp: password_done_def t delete_tokens_def user_by_id_def)
qed

text \<open>C16: a password change proves the old password and ends every session. On success the given current password
  matched the stored hash, the new one differs and meets the policy, the row now holds its hash and a token version one higher,
  which is returned, the user has no refresh token left, and no other user or token changes. On every error but a
  failed re-query after the commit, neither table has changed since the last commit of another request.\<close>

theorem change_password_revokes_sessions:
  assumes "db_ok (between env s)" "change_password env i cur new s = (r, t)"
  shows "case r of
      Inl e \<Rightarrow> e = Internal ''Failed to re-query user after password change''
        \<or> same_tables s t \<or> same_tables (between env s) t
    | Inr (resp, v) \<Rightarrow> \<exists>u h. user_by_id i s = Some u \<and> verify_password env cur (u_password_hash u) = Some True
        \<and> cur \<noteq> new \<and> validate_password new \<and> hash_password env new = Some h
        \<and> password_done env i h (between env s) t
        \<and> (\<exists>u2. user_by_id i t = Some u2 \<and> u_password_hash u2 = h \<and> u_token_version u2 = v)
        \<and> (\<forall>x \<in> set (tokens t). rt_user_id x \<noteq> i)"
proof -
  let ?Q = "\<lambda>(resp, v) t. \<exists>u h. user_by_id i s = Some u \<and> verify_password env cur (u_password_hash u) = Some True
        \<and> cur \<noteq> new \<and> validate_password new \<and> hash_password env new = Some h
        \<and> password_done env i h (between env s) t
        \<and> (\<exists>u2. user_by_id i t = Some u2 \<and> u_password_hash u2 = h \<and> u_token_version u2 = v)
        \<and> (\<forall>x \<in> set (tokens t). rt_user_id x \<noteq> i)"
  let ?E = "\<lambda>e t. e = Internal ''Failed to re-query user after password change''
        \<or> same_tables s t \<or> same_tables (between env s) t"
  have txn: "wp (password_txn env i h) Q E (between env s)"
    if "\<And>t. password_done env i h (between env s) t \<Longrightarrow> Q () t" "\<And>e t. same_tables (between env s) t \<Longrightarrow> E e t"
    for h Q E
    by (rule wp_mono[OF wp_password_done[OF assms(1)]]) (use that in auto)
  have "wp (change_password env i cur new) ?Q ?E s"
    by (auto simp: change_password_def wp_simps split: sum.splits intro!: txn wp_intros)
      (auto simp: password_done_def password_columns_def)
  then show ?thesis using assms(2) by (cases r) (auto simp: wp_def)
qed

lemma change_password_revokes_sessions_witness:
  "filter (\<lambda>x. rt_user_id x = 3) (tokens (snd (change_password sample_env 3 ''u'' ''New-Pass1'' sample_app))) = []"
proof -
  obtain r t where r: "change_password sample_env 3 ''u'' ''New-Pass1'' sample_app = (r, t)"
    by (cases "change_password sample_env 3 ''u'' ''New-Pass1'' sample_app")
  have "\<not> isl r"
    using r by (auto simp: change_password_def password_txn_def in_txn_def bindS_def db_stmt_def read_db_def write_db_def
        run_stmt_def stmt_result_def bump_stmt_def bump_token_version_def update_user_row_def user_by_id_def interfere_def
        clashes_def i32_max_def password_columns_def delete_tokens_def
        require_password_def validate_password_def is_lower_def is_upper_def is_digit_def is_punct_def Let_def
        sample_app_def sample_env_def sample_user_def sample_token_def drop_cache_def cache_do_def
        split: prod.splits)
  moreover have "db_ok (between sample_env sample_app)" using sample_app_ok by (simp add: sample_env_def)
  ultimately show ?thesis
    using change_password_revokes_sessions[OF _ r] r by (cases r) (auto simp: filter_empty_conv)
qed

lemma drop_cache_run:
  "drop_cache env key s =
    (Inr (), s\<lparr>redis := snd (snd (cache_invalidate (cache_svc env) key (cache_time env, redis s)))\<rparr>)"
  by (simp add: drop_cache_def cache_do_def bindS_def split: prod.splits)

text \<open>A role change revokes the user's JWTs and nothing else does. When an update succeeds with no other commit in between, the
  target's token version has grown by one exactly when the role in the table changed; the new role is the requested one, the new
  email is lower case, and the target was not a system account.\<close>

theorem update_user_role_bumps_version:
  assumes "db_ok s" "between env s = s" "update_user env i input actor s = (Inr resp, t)"
  shows "\<exists>u v. user_by_id i s = Some u \<and> user_by_id i t = Some v \<and> resp = response_of v
    \<and> u_role u \<noteq> ''system'' \<and> u_role v = (case ui_role input of None \<Rightarrow> u_role u | Some r \<Rightarrow> r)
    \<and> u_email v = (case ui_email input of None \<Rightarrow> u_email u | Some e \<Rightarrow> to_lower e)
    \<and> u_token_version v = u_token_version u + (if u_role v = u_role u then 0 else 1)
    \<and> u_balance v = u_balance u \<and> u_password_hash v = u_password_hash u \<and> tokens t = tokens s"
proof -
  obtain u where u: "user_by_id i s = Some u" "u_role u \<noteq> ''system''"
    and fin: "finish_update env i input (ui_role input \<noteq> None \<and> ui_role input \<noteq> Some (u_role u)) s = (Inr resp, t)"
    using assms(3)
    by (auto simp: update_user_def bindS_Inr_conv db_stmt_def read_db_def split: option.splits if_splits)
  let ?c = "ui_role input \<noteq> None \<and> ui_role input \<noteq> Some (u_role u)"
  obtain v s1 where ap: "apply_update env i input ?c s = (Inr v, s1)"
    and rest: "resp = response_of v" "users t = users s1" "tokens t = tokens s1"
    using fin assms(2)
    by (auto simp: finish_update_def bindS_Inr_conv interfere_def drop_cache_run split: if_splits)
  have t: "user_by_id i t = user_by_id i s1" using rest by (simp add: user_by_id_def)
  show ?thesis
  proof (cases ?c)
    case True
    obtain s2 where tx: "role_change_txn env i input s = (Inr (), s2)" and v: "user_by_id i s2 = Some v" "s1 = s2"
      using ap unfolding apply_update_def if_P[OF True]
      by (auto simp: bindS_Inr_conv db_stmt_def read_db_def split: if_splits option.splits)
    obtain s0 u' where b: "bump_token_version i s = DbOk s0"
      and up: "update_user_row i (update_columns env input) s0 = DbOk (s2, u')"
      using role_change_txn_cases[OF tx] by auto
    have "tokens s2 = tokens s"
      using up bump_token_version_ok(2)[OF b assms(1)] by (auto simp: update_user_row_def split: option.splits if_splits)
    moreover have "v = update_columns env input (u\<lparr>u_token_version := u_token_version u + 1\<rparr>)"
      using user_by_id_update(1)[OF up] user_by_id_bump(1)[OF b assms(1)] u(1) v(1) by simp
    ultimately show ?thesis
      using True u v rest t by (auto simp: update_columns_def split: option.splits)
  next
    case False
    have up: "update_user_row i (update_columns env input) s = DbOk (s1, v)"
      using ap unfolding apply_update_def if_not_P[OF False]
      by (auto simp: db_stmt_def run_stmt_def stmt_result_def split: if_splits db_result.splits)
    have "tokens s1 = tokens s"
      using up by (auto simp: update_user_row_def split: option.splits if_splits)
    moreover have "v = update_columns env input u" "user_by_id i s1 = Some v"
      using user_by_id_update[OF up] u(1) by auto
    ultimately show ?thesis
      using False u rest t by (auto simp: update_columns_def split: option.splits)
  qed
qed

lemma update_user_role_bumps_version_witness:
  "u_token_version (the (user_by_id 3 (snd (update_user sample_env 3
      \<lparr>ui_email = None, ui_name = None, ui_role = Some ''admin''\<rparr> ''system'' sample_app)))) = 2"
proof -
  let ?in = "\<lparr>ui_email = None, ui_name = None, ui_role = Some ''admin''\<rparr>"
  obtain r t where r: "update_user sample_env 3 ?in ''system'' sample_app = (r, t)"
    by (cases "update_user sample_env 3 ?in ''system'' sample_app")
  have "\<exists>resp. r = Inr resp"
    using r by (auto simp: update_user_def finish_update_def apply_update_def role_change_txn_def in_txn_def bindS_def
        db_stmt_def read_db_def run_stmt_def stmt_result_def bump_stmt_def bump_token_version_def update_user_row_def
        user_by_id_def interfere_def clashes_def i32_max_def update_columns_def bad_role_def
        sample_app_def sample_env_def sample_user_def drop_cache_def cache_do_def split: prod.splits)
  then obtain resp where "r = Inr resp" ..
  moreover have "between sample_env sample_app = sample_app" by (simp add: sample_env_def)
  moreover have "user_by_id 3 sample_app = Some (sample_user 3 ''u'' ''user'')"
    by (simp add: user_by_id_def sample_app_def sample_user_def)
  ultimately show ?thesis
    using update_user_role_bumps_version[OF sample_app_ok, of sample_env 3 ?in "''system''" resp t] r
    by (auto simp: sample_user_def)
qed

lemma delete_user_admin_toctou_parts:
  assumes "delete_user env i ''admin'' actor_id s = (r, t)"
  shows "users t = users s \<or> {u \<in> set (users (between env s)). u_role u \<noteq> ''user''} \<subseteq> set (users t)"
    and "r = Inr () \<Longrightarrow> db_ok (between env s) \<Longrightarrow>
      user_by_id i t = None \<and> (\<forall>x \<in> set (tokens t). rt_user_id x \<noteq> i)"
proof -
  let ?b = "between env s"
  let ?p = "\<lambda>u. u_id u = i \<and> (''admin'' = ''admin'' \<longrightarrow> u_role u = ''user'')"
  have keep: "{u \<in> set (users ?b). u_role u \<noteq> ''user''} \<subseteq> set (users (snd (delete_users ?p ?b)))"
    by (auto simp: delete_users_def)
  have "wp (delete_user env i ''admin'' actor_id)
     (\<lambda>_ t. users t = users (snd (delete_users ?p ?b)) \<and> tokens t = tokens (snd (delete_users ?p ?b))
        \<and> filter ?p (users ?b) \<noteq> [])
     (\<lambda>_ t. users t = users s \<or> users t = users ?b \<or> users t = users (snd (delete_users ?p ?b))) s"
    by (auto simp: delete_user_def wp_simps wp_delete_rows split: sum.split intro!: wp_intros)
  then have c: "case r of Inr _ \<Rightarrow> users t = users (snd (delete_users ?p ?b)) \<and> tokens t = tokens (snd (delete_users ?p ?b))
        \<and> filter ?p (users ?b) \<noteq> []
      | Inl _ \<Rightarrow> users t = users s \<or> users t = users ?b \<or> users t = users (snd (delete_users ?p ?b))"
    using assms by (cases r) (simp_all add: wp_def)
  show "users t = users s \<or> {u \<in> set (users ?b). u_role u \<noteq> ''user''} \<subseteq> set (users t)"
    using c keep by (cases r) auto
  assume r: "r = Inr ()" and ok: "db_ok ?b"
  have us: "users t = users (snd (delete_users ?p ?b))" and ts: "tokens t = tokens (snd (delete_users ?p ?b))"
    and ne: "filter ?p (users ?b) \<noteq> []" using c r by auto
  obtain u where u: "u \<in> set (users ?b)" "u_id u = i" "u_role u = ''user''"
    using ne by (auto simp: filter_empty_conv)
  have only: "v = u" if "v \<in> set (users ?b)" "u_id v = i" for v
    using users_ok_inj[of "users ?b" v u] ok that u by (simp add: db_ok_def)
  have "user_by_id i t = None"
    unfolding user_by_id_None us using only u(3) by (auto simp: delete_users_def)
  moreover have "\<forall>x \<in> set (tokens t). rt_user_id x \<noteq> i"
    unfolding ts using u by (auto simp: delete_users_def list_ex_iff)
  ultimately show "user_by_id i t = None \<and> (\<forall>x \<in> set (tokens t). rt_user_id x \<noteq> i)" ..
qed

text \<open>An admin's deletion is safe against a concurrent promotion. Whatever other requests commit between the check and the
  deletion, no account that is not a plain user at the time of the deletion is removed, and a deleted user's
  refresh tokens go with the row.\<close>

theorem delete_user_admin_toctou:
  assumes "delete_user env i ''admin'' actor_id s = (r, t)"
  shows "(users t = users s \<or> {u \<in> set (users (between env s)). u_role u \<noteq> ''user''} \<subseteq> set (users t))
    \<and> (r = Inr () \<and> db_ok (between env s) \<longrightarrow>
        user_by_id i t = None \<and> (\<forall>x \<in> set (tokens t). rt_user_id x \<noteq> i))"
  using delete_user_admin_toctou_parts[OF assms] by blast

lemma delete_user_admin_toctou_witness:
  "{u \<in> set (users sample_app). u_role u \<noteq> ''user''}
   \<subseteq> set (users (snd (delete_user sample_env 3 ''admin'' 2 sample_app)))"
proof -
  obtain r t where r: "delete_user sample_env 3 ''admin'' 2 sample_app = (r, t)"
    by (cases "delete_user sample_env 3 ''admin'' 2 sample_app")
  from delete_user_admin_toctou[OF r] r show ?thesis
    by (auto simp: sample_env_def)
qed

section \<open>Pages\<close>

lemma fetch_pages_take: "concat (map (\<lambda>k. fetch_page n k xs) [0..<m]) = take (m * n) xs"
  by (induction m) (simp_all add: fetch_page_def take_add[symmetric] add.commute)

lemma list_users_no_cache:
  assumes "pool (cache_svc env) = None" "\<And>c. \<not> db_err env c"
  shows "fst (list_users env params actor s) =
    Inr \<lparr>pg_items = map response_of (fetch_page (clamp (per_page params) 1 100) (clamp (page params) 1 1000000 - 1)
                        (visible_users actor (users s))),
         pg_total = length (visible_users actor (users s)), pg_page = clamp (page params) 1 1000000,
         pg_per_page = clamp (per_page params) 1 100,
         pg_total_pages = div_ceil (length (visible_users actor (users s))) (clamp (per_page params) 1 100)\<rparr>"
  by (simp add: list_users_def Let_def bindS_def cache_do_def no_pool[OF assms(1)] db_stmt_def read_db_def assms(2))

definition page_items :: "(user_error, paginated) res \<times> 'r app \<Rightarrow> user_response list" where
  "page_items x = (case fst x of Inr p \<Rightarrow> pg_items p | Inl _ \<Rightarrow> [])"

lemma list_users_pages_parts:
  assumes "pool (cache_svc env) = None" "\<And>c. \<not> db_err env c"
    and "1 \<le> n" "n \<le> 100" "length (visible_users actor (users s)) \<le> 1000000 * n"
  defines "pages \<equiv> div_ceil (length (visible_users actor (users s))) n"
  shows "concat (map (\<lambda>k. page_items (list_users env \<lparr>page = k, per_page = n\<rparr> actor s)) [1..<Suc pages])
      = map response_of (visible_users actor (users s))"
    and "mset (visible_users actor (users s))
      = mset (if actor = ''admin'' then filter (\<lambda>u. u_role u = ''user'') (users s) else users s)"
    and "length (page_items (list_users env params actor s)) \<le> 100"
    and "fst (list_users env \<lparr>page = 0, per_page = 0\<rparr> actor s) = fst (list_users env \<lparr>page = 1, per_page = 1\<rparr> actor s)"
proof -
  let ?v = "visible_users actor (users s)"
  have n: "clamp n 1 100 = n" using assms(3,4) by (simp add: clamp_def)
  have b: "length ?v \<le> pages * n" "pages * n < length ?v + n"
    using div_ceil_bounds[of n "length ?v"] assms(3) by (simp_all add: pages_def)
  have "pages * n < 1000001 * n" using b(2) assms(5) by linarith
  then have p: "pages \<le> 1000000" by simp
  have it: "page_items (list_users env \<lparr>page = Suc k, per_page = n\<rparr> actor s) = map response_of (fetch_page n k ?v)"
    if "k < pages" for k
    using that p n by (simp add: page_items_def list_users_no_cache[OF assms(1,2)] clamp_def)
  have "concat (map (\<lambda>k. page_items (list_users env \<lparr>page = k, per_page = n\<rparr> actor s)) [1..<Suc pages])
      = concat (map (\<lambda>k. page_items (list_users env \<lparr>page = Suc k, per_page = n\<rparr> actor s)) [0..<pages])"
    by (simp add: map_Suc_upt[symmetric] comp_def del: upt_Suc)
  also have "\<dots> = concat (map (\<lambda>k. map response_of (fetch_page n k ?v)) [0..<pages])"
    using it by (metis (no_types, lifting) atLeastLessThan_iff atLeastLessThan_upt map_eq_conv)
  also have "\<dots> = map response_of (concat (map (\<lambda>k. fetch_page n k ?v) [0..<pages]))"
    by (simp add: map_concat comp_def)
  also have "\<dots> = map response_of ?v" using b(1) by (simp add: fetch_pages_take)
  finally show "concat (map (\<lambda>k. page_items (list_users env \<lparr>page = k, per_page = n\<rparr> actor s)) [1..<Suc pages])
      = map response_of ?v" .
  show "mset ?v = mset (if actor = ''admin'' then filter (\<lambda>u. u_role u = ''user'') (users s) else users s)"
    by (simp add: visible_users_def)
  show "length (page_items (list_users env params actor s)) \<le> 100"
    by (simp add: page_items_def list_users_no_cache[OF assms(1,2)] fetch_page_def clamp_def min_le_iff_disj)
  show "fst (list_users env \<lparr>page = 0, per_page = 0\<rparr> actor s) = fst (list_users env \<lparr>page = 1, per_page = 1\<rparr> actor s)"
    by (simp add: list_users_no_cache[OF assms(1,2)] clamp_def)
qed

text \<open>Paging is complete and exact. Reading the pages from 1 to the announced number of pages yields every account the
  actor may see exactly once and in order; an admin sees exactly the plain users; a page never exceeds its size; and sizes and page
  numbers out of range are clamped instead of failing.\<close>

theorem list_users_pages:
  assumes "pool (cache_svc env) = None" "\<And>c. \<not> db_err env c"
    and "1 \<le> n" "n \<le> 100" "length (visible_users actor (users s)) \<le> 1000000 * n"
  shows "concat (map (\<lambda>k. page_items (list_users env \<lparr>page = k, per_page = n\<rparr> actor s))
            [1..<Suc (div_ceil (length (visible_users actor (users s))) n)])
      = map response_of (visible_users actor (users s))
    \<and> mset (visible_users actor (users s))
      = mset (if actor = ''admin'' then filter (\<lambda>u. u_role u = ''user'') (users s) else users s)
    \<and> length (page_items (list_users env params actor s)) \<le> 100
    \<and> fst (list_users env \<lparr>page = 0, per_page = 0\<rparr> actor s) = fst (list_users env \<lparr>page = 1, per_page = 1\<rparr> actor s)"
  using list_users_pages_parts[OF assms] by blast

lemma list_users_pages_witness:
  "length (page_items (list_users (sample_env\<lparr>cache_svc := \<lparr>pool = None, cache_client = None\<rparr>\<rparr>)
      default_pagination ''admin'' sample_app)) \<le> 100"
proof -
  let ?e = "sample_env\<lparr>cache_svc := \<lparr>pool = None, cache_client = None\<rparr>\<rparr>"
  have "pool (cache_svc ?e) = None" "\<And>c. \<not> db_err ?e c" by (simp_all add: sample_env_def)
  from list_users_pages[OF this, of 1 "''admin''" sample_app] show ?thesis
    by (simp add: sample_app_def sample_user_def visible_users_def)
qed

end
