(* ===== verification/AuthService.thy ===== *)
theory AuthService
  imports UserProps
begin

text \<open>
  \<^verbatim>\<open>server/src/services/auth.rs\<close>, \<^verbatim>\<open>server/src/utils/jwt.rs\<close>, \<^verbatim>\<open>crates/webshelf-runtime/src/auth.rs\<close> and the
  token-version check of \<^verbatim>\<open>server/src/lib.rs\<close>: login with one error for every rejected credential, refresh tokens
  (at most one per user after a remembered login, rotated once), revocation of all sessions, the claims of a JWT with their
  validation, and the check of a token's version against the cache and the table. Signing, hashing, hexadecimal
  digits, random bytes and the calendar are those of libraries: fields of \<^verbatim>\<open>crypto\<close>.
\<close>

section \<open>Claims\<close>

record jwt_claims =
  sub :: string
  exp_at :: int
  iat :: int
  iss :: string
  aud :: string
  jwt_role :: string
  jwt_version :: int
  jwt_remember :: bool

record auth_user =
  au_user_id :: string
  au_role :: string
  au_exp :: int
  au_iat :: int
  au_token_version :: int
  au_remember :: bool

definition auth_user_of :: "jwt_claims \<Rightarrow> auth_user" where
  "auth_user_of c = \<lparr>au_user_id = sub c, au_role = jwt_role c, au_exp = exp_at c, au_iat = iat c,
     au_token_version = jwt_version c, au_remember = jwt_remember c\<rparr>"

text \<open>
  Signing and reading a token under a secret (HS256), the lower-case hexadecimal digits of bytes, the digest, the bytes
  the generator delivers next, and the conversion of seconds to a time stamp in milliseconds.
\<close>

record crypto =
  jwt_encode :: "jwt_claims \<Rightarrow> string \<Rightarrow> string option"
  jwt_decode :: "string \<Rightarrow> string \<Rightarrow> jwt_claims option"
  hex_encode :: "nat list \<Rightarrow> string"
  sha256 :: "string \<Rightarrow> nat list"
  fill_bytes :: "nat \<Rightarrow> nat list"
  from_timestamp :: "int \<Rightarrow> int option"

text \<open>What signing documents: a signed token is read back under its secret and under no other.\<close>

definition jwt_laws :: "crypto \<Rightarrow> bool" where
  "jwt_laws k \<longleftrightarrow>
     (\<forall>c secret t. jwt_encode k c secret = Some t \<longrightarrow>
        (\<forall>secret'. jwt_decode k t secret' = (if secret' = secret then Some c else None)))"

definition now_secs :: "'r env \<Rightarrow> int" where "now_secs env = now env div 1000"

definition generate_token ::
    "crypto \<Rightarrow> 'r env \<Rightarrow> string \<Rightarrow> string \<Rightarrow> string \<Rightarrow> int \<Rightarrow> bool \<Rightarrow> int \<Rightarrow> string option" where
  "generate_token k env user_id role secret expiry_seconds remember token_version =
     jwt_encode k
       \<lparr>sub = user_id, exp_at = now_secs env + expiry_seconds, iat = now_secs env, iss = ''webshelf-server'',
        aud = ''webshelf'', jwt_role = role, jwt_version = token_version, jwt_remember = remember\<rparr> secret"

text \<open>The validation the code configures: expiry with a leeway of five seconds, issuer, audience.\<close>

definition validate_jwt :: "crypto \<Rightarrow> 'r env \<Rightarrow> string \<Rightarrow> string \<Rightarrow> jwt_claims option" where
  "validate_jwt k env token secret =
     (case jwt_decode k token secret of
        None \<Rightarrow> None
      | Some c \<Rightarrow>
          if now_secs env - 5 \<le> exp_at c \<and> iss c = ''webshelf-server'' \<and> aud c = ''webshelf'' then Some c else None)"

section \<open>The service\<close>

datatype auth_error = BadCredentials | AuthInternal string

record auth_service =
  jwt_secret :: string
  jwt_expiry_seconds :: int
  jwt_remember_expiry_seconds :: int
  refresh_token_expiry_seconds :: int

record login_request =
  lr_email :: string
  lr_password :: string
  lr_remember :: bool

record login_response =
  lo_token :: string
  lo_token_type :: string
  lo_expires_in :: int
  lo_user_id :: string
  lo_role :: string
  lo_refresh_token :: string
  lo_refresh_expires_in :: int

definition generate_refresh_token :: "crypto \<Rightarrow> string \<times> string" where
  "generate_refresh_token k =
     (let raw = hex_encode k (fill_bytes k 48) in (raw, hex_encode k (sha256 k raw)))"

definition store_refresh_token :: "'r env \<Rightarrow> int \<Rightarrow> string \<Rightarrow> int \<Rightarrow> ('r app, auth_error, unit) prog" where
  "store_refresh_token env uid h expires_at =
     db_stmt env AuthInternal ''Failed to store refresh token''
       (run_stmt (\<lambda>s. case insert_token uid h expires_at (now env) s of DbOk s' \<Rightarrow> DbOk (s', ()) | _ \<Rightarrow> RecordNotUpdated)
          (AuthInternal ''Failed to store refresh token'') (AuthInternal ''Failed to store refresh token''))"

definition delete_refresh_token :: "'r env \<Rightarrow> string \<Rightarrow> ('r app, auth_error, unit) prog" where
  "delete_refresh_token env h =
     db_stmt env AuthInternal ''Failed to delete refresh token'' (write_db (delete_tokens (\<lambda>t. rt_token_hash t = h)))"

definition delete_all_refresh_tokens :: "'r env \<Rightarrow> int \<Rightarrow> ('r app, auth_error, unit) prog" where
  "delete_all_refresh_tokens env uid =
     db_stmt env AuthInternal ''Failed to delete all refresh tokens for user''
       (write_db (delete_tokens (\<lambda>t. rt_user_id t = uid)))"

definition replace_tokens_txn :: "'r env \<Rightarrow> int \<Rightarrow> string \<Rightarrow> int \<Rightarrow> ('r app, auth_error, unit) prog" where
  "replace_tokens_txn env uid h expires_at =
     in_txn env AuthInternal ''Failed to begin transaction for refresh token rotation''
                             ''Failed to commit refresh token rotation''
       (bindS (delete_all_refresh_tokens env uid) (\<lambda>_.
        bindS (store_refresh_token env uid h expires_at) (\<lambda>_.
        retS (True, ()))))"

text \<open>The refresh token of a login: only a remembered one gets one; otherwise the empty string and zero.\<close>

definition issue_refresh :: "crypto \<Rightarrow> auth_service \<Rightarrow> 'r env \<Rightarrow> int \<Rightarrow> bool \<Rightarrow> ('r app, auth_error, string \<times> int) prog" where
  "issue_refresh k svc env uid remember =
     (if remember then
        (let (raw, h) = generate_refresh_token k in
         bindS (liftE (ok_or (AuthInternal ''Failed to compute refresh token expiry'')
                        (from_timestamp k (now_secs env + refresh_token_expiry_seconds svc)))) (\<lambda>expires_at.
         bindS (interfere env) (\<lambda>_.
         bindS (replace_tokens_txn env uid h expires_at) (\<lambda>_.
         retS (raw, refresh_token_expiry_seconds svc)))))
      else retS ([], 0))"

text \<open>The password check: a missing user costs a hash whose result is dropped.\<close>

definition check_credentials :: "'r env \<Rightarrow> string \<Rightarrow> user option \<Rightarrow> (auth_error, user) res" where
  "check_credentials env password row =
     (case row of
        None \<Rightarrow> Inl BadCredentials
      | Some u \<Rightarrow>
          (case verify_password env password (u_password_hash u) of
             None \<Rightarrow> Inl (AuthInternal ''Failed to verify password'')
           | Some is_valid \<Rightarrow>
               if \<not> is_valid then Inl BadCredentials
               else if \<not> u_email_verified u then Inl BadCredentials
               else Inr u))"

definition login :: "crypto \<Rightarrow> auth_service \<Rightarrow> 'r env \<Rightarrow> login_request \<Rightarrow> ('r app, auth_error, login_response) prog" where
  "login k svc env request =
     bindS (db_stmt env AuthInternal ''Failed to query user'' (read_db (user_by_email (to_lower (lr_email request))))) (\<lambda>row.
     bindS (liftE (check_credentials env (lr_password request) row)) (\<lambda>user.
     let jwt_expiry = (if lr_remember request then jwt_remember_expiry_seconds svc else jwt_expiry_seconds svc) in
     bindS (liftE (ok_or (AuthInternal ''Failed to generate token'')
              (generate_token k env (show_int (u_id user)) (u_role user) (jwt_secret svc) jwt_expiry
                 (lr_remember request) (u_token_version user)))) (\<lambda>token.
     bindS (issue_refresh k svc env (u_id user) (lr_remember request)) (\<lambda>(raw_refresh_token, refresh_expires_in).
     retS \<lparr>lo_token = token, lo_token_type = ''Bearer'', lo_expires_in = jwt_expiry, lo_user_id = show_int (u_id user),
           lo_role = u_role user, lo_refresh_token = raw_refresh_token,
           lo_refresh_expires_in = refresh_expires_in\<rparr>))))"

definition revoke_all_sessions :: "'r env \<Rightarrow> int \<Rightarrow> ('r app, auth_error, unit) prog" where
  "revoke_all_sessions env uid =
     in_txn env AuthInternal ''Failed to begin transaction for revoke_all_sessions''
                             ''Failed to commit revoke_all_sessions transaction''
       (bindS (db_stmt env AuthInternal ''Failed to delete refresh tokens''
                (write_db (delete_tokens (\<lambda>t. rt_user_id t = uid)))) (\<lambda>_.
        bindS (bump_stmt env AuthInternal ''Failed to increment token_version'' uid) (\<lambda>_.
        retS (True, ()))))"

text \<open>The row a rotation consumes: the hash matches and the expiry is still to come.\<close>

definition valid_token :: "'r env \<Rightarrow> string \<Rightarrow> 'r app \<Rightarrow> refresh_token option" where
  "valid_token env h s = find (\<lambda>t. rt_token_hash t = h \<and> now env < rt_expires_at t) (tokens s)"

definition swap_refresh_token :: "'r env \<Rightarrow> user \<Rightarrow> string \<Rightarrow> string \<Rightarrow> int \<Rightarrow> ('r app, auth_error, unit) prog" where
  "swap_refresh_token env user old_hash new_hash new_expires_at =
     bindS (db_stmt env AuthInternal ''Failed to delete old refresh token''
             (write_db (delete_tokens (\<lambda>t. rt_token_hash t = old_hash)))) (\<lambda>_.
     db_stmt env AuthInternal ''Failed to store new refresh token''
       (run_stmt (\<lambda>s. case insert_token (u_id user) new_hash new_expires_at (now env) s of
                        DbOk s' \<Rightarrow> DbOk (s', ()) | _ \<Rightarrow> RecordNotUpdated)
          (AuthInternal ''Failed to store new refresh token'') (AuthInternal ''Failed to store new refresh token'')))"

definition rotate_refresh_token ::
    "'r env \<Rightarrow> string \<Rightarrow> string \<Rightarrow> int \<Rightarrow> ('r app, auth_error, (int \<times> string \<times> int) option) prog" where
  "rotate_refresh_token env old_hash new_hash new_expires_at =
     in_txn env AuthInternal ''Failed to begin transaction'' ''Failed to commit transaction''
       (bindS (db_stmt env AuthInternal ''Failed to query refresh token'' (read_db (valid_token env old_hash))) (\<lambda>row.
        case row of
          None \<Rightarrow> retS (False, None)
        | Some record \<Rightarrow>
            bindS (db_stmt env AuthInternal ''Failed to query user'' (read_db (user_by_id (rt_user_id record)))) (\<lambda>urow.
            case urow of
              None \<Rightarrow> retS (False, None)
            | Some user \<Rightarrow>
                bindS (swap_refresh_token env user old_hash new_hash new_expires_at) (\<lambda>_.
                retS (True, Some (u_id user, u_role user, u_token_version user))))))"

definition cleanup_expired_refresh_tokens :: "'r env \<Rightarrow> ('r app, auth_error, nat) prog" where
  "cleanup_expired_refresh_tokens env =
     db_stmt env AuthInternal ''Failed to cleanup expired refresh tokens''
       (\<lambda>s. (Inr (length (filter (\<lambda>t. rt_expires_at t \<le> now env) (tokens s))),
             delete_tokens (\<lambda>t. rt_expires_at t \<le> now env) s))"

section \<open>The version check of a request\<close>

text \<open>A version in the cache is a JSON number that fits 32 bits.\<close>

definition read_version :: "string \<Rightarrow> int option" where
  "read_version s =
     (case json_int s of None \<Rightarrow> None | Some v \<Rightarrow> if - (2 ^ 31) \<le> v \<and> v \<le> i32_max then Some v else None)"

definition write_version :: "int \<Rightarrow> string option" where "write_version v = Some (show_int v)"

definition TOKEN_VERSION_TTL_SECS :: nat where "TOKEN_VERSION_TTL_SECS = 30"

definition verify_token_version :: "'r env \<Rightarrow> int \<Rightarrow> int \<Rightarrow> ('r app, string, unit) prog" where
  "verify_token_version env uid token_version =
     bindS (cache_do env (\<lambda>c. cache_get read_version c (token_version_key uid))) (\<lambda>hit.
     case hit of
       Inr (Some cached) \<Rightarrow>
         if cached = token_version then retS () else raiseS ''Token version mismatch (token was invalidated)''
     | _ \<Rightarrow>
         bindS (db_stmt env id ''Failed to query user for token version check'' (read_db (user_by_id uid))) (\<lambda>row.
         bindS (liftE (ok_or ''User not found'' row)) (\<lambda>user.
         bindS (cache_do env (\<lambda>c. cache_set write_version c (token_version_key uid) (u_token_version user)
                  TOKEN_VERSION_TTL_SECS)) (\<lambda>_.
         if u_token_version user \<noteq> token_version
         then raiseS ''Token version mismatch (token was invalidated by password change)''
         else retS ()))))"

section \<open>Lemmas\<close>

lemma wp_store_refresh_token [wp_simps]:
  "wp (store_refresh_token env uid h e) Q E s =
    (if db_err env ''Failed to store refresh token'' then E (AuthInternal ''Failed to store refresh token'') s
     else case insert_token uid h e (now env) s of DbOk s' \<Rightarrow> Q () s'
          | _ \<Rightarrow> E (AuthInternal ''Failed to store refresh token'') s)"
  by (simp add: store_refresh_token_def wp_simps split: db_result.split)

lemma wp_swap_refresh_token [wp_simps]:
  "wp (swap_refresh_token env user h h' e) Q E s =
    (if db_err env ''Failed to delete old refresh token'' then E (AuthInternal ''Failed to delete old refresh token'') s
     else let s1 = delete_tokens (\<lambda>t. rt_token_hash t = h) s in
          if db_err env ''Failed to store new refresh token'' then E (AuthInternal ''Failed to store new refresh token'') s1
          else case insert_token (u_id user) h' e (now env) s1 of DbOk s' \<Rightarrow> Q () s'
               | _ \<Rightarrow> E (AuthInternal ''Failed to store new refresh token'') s1)"
  by (simp add: swap_refresh_token_def wp_simps Let_def split: db_result.split)

text \<open>The row a stored token becomes.\<close>

definition token_row :: "'r app \<Rightarrow> int \<Rightarrow> string \<Rightarrow> int \<Rightarrow> int \<Rightarrow> refresh_token" where
  "token_row s uid h e c = \<lparr>rt_id = next_token_id s, rt_user_id = uid, rt_token_hash = h, rt_expires_at = e, rt_created_at = c\<rparr>"

lemma insert_token_cases:
  "insert_token uid h e c s = DbOk t \<Longrightarrow>
     users t = users s \<and> redis t = redis s \<and> tokens t = tokens s @ [token_row s uid h e c]
     \<and> user_by_id uid s \<noteq> None \<and> (\<forall>x \<in> set (tokens s). rt_token_hash x \<noteq> h)"
  by (auto simp: insert_token_def token_row_def list_ex_iff split: if_splits)

lemma delete_tokens_simps [simp]:
  "users (delete_tokens p s) = users s" "redis (delete_tokens p s) = redis s"
  "tokens (delete_tokens p s) = filter (\<lambda>t. \<not> p t) (tokens s)"
  "next_token_id (delete_tokens p s) = next_token_id s"
  "user_by_id i (delete_tokens p s) = user_by_id i s"
  by (simp_all add: delete_tokens_def user_by_id_def)

text \<open>What each transaction leaves: on success the new tables, on an error the old ones.\<close>

definition replaced :: "'r env \<Rightarrow> int \<Rightarrow> string \<Rightarrow> int \<Rightarrow> 'r app \<Rightarrow> 'r app \<Rightarrow> bool" where
  "replaced env uid h e s t \<longleftrightarrow> users t = users s \<and>
     (\<exists>n. tokens t = filter (\<lambda>x. rt_user_id x \<noteq> uid) (tokens s)
        @ [\<lparr>rt_id = n, rt_user_id = uid, rt_token_hash = h, rt_expires_at = e, rt_created_at = now env\<rparr>])"

lemma wp_replace_tokens_txn:
  "wp (replace_tokens_txn env uid h e) (\<lambda>_. replaced env uid h e s) (\<lambda>_. same_tables s) s"
  by (auto simp: replace_tokens_txn_def delete_all_refresh_tokens_def wp_simps same_tables_def replaced_def token_row_def
      split: db_result.split dest!: insert_token_cases)

lemma replace_tokens_db_ok: "db_ok s \<Longrightarrow> db_ok (snd (replace_tokens_txn env uid h e s))"
  by (rule wp_snd)
    (auto simp: replace_tokens_txn_def delete_all_refresh_tokens_def wp_simps delete_tokens_ok
      split: db_result.split dest: insert_token_ok(1))

definition rotated :: "'r env \<Rightarrow> string \<Rightarrow> string \<Rightarrow> int \<Rightarrow> user \<Rightarrow> 'r app \<Rightarrow> 'r app \<Rightarrow> bool" where
  "rotated env h h' e u s t \<longleftrightarrow> users t = users s \<and>
     (\<exists>x. valid_token env h s = Some x \<and> user_by_id (rt_user_id x) s = Some u) \<and>
     (\<exists>n. tokens t = filter (\<lambda>x. rt_token_hash x \<noteq> h) (tokens s)
        @ [\<lparr>rt_id = n, rt_user_id = u_id u, rt_token_hash = h', rt_expires_at = e, rt_created_at = now env\<rparr>]) \<and>
     (\<forall>x \<in> set (tokens s). rt_token_hash x = h' \<longrightarrow> h = h')"

lemma wp_rotate:
  "wp (rotate_refresh_token env h h' e)
     (\<lambda>x t. case x of None \<Rightarrow> same_tables s t
        | Some y \<Rightarrow> \<exists>u. y = (u_id u, u_role u, u_token_version u) \<and> rotated env h h' e u s t)
     (\<lambda>_. same_tables s) s"
  by (auto simp: rotate_refresh_token_def wp_simps same_tables_def rotated_def token_row_def Let_def
      split: db_result.split option.split dest!: insert_token_cases)

lemma rotate_cases:
  assumes "rotate_refresh_token env h h' e s = (r, t)"
  shows "case r of Inr (Some y) \<Rightarrow> \<exists>u. y = (u_id u, u_role u, u_token_version u) \<and> rotated env h h' e u s t
     | _ \<Rightarrow> same_tables s t"
  using wp_rotate[of env h h' e s] assms by (auto simp: wp_def split: sum.splits option.splits)

lemma rotate_db_ok: "db_ok s \<Longrightarrow> db_ok (snd (rotate_refresh_token env h h' e s))"
  by (rule wp_snd)
    (auto simp: rotate_refresh_token_def wp_simps Let_def delete_tokens_ok
      split: db_result.split option.split dest: insert_token_ok(1))

definition revoked :: "int \<Rightarrow> 'r app \<Rightarrow> 'r app \<Rightarrow> bool" where
  "revoked uid s t \<longleftrightarrow>
     users t = map (\<lambda>u. if u_id u = uid then u\<lparr>u_token_version := u_token_version u + 1\<rparr> else u) (users s) \<and>
     tokens t = filter (\<lambda>x. rt_user_id x \<noteq> uid) (tokens s) \<and> redis t = redis s"

lemma wp_revoke_all_sessions:
  "wp (revoke_all_sessions env uid) (\<lambda>_. revoked uid s) (\<lambda>_ t. same_tables s t \<and> redis t = redis s) s"
  by (auto simp: revoke_all_sessions_def wp_simps same_tables_def revoked_def bump_token_version_def rollback_def
      split: db_result.splits if_splits)

lemma revoke_db_ok: "db_ok s \<Longrightarrow> db_ok (snd (revoke_all_sessions env uid s))"
  by (rule wp_snd)
    (auto simp: revoke_all_sessions_def wp_simps delete_tokens_ok split: db_result.split dest: bump_token_version_ok(1))

lemma cleanup_db_ok: "db_ok s \<Longrightarrow> db_ok (snd (cleanup_expired_refresh_tokens env s))"
  by (simp add: cleanup_expired_refresh_tokens_def db_stmt_def delete_tokens_ok)

lemma delete_refresh_db_ok: "db_ok s \<Longrightarrow> db_ok (snd (delete_refresh_token env h s))"
  by (simp add: delete_refresh_token_def db_stmt_def write_db_def delete_tokens_ok)

lemma wp_db_ok: "db_ok (snd (m s)) \<Longrightarrow> (\<And>a t. db_ok t \<Longrightarrow> Q a t) \<Longrightarrow> (\<And>e t. db_ok t \<Longrightarrow> E e t) \<Longrightarrow> wp m Q E s"
  by (auto simp: wp_def split: prod.splits sum.splits)

lemma issue_refresh_db_ok:
  assumes "db_ok s" "\<And>t. db_ok t \<Longrightarrow> db_ok (between env t)"
  shows "db_ok (snd (issue_refresh k svc env uid b s))"
proof -
  have "wp (issue_refresh k svc env uid b) (\<lambda>_. db_ok) (\<lambda>_. db_ok) s"
    unfolding issue_refresh_def generate_refresh_token_def Let_def
    using assms by (auto simp: wp_simps split: sum.splits intro!: wp_db_ok[OF replace_tokens_db_ok])
  then show ?thesis by (rule wp_snd)
qed

lemma login_db_ok:
  assumes "db_ok s" "\<And>t. db_ok t \<Longrightarrow> db_ok (between env t)"
  shows "db_ok (snd (login k svc env req s))"
  by (rule wp_snd)
    (use assms in \<open>auto simp: login_def wp_simps Let_def split: sum.splits prod.splits
      intro!: wp_db_ok[OF issue_refresh_db_ok]\<close>)

lemma verify_token_version_db_ok: "db_ok s \<Longrightarrow> db_ok (snd (verify_token_version env uid v s))"
  by (rule wp_snd)
    (auto simp: verify_token_version_def wp_simps split: sum.splits option.splits intro!: wp_intros)

end
