(* ===== verification/AuthProps.thy ===== *)
theory AuthProps
  imports AuthService
begin

text \<open>
  Properties of the authentication service: who may log in and what a login leaves behind, the lifetime of
  a JWT, one-shot rotation of refresh tokens, revocation, and the exactness of the version check while the version
  cache agrees with the table.
\<close>

section \<open>Sample values for the witnesses\<close>

text \<open>A signer that knows one set of claims: it writes the secret into the token.\<close>

definition sample_crypto :: "jwt_claims \<Rightarrow> crypto" where
  "sample_crypto c0 =
     \<lparr>jwt_encode = (\<lambda>c secret. if c = c0 then Some (''t.'' @ secret) else None),
      jwt_decode = (\<lambda>t secret. if t = ''t.'' @ secret then Some c0 else None),
      hex_encode = map (\<lambda>b. char_of (b mod 26 + 97)), sha256 = map (\<lambda>c. of_char c + 1),
      fill_bytes = (\<lambda>n. replicate n 0), from_timestamp = (\<lambda>x. Some (x * 1000))\<rparr>"

definition sample_claims :: jwt_claims where
  "sample_claims = \<lparr>sub = ''3'', exp_at = 4600, iat = 1000, iss = ''webshelf-server'', aud = ''webshelf'',
     jwt_role = ''user'', jwt_version = 1, jwt_remember = False\<rparr>"

definition sample_auth :: auth_service where
  "sample_auth = \<lparr>jwt_secret = ''k'', jwt_expiry_seconds = 3600, jwt_remember_expiry_seconds = 7200,
     refresh_token_expiry_seconds = 9000\<rparr>"

lemma sample_env_simps:
  "db_err sample_env c = False" "between sample_env = id" "now sample_env = 1000000"
  "verify_password sample_env p h = Some (h = ''h'' @ p)" "hash_password sample_env p = Some (''h'' @ p)"
  by (simp_all add: sample_env_def)

lemma sample_user_simps:
  "u_id (sample_user i m r) = i" "u_role (sample_user i m r) = r" "u_token_version (sample_user i m r) = 1"
  "u_password_hash (sample_user i m r) = ''h'' @ m" "u_email_verified (sample_user i m r)" "u_email (sample_user i m r) = m"
  by (simp_all add: sample_user_def)

lemma sample_jwt_laws: "jwt_laws (sample_crypto c)"
  by (auto simp: jwt_laws_def sample_crypto_def)

section \<open>Tokens\<close>

text \<open>The life of a JWT. A generated token is accepted, with the claims it was made of, exactly under the secret that
  signed it and until five seconds after the announced expiry.\<close>

theorem jwt_roundtrip:
  assumes "jwt_laws k" "generate_token k env uid role secret expiry remember version = Some token"
  shows "validate_jwt k env' token secret' =
    (if secret' = secret \<and> now_secs env' \<le> now_secs env + expiry + 5
     then Some \<lparr>sub = uid, exp_at = now_secs env + expiry, iat = now_secs env, iss = ''webshelf-server'',
                aud = ''webshelf'', jwt_role = role, jwt_version = version, jwt_remember = remember\<rparr>
     else None)"
proof -
  have "jwt_decode k token secret' = (if secret' = secret then
      Some \<lparr>sub = uid, exp_at = now_secs env + expiry, iat = now_secs env, iss = ''webshelf-server'',
                aud = ''webshelf'', jwt_role = role, jwt_version = version, jwt_remember = remember\<rparr> else None)"
    using assms unfolding jwt_laws_def generate_token_def by blast
  then show ?thesis by (auto simp: validate_jwt_def)
qed

lemma jwt_roundtrip_witness:
  "validate_jwt (sample_crypto sample_claims) (sample_env\<lparr>now := 4605999\<rparr>) ''t.k'' ''k'' = Some sample_claims
   \<and> validate_jwt (sample_crypto sample_claims) (sample_env\<lparr>now := 4606000\<rparr>) ''t.k'' ''k'' = None"
proof -
  have g: "generate_token (sample_crypto sample_claims) sample_env ''3'' ''user'' ''k'' 3600 False 1 = Some ''t.k''"
    by (simp add: generate_token_def sample_crypto_def sample_claims_def now_secs_def sample_env_def)
  show ?thesis
    using jwt_roundtrip[OF sample_jwt_laws g, of "sample_env\<lparr>now := 4605999\<rparr>" "''k''"]
      jwt_roundtrip[OF sample_jwt_laws g, of "sample_env\<lparr>now := 4606000\<rparr>" "''k''"]
    by (simp add: now_secs_def sample_env_def sample_claims_def)
qed

section \<open>Login\<close>

definition may_login :: "'r env \<Rightarrow> login_request \<Rightarrow> 'r app \<Rightarrow> user \<Rightarrow> bool" where
  "may_login env req s u \<longleftrightarrow>
     user_by_email (to_lower (lr_email req)) s = Some u
     \<and> verify_password env (lr_password req) (u_password_hash u) = Some True \<and> u_email_verified u"

lemma check_credentials_Inr:
  "check_credentials env p row = Inr u \<longleftrightarrow>
     row = Some u \<and> verify_password env p (u_password_hash u) = Some True \<and> u_email_verified u"
  by (auto simp: check_credentials_def split: option.splits if_splits)

lemma wp_issue_refresh:
  assumes "between env s = s"
  shows "wp (issue_refresh k svc env uid b)
     (\<lambda>(raw, n) t.
        if b then raw = fst (generate_refresh_token k) \<and> n = refresh_token_expiry_seconds svc
          \<and> (\<exists>e. from_timestamp k (now_secs env + refresh_token_expiry_seconds svc) = Some e
               \<and> replaced env uid (snd (generate_refresh_token k)) e s t)
        else raw = [] \<and> n = 0 \<and> t = s)
     (\<lambda>e t. (\<exists>m. e = AuthInternal m) \<and> (b \<and> same_tables s t)) s"
proof (cases b)
  case False
  then show ?thesis by (simp add: issue_refresh_def wp_simps)
next
  case True
  have i: "wp (replace_tokens_txn env uid h e) Q E s"
    if "\<And>t. replaced env uid h e s t \<Longrightarrow> Q () t" "\<And>m t. same_tables s t \<Longrightarrow> E (AuthInternal m) t" for h e Q E
  proof (rule wp_mono[OF wp_conj[OF wp_replace_tokens_txn]])
    show "wp (replace_tokens_txn env uid h e) (\<lambda>_ _. True) (\<lambda>e _. \<exists>m. e = AuthInternal m) s"
      by (auto simp: replace_tokens_txn_def delete_all_refresh_tokens_def wp_simps split: db_result.split)
  qed (use that in auto)
  show ?thesis
    unfolding issue_refresh_def if_P[OF True] generate_refresh_token_def Let_def
    using True assms by (auto simp: wp_simps same_tables_def split: sum.split intro!: i)
qed

lemma issue_refresh_cases:
  assumes "between env s = s" "issue_refresh k svc env uid b s = (Inr (raw, n), t)"
  shows "if b then raw = fst (generate_refresh_token k) \<and> n = refresh_token_expiry_seconds svc
          \<and> (\<exists>e. from_timestamp k (now_secs env + refresh_token_expiry_seconds svc) = Some e
               \<and> replaced env uid (snd (generate_refresh_token k)) e s t)
        else raw = [] \<and> n = 0 \<and> t = s"
  using wp_Inr[OF wp_issue_refresh[OF assms(1)] assms(2)] by simp

lemma login_cases:
  assumes "login k svc env req s = (Inr resp, t)"
  obtains u raw n where "may_login env req s u" "issue_refresh k svc env (u_id u) (lr_remember req) s = (Inr (raw, n), t)"
    and "generate_token k env (show_int (u_id u)) (u_role u) (jwt_secret svc) (lo_expires_in resp) (lr_remember req)
      (u_token_version u) = Some (lo_token resp)"
    and "lo_expires_in resp = (if lr_remember req then jwt_remember_expiry_seconds svc else jwt_expiry_seconds svc)"
    and "lo_user_id resp = show_int (u_id u)" "lo_role resp = u_role u" "lo_refresh_token resp = raw" "lo_refresh_expires_in resp = n"
  using assms
  by (auto simp: login_def bindS_Inr_conv db_stmt_def read_db_def Let_def may_login_def check_credentials_Inr split: if_splits)

text \<open>C27: a successful login. It needs a verified account with the lower-cased email and the right password; the token is signed for
  that account, its role and its current version. A remembered login leaves the user with exactly one refresh token,
  the one issued, and every other user's tokens as they were; any other login leaves no trace and issues none.\<close>

theorem login_sound:
  assumes "login k svc env req s = (Inr resp, t)" "between env s = s"
  shows "\<exists>u. may_login env req s u \<and> lo_user_id resp = show_int (u_id u) \<and> lo_role resp = u_role u
    \<and> lo_expires_in resp = (if lr_remember req then jwt_remember_expiry_seconds svc else jwt_expiry_seconds svc)
    \<and> generate_token k env (show_int (u_id u)) (u_role u) (jwt_secret svc) (lo_expires_in resp) (lr_remember req)
        (u_token_version u) = Some (lo_token resp)
    \<and> (if lr_remember req
       then lo_refresh_token resp = fst (generate_refresh_token k) \<and> users t = users s
         \<and> filter (\<lambda>x. rt_user_id x \<noteq> u_id u) (tokens t) = filter (\<lambda>x. rt_user_id x \<noteq> u_id u) (tokens s)
         \<and> map rt_token_hash (filter (\<lambda>x. rt_user_id x = u_id u) (tokens t)) = [snd (generate_refresh_token k)]
       else lo_refresh_token resp = [] \<and> t = s)"
proof -
  from assms(1) obtain u raw n where u: "may_login env req s u" "lo_user_id resp = show_int (u_id u)" "lo_role resp = u_role u"
    "lo_expires_in resp = (if lr_remember req then jwt_remember_expiry_seconds svc else jwt_expiry_seconds svc)"
    "generate_token k env (show_int (u_id u)) (u_role u) (jwt_secret svc) (lo_expires_in resp) (lr_remember req)
      (u_token_version u) = Some (lo_token resp)"
    and i: "issue_refresh k svc env (u_id u) (lr_remember req) s = (Inr (raw, n), t)" and r: "lo_refresh_token resp = raw"
    by (rule login_cases)
  show ?thesis
    using u issue_refresh_cases[OF assms(2) i] r
    by (intro exI[of _ u]) (auto simp: replaced_def filter_empty_conv split: if_splits)
qed

lemma login_sound_witness:
  "let r = fst (login (sample_crypto sample_claims) sample_auth sample_env
             \<lparr>lr_email = ''U'', lr_password = ''u'', lr_remember = False\<rparr> sample_app)
   in r = Inr \<lparr>lo_token = ''t.k'', lo_token_type = ''Bearer'', lo_expires_in = 3600, lo_user_id = ''3'', lo_role = ''user'',
        lo_refresh_token = [], lo_refresh_expires_in = 0\<rparr>
      \<and> user_by_email ''u'' sample_app = Some (sample_user 3 ''u'' ''user'')"
proof -
  let ?req = "\<lparr>lr_email = ''U'', lr_password = ''u'', lr_remember = False\<rparr>"
  let ?resp = "\<lparr>lo_token = ''t.k'', lo_token_type = ''Bearer'', lo_expires_in = 3600, lo_user_id = ''3'', lo_role = ''user'',
        lo_refresh_token = [], lo_refresh_expires_in = 0\<rparr>"
  have l: "to_lower ''U'' = ''u''" by code_simp
  have u: "user_by_email ''u'' sample_app = Some (sample_user 3 ''u'' ''user'')"
    by (simp add: user_by_email_def sample_app_def sample_user_def)
  have s: "show_int 3 = ''3''" by code_simp
  have b: "between sample_env sample_app = sample_app" by (simp add: sample_env_def)
  have g: "generate_token (sample_crypto sample_claims) sample_env ''3'' ''user'' ''k'' 3600 False 1 = Some ''t.k''"
    by (simp add: generate_token_def sample_crypto_def sample_claims_def now_secs_def sample_env_def)
  have "login (sample_crypto sample_claims) sample_auth sample_env ?req sample_app = (Inr ?resp, sample_app)"
    by (simp add: login_def bindS_def db_stmt_def read_db_def l u s g Let_def issue_refresh_def
        check_credentials_def sample_env_simps sample_user_simps sample_auth_def)
  from login_sound[OF this b] this u show ?thesis by simp
qed

text \<open>One answer for every rejected login. When the database works, the caller gets the credentials error exactly when
  no verified account with that email and password exists, whichever of the reasons it is, and nothing changes.\<close>

theorem login_rejects_uniformly:
  assumes "\<And>c. \<not> db_err env c" "\<And>p h. verify_password env p h \<noteq> None"
  shows "login k svc env req s = (Inl BadCredentials, s) \<longleftrightarrow> \<not> (\<exists>u. may_login env req s u)"
proof -
  let ?row = "user_by_email (to_lower (lr_email req)) s"
  have c: "check_credentials env (lr_password req) ?row = Inl BadCredentials \<longleftrightarrow> \<not> (\<exists>u. may_login env req s u)"
    using assms(2)[of "lr_password req"] by (cases ?row) (auto simp: check_credentials_def may_login_def split: option.split)
  have "fst (issue_refresh k svc env uid b s) \<noteq> Inl BadCredentials" for uid b
  proof -
    have "wp (issue_refresh k svc env uid b) (\<lambda>_ _. True) (\<lambda>e _. e \<noteq> BadCredentials) s"
      by (auto simp: issue_refresh_def generate_refresh_token_def Let_def replace_tokens_txn_def
          delete_all_refresh_tokens_def wp_simps split: sum.split db_result.split)
    then show ?thesis by (auto simp: wp_def split: prod.splits sum.splits)
  qed
  then have ne: "issue_refresh k svc env uid b s \<noteq> (Inl BadCredentials, t)" for uid b t
    by (metis fst_conv)
  have "login k svc env req s = (Inl BadCredentials, s) \<longleftrightarrow>
      check_credentials env (lr_password req) ?row = Inl BadCredentials"
    using ne by (auto simp: login_def bindS_Inl_conv db_stmt_def read_db_def assms(1) Let_def split: prod.splits)
  with c show ?thesis by simp
qed

lemma login_rejects_uniformly_witness:
  "login (sample_crypto sample_claims) sample_auth sample_env \<lparr>lr_email = ''x'', lr_password = ''u'', lr_remember = True\<rparr>
     sample_app = (Inl BadCredentials, sample_app)
   \<and> login (sample_crypto sample_claims) sample_auth sample_env \<lparr>lr_email = ''u'', lr_password = ''x'', lr_remember = True\<rparr>
     sample_app = (Inl BadCredentials, sample_app)"
proof -
  have e: "\<And>c. \<not> db_err sample_env c" "\<And>p h. verify_password sample_env p h \<noteq> None"
    by (simp_all add: sample_env_def)
  show ?thesis
    by (rule conjI; subst login_rejects_uniformly[OF e])
      (auto simp: may_login_def user_by_email_def sample_app_def sample_user_def sample_env_def to_lower_def lower_char_def)
qed

section \<open>Refresh tokens\<close>

lemma find_append: "find P (xs @ ys) = (case find P xs of None \<Rightarrow> find P ys | Some x \<Rightarrow> Some x)"
  by (induction xs) auto

lemma find_filter: "(\<And>x. P x \<Longrightarrow> q x) \<Longrightarrow> find P (filter q xs) = find P xs"
  by (induction xs) auto

lemma find_none_filter: "(\<And>x. P x \<Longrightarrow> \<not> q x) \<Longrightarrow> find P (filter q xs) = None"
  by (induction xs) auto

lemma valid_token_Some: "valid_token env h s = Some x \<Longrightarrow>
    x \<in> set (tokens s) \<and> rt_token_hash x = h \<and> now env < rt_expires_at x"
  by (auto simp: valid_token_def find_Some_iff in_set_conv_nth)

lemma rotate_invalid: "valid_token env h s = None \<Longrightarrow> fst (rotate_refresh_token env h h' e s) \<noteq> Inr (Some y)"
  using rotate_cases[of env h h' e s "fst (rotate_refresh_token env h h' e s)" "snd (rotate_refresh_token env h h' e s)"]
  by (auto simp: rotated_def)

text \<open>C28: a refresh token is good for one rotation. It must be stored and not yet expired; afterwards it is never
  accepted again at any time, its successor is accepted for the same user until its expiry, no other token changes its
  status, and the answer carries the user's current role and version. A rotation that answers nothing or fails changes no table.\<close>

theorem rotate_refresh_token_once:
  assumes "rotate_refresh_token env h h' e s = (r, t)" "h \<noteq> h'"
  shows "case r of
      Inr (Some y) \<Rightarrow>
        (\<exists>x u. x \<in> set (tokens s) \<and> rt_token_hash x = h \<and> now env < rt_expires_at x
           \<and> user_by_id (rt_user_id x) s = Some u \<and> y = (u_id u, u_role u, u_token_version u)
           \<and> users t = users s
           \<and> fst (rotate_refresh_token env2 h h2 e2 t) \<noteq> Inr (Some z)
           \<and> (now env2 < e \<longrightarrow> map_option rt_user_id (valid_token env2 h' t) = Some (u_id u))
           \<and> (g \<noteq> h \<and> g \<noteq> h' \<longrightarrow> valid_token env2 g t = valid_token env2 g s))
    | _ \<Rightarrow> users t = users s \<and> tokens t = tokens s"
proof (cases "\<exists>y. r = Inr (Some y)")
  case False
  then show ?thesis
    using rotate_cases[OF assms(1)] by (auto simp: same_tables_def split: sum.split option.split)
next
  case True
  then obtain y where y: "r = Inr (Some y)" by blast
  then obtain u x n where u: "y = (u_id u, u_role u, u_token_version u)" "users t = users s"
    and x: "valid_token env h s = Some x" "user_by_id (rt_user_id x) s = Some u"
    and t: "tokens t = filter (\<lambda>x. rt_token_hash x \<noteq> h) (tokens s)
        @ [\<lparr>rt_id = n, rt_user_id = u_id u, rt_token_hash = h', rt_expires_at = e, rt_created_at = now env\<rparr>]"
    and new: "\<forall>x \<in> set (tokens s). rt_token_hash x = h' \<longrightarrow> h = h'"
    using rotate_cases[OF assms(1)] by (auto simp: rotated_def)
  have "find (\<lambda>x. rt_token_hash x = h \<and> now env2 < rt_expires_at x) (filter (\<lambda>x. rt_token_hash x \<noteq> h) (tokens s)) = None"
    by (rule find_none_filter) simp
  then have "valid_token env2 h t = None"
    using assms(2) by (simp add: valid_token_def t find_append)
  then have gone: "fst (rotate_refresh_token env2 h h2 e2 t) \<noteq> Inr (Some z)" by (rule rotate_invalid)
  have "find (\<lambda>x. rt_token_hash x = h' \<and> now env2 < rt_expires_at x) (filter (\<lambda>x. rt_token_hash x \<noteq> h) (tokens s)) = None"
    using new assms(2) by (auto simp: find_None_iff)
  then have succ: "now env2 < e \<longrightarrow> map_option rt_user_id (valid_token env2 h' t) = Some (u_id u)"
    by (simp add: valid_token_def t find_append)
  have "find (\<lambda>x. rt_token_hash x = g \<and> now env2 < rt_expires_at x) (filter (\<lambda>x. rt_token_hash x \<noteq> h) (tokens s))
      = find (\<lambda>x. rt_token_hash x = g \<and> now env2 < rt_expires_at x) (tokens s)" if "g \<noteq> h"
    by (rule find_filter) (use that in auto)
  then have other: "g \<noteq> h \<and> g \<noteq> h' \<longrightarrow> valid_token env2 g t = valid_token env2 g s"
    by (auto simp: valid_token_def t find_append split: option.split)
  show ?thesis
    using y u x gone succ other valid_token_Some[OF x(1)] by auto
qed

lemma rotate_refresh_token_once_witness:
  "tokens (snd (rotate_refresh_token sample_env ''t'' ''n'' 6000000 sample_app)) \<noteq> tokens sample_app
   \<and> fst (rotate_refresh_token sample_env ''t'' ''n2'' 7000000
       (snd (rotate_refresh_token sample_env ''t'' ''n'' 6000000 sample_app))) \<noteq> Inr (Some (3, ''user'', 1))"
proof -
  obtain t where r: "rotate_refresh_token sample_env ''t'' ''n'' 6000000 sample_app = (Inr (Some (3, ''user'', 1)), t)"
    and t: "tokens t \<noteq> tokens sample_app"
    by (simp add: rotate_refresh_token_def in_txn_def bindS_def db_stmt_def read_db_def valid_token_def sample_app_def
        sample_env_def sample_token_def user_by_id_def sample_user_def swap_refresh_token_def write_db_def delete_tokens_def
        run_stmt_def stmt_result_def insert_token_def)
  from rotate_refresh_token_once[OF r, of sample_env "''n2''" 7000000 "(3, ''user'', 1)" "''g''"]
  have "fst (rotate_refresh_token sample_env ''t'' ''n2'' 7000000 t) \<noteq> Inr (Some (3, ''user'', 1))" by auto
  with t show ?thesis by (simp add: r)
qed

lemma revoke_cases:
  assumes "revoke_all_sessions env uid s = (r, t)"
  shows "case r of Inl _ \<Rightarrow> same_tables s t \<and> redis t = redis s | Inr _ \<Rightarrow> revoked uid s t"
  using wp_revoke_all_sessions[of env uid s] assms by (auto simp: wp_def split: sum.splits)

lemma revoked_user:
  assumes "revoked uid s t"
  shows "user_by_id uid t = map_option (\<lambda>u. u\<lparr>u_token_version := u_token_version u + 1\<rparr>) (user_by_id uid s)"
    and "i \<noteq> uid \<Longrightarrow> user_by_id i t = user_by_id i s"
proof -
  have t: "users t = map (\<lambda>u. if u_id u = uid then u\<lparr>u_token_version := u_token_version u + 1\<rparr> else u) (users s)"
    using assms by (simp add: revoked_def)
  note m = user_by_id_map[where s = s and t = t and i = uid, OF t]
  show "user_by_id uid t = map_option (\<lambda>u. u\<lparr>u_token_version := u_token_version u + 1\<rparr>) (user_by_id uid s)"
    by (rule m(1)) simp
  show "i \<noteq> uid \<Longrightarrow> user_by_id i t = user_by_id i s" by (rule m(2)) simp_all
qed

text \<open>Revoking all sessions is complete and atomic. On success the user's version has grown by one, so no JWT issued before
  carries it, none of the user's refresh tokens can be rotated any more, and nobody else is affected; on an error nothing has changed.\<close>

theorem revoke_all_sessions_complete:
  assumes "revoke_all_sessions env uid s = (r, t)"
  shows "case r of
      Inl _ \<Rightarrow> users t = users s \<and> tokens t = tokens s
    | Inr _ \<Rightarrow>
        map_option u_token_version (user_by_id uid t) = map_option (\<lambda>u. u_token_version u + 1) (user_by_id uid s)
        \<and> (\<forall>x \<in> set (tokens t). rt_user_id x \<noteq> uid)
        \<and> (\<forall>x. valid_token env h s = Some x \<and> rt_user_id x = uid \<and> distinct (map rt_token_hash (tokens s))
              \<longrightarrow> fst (rotate_refresh_token env2 h h' e t) \<noteq> Inr (Some y))
        \<and> (\<forall>i. i \<noteq> uid \<longrightarrow> user_by_id i t = user_by_id i s)
        \<and> filter (\<lambda>x. rt_user_id x \<noteq> uid) (tokens t) = filter (\<lambda>x. rt_user_id x \<noteq> uid) (tokens s)"
proof (cases r)
  case (Inl e)
  then show ?thesis using revoke_cases[OF assms] by (simp add: same_tables_def)
next
  case (Inr u)
  then have v: "revoked uid s t" using revoke_cases[OF assms] by simp
  have ts: "tokens t = filter (\<lambda>x. rt_user_id x \<noteq> uid) (tokens s)" using v by (simp add: revoked_def)
  have "valid_token env2 h t = None"
    if x: "valid_token env h s = Some x" "rt_user_id x = uid" "distinct (map rt_token_hash (tokens s))" for x
    unfolding valid_token_def find_None_iff ts
    using valid_token_Some[OF x(1)] x(2,3) by (auto simp: distinct_map inj_on_def)
  then have "\<forall>x. valid_token env h s = Some x \<and> rt_user_id x = uid \<and> distinct (map rt_token_hash (tokens s))
              \<longrightarrow> fst (rotate_refresh_token env2 h h' e t) \<noteq> Inr (Some y)"
    using rotate_invalid by blast
  then show ?thesis
    using Inr ts revoked_user[OF v] by (simp add: option.map_comp comp_def)
qed

lemma revoke_all_sessions_complete_witness:
  "tokens (snd (revoke_all_sessions sample_env 3 sample_app)) = []
   \<and> map_option u_token_version (user_by_id 3 (snd (revoke_all_sessions sample_env 3 sample_app))) = Some 2
   \<and> fst (rotate_refresh_token sample_env ''t'' ''n'' 6000000 (snd (revoke_all_sessions sample_env 3 sample_app)))
       \<noteq> Inr (Some (3, ''user'', 2))"
proof -
  obtain t where r: "revoke_all_sessions sample_env 3 sample_app = (Inr (), t)" and t: "tokens t = []"
    by (simp add: revoke_all_sessions_def in_txn_def bindS_def db_stmt_def write_db_def bump_stmt_def bump_token_version_def
        run_stmt_def stmt_result_def delete_tokens_def sample_app_def sample_env_def sample_token_def sample_user_def i32_max_def)
  have v: "valid_token sample_env ''t'' sample_app = Some (sample_token 3 ''t'' 5000000)"
    by (simp add: valid_token_def sample_app_def sample_token_def sample_env_def)
  from revoke_all_sessions_complete[OF r, where ?env2.0 = sample_env and h = "''t''" and h' = "''n''" and e = 6000000
      and y = "(3, ''user'', 2)"] t v
  show ?thesis
    by (simp add: r) (simp add: sample_app_def sample_token_def sample_user_def user_by_id_def)
qed

end
