(* ===== verification/Verification.thy ===== *)
theory Verification
  imports AuthProps
begin

text \<open>
  \<^verbatim>\<open>server/src/services/verification.rs\<close>: six-digit codes sent by mail. A code is stored as a hash with an expiry and a counter
  of attempts; a resend keeps a cooldown inside one conditional \<^verbatim>\<open>UPDATE\<close>; a check first claims an attempt with another one. The random number,
  the hash of a code and the mail server are libraries: fields of \<^verbatim>\<open>code_service\<close>. Times are in milliseconds.
\<close>

section \<open>Codes\<close>

definition CODE_EXPIRY_MINUTES :: int where "CODE_EXPIRY_MINUTES = 10"
definition RESEND_COOLDOWN_SECONDS :: int where "RESEND_COOLDOWN_SECONDS = 60"
definition MAX_FAILED_ATTEMPTS :: int where "MAX_FAILED_ATTEMPTS = 5"

lemmas code_consts = CODE_EXPIRY_MINUTES_def RESEND_COOLDOWN_SECONDS_def MAX_FAILED_ATTEMPTS_def

datatype verification_error =
  InvalidOrExpired | TooManyAttempts | TooSoon | EmailNotConfigured | VInternal string

record code_service =
  is_configured :: bool
  send_code_email :: "string \<Rightarrow> string \<Rightarrow> int \<Rightarrow> bool"
  acquire_permit :: bool
  code_value :: nat
  hash_code :: "string \<Rightarrow> string option"
  verify_code :: "string \<Rightarrow> string \<Rightarrow> bool option"

text \<open>\<^verbatim>\<open>format!("{:06}")\<close>\<close>

definition generate_code :: "code_service \<Rightarrow> string" where
  "generate_code svc = (let d = show_nat (code_value svc) in replicate (6 - length d) (CHR ''0'') @ d)"

text \<open>\<^verbatim>\<open>update_many\<close>: the rows that satisfy the filter, and their number.\<close>

definition update_many :: "(user \<Rightarrow> bool) \<Rightarrow> (user \<Rightarrow> user) \<Rightarrow> 'r app \<Rightarrow> nat \<times> 'r app" where
  "update_many p f s =
     (length (filter p (users s)), s\<lparr>users := map (\<lambda>u. if p u then f u else u) (users s)\<rparr>)"

definition many :: "(user \<Rightarrow> bool) \<Rightarrow> (user \<Rightarrow> user) \<Rightarrow> ('r app, 'e, nat) prog" where
  "many p f s = (case update_many p f s of (n, s') \<Rightarrow> (Inr n, s'))"

definition find_user_by_email :: "'r env \<Rightarrow> string \<Rightarrow> ('r app, verification_error, user option) prog" where
  "find_user_by_email env email = db_stmt env VInternal ''Failed to query user'' (read_db (user_by_email email))"

definition cooled_down :: "int \<Rightarrow> int option \<Rightarrow> bool" where
  "cooled_down threshold sent = (case sent of None \<Rightarrow> True | Some t \<Rightarrow> t \<le> threshold)"

section \<open>Sending\<close>

definition code_columns :: "'r env \<Rightarrow> string \<Rightarrow> user \<Rightarrow> user" where
  "code_columns env code_hash u =
     u\<lparr>u_verification_code_hash := Some code_hash,
       u_verification_code_expires_at := Some (now env + CODE_EXPIRY_MINUTES * 60000),
       u_verification_code_sent_at := Some (now env),
       u_verification_failed_attempts := 0\<rparr>"

definition store_verification_code :: "code_service \<Rightarrow> 'r env \<Rightarrow> user \<Rightarrow> ('r app, verification_error, user \<times> string) prog" where
  "store_verification_code svc env user =
     (let code = generate_code svc in
      bindS (liftE (ok_or (VInternal ''Failed to hash verification code'') (hash_code svc code))) (\<lambda>code_hash.
      bindS (db_stmt env VInternal ''Failed to store verification code''
              (run_stmt (update_user_row (u_id user) (\<lambda>u. (code_columns env code_hash u)\<lparr>u_updated_at := now env\<rparr>))
                 (VInternal ''Failed to store verification code'') (VInternal ''Failed to store verification code''))) (\<lambda>updated.
      retS (updated, code))))"

definition mail_code :: "code_service \<Rightarrow> string \<Rightarrow> string \<Rightarrow> ('r app, verification_error, unit) prog" where
  "mail_code svc email code =
     (if \<not> acquire_permit svc then raiseS (VInternal ''Email send semaphore closed'')
      else if send_code_email svc email code CODE_EXPIRY_MINUTES then retS ()
      else raiseS (VInternal ''Failed to send verification email''))"

definition send_verification_email :: "code_service \<Rightarrow> 'r env \<Rightarrow> string \<Rightarrow> ('r app, verification_error, unit) prog" where
  "send_verification_email svc env email =
     bindS (find_user_by_email env (to_lower email)) (\<lambda>row.
     case row of
       None \<Rightarrow> retS ()
     | Some user \<Rightarrow>
         if \<not> is_configured svc then raiseS EmailNotConfigured
         else if u_email_verified user then retS ()
         else
           bindS (interfere env) (\<lambda>_.
           bindS (store_verification_code svc env user) (\<lambda>(_, code).
           mail_code svc (to_lower email) code)))"

definition resend_code :: "code_service \<Rightarrow> 'r env \<Rightarrow> string \<Rightarrow> ('r app, verification_error, unit) prog" where
  "resend_code svc env email =
     bindS (find_user_by_email env (to_lower email)) (\<lambda>row.
     case row of
       None \<Rightarrow> retS ()
     | Some user \<Rightarrow>
         if u_email_verified user then retS ()
         else if \<not> is_configured svc then raiseS EmailNotConfigured
         else
           (let code = generate_code svc in
            bindS (liftE (ok_or (VInternal ''Failed to hash verification code'') (hash_code svc code))) (\<lambda>code_hash.
            bindS (interfere env) (\<lambda>_.
            bindS (db_stmt env VInternal ''Failed to store verification code''
                    (many (\<lambda>u. u_id u = u_id user
                              \<and> cooled_down (now env - RESEND_COOLDOWN_SECONDS * 1000) (u_verification_code_sent_at u))
                       (code_columns env code_hash))) (\<lambda>rows_affected.
            if rows_affected = 0 then raiseS TooSoon
            else mail_code svc (to_lower email) code)))))"

text \<open>The welcome mail runs detached from the request: it is tried at most twice; the index of the try that got through.\<close>

function welcome_tries :: "(nat \<Rightarrow> bool) \<Rightarrow> nat \<Rightarrow> nat option" where
  "welcome_tries delivered attempts =
     (if attempts < 2 then if delivered attempts then Some attempts else welcome_tries delivered (attempts + 1) else None)"
  by pat_completeness auto
termination by (relation "measure (\<lambda>(_, n). 2 - n)") auto

section \<open>Checking\<close>

definition auto_columns :: "'r env \<Rightarrow> user \<Rightarrow> user" where
  "auto_columns env u = u\<lparr>u_email_verified := True, u_updated_at := now env\<rparr>"

definition auto_verify :: "'r env \<Rightarrow> string \<Rightarrow> ('r app, verification_error, unit) prog" where
  "auto_verify env email =
     bindS (find_user_by_email env (to_lower email)) (\<lambda>row.
     case row of
       None \<Rightarrow> retS ()
     | Some user \<Rightarrow>
         if u_email_verified user then retS ()
         else
           bindS (interfere env) (\<lambda>_.
           bindS (db_stmt env VInternal ''Failed to auto-verify email''
                   (run_stmt (update_user_row (u_id user) (auto_columns env))
                      (VInternal ''Failed to auto-verify email'') (VInternal ''Failed to auto-verify email''))) (\<lambda>_.
           retS ())))"

definition increment_failed_attempts :: "'r env \<Rightarrow> int \<Rightarrow> ('r app, verification_error, unit) prog" where
  "increment_failed_attempts env uid =
     bindS (db_stmt env VInternal ''Failed to increment failed attempts''
             (many (\<lambda>u. u_id u = uid \<and> u_verification_failed_attempts u < MAX_FAILED_ATTEMPTS)
                (\<lambda>u. u\<lparr>u_verification_failed_attempts := u_verification_failed_attempts u + 1\<rparr>))) (\<lambda>rows_affected.
     if rows_affected = 0 then raiseS TooManyAttempts else retS ())"

definition verified_columns :: "'r env \<Rightarrow> user \<Rightarrow> user" where
  "verified_columns env u =
     u\<lparr>u_email_verified := True, u_verification_code_hash := None, u_verification_code_expires_at := None,
       u_verification_code_sent_at := None, u_verification_failed_attempts := 0, u_updated_at := now env\<rparr>"

text \<open>The hash a check may use: the user is there, not yet verified, and has a code that is not over.\<close>

definition pending_code :: "'r env \<Rightarrow> user option \<Rightarrow> (verification_error, user \<times> string) res" where
  "pending_code env row =
     (case row of
        None \<Rightarrow> Inl InvalidOrExpired
      | Some user \<Rightarrow>
          if u_email_verified user then Inl InvalidOrExpired
          else bindE (ok_or InvalidOrExpired (u_verification_code_hash user)) (\<lambda>code_hash.
               bindE (ok_or InvalidOrExpired (u_verification_code_expires_at user)) (\<lambda>expires_at.
               if now env > expires_at then Inl InvalidOrExpired else Inr (user, code_hash))))"

definition verify_email :: "code_service \<Rightarrow> 'r env \<Rightarrow> string \<Rightarrow> string \<Rightarrow> ('r app, verification_error, unit) prog" where
  "verify_email svc env email code =
     bindS (find_user_by_email env (to_lower email)) (\<lambda>row.
     bindS (liftE (pending_code env row)) (\<lambda>(user, code_hash).
     bindS (interfere env) (\<lambda>_.
     bindS (increment_failed_attempts env (u_id user)) (\<lambda>_.
     bindS (liftE (ok_or (VInternal ''Failed to parse stored code hash'') (verify_code svc code code_hash))) (\<lambda>matches.
     if \<not> matches then raiseS InvalidOrExpired
     else
       bindS (interfere env) (\<lambda>_.
       bindS (db_stmt env VInternal ''Failed to verify email''
               (run_stmt (update_user_row (u_id user) (verified_columns env))
                  (VInternal ''Failed to verify email'') (VInternal ''Failed to verify email''))) (\<lambda>_.
       retS ())))))))"

section \<open>Lemmas\<close>

lemma wp_many [wp_simps]:
  "wp (many p f) Q E s = Q (length (filter p (users s))) (snd (update_many p f s))"
  by (simp add: wp_def many_def update_many_def)

lemma wp_find_user_by_email [wp_simps]:
  "wp (find_user_by_email env email) Q E s =
    (if db_err env ''Failed to query user'' then E (VInternal ''Failed to query user'') s
     else Q (user_by_email email s) s)"
  by (simp add: find_user_by_email_def wp_simps)

lemma wp_mail_code:
  "Q () s \<Longrightarrow> (\<And>m. E (VInternal m) s) \<Longrightarrow> wp (mail_code svc email code) Q E s"
  by (simp add: mail_code_def wp_simps)

text \<open>A statement that keeps the keys, the unique columns and the checked ones keeps the invariant.\<close>

definition harmless :: "(user \<Rightarrow> user) \<Rightarrow> bool" where
  "harmless f \<longleftrightarrow> (\<forall>u. u_id (f u) = u_id u \<and> u_email (f u) = u_email u \<and> u_wx_openid (f u) = u_wx_openid u
     \<and> (row_ok u \<longrightarrow> row_ok (f u)))"

lemma harmless_map:
  assumes "users_ok us" "harmless f"
  shows "users_ok (map (\<lambda>u. if p u then f u else u) us)"
proof -
  define g where "g = (\<lambda>u. if p u then f u else u)"
  have g: "u_id (g u) = u_id u" "u_email (g u) = u_email u" "u_wx_openid (g u) = u_wx_openid u"
    "row_ok u \<Longrightarrow> row_ok (g u)" for u
    using assms(2) by (auto simp: harmless_def g_def)
  have ids: "map u_id (map g us) = map u_id us" using g(1) by simp
  have c: "clashes (g u) (g v) = clashes u v" for u v
    unfolding clashes_def g(2,3) ..
  have "users_ok (map g us)"
    using assms(1) unfolding users_ok_def ids set_map by (auto simp: g(1,4) c)
  then show ?thesis by (simp only: g_def)
qed

lemma update_many_ok:
  assumes "db_ok s" "harmless f"
  shows "db_ok (snd (update_many p f s))"
proof -
  have "map u_id (users (snd (update_many p f s))) = map u_id (users s)"
    using assms(2) by (simp add: update_many_def harmless_def)
  then have "u_id ` set (users (snd (update_many p f s))) = u_id ` set (users s)" by (metis set_map)
  then show ?thesis
    using assms harmless_map[OF _ assms(2)] by (simp add: db_ok_def tokens_ok_def update_many_def)
qed

lemma update_row_harmless:
  assumes "update_user_row i f s = DbOk (t, u)" "db_ok s" "harmless f"
  shows "db_ok t"
  by (rule update_user_row_ok(1)[OF assms(1,2)])
    (use assms(2,3) in \<open>auto simp: harmless_def db_ok_def dest: users_ok_row\<close>)

lemma harmless_columns [simp]:
  "harmless (code_columns env h)" "harmless (\<lambda>u. (code_columns env h u)\<lparr>u_updated_at := n\<rparr>)"
  "harmless (auto_columns env)" "harmless (verified_columns env)"
  "harmless (\<lambda>u. u\<lparr>u_verification_failed_attempts := g u\<rparr>)"
  by (simp_all add: harmless_def code_columns_def auto_columns_def verified_columns_def row_ok_def)

lemma resend_code_db_ok:
  assumes "db_ok s" "\<And>t. db_ok t \<Longrightarrow> db_ok (between env t)"
  shows "db_ok (snd (resend_code svc env email s))"
  by (rule wp_snd)
    (use assms in \<open>auto simp: resend_code_def wp_simps Let_def split: option.split sum.split
      intro!: wp_mail_code update_many_ok\<close>)

lemma send_verification_db_ok:
  assumes "db_ok s" "\<And>t. db_ok t \<Longrightarrow> db_ok (between env t)"
  shows "db_ok (snd (send_verification_email svc env email s))"
  by (rule wp_snd)
    (use assms in \<open>auto simp: send_verification_email_def store_verification_code_def wp_simps Let_def
      split: option.split sum.split db_result.split intro!: wp_mail_code elim: update_row_harmless\<close>)

lemma auto_verify_db_ok:
  assumes "db_ok s" "\<And>t. db_ok t \<Longrightarrow> db_ok (between env t)"
  shows "db_ok (snd (auto_verify env email s))"
  by (rule wp_snd)
    (use assms in \<open>auto simp: auto_verify_def wp_simps split: option.split db_result.split
      intro: update_row_harmless\<close>)

lemma wp_increment:
  assumes "db_ok s" "\<And>t. db_ok t \<Longrightarrow> Q () t" "\<And>e t. db_ok t \<Longrightarrow> E e t"
  shows "wp (increment_failed_attempts env uid) Q E s"
  using assms update_many_ok[OF assms(1)] by (auto simp: increment_failed_attempts_def wp_simps)

lemma verify_email_db_ok:
  assumes "db_ok s" "\<And>t. db_ok t \<Longrightarrow> db_ok (between env t)"
  shows "db_ok (snd (verify_email svc env email code s))"
proof -
  have v: "db_ok t'" if "db_ok t" "update_user_row i (verified_columns env) (between env t) = DbOk (t', u)" for i t t' u
    by (rule update_row_harmless[OF that(2) assms(2)[OF that(1)]]) simp
  show ?thesis
  by (rule wp_snd)
    (use assms in \<open>auto simp: verify_email_def wp_simps
      split: option.split sum.split db_result.split intro!: wp_increment dest: v\<close>)
qed

end
