(* ===== verification/PasswordReset.thy ===== *)
theory PasswordReset
  imports Verification
begin

text \<open>
  \<^verbatim>\<open>server/src/services/password_reset.rs\<close>: a reset code sent by mail under a cooldown, and its consumption: an attempt is
  claimed outside the transaction, the code checked, and one guarded \<^verbatim>\<open>UPDATE\<close> replaces the password, counts the
  version up and clears the code, together with the revocation of the refresh tokens.
\<close>

datatype password_reset_error =
  PInvalidOrExpired | PTooManyAttempts | PTooSoon | PEmailNotConfigured | PInternal string

record password_reset_outcome =
  po_user_id :: int
  po_role :: string
  po_token_version :: int

definition reset_find_user :: "'r env \<Rightarrow> string \<Rightarrow> ('r app, password_reset_error, user option) prog" where
  "reset_find_user env email = db_stmt env PInternal ''Failed to query user'' (read_db (user_by_email email))"

definition reset_code_columns :: "'r env \<Rightarrow> string \<Rightarrow> user \<Rightarrow> user" where
  "reset_code_columns env code_hash u =
     u\<lparr>u_password_reset_token_hash := Some code_hash,
       u_password_reset_expires_at := Some (now env + CODE_EXPIRY_MINUTES * 60000),
       u_password_reset_sent_at := Some (now env),
       u_password_reset_failed_attempts := 0\<rparr>"

definition request_reset :: "code_service \<Rightarrow> 'r env \<Rightarrow> string \<Rightarrow> ('r app, password_reset_error, unit) prog" where
  "request_reset svc env email =
     bindS (reset_find_user env (to_lower email)) (\<lambda>row.
     case row of
       None \<Rightarrow> retS ()
     | Some user \<Rightarrow>
         if \<not> is_configured svc then raiseS PEmailNotConfigured
         else
           (let code = generate_code svc in
            bindS (liftE (ok_or (PInternal ''Failed to hash reset code'') (hash_code svc code))) (\<lambda>code_hash.
            bindS (interfere env) (\<lambda>_.
            bindS (db_stmt env PInternal ''Failed to store password-reset code''
                    (many (\<lambda>u. u_id u = u_id user
                              \<and> cooled_down (now env - RESEND_COOLDOWN_SECONDS * 1000) (u_password_reset_sent_at u))
                       (reset_code_columns env code_hash))) (\<lambda>rows_affected.
            if rows_affected = 0 then raiseS PTooSoon
            else if send_code_email svc (to_lower email) code CODE_EXPIRY_MINUTES then retS ()
            else raiseS (PInternal ''Failed to send password-reset code email''))))))"

definition pending_reset :: "'r env \<Rightarrow> user option \<Rightarrow> (password_reset_error, user \<times> string) res" where
  "pending_reset env row =
     (case row of
        None \<Rightarrow> Inl PInvalidOrExpired
      | Some user \<Rightarrow>
          bindE (ok_or PInvalidOrExpired (u_password_reset_token_hash user)) (\<lambda>stored_hash.
          bindE (ok_or PInvalidOrExpired (u_password_reset_expires_at user)) (\<lambda>expires_at.
          if now env > expires_at then Inl PInvalidOrExpired else Inr (user, stored_hash))))"

definition increment_reset_attempts :: "'r env \<Rightarrow> int \<Rightarrow> ('r app, password_reset_error, unit) prog" where
  "increment_reset_attempts env uid =
     bindS (db_stmt env PInternal ''Failed to increment reset failed attempts''
             (many (\<lambda>u. u_id u = uid \<and> u_password_reset_failed_attempts u < MAX_FAILED_ATTEMPTS)
                (\<lambda>u. u\<lparr>u_password_reset_failed_attempts := u_password_reset_failed_attempts u + 1\<rparr>))) (\<lambda>rows_affected.
     if rows_affected = 0 then raiseS PTooManyAttempts else retS ())"

text \<open>The guarded update of the transaction, with the number of rows it hit.\<close>

definition consumed_columns :: "'r env \<Rightarrow> string \<Rightarrow> user \<Rightarrow> user" where
  "consumed_columns env new_hash u =
     u\<lparr>u_token_version := u_token_version u + 1, u_password_hash := new_hash, u_updated_at := now env,
       u_password_reset_token_hash := None, u_password_reset_expires_at := None,
       u_password_reset_sent_at := None, u_password_reset_failed_attempts := 0\<rparr>"

definition consume_code :: "'r env \<Rightarrow> int \<Rightarrow> string \<Rightarrow> 'r app \<Rightarrow> ('r app \<times> nat) db_result" where
  "consume_code env uid new_hash s =
     (if list_ex (\<lambda>u. u_id u = uid \<and> u_password_reset_token_hash u \<noteq> None \<and> u_token_version u = i32_max) (users s)
      then OutOfRange
      else case update_many (\<lambda>u. u_id u = uid \<and> u_password_reset_token_hash u \<noteq> None) (consumed_columns env new_hash) s of
             (n, s') \<Rightarrow> DbOk (s', n))"

definition reset_txn :: "'r env \<Rightarrow> int \<Rightarrow> string \<Rightarrow> ('r app, password_reset_error, user option) prog" where
  "reset_txn env uid new_hash =
     in_txn env PInternal ''Failed to begin transaction for password reset'' ''Failed to commit password-reset transaction''
       (bindS (db_stmt env PInternal ''Failed to atomically update password and consume reset code''
                (run_stmt (consume_code env uid new_hash)
                   (PInternal ''Failed to atomically update password and consume reset code'')
                   (PInternal ''Failed to atomically update password and consume reset code''))) (\<lambda>rows_affected.
        if rows_affected = 0 then
          db_stmt env PInternal ''Failed to rollback after detecting concurrent reset-code consumption'' (retS (False, None))
        else
          bindS (db_stmt env PInternal ''Failed to re-fetch user after password reset'' (read_db (user_by_id uid))) (\<lambda>row.
          bindS (liftE (ok_or (PInternal ''User vanished after password-reset UPDATE'') row)) (\<lambda>updated.
          bindS (db_stmt env PInternal ''Failed to revoke refresh tokens during password reset''
                  (write_db (delete_tokens (\<lambda>t. rt_user_id t = u_id updated)))) (\<lambda>_.
          retS (True, Some updated))))))"

text \<open>After the code has matched: the new hash, the transaction, and the answer.\<close>

definition commit_reset :: "'r env \<Rightarrow> int \<Rightarrow> string \<Rightarrow> ('r app, password_reset_error, password_reset_outcome) prog" where
  "commit_reset env uid new_password =
     bindS (liftE (ok_or (PInternal ''Failed to hash new password'') (hash_password env new_password))) (\<lambda>new_hash.
     bindS (interfere env) (\<lambda>_.
     bindS (reset_txn env uid new_hash) (\<lambda>result.
     case result of
       None \<Rightarrow> raiseS PInvalidOrExpired
     | Some updated \<Rightarrow>
         retS \<lparr>po_user_id = u_id updated, po_role = u_role updated, po_token_version = u_token_version updated\<rparr>)))"

definition reset_password ::
    "code_service \<Rightarrow> 'r env \<Rightarrow> string \<Rightarrow> string \<Rightarrow> string \<Rightarrow> ('r app, password_reset_error, password_reset_outcome) prog" where
  "reset_password svc env email code new_password =
     bindS (reset_find_user env (to_lower email)) (\<lambda>row.
     bindS (liftE (pending_reset env row)) (\<lambda>(user, stored_hash).
     bindS (interfere env) (\<lambda>_.
     bindS (increment_reset_attempts env (u_id user)) (\<lambda>_.
     bindS (liftE (ok_or (PInternal ''Failed to parse stored reset code hash'') (verify_code svc code stored_hash))) (\<lambda>matches.
     if \<not> matches then raiseS PInvalidOrExpired
     else commit_reset env (u_id user) new_password)))))"

section \<open>Lemmas\<close>

lemma wp_reset_find_user [wp_simps]:
  "wp (reset_find_user env email) Q E s =
    (if db_err env ''Failed to query user'' then E (PInternal ''Failed to query user'') s
     else Q (user_by_email email s) s)"
  by (simp add: reset_find_user_def wp_simps)

lemma harmless_reset [simp]:
  "harmless (reset_code_columns env h)"
  "harmless (\<lambda>u. u\<lparr>u_password_reset_failed_attempts := g u\<rparr>)"
  by (simp_all add: harmless_def reset_code_columns_def row_ok_def)

text \<open>The guarded update is harmless where the version has room.\<close>

lemma consume_code_ok:
  assumes "consume_code env uid h s = DbOk (t, n)" "db_ok s"
  shows "db_ok t"
proof -
  let ?p = "\<lambda>u. u_id u = uid \<and> u_password_reset_token_hash u \<noteq> None"
  let ?f = "\<lambda>u. if u_token_version u = i32_max then u else consumed_columns env h u"
  have room: "\<forall>u \<in> set (users s). ?p u \<longrightarrow> u_token_version u \<noteq> i32_max"
    and t: "t = snd (update_many ?p (consumed_columns env h) s)"
    using assms(1) by (auto simp: consume_code_def list_ex_iff split: if_splits prod.splits)
  have "snd (update_many ?p (consumed_columns env h) s) = snd (update_many ?p ?f s)"
    unfolding update_many_def snd_conv
    by (rule arg_cong[where f = "\<lambda>us. s\<lparr>users := us\<rparr>"], rule map_cong[OF refl]) (use room in auto)
  moreover have "harmless ?f" by (auto simp: harmless_def consumed_columns_def row_ok_def)
  ultimately show ?thesis using update_many_ok[OF assms(2), of ?f ?p] by (simp add: t)
qed

definition reset_done :: "'r env \<Rightarrow> int \<Rightarrow> string \<Rightarrow> user \<Rightarrow> 'r app \<Rightarrow> 'r app \<Rightarrow> bool" where
  "reset_done env uid h u s t \<longleftrightarrow>
     users t = map (\<lambda>v. if u_id v = uid \<and> u_password_reset_token_hash v \<noteq> None then consumed_columns env h v else v) (users s)
     \<and> (\<exists>v \<in> set (users s). u_id v = uid \<and> u_password_reset_token_hash v \<noteq> None)
     \<and> user_by_id uid t = Some u \<and> tokens t = filter (\<lambda>x. rt_user_id x \<noteq> uid) (tokens s) \<and> redis t = redis s"

lemma wp_reset_txn:
  "wp (reset_txn env uid h)
     (\<lambda>x t. case x of None \<Rightarrow> same_tables s t | Some u \<Rightarrow> reset_done env uid h u s t) (\<lambda>_. same_tables s) s"
  by (auto simp: reset_txn_def wp_simps same_tables_def reset_done_def consume_code_def update_many_def
      split: db_result.split option.split sum.split prod.split if_splits dest: user_by_id_Some) (auto simp: filter_empty_conv)

lemma reset_txn_cases:
  assumes "reset_txn env uid h s = (r, t)"
  shows "case r of Inr (Some u) \<Rightarrow> reset_done env uid h u s t | _ \<Rightarrow> same_tables s t"
  using wp_reset_txn[of env uid h s] assms by (auto simp: wp_def split: sum.splits option.splits)

lemma reset_txn_db_ok: "db_ok s \<Longrightarrow> db_ok (snd (reset_txn env uid h s))"
  by (rule wp_snd)
    (auto simp: reset_txn_def wp_simps delete_tokens_ok split: db_result.split sum.split dest: consume_code_ok)

lemma wp_increment_reset:
  assumes "db_ok s" "\<And>t. db_ok t \<Longrightarrow> Q () t" "\<And>e t. db_ok t \<Longrightarrow> E e t"
  shows "wp (increment_reset_attempts env uid) Q E s"
  using assms update_many_ok[OF assms(1)] by (auto simp: increment_reset_attempts_def wp_simps)

lemma request_reset_db_ok:
  assumes "db_ok s" "\<And>t. db_ok t \<Longrightarrow> db_ok (between env t)"
  shows "db_ok (snd (request_reset svc env email s))"
  by (rule wp_snd)
    (use assms in \<open>auto simp: request_reset_def wp_simps Let_def split: option.split sum.split
      intro!: update_many_ok\<close>)

lemma reset_password_db_ok:
  assumes "db_ok s" "\<And>t. db_ok t \<Longrightarrow> db_ok (between env t)"
  shows "db_ok (snd (reset_password svc env email code p s))"
  by (rule wp_snd)
    (use assms in \<open>auto simp: reset_password_def commit_reset_def wp_simps split: option.split sum.split
      intro!: wp_increment_reset wp_db_ok[OF reset_txn_db_ok]\<close>)

end
