(* ===== verification/CodeProps.thy ===== *)
theory CodeProps
  imports PasswordReset
begin

text \<open>
  Properties of the mailed codes: what a check needs and leaves, five attempts per code, the cooldown between two codes, and the
  all-or-nothing effect of a password reset.
\<close>

section \<open>Requests that meet no failure and no other request\<close>

definition quiet :: "'r env \<Rightarrow> bool" where
  "quiet env \<longleftrightarrow> (\<forall>c. \<not> db_err env c) \<and> between env = id"

lemma quiet_stmt [simp]: "quiet env \<Longrightarrow> db_stmt env err c m = m"
  by (simp add: quiet_def db_stmt_def fun_eq_iff)

lemma quiet_interfere [simp]: "quiet env \<Longrightarrow> interfere env = retS ()"
  by (simp add: quiet_def interfere_def fun_eq_iff)

lemma bindS_retS [simp]: "bindS (retS a) f = f a"
  by (simp add: bindS_def fun_eq_iff)

lemma bindS_liftE_Inr [simp]: "bindS (liftE (Inr a)) f = f a"
  by (simp add: bindS_def fun_eq_iff)

lemma bindS_liftE_Inl [simp]: "bindS (liftE (Inl e)) f = raiseS e"
  by (simp add: bindS_def fun_eq_iff)

lemma bindS_raiseS [simp]: "bindS (raiseS e) f = raiseS e"
  by (simp add: bindS_def fun_eq_iff)

lemma bindS_read [simp]: "bindS (read_db g) f s = f (g s) s"
  by (simp add: bindS_def read_db_def)

lemma bindS_many [simp]:
  "bindS (many p g) f s = f (length (filter p (users s))) (snd (update_many p g s))"
  by (simp add: bindS_def many_def update_many_def)

section \<open>Looking a user up after an update\<close>

lemma find_map_inv: "(\<And>v. P (g v) = P v) \<Longrightarrow> find P (map g xs) = map_option g (find P xs)"
  by (induction xs) auto

lemma user_by_email_map:
  assumes "users t = map (\<lambda>v. if p v then f v else v) (users s)" "\<And>v. u_email (f v) = u_email v"
  shows "user_by_email m t = map_option (\<lambda>v. if p v then f v else v) (user_by_email m s)"
  unfolding user_by_email_def assms(1) by (rule find_map_inv) (simp add: assms(2))

lemma user_by_email_id:
  assumes "db_ok s" "user_by_email m s = Some u"
  shows "u \<in> set (users s)" "u_email u = m" "user_by_id (u_id u) s = Some u"
proof -
  show m: "u \<in> set (users s)" and "u_email u = m"
    using assms(2) by (auto simp: user_by_email_def find_Some_iff in_set_conv_nth)
  show "user_by_id (u_id u) s = Some u"
    by (rule user_by_id_unique) (use assms(1) m in \<open>auto simp: db_ok_def\<close>)
qed

lemma filter_one:
  assumes "db_ok s" "u \<in> set (users s)" "\<And>v. p v \<Longrightarrow> u_id v = u_id u"
  shows "length (filter p (users s)) = (if p u then 1 else 0)"
proof -
  have ok: "users_ok (users s)" using assms(1) by (simp add: db_ok_def)
  have "p v \<longleftrightarrow> v = u \<and> p u" if "v \<in> set (users s)" for v
    using users_ok_inj[OF ok that assms(2)] assms(3)[of v] by auto
  then have "filter p (users s) = filter (\<lambda>v. v = u \<and> p u) (users s)" by (rule filter_cong[OF refl])
  moreover have "length (filter (\<lambda>v. v = u) (users s)) = 1"
  proof -
    have "distinct (users s)" using ok by (auto simp: users_ok_def distinct_map)
    then have "length (filter (\<lambda>v. v = u) (users s)) = card (set (filter (\<lambda>v. v = u) (users s)))"
      by (metis distinct_card distinct_filter)
    also have "set (filter (\<lambda>v. v = u) (users s)) = {u}" using assms(2) by auto
    finally show ?thesis by simp
  qed
  ultimately show ?thesis by simp
qed

lemma user_after_many:
  assumes "db_ok s" "user_by_email m s = Some u" "harmless f" "\<And>v. p v \<Longrightarrow> u_id v = u_id u"
  shows "length (filter p (users s)) = (if p u then 1 else 0)"
    and "user_by_email m (snd (update_many p f s)) = Some (if p u then f u else u)"
    and "db_ok (snd (update_many p f s))"
    and "\<not> p u \<Longrightarrow> snd (update_many p f s) = s"
proof -
  show l: "length (filter p (users s)) = (if p u then 1 else 0)"
    by (rule filter_one[OF assms(1) user_by_email_id(1)[OF assms(1,2)] assms(4)])
  show "user_by_email m (snd (update_many p f s)) = Some (if p u then f u else u)"
    using user_by_email_map[of "snd (update_many p f s)" p f s m] assms(2,3)
    by (simp add: update_many_def harmless_def)
  show "db_ok (snd (update_many p f s))" by (rule update_many_ok[OF assms(1,3)])
  assume n: "\<not> p u"
  then have "filter p (users s) = []" using l by simp
  then have "map (\<lambda>v. if p v then f v else v) (users s) = users s"
    by (auto simp: filter_empty_conv intro: map_idI)
  then show "snd (update_many p f s) = s" by (simp add: update_many_def)
qed

section \<open>Checking a code\<close>

definition attempt_row :: "user \<Rightarrow> user" where
  "attempt_row u = u\<lparr>u_verification_failed_attempts := u_verification_failed_attempts u + 1\<rparr>"

lemma attempt_row_simps [simp]:
  "u_id (attempt_row u) = u_id u" "u_email (attempt_row u) = u_email u" "u_email_verified (attempt_row u) = u_email_verified u"
  "u_verification_code_hash (attempt_row u) = u_verification_code_hash u"
  "u_verification_code_expires_at (attempt_row u) = u_verification_code_expires_at u"
  "u_verification_failed_attempts (attempt_row u) = u_verification_failed_attempts u + 1"
  by (simp_all add: attempt_row_def)

lemma verified_row_simps [simp]:
  "u_id (verified_columns env u) = u_id u" "u_email (verified_columns env u) = u_email u"
  "u_email_verified (verified_columns env u)" "u_verification_code_hash (verified_columns env u) = None"
  by (simp_all add: verified_columns_def)

lemma update_row_run:
  assumes "db_ok s" "user_by_email m s = Some u" "harmless f"
  obtains t where "update_user_row (u_id u) f s = DbOk (t, f u)" "user_by_email m t = Some (f u)" "db_ok t"
    "tokens t = tokens s" "redis t = redis s"
proof -
  have i: "user_by_id (u_id u) s = Some u" and mem: "u \<in> set (users s)"
    using user_by_email_id[OF assms(1,2)] by auto
  have ok: "users_ok (users s)" using assms(1) by (simp add: db_ok_def)
  have n: "\<not> list_ex (\<lambda>v. u_id v \<noteq> u_id u \<and> clashes (f u) v) (users s)"
    using users_ok_clash[OF ok mem] assms(3) by (force simp: list_ex_iff harmless_def clashes_def)
  let ?t = "s\<lparr>users := map (\<lambda>v. if u_id v = u_id u then f v else v) (users s)\<rparr>"
  have r: "update_user_row (u_id u) f s = DbOk (?t, f u)"
    using i n by (simp add: update_user_row_def)
  show thesis
  proof (rule that[OF r])
    show "user_by_email m ?t = Some (f u)"
      using user_by_email_map[of ?t "\<lambda>v. u_id v = u_id u" f s m] assms(2,3) by (simp add: harmless_def)
    show "db_ok ?t" by (rule update_row_harmless[OF r assms(1,3)])
  qed simp_all
qed

text \<open>One check of a pending code, from the counter and the verdict on the code.\<close>

definition pending :: "user \<Rightarrow> string \<Rightarrow> int \<Rightarrow> bool" where
  "pending u h x \<longleftrightarrow> \<not> u_email_verified u \<and> u_verification_code_hash u = Some h \<and> u_verification_code_expires_at u = Some x"

lemma pending_attempt [simp]: "pending (attempt_row u) h x = pending u h x"
  by (simp add: pending_def)

lemma verify_email_step:
  assumes "db_ok s" "user_by_email (to_lower m) s = Some u" "pending u h x"
    and "quiet env" "now env \<le> x" "verify_code svc g h = Some b"
  obtains t where
    "verify_email svc env m g s =
      (if MAX_FAILED_ATTEMPTS \<le> u_verification_failed_attempts u then Inl TooManyAttempts
       else if b then Inr () else Inl InvalidOrExpired, t)"
    "db_ok t" "tokens t = tokens s"
    "user_by_email (to_lower m) t = Some
      (if MAX_FAILED_ATTEMPTS \<le> u_verification_failed_attempts u then u
       else if b then verified_columns env (attempt_row u) else attempt_row u)"
proof -
  let ?p = "\<lambda>v. u_id v = u_id u \<and> u_verification_failed_attempts v < MAX_FAILED_ATTEMPTS"
  let ?s1 = "snd (update_many ?p attempt_row s)"
  have hf: "harmless attempt_row" unfolding attempt_row_def[abs_def] by simp
  note am = user_after_many[OF assms(1,2) hf, of ?p]
  have pc: "pending_code env (Some u) = Inr (u, h)"
    using assms(3,5) by (simp add: pending_code_def pending_def)
  have inc: "(\<lambda>u. u\<lparr>u_verification_failed_attempts := u_verification_failed_attempts u + 1\<rparr>) = attempt_row"
    by (simp add: attempt_row_def fun_eq_iff)
  have run: "verify_email svc env m g s = bindS (increment_failed_attempts env (u_id u)) (\<lambda>_.
      if \<not> b then raiseS InvalidOrExpired
      else bindS (run_stmt (update_user_row (u_id u) (verified_columns env))
                  (VInternal ''Failed to verify email'') (VInternal ''Failed to verify email'')) (\<lambda>_. retS ())) s"
    using assms(2,4,6) by (simp add: verify_email_def find_user_by_email_def pc del: prog_basic)
  show thesis
  proof (cases "u_verification_failed_attempts u < MAX_FAILED_ATTEMPTS")
    case False
    have "increment_failed_attempts env (u_id u) s = (Inl TooManyAttempts, s)"
      using False am(1,4) assms(4) by (simp add: increment_failed_attempts_def inc)
    then have "verify_email svc env m g s = (Inl TooManyAttempts, s)" by (simp add: run bindS_def)
    with False show thesis using that[of s] assms(1,2) by simp
  next
    case True
    have i: "increment_failed_attempts env (u_id u) s = (Inr (), ?s1)"
      using True am(1) assms(4) by (simp add: increment_failed_attempts_def inc)
    have u1: "user_by_email (to_lower m) ?s1 = Some (attempt_row u)" "db_ok ?s1"
      using am(2,3) True by simp_all
    have tk: "tokens ?s1 = tokens s" by (simp add: update_many_def)
    show thesis
    proof (cases b)
      case False
      have "verify_email svc env m g s = (Inl InvalidOrExpired, ?s1)" using i False by (simp add: run bindS_def)
      with False True show thesis using that[of ?s1] u1 tk by simp
    next
      case b: True
      obtain t where t: "update_user_row (u_id (attempt_row u)) (verified_columns env) ?s1
          = DbOk (t, verified_columns env (attempt_row u))"
        "user_by_email (to_lower m) t = Some (verified_columns env (attempt_row u))" "db_ok t" "tokens t = tokens ?s1"
        by (rule update_row_run[OF u1(2,1) harmless_columns(4)[of env]]) blast
      have "verify_email svc env m g s = (Inr (), t)"
        using i b t(1) by (simp add: run bindS_def run_stmt_def stmt_result_def)
      with b True show thesis using that[of t] t tk by simp
    qed
  qed
qed

definition run_checks :: "code_service \<Rightarrow> string \<Rightarrow> ('r env \<times> string) list \<Rightarrow> 'r app \<Rightarrow> 'r app" where
  "run_checks svc m tries s = foldl (\<lambda>s (env, g). snd (verify_email svc env m g s)) s tries"

lemma run_checks_simps [simp]:
  "run_checks svc m [] s = s"
  "run_checks svc m ((env, g) # tries) s = run_checks svc m tries (snd (verify_email svc env m g s))"
  by (simp_all add: run_checks_def)

lemma verified_check:
  assumes "user_by_email (to_lower m) s = Some u" "u_email_verified u" "quiet env"
  shows "verify_email svc env m g s = (Inl InvalidOrExpired, s)"
  using assms by (simp add: verify_email_def find_user_by_email_def pending_code_def)

lemma verified_stays:
  assumes "user_by_email (to_lower m) s = Some u" "u_email_verified u" "list_all (\<lambda>(e, g). quiet e) tries"
  shows "run_checks svc m tries s = s"
  using assms(3)
  by (induction tries) (auto simp: verified_check[OF assms(1,2)])

lemma run_checks_iff:
  assumes "db_ok s" "user_by_email (to_lower m) s = Some u" "pending u h x"
    and "list_all (\<lambda>(e, g). quiet e \<and> now e \<le> x) tries" "\<And>g. verify_code svc g h \<noteq> None"
    and "u_verification_failed_attempts u = 5 - int n" "n \<le> 5"
  shows "map_option u_email_verified (user_by_email (to_lower m) (run_checks svc m tries s))
    = Some (list_ex (\<lambda>(e, g). verify_code svc g h = Some True) (take n tries))"
  using assms(1-4,6,7)
proof (induction tries arbitrary: s u n)
  case Nil
  then show ?case by (simp add: pending_def)
next
  case (Cons et tries)
  obtain env g where et: "et = (env, g)" by (cases et)
  have q: "quiet env" "now env \<le> x" and rest: "list_all (\<lambda>(e, g). quiet e \<and> now e \<le> x) tries"
    using Cons.prems(4) by (simp_all add: et)
  obtain b where b: "verify_code svc g h = Some b" using assms(5) by blast
  obtain t where t: "verify_email svc env m g s =
      (if MAX_FAILED_ATTEMPTS \<le> u_verification_failed_attempts u then Inl TooManyAttempts
       else if b then Inr () else Inl InvalidOrExpired, t)" "db_ok t"
    "user_by_email (to_lower m) t = Some
      (if MAX_FAILED_ATTEMPTS \<le> u_verification_failed_attempts u then u
       else if b then verified_columns env (attempt_row u) else attempt_row u)"
    using verify_email_step[OF Cons.prems(1-3) q b] by metis
  show ?case
  proof (cases n)
    case 0
    have "user_by_email (to_lower m) t = Some u"
      using t(3) Cons.prems(5) 0 by (simp add: code_consts)
    from Cons.IH[OF t(2) this Cons.prems(3) rest Cons.prems(5,6)] show ?thesis
      by (simp add: et t(1) 0)
  next
    case (Suc k)
    have lt: "\<not> MAX_FAILED_ATTEMPTS \<le> u_verification_failed_attempts u"
      using Cons.prems(5) Suc by (simp add: code_consts)
    show ?thesis
    proof (cases b)
      case True
      then have v: "user_by_email (to_lower m) t = Some (verified_columns env (attempt_row u))" using t(3) lt by simp
      have "list_all (\<lambda>(e, g). quiet e) tries" using rest by (auto simp: list_all_iff)
      from verified_stays[OF v _ this] v True b show ?thesis by (simp add: et t(1) Suc)
    next
      case False
      then have v: "user_by_email (to_lower m) t = Some (attempt_row u)" using t(3) lt by simp
      have "u_verification_failed_attempts (attempt_row u) = 5 - int k" "k \<le> 5" using Cons.prems(5,6) Suc by simp_all
      from Cons.IH[OF t(2) v _ rest this] Cons.prems(3) b False show ?thesis by (simp add: et t(1) Suc)
    qed
  qed
qed

text \<open>C29: five attempts per code. From a fresh code, any sequence of checks before its expiry, whatever codes they try and at whatever
  times, verifies the address exactly when the right code is among the first five.\<close>

theorem verify_email_five_attempts:
  assumes "db_ok s" "user_by_email (to_lower m) s = Some u"
    and "\<not> u_email_verified u" "u_verification_code_hash u = Some h" "u_verification_code_expires_at u = Some x"
    and "u_verification_failed_attempts u = 0"
    and "list_all (\<lambda>(e, g). quiet e \<and> now e \<le> x) tries" "\<And>g. verify_code svc g h \<noteq> None"
  shows "map_option u_email_verified (user_by_email (to_lower m) (run_checks svc m tries s))
    = Some (list_ex (\<lambda>(e, g). verify_code svc g h = Some True) (take 5 tries))"
  using run_checks_iff[OF assms(1,2) _ assms(7,8), of 5] assms(3-6) by (simp add: pending_def)

definition sample_code :: code_service where
  "sample_code = \<lparr>is_configured = True, send_code_email = (\<lambda>m c n. True), acquire_permit = True, code_value = 42,
     hash_code = (\<lambda>c. Some (''#'' @ c)), verify_code = (\<lambda>c h. Some (h = ''#'' @ c))\<rparr>"

definition pending_user :: "int \<Rightarrow> user" where
  "pending_user n = (sample_user 3 ''u'' ''user'')\<lparr>u_email_verified := False, u_verification_code_hash := Some ''#000042'',
     u_verification_code_expires_at := Some 1600000, u_verification_code_sent_at := Some 1000000,
     u_verification_failed_attempts := n\<rparr>"

definition pending_app :: "kv app" where
  "pending_app = sample_app\<lparr>users := [sample_user 1 ''s'' ''system'', pending_user 0]\<rparr>"

lemma sample_quiet: "quiet sample_env"
  by (simp add: quiet_def sample_env_def)

lemma pending_app_ok: "db_ok pending_app"
  by (auto simp: pending_app_def pending_user_def sample_app_def sample_user_def sample_token_def db_ok_def users_ok_def
      tokens_ok_def clashes_def row_ok_def i64_max_def i32_max_def)

lemma pending_app_user: "user_by_email ''u'' pending_app = Some (pending_user 0)"
  by (simp add: user_by_email_def pending_app_def pending_user_def sample_user_def)

lemma lower_u: "to_lower ''U'' = ''u''" by code_simp

lemma verify_email_five_attempts_witness:
  "map_option u_email_verified (user_by_email ''u'' (run_checks sample_code ''U''
      (replicate 4 (sample_env, ''1'') @ [(sample_env, ''000042'')]) pending_app)) = Some True
   \<and> map_option u_email_verified (user_by_email ''u'' (run_checks sample_code ''U''
      (replicate 5 (sample_env, ''1'') @ [(sample_env, ''000042'')]) pending_app)) = Some False"
proof -
  have u: "user_by_email (to_lower ''U'') pending_app = Some (pending_user 0)"
    by (simp only: lower_u pending_app_user)
  have p: "\<not> u_email_verified (pending_user 0)" "u_verification_code_hash (pending_user 0) = Some ''#000042''"
    "u_verification_code_expires_at (pending_user 0) = Some 1600000" "u_verification_failed_attempts (pending_user 0) = 0"
    by (simp_all add: pending_user_def)
  have c: "verify_code sample_code g ''#000042'' \<noteq> None" for g by (simp add: sample_code_def)
  have l: "list_all (\<lambda>(e, g). quiet e \<and> now e \<le> 1600000) (replicate n (sample_env, ''1'') @ [(sample_env, ''000042'')])" for n
    using sample_quiet by (simp add: list_all_iff sample_env_simps)
  from verify_email_five_attempts[OF pending_app_ok u p l c, of 4] verify_email_five_attempts[OF pending_app_ok u p l c, of 5]
  show ?thesis by (simp add: lower_u sample_code_def list_ex_iff)
qed

section \<open>The cooldown\<close>

lemma show_nat_length: "0 < k \<Longrightarrow> n < 10 ^ k \<Longrightarrow> length (show_nat n) \<le> k"
proof (induction k arbitrary: n)
  case 0
  then show ?case by simp
next
  case (Suc k)
  show ?case
  proof (cases "n < 10")
    case True
    then show ?thesis by (subst show_nat.simps) simp
  next
    case False
    then have "0 < k" using Suc.prems by (cases k) auto
    moreover have "n div 10 < 10 ^ k" using Suc.prems by (simp add: less_mult_imp_div_less)
    ultimately have "length (show_nat (n div 10)) \<le> k" by (rule Suc.IH)
    then show ?thesis using False by (subst show_nat.simps) simp
  qed
qed

lemma generate_code_six:
  assumes "code_value svc < 1000000"
  shows "length (generate_code svc) = 6" "list_all is_digit (generate_code svc)"
    "digits_val (generate_code svc) = code_value svc"
proof -
  have z: "list_all is_digit (replicate k (CHR ''0''))" for k by (induction k) (simp_all add: is_digit_def)
  have "length (show_nat (code_value svc)) \<le> 6" using show_nat_length[of 6 "code_value svc"] assms by simp
  then show "length (generate_code svc) = 6" by (simp add: generate_code_def Let_def)
  show "list_all is_digit (generate_code svc)"
    using show_nat_digits[of "code_value svc"]
    unfolding generate_code_def Let_def list_all_append by (simp add: z)
  have "foldl (\<lambda>a c. a * 10 + digit_val c) 0 (replicate k (CHR ''0'')) = 0" for k
    by (induction k) (simp_all add: digit_val_def)
  then show "digits_val (generate_code svc) = code_value svc"
    using digits_val_show_nat[of "code_value svc"] by (simp add: generate_code_def Let_def digits_val_def)
qed

lemma resend_run:
  assumes "db_ok (between env s)" "user_by_email (to_lower m) s = Some u" "\<not> u_email_verified u" "is_configured svc"
    and "hash_code svc (generate_code svc) = Some h" "\<And>c. \<not> db_err env c"
    and "user_by_email (to_lower m) (between env s) = Some v" "u_id v = u_id u"
  shows "resend_code svc env m s =
    (if cooled_down (now env - RESEND_COOLDOWN_SECONDS * 1000) (u_verification_code_sent_at v)
     then mail_code svc (to_lower m) (generate_code svc) (snd (update_many
       (\<lambda>w. u_id w = u_id v \<and> cooled_down (now env - RESEND_COOLDOWN_SECONDS * 1000) (u_verification_code_sent_at w))
       (code_columns env h) (between env s)))
     else (Inl TooSoon, between env s))"
proof -
  let ?p = "\<lambda>w. u_id w = u_id v \<and> cooled_down (now env - RESEND_COOLDOWN_SECONDS * 1000) (u_verification_code_sent_at w)"
  have st: "db_stmt env e c q = q" for e c and q :: "('a app, 'b, 'c) prog"
    using assms(6) by (simp add: db_stmt_def fun_eq_iff)
  have st': "db_stmt env e c q = q" for e c and q :: "('a app, verification_error, user option) prog"
    using assms(6) by (simp add: db_stmt_def fun_eq_iff)
  have st2: "db_stmt env e c q = q" for e c and q :: "('a app, verification_error, nat) prog"
    using assms(6) by (simp add: db_stmt_def fun_eq_iff)
  have n: "length (filter ?p (users (between env s))) = (if ?p v then 1 else 0)"
    and same: "\<not> ?p v \<Longrightarrow> snd (update_many ?p (code_columns env h) (between env s)) = between env s"
    using user_after_many(1,4)[OF assms(1,7) harmless_columns(1)[of env h], where p = ?p] by simp_all
  have i: "bindS (interfere env) f s = f () (between env s)" for f :: "unit \<Rightarrow> ('a app, verification_error, unit) prog"
    by (simp add: bindS_def interfere_def)
  have "resend_code svc env m s =
      (if length (filter ?p (users (between env s))) = 0 then raiseS TooSoon
       else mail_code svc (to_lower m) (generate_code svc)) (snd (update_many ?p (code_columns env h) (between env s)))"
    using assms(2-5,8) by (simp add: resend_code_def find_user_by_email_def st' st2 Let_def i del: prog_basic)
  then show ?thesis using n same by auto
qed

text \<open>C30: the cooldown. A code is sent only if the previous one is a minute old; what is stored is the hash of the six digits that are mailed,
  with its expiry and a fresh counter. Any other request for the same account in the next
  minute is refused and changes nothing, even one that looked the account up before this one wrote.\<close>

theorem resend_code_cooldown:
  assumes "db_ok s" "user_by_email (to_lower m) s = Some u" "\<not> u_email_verified u" "quiet env"
    and "resend_code svc env m s = (Inr (), t)"
  shows "cooled_down (now env - 60000) (u_verification_code_sent_at u)
    \<and> send_code_email svc (to_lower m) (generate_code svc) 10
    \<and> (\<exists>h. hash_code svc (generate_code svc) = Some h \<and> user_by_email (to_lower m) t = Some (code_columns env h u))
    \<and> (\<forall>u2. user_by_email (to_lower m) s2 = Some u2 \<and> u_id u2 = u_id u \<and> \<not> u_email_verified u2
         \<and> (\<forall>c. \<not> db_err env2 c) \<and> between env2 s2 = t \<and> now env2 < now env + 60000
         \<and> is_configured svc2 \<and> hash_code svc2 (generate_code svc2) \<noteq> None
         \<longrightarrow> resend_code svc2 env2 m s2 = (Inl TooSoon, t))"
proof -
  have q: "\<And>c. \<not> db_err env c" "between env s = s" using assms(4) by (simp_all add: quiet_def)
  have conf: "is_configured svc"
    using assms(2-5) by (auto simp: resend_code_def find_user_by_email_def split: if_splits)
  obtain h where h: "hash_code svc (generate_code svc) = Some h"
    using assms(2-5) conf
    by (cases "hash_code svc (generate_code svc)") (auto simp: resend_code_def find_user_by_email_def Let_def)
  let ?p = "\<lambda>w. u_id w = u_id u \<and> cooled_down (now env - RESEND_COOLDOWN_SECONDS * 1000) (u_verification_code_sent_at w)"
  have ok: "db_ok (between env s)" and lk: "user_by_email (to_lower m) (between env s) = Some u"
    using assms(1,2) q(2) by simp_all
  note run = resend_run[OF ok assms(2,3) conf h q(1) lk refl, unfolded q(2)]
  have c: "cooled_down (now env - RESEND_COOLDOWN_SECONDS * 1000) (u_verification_code_sent_at u)"
    using assms(5) run by (auto split: if_splits)
  have mail: "send_code_email svc (to_lower m) (generate_code svc) CODE_EXPIRY_MINUTES"
    and t: "t = snd (update_many ?p (code_columns env h) s)"
    using assms(5) run c by (auto simp: mail_code_def split: if_splits)
  have am: "user_by_email (to_lower m) t = Some (code_columns env h u)" "db_ok t"
    using user_after_many(2,3)[OF assms(1,2) harmless_columns(1)[of env h], where p = ?p] c by (simp_all add: t)
  have "resend_code svc2 env2 m s2 = (Inl TooSoon, t)"
    if u2: "user_by_email (to_lower m) s2 = Some u2" "u_id u2 = u_id u" "\<not> u_email_verified u2"
      and e: "\<forall>c. \<not> db_err env2 c" "between env2 s2 = t" "now env2 < now env + 60000"
      and f: "is_configured svc2" "hash_code svc2 (generate_code svc2) \<noteq> None" for u2
  proof -
    obtain h2 where h2: "hash_code svc2 (generate_code svc2) = Some h2" using f(2) by blast
    have b: "db_ok (between env2 s2)" "user_by_email (to_lower m) (between env2 s2) = Some (code_columns env h u)"
      "u_id (code_columns env h u) = u_id u2"
      using am e(2) u2(2) by (simp_all add: code_columns_def)
    show ?thesis
      using resend_run[OF b(1) u2(1,3) f(1) h2 _ b(2,3)] e
      by (simp add: cooled_down_def code_columns_def code_consts)
  qed
  then show ?thesis using c mail am h by (auto simp: code_consts)
qed

lemma resend_code_cooldown_witness:
  "resend_code sample_code (sample_env\<lparr>now := 1060000\<rparr>) ''U'' pending_app =
     (Inr (), snd (resend_code sample_code (sample_env\<lparr>now := 1060000\<rparr>) ''U'' pending_app))
   \<and> map_option u_verification_code_sent_at (user_by_email ''u''
       (snd (resend_code sample_code (sample_env\<lparr>now := 1060000\<rparr>) ''U'' pending_app))) = Some (Some 1060000)
   \<and> resend_code sample_code (sample_env\<lparr>now := 1119999\<rparr>) ''U''
       (snd (resend_code sample_code (sample_env\<lparr>now := 1060000\<rparr>) ''U'' pending_app))
     = (Inl TooSoon, snd (resend_code sample_code (sample_env\<lparr>now := 1060000\<rparr>) ''U'' pending_app))"
proof -
  let ?e = "sample_env\<lparr>now := 1060000\<rparr>" and ?e2 = "sample_env\<lparr>now := 1119999\<rparr>"
  have q: "quiet ?e" "quiet ?e2" by (simp_all add: quiet_def sample_env_def)
  have u: "user_by_email (to_lower ''U'') pending_app = Some (pending_user 0)"
    by (simp only: lower_u pending_app_user)
  have nv: "\<not> u_email_verified (pending_user 0)" by (simp add: pending_user_def)
  have f: "fst (resend_code sample_code ?e ''U'' pending_app) = Inr ()"
    using q(1) u nv
    by (simp add: resend_code_def find_user_by_email_def Let_def sample_code_def)
      (simp add: pending_app_def pending_user_def sample_user_def sample_env_def cooled_down_def code_consts mail_code_def)
  then obtain t where t: "resend_code sample_code ?e ''U'' pending_app = (Inr (), t)" by (metis prod.collapse)
  note r = resend_code_cooldown[OF pending_app_ok u nv q(1) t, where ?s2.0 = t and ?env2.0 = ?e2 and ?svc2.0 = sample_code]
  obtain h where h: "user_by_email (to_lower ''U'') t = Some (code_columns ?e h (pending_user 0))" using r by blast
  have b: "between ?e2 t = t" "\<forall>c. \<not> db_err ?e2 c" using q(2) by (simp_all add: quiet_def)
  have "resend_code sample_code ?e2 ''U'' t = (Inl TooSoon, t)"
    using r h nv b by (simp add: code_columns_def sample_code_def)
  then show ?thesis using h by (simp add: t lower_u code_columns_def)
qed

section \<open>Resetting a password\<close>

definition reset_attempt_row :: "user \<Rightarrow> user" where
  "reset_attempt_row u = u\<lparr>u_password_reset_failed_attempts := u_password_reset_failed_attempts u + 1\<rparr>"

lemma reset_attempt_simps [simp]:
  "u_id (reset_attempt_row u) = u_id u" "u_email (reset_attempt_row u) = u_email u"
  "u_password_hash (reset_attempt_row u) = u_password_hash u" "u_token_version (reset_attempt_row u) = u_token_version u"
  "consumed_columns env h (reset_attempt_row u) = consumed_columns env h u"
  by (simp_all add: reset_attempt_row_def consumed_columns_def)

lemma consumed_simps [simp]:
  "u_id (consumed_columns env h u) = u_id u" "u_email (consumed_columns env h u) = u_email u"
  "u_role (consumed_columns env h u) = u_role u" "u_token_version (consumed_columns env h u) = u_token_version u + 1"
  "u_password_reset_token_hash (consumed_columns env h u) = None" "u_password_hash (consumed_columns env h u) = h"
  by (simp_all add: consumed_columns_def)

definition credentials :: "'r app \<Rightarrow> (int \<times> string \<times> int) list" where
  "credentials s = map (\<lambda>u. (u_id u, u_password_hash u, u_token_version u)) (users s)"

text \<open>Claiming an attempt: at most the counter of the one user changes.\<close>

definition claimed :: "int \<Rightarrow> 'r app \<Rightarrow> 'r app \<Rightarrow> bool" where
  "claimed uid s t \<longleftrightarrow> tokens t = tokens s \<and> redis t = redis s \<and>
     (\<exists>p. (\<forall>v. p v \<longrightarrow> u_id v = uid) \<and> users t = map (\<lambda>v. if p v then reset_attempt_row v else v) (users s))"

lemma claimed_refl [simp]: "claimed uid s s"
  unfolding claimed_def by (auto intro!: exI[of _ "\<lambda>_. False"])

lemma claimed_credentials: "claimed uid s t \<Longrightarrow> credentials t = credentials s"
  by (auto simp: claimed_def credentials_def)

lemma wp_claim:
  "(\<And>t. claimed uid s t \<Longrightarrow> db_ok t \<Longrightarrow> Q () t) \<Longrightarrow> (\<And>e t. claimed uid s t \<Longrightarrow> E e t) \<Longrightarrow> db_ok s \<Longrightarrow>
    wp (increment_reset_attempts env uid) Q E s"
proof -
  assume Q: "\<And>t. claimed uid s t \<Longrightarrow> db_ok t \<Longrightarrow> Q () t" and E: "\<And>e t. claimed uid s t \<Longrightarrow> E e t" and ok: "db_ok s"
  let ?p = "\<lambda>u. u_id u = uid \<and> u_password_reset_failed_attempts u < MAX_FAILED_ATTEMPTS"
  let ?t = "snd (update_many ?p (\<lambda>u. u\<lparr>u_password_reset_failed_attempts := u_password_reset_failed_attempts u + 1\<rparr>) s)"
  have "claimed uid s ?t"
    unfolding claimed_def update_many_def reset_attempt_row_def by (auto intro!: exI[of _ ?p])
  moreover have "db_ok ?t" by (rule update_many_ok[OF ok]) simp
  ultimately show ?thesis using Q E by (auto simp: increment_reset_attempts_def wp_simps)
qed

lemma user_after_consume:
  assumes "db_ok s1" "reset_done env uid h w s1 t"
  shows "user_by_id uid t = map_option (consumed_columns env h) (user_by_id uid s1)"
    and "user_by_id uid t = Some w"
    and "i \<noteq> uid \<Longrightarrow> user_by_id i t = user_by_id i s1"
proof -
  let ?f = "\<lambda>v. if u_password_reset_token_hash v \<noteq> None then consumed_columns env h v else v"
  have t: "users t = map (\<lambda>v. if u_id v = uid then ?f v else v) (users s1)"
    using assms(2) by (auto simp: reset_done_def)
  note m = user_by_id_map[OF t]
  obtain v where v: "v \<in> set (users s1)" "u_id v = uid" "u_password_reset_token_hash v \<noteq> None"
    using assms(2) by (auto simp: reset_done_def)
  have "user_by_id uid s1 = Some v"
    by (rule user_by_id_unique) (use assms(1) v in \<open>auto simp: db_ok_def\<close>)
  with m(1) v(3) show "user_by_id uid t = map_option (consumed_columns env h) (user_by_id uid s1)" by simp
  show "user_by_id uid t = Some w" using assms(2) by (simp add: reset_done_def)
  show "i \<noteq> uid \<Longrightarrow> user_by_id i t = user_by_id i s1" using m(2) by simp
qed

lemma user_after_claim:
  assumes "claimed uid s t"
  shows "user_by_id uid t = user_by_id uid s \<or> user_by_id uid t = map_option reset_attempt_row (user_by_id uid s)"
    and "i \<noteq> uid \<Longrightarrow> user_by_id i t = user_by_id i s"
proof -
  obtain p where p: "\<forall>v. p v \<longrightarrow> u_id v = uid" "users t = map (\<lambda>v. if p v then reset_attempt_row v else v) (users s)"
    using assms by (auto simp: claimed_def)
  have e: "user_by_id j t = map_option (\<lambda>v. if p v then reset_attempt_row v else v) (user_by_id j s)" for j
    unfolding user_by_id_def p(2) by (rule find_map_inv) simp
  show "user_by_id uid t = user_by_id uid s \<or> user_by_id uid t = map_option reset_attempt_row (user_by_id uid s)"
    unfolding e by (cases "user_by_id uid s") auto
  show "i \<noteq> uid \<Longrightarrow> user_by_id i t = user_by_id i s"
    unfolding e using p(1) user_by_id_Some[of i s] by (cases "user_by_id i s") auto
qed

definition reset_effect :: "'r env \<Rightarrow> int \<Rightarrow> string \<Rightarrow> 'r app \<Rightarrow> 'r app \<Rightarrow> bool" where
  "reset_effect env uid nh s t \<longleftrightarrow>
     (\<exists>u. user_by_id uid s = Some u \<and> user_by_id uid t = Some (consumed_columns env nh u))
     \<and> (\<forall>i. i \<noteq> uid \<longrightarrow> user_by_id i t = user_by_id i s)
     \<and> tokens t = filter (\<lambda>x. rt_user_id x \<noteq> uid) (tokens s) \<and> redis t = redis s"

lemma reset_effectI:
  assumes "claimed uid s s1" "db_ok s1" "reset_done env uid nh w s1 t"
  shows "reset_effect env uid nh s t" "user_by_id uid t = Some w"
proof -
  note c = user_after_claim[OF assms(1)] and d = user_after_consume[OF assms(2,3)]
  show "user_by_id uid t = Some w" by (rule d(2))
  show "reset_effect env uid nh s t"
    using c d assms(1,3) unfolding reset_effect_def claimed_def reset_done_def
    by (cases "user_by_id uid s") auto
qed

lemma claimed_same:
  assumes "claimed uid s t"
  shows "credentials t = credentials s \<and> tokens t = tokens s"
  using assms claimed_credentials[OF assms] by (simp add: claimed_def)

lemma wp_reset_txn_claimed:
  assumes "claimed uid s s1" "db_ok s1"
    and some: "\<And>w t. reset_effect env uid nh s t \<Longrightarrow> user_by_id uid t = Some w \<Longrightarrow> Q (Some w) t"
    and none: "\<And>t. credentials t = credentials s \<and> tokens t = tokens s \<Longrightarrow> Q None t"
    and err: "\<And>e t. credentials t = credentials s \<and> tokens t = tokens s \<Longrightarrow> E e t"
  shows "wp (reset_txn env uid nh) Q E s1"
proof (rule wp_mono[OF wp_reset_txn])
  have st: "credentials t = credentials s \<and> tokens t = tokens s" if "same_tables s1 t" for t
    using that claimed_same[OF assms(1)] by (simp add: same_tables_def credentials_def)
  show "Q x t" if "case x of None \<Rightarrow> same_tables s1 t | Some u \<Rightarrow> reset_done env uid nh u s1 t" for x t
    using that none[OF st] reset_effectI[OF assms(1,2)] some by (cases x) auto
  show "E e t" if "same_tables s1 t" for e t
    using err[OF st[OF that]] .
qed

lemma wp_commit_reset:
  assumes "claimed uid s s1" "db_ok s1" "between env = id"
  shows "wp (commit_reset env uid p)
     (\<lambda>out t. \<exists>nh w. hash_password env p = Some nh \<and> reset_effect env uid nh s t \<and> user_by_id uid t = Some w
        \<and> out = \<lparr>po_user_id = u_id w, po_role = u_role w, po_token_version = u_token_version w\<rparr>)
     (\<lambda>_ t. credentials t = credentials s \<and> tokens t = tokens s) s1"
proof (cases "hash_password env p")
  case None
  then show ?thesis using claimed_same[OF assms(1)] by (simp add: commit_reset_def wp_simps)
next
  case (Some nh)
  show ?thesis
    unfolding commit_reset_def Some ok_or_simps bindS_liftE_Inr wp_bindS wp_interfere assms(3) id_apply
    by (rule wp_reset_txn_claimed[OF assms(1,2)]) (auto simp: wp_simps)
qed

lemma wp_reset_password:
  assumes "db_ok s" "between env = id"
  shows "wp (reset_password svc env m code p)
     (\<lambda>out t. \<exists>u h nh w. pending_reset env (user_by_email (to_lower m) s) = Inr (u, h) \<and> verify_code svc code h = Some True
        \<and> hash_password env p = Some nh \<and> reset_effect env (u_id u) nh s t \<and> user_by_id (u_id u) t = Some w
        \<and> out = \<lparr>po_user_id = u_id w, po_role = u_role w, po_token_version = u_token_version w\<rparr>)
     (\<lambda>_ t. credentials t = credentials s \<and> tokens t = tokens s) s"
proof (cases "pending_reset env (user_by_email (to_lower m) s)")
  case (Inl e)
  then show ?thesis by (simp add: reset_password_def wp_simps)
next
  case (Inr uh)
  obtain u h where uh: "uh = (u, h)" by (cases uh)
  let ?Q = "\<lambda>out t. \<exists>u h nh w. pending_reset env (user_by_email (to_lower m) s) = Inr (u, h) \<and> verify_code svc code h = Some True
        \<and> hash_password env p = Some nh \<and> reset_effect env (u_id u) nh s t \<and> user_by_id (u_id u) t = Some w
        \<and> out = \<lparr>po_user_id = u_id w, po_role = u_role w, po_token_version = u_token_version w\<rparr>"
    and ?E = "\<lambda>_ t. credentials t = credentials s \<and> tokens t = tokens s"
  have rest: "wp (bindS (liftE (ok_or (PInternal ''Failed to parse stored reset code hash'') (verify_code svc code h)))
      (\<lambda>matches. if \<not> matches then raiseS PInvalidOrExpired else commit_reset env (u_id u) p)) ?Q ?E s1"
    if c: "claimed (u_id u) s s1" "db_ok s1" for s1
  proof (cases "verify_code svc code h = Some True")
    case True
    show ?thesis
      unfolding True ok_or_simps bindS_liftE_Inr
      by (simp, rule wp_mono[OF wp_commit_reset[OF c assms(2)]]) (use Inr uh True in auto)
  next
    case False
    then have "verify_code svc code h = None \<or> verify_code svc code h = Some False"
      by (cases "verify_code svc code h") auto
    then show ?thesis using claimed_same[OF c(1)] by (auto simp: wp_basic simp del: prog_basic)
  qed
  have "wp (increment_reset_attempts env (u_id u)) (\<lambda>_. wp (bindS
      (liftE (ok_or (PInternal ''Failed to parse stored reset code hash'') (verify_code svc code h)))
      (\<lambda>matches. if \<not> matches then raiseS PInvalidOrExpired else commit_reset env (u_id u) p)) ?Q ?E) ?E s"
    by (rule wp_claim) (use rest claimed_same assms(1) in auto)
  then show ?thesis
    unfolding reset_password_def wp_bindS wp_reset_find_user wp_liftE Inr uh wp_interfere assms(2) id_apply sum.case prod.case
    by (simp only: if_split) simp
qed

text \<open>C17: a password reset is all or nothing. It succeeds only with a stored, unexpired code that matches; then the account has the new password, a
  version one higher and no code, all its refresh tokens are gone, nobody else is affected, the answer carries the new version, and no further reset
  succeeds until a new code is issued. When it fails, no password, no version and no refresh token has changed.\<close>

theorem reset_password_atomic:
  assumes "db_ok s" "between env = id" "reset_password svc env m code p s = (r, t)"
  shows "case r of
      Inl _ \<Rightarrow> credentials t = credentials s \<and> tokens t = tokens s
    | Inr out \<Rightarrow>
        \<exists>u h x nh. user_by_email (to_lower m) s = Some u \<and> u_password_reset_token_hash u = Some h
          \<and> u_password_reset_expires_at u = Some x \<and> now env \<le> x \<and> verify_code svc code h = Some True
          \<and> hash_password env p = Some nh
          \<and> user_by_id (u_id u) t = Some (consumed_columns env nh u)
          \<and> out = \<lparr>po_user_id = u_id u, po_role = u_role u, po_token_version = u_token_version u + 1\<rparr>
          \<and> tokens t = filter (\<lambda>x. rt_user_id x \<noteq> u_id u) (tokens s)
          \<and> (\<forall>i. i \<noteq> u_id u \<longrightarrow> user_by_id i t = user_by_id i s)
          \<and> (db_ok t \<and> quiet env2 \<longrightarrow> reset_password svc2 env2 m code2 p2 t = (Inl PInvalidOrExpired, t))"
proof (cases r)
  case (Inl e)
  then show ?thesis using wp_Inl[OF wp_reset_password[OF assms(1,2)]] assms(3) by simp
next
  case (Inr out)
  obtain u h nh w where p: "pending_reset env (user_by_email (to_lower m) s) = Inr (u, h)"
    and v: "verify_code svc code h = Some True" "hash_password env p = Some nh"
    and e: "reset_effect env (u_id u) nh s t" "user_by_id (u_id u) t = Some w"
    and o: "out = \<lparr>po_user_id = u_id w, po_role = u_role w, po_token_version = u_token_version w\<rparr>"
    using wp_Inr[OF wp_reset_password[OF assms(1,2)] assms(3)[unfolded Inr]] by blast
  have u: "user_by_email (to_lower m) s = Some u" "u_password_reset_token_hash u = Some h"
    using p by (auto simp: pending_reset_def bindE_Inr_conv split: option.splits if_splits)
  obtain x where x: "u_password_reset_expires_at u = Some x" "now env \<le> x"
    using p by (auto simp: pending_reset_def bindE_Inr_conv split: option.splits if_splits)
  note l = user_by_email_id[OF assms(1) u(1)]
  have w: "w = consumed_columns env nh u" using e l(3) by (simp add: reset_effect_def)
  have "reset_password svc2 env2 m code2 p2 t = (Inl PInvalidOrExpired, t)" if t: "db_ok t" "quiet env2"
  proof -
    have wt: "w \<in> set (users t)" using user_by_id_Some[OF e(2)] by simp
    have "user_by_email (to_lower m) t = Some w"
    proof -
      have "u_email w = to_lower m" using w l(2) by simp
      then obtain w' where w': "user_by_email (to_lower m) t = Some w'"
        using wt by (cases "user_by_email (to_lower m) t") (auto simp: user_by_email_def find_None_iff)
      then have "u_id w' = u_id w"
        using user_by_email_id[OF t(1) w'] wt \<open>u_email w = to_lower m\<close> t(1)
        by (auto simp: db_ok_def intro!: users_ok_clash[of "users t"] simp: clashes_def)
      then have "w' = w"
        using users_ok_inj[of "users t" w' w] user_by_email_id(1)[OF t(1) w'] wt t(1) by (simp add: db_ok_def)
      with w' show ?thesis by simp
    qed
    then show ?thesis
      using t(2) by (simp add: reset_password_def reset_find_user_def pending_reset_def w)
  qed
  then show ?thesis
    using Inr u x v e w o by (auto simp: reset_effect_def)
qed

definition reset_user :: user where
  "reset_user = (sample_user 3 ''u'' ''user'')\<lparr>u_password_reset_token_hash := Some ''#000042'',
     u_password_reset_expires_at := Some 1600000, u_password_reset_sent_at := Some 1000000\<rparr>"

definition reset_app :: "kv app" where
  "reset_app = sample_app\<lparr>users := [sample_user 1 ''s'' ''system'', reset_user]\<rparr>"

lemma reset_app_ok: "db_ok reset_app"
  by (auto simp: reset_app_def reset_user_def sample_app_def sample_user_def sample_token_def db_ok_def users_ok_def
      tokens_ok_def clashes_def row_ok_def i64_max_def i32_max_def)

lemma reset_app_run_with:
  "reset_password sample_code sample_env ''U'' ''000042'' ''new'' (reset_app\<lparr>redis := r\<rparr>) =
     (Inr \<lparr>po_user_id = 3, po_role = ''user'', po_token_version = 2\<rparr>,
      reset_app\<lparr>redis := r, users := [sample_user 1 ''s'' ''system'', consumed_columns sample_env ''hnew'' reset_user], tokens := []\<rparr>)"
proof -
  have l: "user_by_email ''u'' reset_app = Some reset_user"
    by (simp add: user_by_email_def reset_app_def reset_user_def sample_user_def)
  have p: "pending_reset sample_env (Some reset_user) = Inr (reset_user, ''#000042'')"
    by (simp add: pending_reset_def reset_user_def sample_env_simps)
  have i: "u_id reset_user = 3" "u_password_reset_token_hash reset_user = Some ''#000042''" "u_role reset_user = ''user''"
    "u_password_reset_failed_attempts reset_user = 0" "u_token_version reset_user = 1"
    "u_id (sample_user 1 ''s'' ''system'') = 1"
    by (simp_all add: reset_user_def sample_user_def)
  have inc: "increment_reset_attempts sample_env 3 (reset_app\<lparr>redis := r\<rparr>) =
      (Inr (), reset_app\<lparr>redis := r, users := [sample_user 1 ''s'' ''system'', reset_attempt_row reset_user]\<rparr>)"
    using sample_quiet by (simp add: increment_reset_attempts_def update_many_def reset_app_def i code_consts reset_attempt_row_def)
  have tx: "reset_txn sample_env 3 ''hnew'' (reset_app\<lparr>redis := r, users := [sample_user 1 ''s'' ''system'', reset_attempt_row reset_user]\<rparr>) =
      (Inr (Some (consumed_columns sample_env ''hnew'' reset_user)),
       reset_app\<lparr>redis := r, users := [sample_user 1 ''s'' ''system'', consumed_columns sample_env ''hnew'' reset_user], tokens := []\<rparr>)"
    using sample_quiet
    by (simp add: reset_txn_def in_txn_def consume_code_def run_stmt_def stmt_result_def update_many_def i bindS_def
        read_db_def write_db_def delete_tokens_def user_by_id_def quiet_def)
      (simp add: reset_attempt_row_def i i32_max_def consumed_columns_def reset_app_def sample_app_def sample_token_def)
  show ?thesis
    using sample_quiet inc tx
    by (simp add: reset_password_def commit_reset_def reset_find_user_def lower_u l p i sample_code_def sample_env_simps)
      (simp add: bindS_def i)
qed

lemma reset_app_run:
  "reset_password sample_code sample_env ''U'' ''000042'' ''new'' reset_app =
     (Inr \<lparr>po_user_id = 3, po_role = ''user'', po_token_version = 2\<rparr>,
      reset_app\<lparr>users := [sample_user 1 ''s'' ''system'', consumed_columns sample_env ''hnew'' reset_user], tokens := []\<rparr>)"
  using reset_app_run_with[of "redis reset_app"] by simp

lemma reset_password_atomic_witness:
  "map_option u_password_hash (user_by_id 3 (snd (reset_password sample_code sample_env ''U'' ''000042'' ''new'' reset_app)))
     = Some ''hnew''
   \<and> tokens (snd (reset_password sample_code sample_env ''U'' ''000042'' ''new'' reset_app)) = []"
proof -
  have b: "between sample_env = id" by (simp add: sample_env_def)
  have l: "user_by_email (to_lower ''U'') reset_app = Some reset_user"
    unfolding lower_u by (simp add: user_by_email_def reset_app_def reset_user_def sample_user_def)
  from reset_password_atomic[OF reset_app_ok b reset_app_run, of sample_env sample_code "''1''" "''p''"]
  obtain h where "user_by_id 3 (snd (reset_password sample_code sample_env ''U'' ''000042'' ''new'' reset_app)) =
      Some (consumed_columns sample_env h reset_user)" "h = ''hnew''"
    by (auto simp: l reset_app_run sample_env_simps reset_user_def sample_user_def)
  then show ?thesis by (simp add: reset_app_run)
qed

end
