(* ===== verification/ApiErrors.thy ===== *)
theory ApiErrors
  imports CodeProps
begin

text \<open>
  \<^verbatim>\<open>server/src/utils/error.rs\<close> and \<^verbatim>\<open>crates/webshelf-runtime/src/error.rs\<close>: what a client sees of an error. Every service has
  its own error type; all of them pass through \<^verbatim>\<open>ApiError\<close> to a status, a kind and a message. Where the
  source tells cases apart that a client must not tell apart, the conversions merge them.
\<close>

record http_error =
  status :: nat
  error_type :: string
  message :: string

definition bad_request :: "string \<Rightarrow> http_error" where
  "bad_request msg = \<lparr>status = 400, error_type = ''bad_request'', message = msg\<rparr>"
definition unauthorized :: "string \<Rightarrow> http_error" where
  "unauthorized msg = \<lparr>status = 401, error_type = ''unauthorized'', message = msg\<rparr>"
definition forbidden :: "string \<Rightarrow> http_error" where
  "forbidden msg = \<lparr>status = 403, error_type = ''forbidden'', message = msg\<rparr>"
definition not_found :: "string \<Rightarrow> http_error" where
  "not_found msg = \<lparr>status = 404, error_type = ''not_found'', message = msg\<rparr>"
definition conflict :: "string \<Rightarrow> http_error" where
  "conflict msg = \<lparr>status = 409, error_type = ''conflict'', message = msg\<rparr>"
definition internal_err :: "string \<Rightarrow> http_error" where
  "internal_err msg = \<lparr>status = 500, error_type = ''internal_error'', message = msg\<rparr>"
definition service_unavailable :: "string \<Rightarrow> http_error" where
  "service_unavailable msg = \<lparr>status = 503, error_type = ''service_unavailable'', message = msg\<rparr>"

lemmas http_errors = bad_request_def unauthorized_def forbidden_def not_found_def conflict_def internal_err_def
  service_unavailable_def

datatype api_error =
  ApiBadRequest string | ApiUnauthorized string | ApiForbidden string | ApiNotFound string | ApiConflict string
| ApiValidation string | ApiInternal string | ApiServiceUnavailable string

definition unexpected :: string where "unexpected = ''An unexpected error occurred''"

definition http_of_api :: "api_error \<Rightarrow> http_error" where
  "http_of_api err =
     (case err of
        ApiBadRequest msg \<Rightarrow> bad_request msg
      | ApiUnauthorized msg \<Rightarrow> unauthorized msg
      | ApiForbidden msg \<Rightarrow> forbidden msg
      | ApiNotFound msg \<Rightarrow> not_found msg
      | ApiConflict msg \<Rightarrow> conflict msg
      | ApiValidation msg \<Rightarrow> (bad_request msg)\<lparr>error_type := ''validation_error''\<rparr>
      | ApiInternal _ \<Rightarrow> internal_err unexpected
      | ApiServiceUnavailable msg \<Rightarrow> service_unavailable msg)"

definition api_of_user :: "user_error \<Rightarrow> api_error" where
  "api_of_user err =
     (case err of
        NotFound \<Rightarrow> ApiNotFound ''User not found''
      | EmailConflict \<Rightarrow> ApiConflict ''Email already registered''
      | InvalidCredentials \<Rightarrow> ApiUnauthorized ''Current password is incorrect''
      | Forbidden msg \<Rightarrow> ApiForbidden msg
      | WeakPassword msg \<Rightarrow> ApiBadRequest msg
      | SamePassword msg \<Rightarrow> ApiBadRequest msg
      | NotAllowed msg \<Rightarrow> ApiForbidden msg
      | Internal e \<Rightarrow> ApiInternal unexpected)"

definition api_of_auth :: "auth_error \<Rightarrow> api_error" where
  "api_of_auth err =
     (case err of
        BadCredentials \<Rightarrow> ApiUnauthorized ''Invalid email or password''
      | AuthInternal e \<Rightarrow> ApiInternal unexpected)"

definition api_of_verification :: "verification_error \<Rightarrow> api_error" where
  "api_of_verification err =
     (case err of
        InvalidOrExpired \<Rightarrow> ApiBadRequest ''Invalid or expired verification code''
      | TooManyAttempts \<Rightarrow> ApiBadRequest ''Invalid or expired verification code''
      | TooSoon \<Rightarrow> ApiBadRequest ''Please wait before requesting a new code''
      | EmailNotConfigured \<Rightarrow> ApiServiceUnavailable ''Email verification is currently unavailable''
      | VInternal e \<Rightarrow> ApiInternal unexpected)"

definition api_of_reset :: "password_reset_error \<Rightarrow> api_error" where
  "api_of_reset err =
     (case err of
        PInvalidOrExpired \<Rightarrow> ApiBadRequest ''Invalid or expired reset code''
      | PTooManyAttempts \<Rightarrow> ApiBadRequest ''Invalid or expired reset code''
      | PTooSoon \<Rightarrow> ApiBadRequest ''Please wait before requesting a new reset code''
      | PEmailNotConfigured \<Rightarrow> ApiServiceUnavailable ''Password reset is currently unavailable''
      | PInternal e \<Rightarrow> ApiInternal unexpected)"

definition check_password_strength :: "string \<Rightarrow> (api_error, unit) res" where
  "check_password_strength password = mapErr ApiValidation (require_password password)"

section \<open>Errors of the WeChat library\<close>

datatype wechat_error =
  ConfigIncomplete string | SignatureMismatch | XmlParse string | Decrypt string
| CaptchaNotFound | CaptchaMismatch | WxTooManyAttempts | CooldownActive
| UserNotBound string | ApiRequest string | ApiBusiness int string | StoreError string | WxInternal string

definition api_of_wechat :: "wechat_error \<Rightarrow> api_error" where
  "api_of_wechat err =
     (case err of
        CaptchaNotFound \<Rightarrow> ApiBadRequest ''Invalid or expired captcha code''
      | CaptchaMismatch \<Rightarrow> ApiBadRequest ''Invalid or expired captcha code''
      | WxTooManyAttempts \<Rightarrow> ApiBadRequest ''Invalid or expired captcha code''
      | CooldownActive \<Rightarrow> ApiBadRequest ''Please wait before requesting a new code''
      | UserNotBound _ \<Rightarrow> ApiBadRequest ''WeChat account is not bound to any user''
      | ConfigIncomplete msg \<Rightarrow> ApiServiceUnavailable ''WeChat login is not fully configured''
      | SignatureMismatch \<Rightarrow> ApiBadRequest ''Invalid WeChat callback''
      | XmlParse _ \<Rightarrow> ApiBadRequest ''Invalid WeChat callback''
      | Decrypt _ \<Rightarrow> ApiBadRequest ''Invalid WeChat callback''
      | ApiRequest msg \<Rightarrow> ApiInternal unexpected
      | StoreError msg \<Rightarrow> ApiInternal unexpected
      | ApiBusiness c m \<Rightarrow> ApiInternal unexpected
      | WxInternal _ \<Rightarrow> ApiInternal unexpected)"

section \<open>Lemmas\<close>

lemma status_codes: "status (http_of_api e) \<in> {400, 401, 403, 404, 409, 500, 503}"
  by (cases e) (simp_all add: http_of_api_def http_errors)

text \<open>An internal failure reaches the client as one fixed answer, whatever caused it.\<close>

lemma internal_hidden:
  "http_of_api (api_of_user (Internal m)) = internal_err unexpected"
  "http_of_api (api_of_auth (AuthInternal m)) = internal_err unexpected"
  "http_of_api (api_of_verification (VInternal m)) = internal_err unexpected"
  "http_of_api (api_of_reset (PInternal m)) = internal_err unexpected"
  "http_of_api (api_of_wechat (StoreError m)) = internal_err unexpected"
  "http_of_api (api_of_wechat (WxInternal m)) = internal_err unexpected"
  by (simp_all add: http_of_api_def api_of_user_def api_of_auth_def api_of_verification_def api_of_reset_def api_of_wechat_def)

lemma status_500: "status (http_of_api e) = 500 \<longleftrightarrow> (\<exists>m. e = ApiInternal m)"
  by (cases e) (simp_all add: http_of_api_def http_errors)

end
