(* ===== verification/Middleware.thy ===== *)
theory Middleware
  imports ApiErrors RateLimit
begin

text \<open>
  \<^verbatim>\<open>crates/webshelf-axum/src/middleware.rs\<close>: what a request passes before its handler. Authentication takes the token from the
  header or the cookie, validates it and compares its version; the admin guard looks at the role; the rate limiter
  counts by client address and by the email in the body. A header is the text of its value, \<^const>\<open>None\<close> when it is missing or not text.
\<close>

section \<open>The request\<close>

record http_request =
  rq_method :: string
  rq_path :: string
  rq_query :: string
  rq_content_type :: "string option"
  rq_authorization :: "string option"
  rq_cookie :: "string option"
  rq_forwarded_for :: "string option"
  rq_real_ip :: "string option"
  rq_peer :: "string option"
  rq_body :: "string option"

text \<open>\<^verbatim>\<open>str::split\<close> on one character: always at least one piece.\<close>

fun split_on :: "char \<Rightarrow> string \<Rightarrow> string list" where
  "split_on d [] = [[]]"
| "split_on d (c # s) =
     (if c = d then [] # split_on d s
      else case split_on d s of [] \<Rightarrow> [[c]] | p # ps \<Rightarrow> (c # p) # ps)"

text \<open>What the libraries make of a cookie pair and of a body.\<close>

datatype json_email = NotJson | NoEmailKey | EmailNotString | JsonEmail string

record parsers =
  parse_cookie :: "string \<Rightarrow> (string \<times> string) option"
  json_email_of :: "string \<Rightarrow> json_email"
  form_email_of :: "string \<Rightarrow> string option"

definition JWT_COOKIE :: string where "JWT_COOKIE = ''webshelf_jwt''"
definition REFRESH_COOKIE :: string where "REFRESH_COOKIE = ''webshelf_refresh''"
definition EXPIRY_COOKIE :: string where "EXPIRY_COOKIE = ''webshelf_exp''"

definition extract_bearer_token :: "http_request \<Rightarrow> string option" where
  "extract_bearer_token request =
     (case rq_authorization request of
        None \<Rightarrow> None
      | Some v \<Rightarrow> if length v \<le> 7 then None
                  else if to_lower (take 7 v) \<noteq> ''bearer '' then None
                  else Some (drop 7 v))"

definition cookie_value :: "parsers \<Rightarrow> string \<Rightarrow> http_request \<Rightarrow> string option" where
  "cookie_value ps name request =
     (case rq_cookie request of
        None \<Rightarrow> None
      | Some v \<Rightarrow> map_option snd (find (\<lambda>c. fst c = name) (List.map_filter (\<lambda>p. parse_cookie ps (trim p)) (split_on (CHR '';'') v))))"

definition extract_jwt_cookie :: "parsers \<Rightarrow> http_request \<Rightarrow> string option" where
  "extract_jwt_cookie ps request = cookie_value ps JWT_COOKIE request"

definition request_token :: "parsers \<Rightarrow> http_request \<Rightarrow> string option" where
  "request_token ps request =
     (case extract_bearer_token request of Some t \<Rightarrow> Some t | None \<Rightarrow> extract_jwt_cookie ps request)"

section \<open>Authentication\<close>

definition invalid_token_response :: http_error where
  "invalid_token_response = unauthorized ''Invalid or expired token''"

text \<open>The middleware up to the next handler: the user it attaches, none for the health check.\<close>

definition auth_middleware ::
    "parsers \<Rightarrow> crypto \<Rightarrow> string \<Rightarrow> 'r env \<Rightarrow> http_request \<Rightarrow> ('r app, http_error, auth_user option) prog" where
  "auth_middleware ps k secret env request s =
     (if rq_path request = ''/health'' \<or> rq_path request = ''/api/health'' then (Inr None, s)
      else case request_token ps request of
        None \<Rightarrow> (Inl (unauthorized ''Missing or invalid Authorization header''), s)
      | Some token \<Rightarrow>
          (case validate_jwt k env token secret of
             None \<Rightarrow> (Inl invalid_token_response, s)
           | Some claims \<Rightarrow>
               (case parse_i64 (sub claims) of
                  None \<Rightarrow> (Inl invalid_token_response, s)
                | Some user_id \<Rightarrow>
                    (case verify_token_version env user_id (jwt_version claims) s of
                       (Inr _, s') \<Rightarrow> (Inr (Some (auth_user_of claims)), s')
                     | (Inl _, s') \<Rightarrow> (Inl invalid_token_response, s')))))"

definition require_admin :: "auth_user option \<Rightarrow> (http_error, unit) res" where
  "require_admin user =
     (case user of
        None \<Rightarrow> Inl (unauthorized ''Authentication required'')
      | Some u \<Rightarrow> if au_role u \<noteq> ''admin'' \<and> au_role u \<noteq> ''system''
                  then Inl (forbidden ''Admin privileges required'') else Inr ())"

section \<open>Rate limiting\<close>

record 'r rate_limit_guard =
  g_limiter :: "'r limiter"
  ip_max_requests :: nat
  ip_window_seconds :: nat
  email_max_requests :: "nat option"
  email_window_seconds :: nat
  g_key_prefix :: string

definition extract_client_ip :: "http_request \<Rightarrow> string option" where
  "extract_client_ip request =
     (let forwarded = (case rq_forwarded_for request of None \<Rightarrow> [] | Some v \<Rightarrow> trim (hd (split_on (CHR '','') v)));
          real = (case rq_real_ip request of None \<Rightarrow> [] | Some v \<Rightarrow> trim v) in
      if forwarded \<noteq> [] then Some forwarded else if real \<noteq> [] then Some real else None)"

definition client_ip :: "http_request \<Rightarrow> string option" where
  "client_ip request = (case extract_client_ip request of Some ip \<Rightarrow> Some ip | None \<Rightarrow> rq_peer request)"

definition extract_email_from_body :: "parsers \<Rightarrow> string \<Rightarrow> string option" where
  "extract_email_from_body ps body =
     (case json_email_of ps body of
        JsonEmail e \<Rightarrow> Some (to_lower e)
      | NoEmailKey \<Rightarrow> None
      | _ \<Rightarrow> map_option to_lower (form_email_of ps body))"

definition rate_limited_response :: http_error where
  "rate_limited_response =
     \<lparr>status = 429, error_type = ''rate_limited'', message = ''Too many requests. Please try again later.''\<rparr>"

text \<open>One counter: a refusal, a failure under the policy of the limiter, or the way on.\<close>

definition rate_check ::
    "nat \<Rightarrow> string \<Rightarrow> nat \<Rightarrow> nat \<Rightarrow> 'r limiter \<times> 'r \<Rightarrow> (http_error, unit) res \<times> 'r limiter \<times> 'r" where
  "rate_check t key max_requests window w =
     (case check_limit t key max_requests window (fst w) (snd w) of
        (Inr allowed, w') \<Rightarrow> (if allowed then Inr () else Inl rate_limited_response, w')
      | (Inl _, w') \<Rightarrow>
          (if limiter_fail_open (fst w) then Inr () else Inl (internal_err unexpected), w'))"

definition rate_limit_middleware ::
    "parsers \<Rightarrow> nat \<Rightarrow> 'r rate_limit_guard \<Rightarrow> http_request \<Rightarrow> 'r limiter \<times> 'r \<Rightarrow> (http_error, unit) res \<times> 'r limiter \<times> 'r" where
  "rate_limit_middleware ps t guard request w =
     (if \<not> limiter_is_available (fst w) then (Inr (), w)
      else
        (case (case client_ip request of
                 None \<Rightarrow> (Inr (), w)
               | Some ip \<Rightarrow>
                   rate_check t (g_key_prefix guard @ '':ip:'' @ ip) (ip_max_requests guard) (ip_window_seconds guard) w) of
           (Inl e, w1) \<Rightarrow> (Inl e, w1)
         | (Inr _, w1) \<Rightarrow>
             (case email_max_requests guard of
                None \<Rightarrow> (Inr (), w1)
              | Some email_max \<Rightarrow>
                  (case rq_body request of
                     None \<Rightarrow> (Inl (internal_err unexpected), w1)
                   | Some body \<Rightarrow>
                       (case extract_email_from_body ps body of
                          None \<Rightarrow> (Inr (), w1)
                        | Some email \<Rightarrow>
                            rate_check t (g_key_prefix guard @ '':email:'' @ email) email_max
                              (email_window_seconds guard) w1)))))"

section \<open>The version cache\<close>

text \<open>The cache agrees with the table: a version it still holds is the current one.\<close>

definition versions_agree :: "'r redis_view \<Rightarrow> nat \<Rightarrow> 'r app \<Rightarrow> bool" where
  "versions_agree view t s \<longleftrightarrow>
     (\<forall>t' \<ge> t. \<forall>uid x. view (redis s) t' (token_version_key uid) = Some x \<longrightarrow>
        (\<exists>u v. user_by_id uid s = Some u \<and> read_version x = Some v \<and> v = u_token_version u))"

lemma versions_agreeD:
  "versions_agree view t s \<Longrightarrow> t \<le> t' \<Longrightarrow> view (redis s) t' (token_version_key uid) = Some x \<Longrightarrow>
     \<exists>u. user_by_id uid s = Some u \<and> read_version x = Some (u_token_version u)"
  unfolding versions_agree_def by metis

definition cached_env :: "'r redis_ops \<Rightarrow> 'r redis_view \<Rightarrow> 'r env \<Rightarrow> bool" where
  "cached_env ops view env \<longleftrightarrow> redis_laws ops view \<and> reliable ops \<and> pool (cache_svc env) = Some ops
     \<and> (\<forall>c. \<not> db_err env c)"

lemma read_write_version: "- (2 ^ 31) \<le> v \<Longrightarrow> v \<le> i32_max \<Longrightarrow> read_version (show_int v) = Some v"
  by (simp add: read_version_def in_i64_def i64_min_def i64_max_def i32_max_def)

lemma version_key_inj: "token_version_key i = token_version_key j \<longleftrightarrow> i = j"
  by (auto simp: token_version_key_def dest: show_int_inj)

lemma verify_token_version_run:
  assumes "cached_env ops view env" "versions_agree view (cache_time env) s"
    and "\<And>u. user_by_id uid s = Some u \<Longrightarrow> - (2 ^ 31) \<le> u_token_version u \<and> u_token_version u \<le> i32_max"
  shows "fst (verify_token_version env uid v s) = Inr () \<longleftrightarrow>
      (\<exists>u. user_by_id uid s = Some u \<and> u_token_version u = v)"
    and "versions_agree view (cache_time env) (snd (verify_token_version env uid v s))"
    and "users (snd (verify_token_version env uid v s)) = users s"
    and "tokens (snd (verify_token_version env uid v s)) = tokens s"
proof -
  let ?c = "cache_svc env" and ?t = "cache_time env" and ?k = "token_version_key uid"
  have laws: "redis_laws ops view" "reliable ops" "pool ?c = Some ops" and q: "\<And>c. \<not> db_err env c"
    using assms(1) by (simp_all add: cached_env_def)
  obtain x w where g: "cache_get read_version ?c ?k (?t, redis s) = (x, w)" by (cases "cache_get read_version ?c ?k (?t, redis s)")
  have gx: "x = (case view (redis s) ?t ?k of None \<Rightarrow> Inr None
      | Some y \<Rightarrow> (case read_version y of None \<Rightarrow> Inl Deserialization | Some v \<Rightarrow> Inr (Some v)))"
    using cache_get_reliable[OF laws, of read_version ?k "(?t, redis s)"] g by simp
  have gv: "view (snd w) = view (redis s)"
    using cache_get_view[OF laws(1,3), of read_version ?k "(?t, redis s)"] g by simp
  let ?s1 = "s\<lparr>redis := snd w\<rparr>"
  have cg: "cache_do env (\<lambda>c. cache_get read_version c ?k) s = (Inr x, ?s1)"
    using g by (simp add: cache_do_def)
  have ag1: "versions_agree view ?t ?s1" using assms(2) gv by (simp add: versions_agree_def)
  let ?goal = "(fst (verify_token_version env uid v s) = Inr () \<longleftrightarrow> (\<exists>u. user_by_id uid s = Some u \<and> u_token_version u = v))
    \<and> versions_agree view ?t (snd (verify_token_version env uid v s))
    \<and> users (snd (verify_token_version env uid v s)) = users s
    \<and> tokens (snd (verify_token_version env uid v s)) = tokens s"
  have ?goal
  proof (cases "view (redis s) ?t ?k")
    case (Some y)
    then obtain u where u: "user_by_id uid s = Some u" "read_version y = Some (u_token_version u)"
      using versions_agreeD[OF assms(2) order_refl] by blast
    then have "x = Inr (Some (u_token_version u))" using gx Some by simp
    then show ?thesis using u(1) ag1 by (simp add: verify_token_version_def bindS_def cg)
  next
    case None
    then have x: "x = Inr None" using gx by simp
    show ?thesis
    proof (cases "user_by_id uid s")
      case None
      then show ?thesis
        using x ag1 by (simp add: verify_token_version_def bindS_def cg db_stmt_def q read_db_def)
    next
      case (Some u)
      have rw: "read_version (show_int (u_token_version u)) = Some (u_token_version u)"
        using assms(3)[OF Some] by (simp add: read_write_version)
      obtain r where st: "cache_set write_version ?c ?k (u_token_version u) TOKEN_VERSION_TTL_SECS (?t, snd w) = (Inr (), (?t, r))"
        and rv: "\<And>t k. ?t \<le> t \<Longrightarrow> view r t k = (if k = ?k then if t < ?t + TOKEN_VERSION_TTL_SECS
            then Some (show_int (u_token_version u)) else None else view (snd w) t k)"
        by (rule cache_set_reliable[OF laws, where ser = write_version and v = "u_token_version u"
              and json = "show_int (u_token_version u)" and ttl = TOKEN_VERSION_TTL_SECS and key = ?k and w = "(?t, snd w)"])
          (auto simp: write_version_def TOKEN_VERSION_TTL_SECS_def)
      have "versions_agree view ?t (s\<lparr>redis := r\<rparr>)"
        unfolding versions_agree_def
      proof (intro allI impI)
        fix t' i y assume t: "?t \<le> t'" and y: "view (redis (s\<lparr>redis := r\<rparr>)) t' (token_version_key i) = Some y"
        show "\<exists>u v. user_by_id i (s\<lparr>redis := r\<rparr>) = Some u \<and> read_version y = Some v \<and> v = u_token_version u"
        proof (cases "i = uid")
          case True
          then show ?thesis using y rv[OF t, of ?k] Some rw by (auto split: if_splits)
        next
          case False
          then have "view (redis s) t' (token_version_key i) = Some y"
            using y rv[OF t, of "token_version_key i"] gv by (simp add: version_key_inj)
          then show ?thesis using versions_agreeD[OF assms(2) t] by fastforce
        qed
      qed
      moreover have "cache_do env (\<lambda>c. cache_set write_version c ?k (u_token_version u) TOKEN_VERSION_TTL_SECS) ?s1
          = (Inr (Inr ()) :: (string, (cache_error, unit) res) res, s\<lparr>redis := r\<rparr>)"
        using st by (simp add: cache_do_def)
      ultimately show ?thesis
        using x Some by (simp add: verify_token_version_def bindS_def cg db_stmt_def q read_db_def)
    qed
  qed
  then show "fst (verify_token_version env uid v s) = Inr () \<longleftrightarrow>
      (\<exists>u. user_by_id uid s = Some u \<and> u_token_version u = v)"
    "versions_agree view ?t (snd (verify_token_version env uid v s))"
    "users (snd (verify_token_version env uid v s)) = users s"
    "tokens (snd (verify_token_version env uid v s)) = tokens s" by blast+
qed

end
