(* ===== verification/Captcha.thy ===== *)
theory Captcha
  imports Middleware
begin

text \<open>
  \<^verbatim>\<open>crates/wechat-api\<close>: the one-shot captcha behind the WeChat login. The crate asks its host for a captcha store, a
  binding of openids to users and a cache of access tokens; each trait is a record of operations here, and what the
  service relies on is the locale \<^verbatim>\<open>captcha_contract\<close>: a store refines a map from keys to pending captchas and
  a map from keys to failed attempts. The lemmas about verification are proved once from the contract.
\<close>

section \<open>The store interface\<close>

record 's captcha_store =
  set_captcha :: "nat \<Rightarrow> string \<Rightarrow> string \<Rightarrow> string \<Rightarrow> nat \<Rightarrow> ('s, wechat_error, unit) prog"
  set_captcha_nx :: "nat \<Rightarrow> string \<Rightarrow> string \<Rightarrow> string \<Rightarrow> nat \<Rightarrow> ('s, wechat_error, bool) prog"
  consume_captcha :: "nat \<Rightarrow> string \<Rightarrow> ('s, wechat_error, (string \<times> string) option) prog"
  peek_captcha :: "nat \<Rightarrow> string \<Rightarrow> ('s, wechat_error, (string \<times> string) option) prog"
  incr_failed_attempts :: "nat \<Rightarrow> string \<Rightarrow> ('s, wechat_error, nat) prog"
  reset_failed_attempts :: "nat \<Rightarrow> string \<Rightarrow> ('s, wechat_error, unit) prog"
  delete_captcha :: "nat \<Rightarrow> string \<Rightarrow> ('s, wechat_error, unit) prog"

record login_config =
  captcha_ttl_secs :: nat
  resend_cooldown_secs :: nat
  max_failed_attempts :: nat
  captcha_len :: nat
  trigger_keywords :: "string list"

section \<open>The captcha service\<close>

definition CHARSET :: string where "CHARSET = ''ABCDEFGHJKMNPQRSTUVWXYZ23456789''"

text \<open>The code from the indices the generator delivers.\<close>

definition generate_captcha_code :: "login_config \<Rightarrow> (nat \<Rightarrow> nat) \<Rightarrow> string" where
  "generate_captcha_code cfg rng = map (\<lambda>i. CHARSET ! rng i) [0..<captcha_len cfg]"

definition captcha_key :: "string \<Rightarrow> string \<Rightarrow> string" where
  "captcha_key account_id openid = ''wechat:'' @ account_id @ '':captcha:'' @ openid"

definition generate_captcha ::
    "'s captcha_store \<Rightarrow> login_config \<Rightarrow> (nat \<Rightarrow> nat) \<Rightarrow> nat \<Rightarrow> string \<Rightarrow> string \<Rightarrow> ('s, wechat_error, string) prog" where
  "generate_captcha store cfg rng t account_id openid =
     (let key = captcha_key account_id openid; code = generate_captcha_code cfg rng in
      bindS (set_captcha_nx store t key code openid (captcha_ttl_secs cfg)) (\<lambda>stored.
      if \<not> stored then raiseS CooldownActive else retS code))"

definition eq_ignore_case :: "string \<Rightarrow> string \<Rightarrow> bool" where
  "eq_ignore_case a b \<longleftrightarrow> to_lower a = to_lower b"

text \<open>A wrong code counts, and the last allowed one deletes the captcha; the right one must still be there to be consumed.\<close>

definition wrong_captcha ::
    "'s captcha_store \<Rightarrow> login_config \<Rightarrow> nat \<Rightarrow> string \<Rightarrow> ('s, wechat_error, string) prog" where
  "wrong_captcha store cfg t key =
     bindS (incr_failed_attempts store t key) (\<lambda>attempts.
     if attempts \<ge> max_failed_attempts cfg
     then bindS (delete_captcha store t key) (\<lambda>_. raiseS WxTooManyAttempts)
     else raiseS CaptchaMismatch)"

definition right_captcha ::
    "'s captcha_store \<Rightarrow> nat \<Rightarrow> string \<Rightarrow> string \<Rightarrow> ('s, wechat_error, string) prog" where
  "right_captcha store t key openid =
     bindS (consume_captcha store t key) (\<lambda>claimed.
     if claimed = None then raiseS CaptchaNotFound
     else bindS (reset_failed_attempts store t key) (\<lambda>_. retS openid))"

definition verify_for_openid ::
    "'s captcha_store \<Rightarrow> login_config \<Rightarrow> nat \<Rightarrow> string \<Rightarrow> string \<Rightarrow> string \<Rightarrow> ('s, wechat_error, string) prog" where
  "verify_for_openid store cfg t account_id openid code =
     (let key = captcha_key account_id openid in
      bindS (peek_captcha store t key) (\<lambda>stored.
      case stored of
        None \<Rightarrow> raiseS CaptchaNotFound
      | Some (expected, _) \<Rightarrow>
          if \<not> eq_ignore_case expected code then wrong_captcha store cfg t key
          else right_captcha store t key openid))"

text \<open>Trigger words: a case-insensitive match, for an ASCII keyword as a whole word, for others anywhere in the text.\<close>

definition is_ascii :: "string \<Rightarrow> bool" where
  "is_ascii s \<longleftrightarrow> list_all (\<lambda>c. (of_char c :: nat) < 128) s"

fun split_words :: "string \<Rightarrow> string list" where
  "split_words [] = [[]]"
| "split_words (c # s) =
     (if \<not> is_alnum c then [] # split_words s
      else case split_words s of [] \<Rightarrow> [[c]] | w # ws \<Rightarrow> (c # w) # ws)"

definition matches_trigger :: "login_config \<Rightarrow> string \<Rightarrow> bool" where
  "matches_trigger cfg content =
     (let trimmed = trim content in
      if trimmed = [] then False
      else list_ex (\<lambda>kw.
        if eq_ignore_case kw trimmed then True
        else if is_ascii kw then to_lower kw \<in> set (split_words (to_lower trimmed))
        else str_contains trimmed kw) (trigger_keywords cfg))"

section \<open>Login\<close>

record ('b, 'u) binding_store =
  find_user_by_openid :: "string \<Rightarrow> ('b, wechat_error, 'u option) prog"
  bind_openid :: "'u \<Rightarrow> string \<Rightarrow> ('b, wechat_error, unit) prog"
  unbind_openid :: "'u \<Rightarrow> ('b, wechat_error, unit) prog"

record 'u verified_login =
  vl_openid :: string
  vl_user_id :: 'u

text \<open>The two stores live in one state; an operation of either acts on its half.\<close>

definition on_fst :: "('s, 'e, 'a) prog \<Rightarrow> ('s \<times> 'b, 'e, 'a) prog" where
  "on_fst m w = (case m (fst w) of (x, s) \<Rightarrow> (x, (s, snd w)))"

definition on_snd :: "('b, 'e, 'a) prog \<Rightarrow> ('s \<times> 'b, 'e, 'a) prog" where
  "on_snd m w = (case m (snd w) of (x, b) \<Rightarrow> (x, (fst w, b)))"

definition verify_and_login ::
    "'s captcha_store \<Rightarrow> ('b, 'u) binding_store \<Rightarrow> login_config \<Rightarrow> nat \<Rightarrow> string \<Rightarrow> string \<Rightarrow> string
     \<Rightarrow> ('s \<times> 'b, wechat_error, 'u verified_login) prog" where
  "verify_and_login store bindings cfg t account_id openid code =
     bindS (on_fst (verify_for_openid store cfg t account_id openid code)) (\<lambda>verified_openid.
     bindS (on_snd (find_user_by_openid bindings verified_openid)) (\<lambda>found.
     bindS (liftE (ok_or (UserNotBound verified_openid) found)) (\<lambda>user_id.
     retS \<lparr>vl_openid = verified_openid, vl_user_id = user_id\<rparr>)))"

section \<open>The in-memory stores\<close>

record memory_captchas =
  mc_captchas :: "string \<Rightarrow> (string \<times> string \<times> nat) option"
  mc_attempts :: "string \<Rightarrow> nat option"

definition mem_live :: "nat \<Rightarrow> (string \<times> string \<times> nat) option \<Rightarrow> (string \<times> string) option" where
  "mem_live t e = (case e of None \<Rightarrow> None | Some (code, openid, exp) \<Rightarrow> if t > exp then None else Some (code, openid))"

definition memory_store :: "memory_captchas captcha_store" where
  "memory_store = \<lparr>
     set_captcha = (\<lambda>t key code openid ttl s.
       (Inr (), s\<lparr>mc_captchas := (mc_captchas s)(key \<mapsto> (code, openid, t + ttl)), mc_attempts := (mc_attempts s)(key \<mapsto> 0)\<rparr>)),
     set_captcha_nx = (\<lambda>t key code openid ttl s.
       if mc_captchas s key \<noteq> None then (Inr False, s)
       else (Inr True, s\<lparr>mc_captchas := (mc_captchas s)(key \<mapsto> (code, openid, t + ttl)), mc_attempts := (mc_attempts s)(key \<mapsto> 0)\<rparr>)),
     consume_captcha = (\<lambda>t key s.
       case mc_captchas s key of
         None \<Rightarrow> (Inr None, s)
       | Some (code, openid, exp) \<Rightarrow>
           if t > exp
           then (Inr None, s\<lparr>mc_captchas := (mc_captchas s)(key := None), mc_attempts := (mc_attempts s)(key := None)\<rparr>)
           else (Inr (Some (code, openid)), s\<lparr>mc_captchas := (mc_captchas s)(key := None)\<rparr>)),
     peek_captcha = (\<lambda>t key s. (Inr (mem_live t (mc_captchas s key)), s)),
     incr_failed_attempts = (\<lambda>t key s.
       (let count = (case mc_attempts s key of None \<Rightarrow> 0 | Some n \<Rightarrow> n) + 1 in
        (Inr count, s\<lparr>mc_attempts := (mc_attempts s)(key \<mapsto> count)\<rparr>))),
     reset_failed_attempts = (\<lambda>t key s. (Inr (), s\<lparr>mc_attempts := (mc_attempts s)(key \<mapsto> 0)\<rparr>)),
     delete_captcha = (\<lambda>t key s.
       (Inr (), s\<lparr>mc_captchas := (mc_captchas s)(key := None), mc_attempts := (mc_attempts s)(key := None)\<rparr>)) \<rparr>"

record memory_bindings =
  openid_to_user :: "string \<Rightarrow> string option"
  user_to_openid :: "string \<Rightarrow> string option"

definition memory_binding_store :: "(memory_bindings, string) binding_store" where
  "memory_binding_store = \<lparr>
     find_user_by_openid = (\<lambda>openid s. (Inr (openid_to_user s openid), s)),
     bind_openid = (\<lambda>user_id openid s.
       (Inr (), s\<lparr>openid_to_user := (openid_to_user s)(openid \<mapsto> user_id), user_to_openid := (user_to_openid s)(user_id \<mapsto> openid)\<rparr>)),
     unbind_openid = (\<lambda>user_id s.
       case user_to_openid s user_id of
         None \<Rightarrow> (Inr (), s)
       | Some openid \<Rightarrow>
           (Inr (), s\<lparr>user_to_openid := (user_to_openid s)(user_id := None), openid_to_user := (openid_to_user s)(openid := None)\<rparr>)) \<rparr>"

type_synonym memory_tokens = "string \<Rightarrow> (string \<times> nat) option"

definition mem_get_access_token :: "nat \<Rightarrow> string \<Rightarrow> memory_tokens \<Rightarrow> string option" where
  "mem_get_access_token t app_id s =
     (case s app_id of None \<Rightarrow> None | Some (token, expiry) \<Rightarrow> if t < expiry then Some token else None)"

definition mem_set_access_token :: "nat \<Rightarrow> string \<Rightarrow> string \<Rightarrow> nat \<Rightarrow> memory_tokens \<Rightarrow> memory_tokens" where
  "mem_set_access_token t app_id token ttl s = s(app_id \<mapsto> (token, t + ttl))"

section \<open>Many guesses\<close>

text \<open>Verifications of one openid, each at its time.\<close>

fun guess_captchas ::
    "'s captcha_store \<Rightarrow> login_config \<Rightarrow> string \<Rightarrow> string \<Rightarrow> (nat \<times> string) list \<Rightarrow> 's \<Rightarrow> (wechat_error, string) res list \<times> 's" where
  "guess_captchas store cfg acc o1 [] s = ([], s)"
| "guess_captchas store cfg acc o1 ((t, code) # gs) s =
     (case verify_for_openid store cfg t acc o1 code s of
        (x, s') \<Rightarrow> (case guess_captchas store cfg acc o1 gs s' of (xs, s'') \<Rightarrow> (x # xs, s'')))"

text \<open>What they must answer: a pending code, and how many wrong guesses it has seen.\<close>

fun captcha_answers :: "nat \<Rightarrow> string \<Rightarrow> string option \<Rightarrow> nat \<Rightarrow> string list \<Rightarrow> (wechat_error, string) res list" where
  "captcha_answers m o1 p n [] = []"
| "captcha_answers m o1 None n (c # cs) = Inl CaptchaNotFound # captcha_answers m o1 None n cs"
| "captcha_answers m o1 (Some e) n (c # cs) =
     (if eq_ignore_case e c then Inr o1 # captcha_answers m o1 None n cs
      else if m \<le> n + 1 then Inl WxTooManyAttempts # captcha_answers m o1 None n cs
      else Inl CaptchaMismatch # captcha_answers m o1 (Some e) (n + 1) cs)"

lemma answers_spent: "captcha_answers m o1 None n cs = map (\<lambda>_. Inl CaptchaNotFound) cs"
  by (induction cs) auto

lemma answers_length [simp]: "length (captcha_answers m o1 p n cs) = length cs"
  by (induction m o1 p n cs rule: captcha_answers.induct) auto

lemma answers_examined:
  "length (filter (\<lambda>x. x \<noteq> Inl CaptchaNotFound) (captcha_answers m o1 p n cs)) \<le> (case p of None \<Rightarrow> 0 | Some _ \<Rightarrow> max 1 (m - n))"
  by (induction m o1 p n cs rule: captcha_answers.induct) (auto simp: answers_spent)

lemma answers_won: "length (filter (\<lambda>x. \<not> isl x) (captcha_answers m o1 p n cs)) \<le> (case p of None \<Rightarrow> 0 | Some _ \<Rightarrow> 1)"
  by (induction m o1 p n cs rule: captcha_answers.induct) (auto simp: answers_spent)

lemma answers_right:
  "Inr x \<in> set (captcha_answers m o1 (Some e) n cs) \<longleftrightarrow> x = o1 \<and> (\<exists>c \<in> set (take (max 1 (m - n)) cs). eq_ignore_case e c)"
proof (induction cs arbitrary: n)
  case Nil
  then show ?case by simp
next
  case (Cons c cs)
  have "max 1 (m - n) = Suc (m - Suc n)" for n by simp
  then show ?case
    using Cons[of "Suc n"] by (cases "m \<le> n + 1") (auto simp: answers_spent Suc_diff_Suc take_Cons')
qed

section \<open>The contract\<close>

text \<open>
  \<^verbatim>\<open>rel t s H A\<close>: from time \<^verbatim>\<open>t\<close> to the end of the observed window the state \<^verbatim>\<open>s\<close> holds the captchas \<^verbatim>\<open>H\<close> and the
  counters \<^verbatim>\<open>A\<close>, as far as the keys in \<^verbatim>\<open>good\<close> go. Every operation inside the window refines its counterpart on the maps.
\<close>

type_synonym captchas = "string \<Rightarrow> (string \<times> string) option"
type_synonym attempts = "string \<Rightarrow> nat"

locale captcha_contract =
  fixes store :: "'s captcha_store"
    and good :: "string \<Rightarrow> bool"
    and window :: "nat \<Rightarrow> bool"
    and covers :: "nat \<Rightarrow> nat \<Rightarrow> bool"
    and rel :: "nat \<Rightarrow> 's \<Rightarrow> captchas \<Rightarrow> attempts \<Rightarrow> bool"
  assumes later: "rel t s H A \<Longrightarrow> t \<le> t' \<Longrightarrow> rel t' s H A"
    and peek: "rel t s H A \<Longrightarrow> window t \<Longrightarrow> good k \<Longrightarrow>
      \<exists>s'. peek_captcha store t k s = (Inr (H k), s') \<and> rel t s' H A"
    and consume: "rel t s H A \<Longrightarrow> window t \<Longrightarrow> good k \<Longrightarrow>
      \<exists>s' n. consume_captcha store t k s = (Inr (H k), s') \<and> rel t s' (H(k := None)) (A(k := n))"
    and incr: "rel t s H A \<Longrightarrow> window t \<Longrightarrow> good k \<Longrightarrow>
      \<exists>s'. incr_failed_attempts store t k s = (Inr (A k + 1), s') \<and> rel t s' H (A(k := A k + 1))"
    and reset: "rel t s H A \<Longrightarrow> window t \<Longrightarrow> good k \<Longrightarrow>
      \<exists>s'. reset_failed_attempts store t k s = (Inr (), s') \<and> rel t s' H (A(k := 0))"
    and delete: "rel t s H A \<Longrightarrow> window t \<Longrightarrow> good k \<Longrightarrow>
      \<exists>s'. delete_captcha store t k s = (Inr (), s') \<and> rel t s' (H(k := None)) (A(k := 0))"
    and set_nx: "rel t s H A \<Longrightarrow> window t \<Longrightarrow> good k \<Longrightarrow> covers t ttl \<Longrightarrow> CHR '':'' \<notin> set code \<Longrightarrow>
      \<exists>s'. set_captcha_nx store t k code openid ttl s = (Inr (H k = None), s') \<and>
        rel t s' (if H k = None then H(k \<mapsto> (code, openid)) else H) (if H k = None then A(k := 0) else A)"
begin

text \<open>One verification, from the maps.\<close>

lemma verify_step:
  assumes "rel t s H A" "window t" "good (captcha_key acc o1)"
  shows "\<exists>s' n. rel t s'
      (case H (captcha_key acc o1) of None \<Rightarrow> H
       | Some (expected, _) \<Rightarrow>
           if eq_ignore_case expected code \<or> max_failed_attempts cfg \<le> A (captcha_key acc o1) + 1
           then H(captcha_key acc o1 := None) else H)
      (A(captcha_key acc o1 := n))
    \<and> verify_for_openid store cfg t acc o1 code s =
      ((case H (captcha_key acc o1) of None \<Rightarrow> Inl CaptchaNotFound
        | Some (expected, _) \<Rightarrow>
            if eq_ignore_case expected code then Inr o1
            else if max_failed_attempts cfg \<le> A (captcha_key acc o1) + 1 then Inl WxTooManyAttempts
            else Inl CaptchaMismatch), s')
    \<and> (H (captcha_key acc o1) \<noteq> None \<and> max_failed_attempts cfg > A (captcha_key acc o1) + 1
       \<and> \<not> eq_ignore_case (fst (the (H (captcha_key acc o1)))) code \<longrightarrow> n = A (captcha_key acc o1) + 1)"
proof -
  let ?k = "captcha_key acc o1"
  obtain s1 where p: "peek_captcha store t ?k s = (Inr (H ?k), s1)" "rel t s1 H A"
    using peek[OF assms] by blast
  show ?thesis
  proof (cases "H ?k")
    case None
    then show ?thesis
      using p by (intro exI[of _ s1] exI[of _ "A ?k"]) (simp add: verify_for_openid_def Let_def bindS_def)
  next
    case (Some eo)
    obtain expected o2 where eo: "eo = (expected, o2)" by (cases eo)
    show ?thesis
    proof (cases "eq_ignore_case expected code")
      case True
      obtain s2 n where c: "consume_captcha store t ?k s1 = (Inr (H ?k), s2)" "rel t s2 (H(?k := None)) (A(?k := n))"
        using consume[OF p(2) assms(2,3)] by blast
      obtain s3 where r: "reset_failed_attempts store t ?k s2 = (Inr (), s3)" "rel t s3 (H(?k := None)) (A(?k := 0))"
        using reset[OF c(2) assms(2,3)] by auto
      show ?thesis
        using p c r Some eo True
        by (intro exI[of _ s3] exI[of _ 0]) (simp add: verify_for_openid_def right_captcha_def Let_def bindS_def)
    next
      case False
      obtain s2 where i: "incr_failed_attempts store t ?k s1 = (Inr (A ?k + 1), s2)" "rel t s2 H (A(?k := A ?k + 1))"
        using incr[OF p(2) assms(2,3)] by blast
      show ?thesis
      proof (cases "max_failed_attempts cfg \<le> A ?k + 1")
        case True
        obtain s3 where d: "delete_captcha store t ?k s2 = (Inr (), s3)" "rel t s3 (H(?k := None)) (A(?k := 0))"
          using delete[OF i(2) assms(2,3)] by auto
        show ?thesis
          using p i d Some eo False True
          by (intro exI[of _ s3] exI[of _ 0]) (simp add: verify_for_openid_def wrong_captcha_def Let_def bindS_def)
      next
        case f: False
        show ?thesis
          using p i Some eo False f
          by (intro exI[of _ s2] exI[of _ "A ?k + 1"]) (simp add: verify_for_openid_def wrong_captcha_def Let_def bindS_def)
      qed
    qed
  qed
qed

text \<open>Generation refines the conditional insert.\<close>

lemma generate_step:
  assumes "rel t s H A" "window t" "good (captcha_key acc o1)" "covers t (captcha_ttl_secs cfg)"
    and "CHR '':'' \<notin> set (generate_captcha_code cfg rng)"
  shows "\<exists>s'. generate_captcha store cfg rng t acc o1 s =
      ((if H (captcha_key acc o1) = None then Inr (generate_captcha_code cfg rng) else Inl CooldownActive), s')
    \<and> rel t s' (if H (captcha_key acc o1) = None
                then H(captcha_key acc o1 \<mapsto> (generate_captcha_code cfg rng, o1)) else H)
        (if H (captcha_key acc o1) = None then A(captcha_key acc o1 := 0) else A)"
  using set_nx[OF assms(1-5), of o1]
  by (auto simp: generate_captcha_def Let_def bindS_def)

text \<open>A run of guesses refines the abstract answers; the counter only has to be right while a captcha is pending.\<close>

lemma guesses_refine:
  assumes "good (captcha_key acc o1)" "\<And>g. g \<in> set gs \<Longrightarrow> window (fst g)" "sorted (map fst gs)"
    and "rel t s H A" "\<And>g. g \<in> set gs \<Longrightarrow> t \<le> fst g"
  shows "fst (guess_captchas store cfg acc o1 gs s) =
    captcha_answers (max_failed_attempts cfg) o1 (map_option fst (H (captcha_key acc o1))) (A (captcha_key acc o1)) (map snd gs)"
  using assms(2-)
proof (induction gs arbitrary: t s H A)
  case Nil
  then show ?case by simp
next
  case (Cons g gs)
  let ?k = "captcha_key acc o1" and ?m = "max_failed_attempts cfg"
  obtain tg code where g: "g = (tg, code)" by (cases g)
  have tg: "t \<le> tg" "window tg" and le: "\<And>g'. g' \<in> set gs \<Longrightarrow> tg \<le> fst g'" and srt: "sorted (map fst gs)"
    using Cons.prems(1,4)[of g] Cons.prems(2) by (auto simp: g)
  define H' where "H' = (case H ?k of None \<Rightarrow> H
       | Some (expected, _) \<Rightarrow> if eq_ignore_case expected code \<or> ?m \<le> A ?k + 1 then H(?k := None) else H)"
  obtain s' n where s': "rel tg s' H' (A(?k := n))"
    and x: "verify_for_openid store cfg tg acc o1 code s =
      ((case H ?k of None \<Rightarrow> Inl CaptchaNotFound
        | Some (expected, _) \<Rightarrow>
            if eq_ignore_case expected code then Inr o1
            else if ?m \<le> A ?k + 1 then Inl WxTooManyAttempts else Inl CaptchaMismatch), s')"
    and n: "H ?k \<noteq> None \<and> ?m > A ?k + 1 \<and> \<not> eq_ignore_case (fst (the (H ?k))) code \<longrightarrow> n = A ?k + 1"
    using verify_step[OF later[OF Cons.prems(3) tg(1)] tg(2) assms(1), where cfg = cfg and code = code]
    unfolding H'_def by blast
  have ih: "fst (guess_captchas store cfg acc o1 gs s') = captcha_answers ?m o1 (map_option fst (H' ?k)) n (map snd gs)"
    using Cons.IH[OF _ srt s' le] Cons.prems(1) by simp
  show ?case
    using ih x n by (cases "H ?k") (auto simp: g H'_def answers_spent split: prod.splits if_splits)
qed

end

end
