(* ===== verification/WechatStore.thy ===== *)
theory WechatStore
  imports Captcha
begin

text \<open>
  \<^verbatim>\<open>server/src/services/wechat.rs\<close>: the captcha store on Redis with its reverse index from codes to openids, and the
  binding of openids in the table of users. The Redis store meets \<^verbatim>\<open>captcha_contract\<close> over a reliable link as long as a
  captcha lives; so does the in-memory store of the crate.
\<close>

section \<open>The Redis store\<close>

record 'r redis_captcha =
  rc_client :: "'r redis_ops option"
  rc_account :: string

definition code_index_key :: "string \<Rightarrow> string \<Rightarrow> string" where
  "code_index_key account_id code = ''wechat:'' @ account_id @ '':code:'' @ code"

definition attempts_key :: "string \<Rightarrow> string" where "attempts_key key = key @ '':attempts''"

text \<open>The state: whether the connection manager is there, and the server.\<close>

definition captcha_conn :: "'r redis_captcha \<Rightarrow> bool \<times> 'r \<Rightarrow> 'r redis_ops option \<times> bool \<times> 'r" where
  "captcha_conn c w =
     (if fst w then (rc_client c, w)
      else case rc_client c of
        None \<Rightarrow> (None, w)
      | Some ops \<Rightarrow>
          (case exchange ops (\<lambda>r. (Some (), r)) (snd w) of
             (None, r') \<Rightarrow> (None, (False, r'))
           | (Some _, r') \<Rightarrow> (Some ops, (True, r'))))"

text \<open>A command of the store: what it answers without a connection, the error of a failed command, the command.\<close>

definition with_conn ::
    "'r redis_captcha \<Rightarrow> (wechat_error, 'a) res \<Rightarrow> string \<Rightarrow> ('r redis_ops \<Rightarrow> 'r \<Rightarrow> 'a option \<times> 'r)
     \<Rightarrow> (bool \<times> 'r, wechat_error, 'a) prog" where
  "with_conn c no_conn failed f w =
     (case captcha_conn c w of
        (None, w') \<Rightarrow> (no_conn, w')
      | (Some ops, w') \<Rightarrow>
          (case f ops (snd w') of
             (None, r') \<Rightarrow> (Inl (WxInternal failed), (fst w', r'))
           | (Some a, r') \<Rightarrow> (Inr a, (fst w', r'))))"

definition redis_missing :: wechat_error where "redis_missing = WxInternal ''Redis not available''"

definition set_ex :: "'r redis_captcha \<Rightarrow> nat \<Rightarrow> string \<Rightarrow> string \<Rightarrow> nat \<Rightarrow> (bool \<times> 'r, wechat_error, unit) prog" where
  "set_ex c t key v ttl_secs =
     with_conn c (Inl redis_missing) ''Redis SETEX failed'' (\<lambda>ops. cmd_setex ops t key ttl_secs v)"

definition set_nx_ex :: "'r redis_captcha \<Rightarrow> nat \<Rightarrow> string \<Rightarrow> string \<Rightarrow> nat \<Rightarrow> (bool \<times> 'r, wechat_error, bool) prog" where
  "set_nx_ex c t key v ttl_secs =
     with_conn c (Inl redis_missing) ''Redis SET NX+EX failed'' (\<lambda>ops. cmd_set_nx_ex ops t key v ttl_secs)"

definition get_opt :: "'r redis_captcha \<Rightarrow> nat \<Rightarrow> string \<Rightarrow> (bool \<times> 'r, wechat_error, string option) prog" where
  "get_opt c t key = with_conn c (Inr None) ''Redis GET failed'' (\<lambda>ops. cmd_get ops t key)"

definition del_key :: "'r redis_captcha \<Rightarrow> nat \<Rightarrow> string \<Rightarrow> (bool \<times> 'r, wechat_error, unit) prog" where
  "del_key c t key = with_conn c (Inr ()) ''Redis DEL failed'' (\<lambda>ops. cmd_del ops t [key])"

definition incr_key :: "'r redis_captcha \<Rightarrow> nat \<Rightarrow> string \<Rightarrow> (bool \<times> 'r, wechat_error, nat) prog" where
  "incr_key c t key =
     bindS (with_conn c (Inl redis_missing) ''Redis INCR failed'' (\<lambda>ops. exchange ops (\<lambda>r.
              case srv_incr ops t key r of None \<Rightarrow> (None, r) | Some (n, r') \<Rightarrow> (Some n, r')))) (\<lambda>val.
     bindS (with_conn c (Inl redis_missing) ''Redis EXPIRE failed'' (\<lambda>ops. exchange ops (\<lambda>r.
              (Some (), srv_expire ops t key 600 r)))) (\<lambda>_.
     retS val))"

text \<open>The text before the first occurrence of a pattern, and the two parts of \<^verbatim>\<open>code:openid\<close>.\<close>

fun before_first :: "string \<Rightarrow> string \<Rightarrow> string option" where
  "before_first p [] = (if p = [] then Some [] else None)"
| "before_first p (c # s) =
     (if starts_with (c # s) p then Some [] else map_option ((#) c) (before_first p s))"

definition split_pair :: "string \<Rightarrow> (string \<times> string) option" where
  "split_pair v =
     (if CHR '':'' \<in> set v then Some (takeWhile (\<lambda>c. c \<noteq> CHR '':'') v, tl (dropWhile (\<lambda>c. c \<noteq> CHR '':'') v)) else None)"

text \<open>The script that consumes a captcha: value, counter and reverse index go together.\<close>

definition consume_captcha_script :: "'r redis_ops \<Rightarrow> nat \<Rightarrow> string \<Rightarrow> 'r \<Rightarrow> string option option \<times> 'r" where
  "consume_captcha_script ops t key r =
     (case srv_get ops t key r of
        None \<Rightarrow> (Some None, r)
      | Some val \<Rightarrow>
          (let index = (case split_pair val of
                          None \<Rightarrow> []
                        | Some (code, _) \<Rightarrow>
                            (case before_first '':captcha:'' key of
                               None \<Rightarrow> []
                             | Some pre \<Rightarrow> [pre @ '':code:'' @ code])) in
           (Some (Some val), srv_del_all ops t ([key, attempts_key key] @ index) r)))"

definition redis_set_captcha ::
    "'r redis_captcha \<Rightarrow> nat \<Rightarrow> string \<Rightarrow> string \<Rightarrow> string \<Rightarrow> nat \<Rightarrow> (bool \<times> 'r, wechat_error, unit) prog" where
  "redis_set_captcha c t key code openid ttl =
     bindS (set_ex c t key (code @ '':'' @ openid) ttl) (\<lambda>_.
     bindS (set_ex c t (code_index_key (rc_account c) code) openid ttl) (\<lambda>_.
     del_key c t (attempts_key key)))"

text \<open>The reverse index is best effort: its failure is logged and dropped.\<close>

definition drop_error :: "('s, 'e, 'a) prog \<Rightarrow> ('s, 'f, unit) prog" where
  "drop_error m s = (Inr (), snd (m s))"

definition redis_set_captcha_nx ::
    "'r redis_captcha \<Rightarrow> nat \<Rightarrow> string \<Rightarrow> string \<Rightarrow> string \<Rightarrow> nat \<Rightarrow> (bool \<times> 'r, wechat_error, bool) prog" where
  "redis_set_captcha_nx c t key code openid ttl =
     bindS (set_nx_ex c t key (code @ '':'' @ openid) ttl) (\<lambda>fresh.
     if \<not> fresh then retS False
     else
       bindS (drop_error (set_ex c t (code_index_key (rc_account c) code) openid ttl)) (\<lambda>_.
       bindS (del_key c t (attempts_key key)) (\<lambda>_.
       retS True)))"

definition redis_consume_captcha ::
    "'r redis_captcha \<Rightarrow> nat \<Rightarrow> string \<Rightarrow> (bool \<times> 'r, wechat_error, (string \<times> string) option) prog" where
  "redis_consume_captcha c t key =
     bindS (with_conn c (Inr None) ''Redis atomic consume failed'' (\<lambda>ops. exchange ops (consume_captcha_script ops t key))) (\<lambda>val.
     retS (Option.bind val split_pair))"

definition redis_peek_captcha ::
    "'r redis_captcha \<Rightarrow> nat \<Rightarrow> string \<Rightarrow> (bool \<times> 'r, wechat_error, (string \<times> string) option) prog" where
  "redis_peek_captcha c t key = bindS (get_opt c t key) (\<lambda>val. retS (Option.bind val split_pair))"

definition redis_delete_captcha ::
    "'r redis_captcha \<Rightarrow> nat \<Rightarrow> string \<Rightarrow> (bool \<times> 'r, wechat_error, unit) prog" where
  "redis_delete_captcha c t key =
     bindS (redis_peek_captcha c t key) (\<lambda>stored.
     bindS (case stored of None \<Rightarrow> retS () | Some (code, _) \<Rightarrow> del_key c t (code_index_key (rc_account c) code)) (\<lambda>_.
     bindS (del_key c t key) (\<lambda>_.
     del_key c t (attempts_key key))))"

definition redis_captcha_store :: "'r redis_captcha \<Rightarrow> (bool \<times> 'r) captcha_store" where
  "redis_captcha_store c = \<lparr>
     set_captcha = redis_set_captcha c, set_captcha_nx = redis_set_captcha_nx c,
     consume_captcha = redis_consume_captcha c, peek_captcha = redis_peek_captcha c,
     incr_failed_attempts = (\<lambda>t key. incr_key c t (attempts_key key)),
     reset_failed_attempts = (\<lambda>t key. del_key c t (attempts_key key)),
     delete_captcha = redis_delete_captcha c \<rparr>"

section \<open>Bindings in the table\<close>

definition wx_update :: "'r env \<Rightarrow> string \<Rightarrow> int \<Rightarrow> string option \<Rightarrow> ('r app, wechat_error, unit) prog" where
  "wx_update env ctx uid openid s =
     (if db_err env ctx then (Inl (WxInternal ctx), s)
      else case update_user_row uid (\<lambda>u. u\<lparr>u_wx_openid := openid\<rparr>) s of
        DbOk (s', _) \<Rightarrow> (Inr (), s')
      | RecordNotUpdated \<Rightarrow> (Inr (), s)
      | _ \<Rightarrow> (Inl (WxInternal ctx), s))"

definition db_binding_store :: "'r env \<Rightarrow> ('r app, int) binding_store" where
  "db_binding_store env = \<lparr>
     find_user_by_openid = (\<lambda>openid.
       db_stmt env WxInternal ''DB query by wx_openid failed'' (read_db (\<lambda>s. map_option u_id (user_by_openid openid s)))),
     bind_openid = (\<lambda>uid openid. wx_update env ''Failed to bind wx_openid'' uid (Some openid)),
     unbind_openid = (\<lambda>uid. wx_update env ''Failed to unbind wx_openid'' uid None) \<rparr>"

section \<open>Keys\<close>

text \<open>The keys of one account: an openid and an account id have no colon, as WeChat's have none.\<close>

definition captcha_keys :: "string \<Rightarrow> string \<Rightarrow> bool" where
  "captcha_keys acc k \<longleftrightarrow> (\<exists>o1. CHR '':'' \<notin> set o1 \<and> k = captcha_key acc o1)"

definition plain_account :: "string \<Rightarrow> bool" where
  "plain_account acc \<longleftrightarrow> CHR '':'' \<notin> set acc \<and> acc \<noteq> ''captcha''"

lemma captcha_not_attempts: "captcha_keys acc k \<Longrightarrow> captcha_keys acc k' \<Longrightarrow> k \<noteq> attempts_key k'"
  by (auto simp: captcha_keys_def captcha_key_def attempts_key_def)

lemma attempts_inj [simp]: "attempts_key k = attempts_key k' \<longleftrightarrow> k = k'"
  by (simp add: attempts_key_def)

lemma captcha_not_index: "captcha_keys acc k \<Longrightarrow> k \<noteq> code_index_key acc code \<and> attempts_key k \<noteq> code_index_key acc code"
  by (auto simp: captcha_keys_def captcha_key_def attempts_key_def code_index_key_def)

lemma starts_with_append: "starts_with (p @ s) p"
  by (simp add: starts_with_iff_prefix)

lemma before_first_skip:
  "CHR '':'' \<notin> set a \<Longrightarrow> before_first (CHR '':'' # p) (a @ CHR '':'' # s) =
    (if starts_with s p then Some a else map_option ((@) a \<circ> (#) (CHR '':'')) (before_first (CHR '':'' # p) s))"
  by (induction a) (auto simp: option.map_comp comp_def)

lemma colon_prefix:
  assumes "CHR '':'' \<notin> set a" "CHR '':'' \<notin> set b" "starts_with (a @ CHR '':'' # s) (b @ [CHR '':''])"
  shows "a = b"
  using assms
proof (induction a arbitrary: b)
  case Nil
  then show ?case by (cases b) auto
next
  case (Cons c a)
  then show ?case by (cases b) auto
qed

lemma before_first_key:
  assumes "plain_account acc"
  shows "before_first '':captcha:'' (captcha_key acc o1) = Some (''wechat:'' @ acc)"
proof -
  have n: "\<not> starts_with (acc @ '':captcha:'' @ o1) ''captcha:''"
    using colon_prefix[of acc "''captcha''" "''captcha:'' @ o1"] assms by (auto simp: plain_account_def)
  have "before_first '':captcha:'' (acc @ CHR '':'' # ''captcha:'' @ o1) = Some acc"
    using before_first_skip[of acc "''captcha:''" "''captcha:'' @ o1"] assms starts_with_append[of "''captcha:''" o1]
    by (simp add: plain_account_def)
  then show ?thesis
    using before_first_skip[of "''wechat''" "''captcha:''" "acc @ '':captcha:'' @ o1"] n
    by (simp add: captcha_key_def)
qed

lemma split_pair_join: "CHR '':'' \<notin> set code \<Longrightarrow> split_pair (code @ CHR '':'' # openid) = Some (code, openid)"
  by (induction code) (auto simp: split_pair_def)

section \<open>Commands over a reliable link\<close>

lemma with_conn_reliable:
  assumes "redis_laws ops view" "reliable ops" "rc_client c = Some ops"
    and "\<And>r0. view r0 = view (snd w) \<Longrightarrow> \<exists>r'. f ops r0 = (Some a, r') \<and> P r'"
  shows "\<exists>w'. with_conn c no_conn failed f w = (Inr a, w') \<and> P (snd w')"
proof (cases "fst w")
  case True
  then show ?thesis using assms(3) assms(4)[of "snd w"] by (force simp: with_conn_def captcha_conn_def)
next
  case False
  obtain r0 where r0: "view r0 = view (snd w)" "exchange ops (\<lambda>r. (Some (), r)) (snd w) = (Some (), r0)"
    by (rule exchange_reliable[OF assms(1,2), of "snd w" "\<lambda>r. (Some (), r)"])
  then show ?thesis using False assms(3) assms(4)[of r0] by (force simp: with_conn_def captcha_conn_def)
qed

text \<open>What the observers see from a time on.\<close>

definition sees :: "'r redis_view \<Rightarrow> nat \<Rightarrow> 'r \<Rightarrow> (nat \<Rightarrow> string \<Rightarrow> string option) \<Rightarrow> bool" where
  "sees view t r f \<longleftrightarrow> (\<forall>t' k. t \<le> t' \<longrightarrow> view r t' k = f t' k)"

lemma get_opt_reliable:
  assumes "redis_laws ops view" "reliable ops" "rc_client c = Some ops"
  shows "\<exists>w'. get_opt c t k w = (Inr (view (snd w) t k), w') \<and> view (snd w') = view (snd w)"
  unfolding get_opt_def
proof (rule with_conn_reliable[OF assms])
  fix r0 assume r0: "view r0 = view (snd w)"
  obtain r1 where "view r1 = view r0" "cmd_get ops t k r0 = (Some (srv_get ops t k r1), r1)"
    by (rule exchange_reliable[OF assms(1,2), of r0 "\<lambda>r. (Some (srv_get ops t k r), r)"]) (simp add: cmd_get_def)
  then show "\<exists>r'. cmd_get ops t k r0 = (Some (view (snd w) t k), r') \<and> view r' = view (snd w)"
    using r0 by (auto simp: redis_get[OF assms(1)])
qed

lemma del_reliable:
  assumes "redis_laws ops view" "reliable ops" "rc_client c = Some ops"
  shows "\<exists>w'. del_key c t k w = (Inr (), w') \<and>
    sees view t (snd w') (\<lambda>t' k'. if k' = k then None else view (snd w) t' k')"
  unfolding del_key_def
proof (rule with_conn_reliable[OF assms])
  fix r0 assume r0: "view r0 = view (snd w)"
  obtain r1 where r1: "view r1 = view r0" "cmd_del ops t [k] r0 = (Some (), srv_del_all ops t [k] r1)"
    by (rule exchange_reliable[OF assms(1,2), of r0 "\<lambda>r. (Some (), srv_del_all ops t [k] r)"]) (simp add: cmd_del_def)
  then show "\<exists>r'. cmd_del ops t [k] r0 = (Some (), r') \<and>
      sees view t r' (\<lambda>t' k'. if k' = k then None else view (snd w) t' k')"
    using r0 redis_del_all_view[OF assms(1), of t _ "[k]" r1] by (simp add: sees_def)
qed

lemma set_ex_reliable:
  assumes "redis_laws ops view" "reliable ops" "rc_client c = Some ops" "0 < ttl"
  shows "\<exists>w'. set_ex c t k v ttl w = (Inr (), w') \<and>
    sees view t (snd w') (\<lambda>t' k'. if k' = k then if t' < t + ttl then Some v else None else view (snd w) t' k')"
  unfolding set_ex_def
proof (rule with_conn_reliable[OF assms(1-3)])
  fix r0 assume r0: "view r0 = view (snd w)"
  let ?f = "\<lambda>r. case srv_setex ops t k ttl v r of None \<Rightarrow> (None, r) | Some r' \<Rightarrow> (Some (), r')"
  obtain r1 where r1: "view r1 = view r0" "cmd_setex ops t k ttl v r0 = ?f r1"
    by (rule exchange_reliable[OF assms(1,2), of r0 ?f]) (simp add: cmd_setex_def)
  obtain r2 where r2: "srv_setex ops t k ttl v r1 = Some r2"
    using redis_setex_None[OF assms(1), of t k ttl v r1] assms(4) by (cases "srv_setex ops t k ttl v r1") auto
  then show "\<exists>r'. cmd_setex ops t k ttl v r0 = (Some (), r') \<and>
      sees view t r' (\<lambda>t' k'. if k' = k then if t' < t + ttl then Some v else None else view (snd w) t' k')"
    using r0 r1 redis_setex[OF assms(1) r2] by (simp add: sees_def)
qed

lemma set_nx_reliable:
  assumes "redis_laws ops view" "reliable ops" "rc_client c = Some ops" "0 < ttl"
  shows "\<exists>w'. set_nx_ex c t k v ttl w = (Inr (view (snd w) t k = None), w') \<and>
    sees view t (snd w') (\<lambda>t' k'. if view (snd w) t k = None \<and> k' = k
        then if t' < t + ttl then Some v else None else view (snd w) t' k')"
  unfolding set_nx_ex_def
proof (rule with_conn_reliable[OF assms(1-3)])
  fix r0 assume r0: "view r0 = view (snd w)"
  let ?f = "\<lambda>r. case srv_set_nx_ex ops t k v ttl r of None \<Rightarrow> (None, r) | Some (b, r') \<Rightarrow> (Some b, r')"
  obtain r1 where r1: "view r1 = view r0" "cmd_set_nx_ex ops t k v ttl r0 = ?f r1"
    by (rule exchange_reliable[OF assms(1,2), of r0 ?f]) (simp add: cmd_set_nx_ex_def)
  obtain b r2 where r2: "srv_set_nx_ex ops t k v ttl r1 = Some (b, r2)"
    using redis_set_nx_None[OF assms(1), of t k v ttl r1] assms(4) by (cases "srv_set_nx_ex ops t k v ttl r1") auto
  then show "\<exists>r'. cmd_set_nx_ex ops t k v ttl r0 = (Some (view (snd w) t k = None), r') \<and>
      sees view t r' (\<lambda>t' k'. if view (snd w) t k = None \<and> k' = k
        then if t' < t + ttl then Some v else None else view (snd w) t' k')"
    using r0 r1 r2 redis_set_nx[OF assms(1) r2] by (cases "view (snd w) t k = None") (auto simp: sees_def)
qed

lemma incr_reliable:
  assumes "redis_laws ops view" "reliable ops" "rc_client c = Some ops"
    and "view (snd w) t k = None \<and> n = 0 \<or> view (snd w) t k = Some (show_nat n)"
  shows "\<exists>w'. incr_key c t k w = (Inr (n + 1), w') \<and>
    sees view t (snd w') (\<lambda>t' k'. if k' = k then if t' < t + 600 then Some (show_nat (n + 1)) else None else view (snd w) t' k')"
proof -
  let ?i = "\<lambda>r. case srv_incr ops t k r of None \<Rightarrow> (None, r) | Some (n, r') \<Rightarrow> (Some n, r')"
  let ?P = "\<lambda>r'. view r' t k = Some (show_nat (n + 1)) \<and> (\<forall>t' k'. t \<le> t' \<longrightarrow> k' \<noteq> k \<longrightarrow> view r' t' k' = view (snd w) t' k')"
  have "\<exists>w'. with_conn c (Inl redis_missing) ''Redis INCR failed'' (\<lambda>ops. exchange ops (\<lambda>r.
              case srv_incr ops t k r of None \<Rightarrow> (None, r) | Some (n, r') \<Rightarrow> (Some n, r'))) w = (Inr (n + 1), w') \<and> ?P (snd w')"
  proof (rule with_conn_reliable[OF assms(1-3)])
    fix r0 assume r0: "view r0 = view (snd w)"
    obtain r1 where r1: "view r1 = view r0" "exchange ops ?i r0 = ?i r1"
      by (rule exchange_reliable[OF assms(1,2), of r0 ?i])
    have pre: "view r1 t k = None \<and> n = 0 \<or> view r1 t k = Some (show_nat n)" using assms(4) r0 r1(1) by simp
    obtain r2 where r2: "srv_incr ops t k r1 = Some (n + 1, r2)"
      and v: "\<And>t' k'. t \<le> t' \<Longrightarrow> view r2 t' k' = (if k' = k then if view r1 t k = None then Some (show_nat 1)
          else map_option (\<lambda>_. show_nat (n + 1)) (view r1 t' k) else view r1 t' k')"
      by (rule redis_incr[OF assms(1) pre]) blast
    show "\<exists>r'. exchange ops ?i r0 = (Some (n + 1), r') \<and> ?P r'"
      using r0 r1 r2 v pre by auto
  qed
  then obtain w1 where w1: "with_conn c (Inl redis_missing) ''Redis INCR failed'' (\<lambda>ops. exchange ops (\<lambda>r.
              case srv_incr ops t k r of None \<Rightarrow> (None, r) | Some (n, r') \<Rightarrow> (Some n, r'))) w = (Inr (n + 1), w1)" "?P (snd w1)"
    by blast
  let ?e = "\<lambda>r. (Some (), srv_expire ops t k 600 r)"
  have "\<exists>w'. with_conn c (Inl redis_missing) ''Redis EXPIRE failed'' (\<lambda>ops. exchange ops (\<lambda>r.
              (Some (), srv_expire ops t k 600 r))) w1 = (Inr (), w') \<and>
    sees view t (snd w') (\<lambda>t' k'. if k' = k then if t' < t + 600 then Some (show_nat (n + 1)) else None else view (snd w) t' k')"
  proof (rule with_conn_reliable[OF assms(1-3)])
    fix r0 assume r0: "view r0 = view (snd w1)"
    obtain r1 where r1: "view r1 = view r0" "exchange ops ?e r0 = ?e r1"
      by (rule exchange_reliable[OF assms(1,2), of r0 ?e])
    then show "\<exists>r'. exchange ops ?e r0 = (Some (), r') \<and>
        sees view t r' (\<lambda>t' k'. if k' = k then if t' < t + 600 then Some (show_nat (n + 1)) else None else view (snd w) t' k')"
      using r0 w1(2) redis_expire[OF assms(1), of t _ 600 k r1] by (simp add: sees_def)
  qed
  then show ?thesis using w1(1) by (auto simp: incr_key_def bindS_def)
qed

section \<open>The contract on Redis\<close>

text \<open>The window: at most ten minutes, in which every captcha that was stored lives on, and so do its counters.\<close>

definition redis_rel ::
    "'r redis_view \<Rightarrow> string \<Rightarrow> nat \<Rightarrow> nat \<Rightarrow> bool \<times> 'r \<Rightarrow> captchas \<Rightarrow> attempts \<Rightarrow> bool" where
  "redis_rel view acc T t w H A \<longleftrightarrow>
     (\<forall>t' k. t \<le> t' \<longrightarrow> t' < T \<longrightarrow> captcha_keys acc k \<longrightarrow>
        view (snd w) t' k = map_option (\<lambda>(code, openid). code @ '':'' @ openid) (H k)
        \<and> view (snd w) t' (attempts_key k) = (if A k = 0 then None else Some (show_nat (A k))))
     \<and> (\<forall>k code openid. captcha_keys acc k \<longrightarrow> H k = Some (code, openid) \<longrightarrow> CHR '':'' \<notin> set code)"

lemma redis_relD:
  assumes "redis_rel view acc T t w H A" "t \<le> t'" "t' < T" "captcha_keys acc k"
  shows "view (snd w) t' k = map_option (\<lambda>(code, openid). code @ '':'' @ openid) (H k)"
    and "view (snd w) t' (attempts_key k) = (if A k = 0 then None else Some (show_nat (A k)))"
  using assms unfolding redis_rel_def by simp_all

lemma redis_rel_code:
  "redis_rel view acc T t w H A \<Longrightarrow> captcha_keys acc k \<Longrightarrow> H k = Some (code, openid) \<Longrightarrow> CHR '':'' \<notin> set code"
  unfolding redis_rel_def by blast

lemma redis_relI:
  assumes "\<And>t' k. t \<le> t' \<Longrightarrow> t' < T \<Longrightarrow> captcha_keys acc k \<Longrightarrow>
      view (snd w) t' k = map_option (\<lambda>(code, openid). code @ '':'' @ openid) (H k)
      \<and> view (snd w) t' (attempts_key k) = (if A k = 0 then None else Some (show_nat (A k)))"
    and "\<And>k code openid. captcha_keys acc k \<Longrightarrow> H k = Some (code, openid) \<Longrightarrow> CHR '':'' \<notin> set code"
  shows "redis_rel view acc T t w H A"
  using assms unfolding redis_rel_def by blast

lemma redis_rel_same:
  "redis_rel view acc T t w H A \<Longrightarrow> view (snd w') = view (snd w) \<Longrightarrow> redis_rel view acc T t w' H A"
  unfolding redis_rel_def by simp

text \<open>A deletion of keys of the account: captchas and counters among them disappear from the maps.\<close>

lemma redis_rel_del:
  assumes "redis_rel view acc T t w H A"
    and "sees view t (snd w') (\<lambda>t' k'. if k' \<in> D then None else view (snd w) t' k')"
    and "\<And>k. captcha_keys acc k \<Longrightarrow> H' k = (if k \<in> D then None else H k)"
    and "\<And>k. captcha_keys acc k \<Longrightarrow> A' k = (if attempts_key k \<in> D then 0 else A k)"
  shows "redis_rel view acc T t w' H' A'"
proof (rule redis_relI)
  fix t' k assume t: "t \<le> t'" "t' < T" "captcha_keys acc k"
  show "view (snd w') t' k = map_option (\<lambda>(code, openid). code @ '':'' @ openid) (H' k)
      \<and> view (snd w') t' (attempts_key k) = (if A' k = 0 then None else Some (show_nat (A' k)))"
    using redis_relD[OF assms(1) t] assms(2,3,4) t unfolding sees_def by auto
next
  fix k code openid assume "captcha_keys acc k" "H' k = Some (code, openid)"
  then show "CHR '':'' \<notin> set code"
    using assms(3) redis_rel_code[OF assms(1)] by (auto split: if_splits)
qed

lemma redis_peek_reliable:
  assumes "redis_laws ops view" "reliable ops" "rc_client c = Some ops"
    and "redis_rel view acc T t w H A" "t < T" "captcha_keys acc k"
  shows "\<exists>w'. redis_peek_captcha c t k w = (Inr (H k), w') \<and> view (snd w') = view (snd w)"
proof -
  obtain w' where w': "get_opt c t k w = (Inr (view (snd w) t k), w')" "view (snd w') = view (snd w)"
    using get_opt_reliable[OF assms(1-3)] by blast
  have "Option.bind (view (snd w) t k) split_pair = H k"
    using redis_relD(1)[OF assms(4) order_refl assms(5,6)] redis_rel_code[OF assms(4,6)]
    by (cases "H k") (auto simp: split_pair_join)
  then show ?thesis using w' by (simp add: redis_peek_captcha_def bindS_def)
qed

lemma redis_consume_reliable:
  assumes "redis_laws ops view" "reliable ops" "rc_client c = Some ops" "plain_account acc"
    and "redis_rel view acc T t w H A" "t < T" "captcha_keys acc k"
  shows "\<exists>w' n. redis_consume_captcha c t k w = (Inr (H k), w') \<and> redis_rel view acc T t w' (H(k := None)) (A(k := n))"
proof -
  let ?val = "view (snd w) t k"
  have val: "?val = map_option (\<lambda>(code, openid). code @ '':'' @ openid) (H k)"
    by (rule redis_relD(1)[OF assms(5) order_refl assms(6,7)])
  have "\<exists>w'. with_conn c (Inr None) ''Redis atomic consume failed'' (\<lambda>ops. exchange ops (consume_captcha_script ops t k)) w
      = (Inr ?val, w') \<and> (\<exists>n. redis_rel view acc T t (fst w, snd w') (H(k := None)) (A(k := n)))"
  proof (rule with_conn_reliable[OF assms(1-3)])
    fix r0 assume r0: "view r0 = view (snd w)"
    obtain r1 where r1: "view r1 = view r0"
      "exchange ops (consume_captcha_script ops t k) r0 = consume_captcha_script ops t k r1"
      by (rule exchange_reliable[OF assms(1,2), of r0 "consume_captcha_script ops t k"])
    have v1: "view r1 = view (snd w)" using r0 r1 by simp
    show "\<exists>r'. exchange ops (consume_captcha_script ops t k) r0 = (Some ?val, r') \<and>
        (\<exists>n. redis_rel view acc T t (fst w, r') (H(k := None)) (A(k := n)))"
    proof (cases "H k")
      case None
      then have "H(k := None) = H" "A(k := A k) = A" by auto
      then have "redis_rel view acc T t (fst w, r1) (H(k := None)) (A(k := A k))"
        using redis_rel_same[OF assms(5), of "(fst w, r1)"] v1 by simp
      then have "\<exists>n. redis_rel view acc T t (fst w, r1) (H(k := None)) (A(k := n))" by (rule exI)
      moreover have "consume_captcha_script ops t k r1 = (Some ?val, r1)"
        using None val v1 by (simp add: consume_captcha_script_def redis_get[OF assms(1)])
      ultimately show ?thesis using r1(2) by auto
    next
      case (Some co)
      obtain code openid where co: "co = (code, openid)" by (cases co)
      have code: "CHR '':'' \<notin> set code" using redis_rel_code[OF assms(5,7)] Some co by simp
      obtain o1 where k: "k = captcha_key acc o1" using assms(7) by (auto simp: captcha_keys_def)
      let ?D = "[k, attempts_key k] @ [code_index_key acc code]"
      have "consume_captcha_script ops t k r1 = (Some ?val, srv_del_all ops t ?D r1)"
        using val v1 Some co split_pair_join[OF code] before_first_key[OF assms(4)]
        by (simp add: consume_captcha_script_def redis_get[OF assms(1)] Let_def k code_index_key_def)
      moreover have "redis_rel view acc T t (fst w, srv_del_all ops t ?D r1) (H(k := None)) (A(k := 0))"
      proof (rule redis_rel_del[OF assms(5), where D = "set ?D"])
        show "sees view t (snd (fst w, srv_del_all ops t ?D r1)) (\<lambda>t' k'. if k' \<in> set ?D then None else view (snd w) t' k')"
          using redis_del_all_view[OF assms(1), of t _ ?D r1] v1 by (simp add: sees_def)
      qed (use captcha_not_attempts[OF _ assms(7)] captcha_not_attempts[OF assms(7)] captcha_not_index in auto)
      ultimately show ?thesis using r1(2) by auto
    qed
  qed
  then obtain w' n where w': "with_conn c (Inr None) ''Redis atomic consume failed''
        (\<lambda>ops. exchange ops (consume_captcha_script ops t k)) w = (Inr ?val, w')"
    "redis_rel view acc T t (fst w, snd w') (H(k := None)) (A(k := n))" by blast
  have "Option.bind ?val split_pair = H k"
    unfolding val using redis_rel_code[OF assms(5,7)] by (cases "H k") (auto simp: split_pair_join)
  then have "redis_consume_captcha c t k w = (Inr (H k), w')"
    using w'(1) by (simp add: redis_consume_captcha_def bindS_def)
  then show ?thesis using redis_rel_same[OF w'(2), of w'] by auto
qed

lemma redis_contract:
  assumes "redis_laws ops view" "reliable ops" "rc_client c = Some ops" "plain_account (rc_account c)"
    and "T \<le> t0 + 600"
  shows "captcha_contract (redis_captcha_store c) (captcha_keys (rc_account c)) (\<lambda>t. t0 \<le> t \<and> t < T)
    (\<lambda>t ttl. T \<le> t + ttl) (redis_rel view (rc_account c) T)"
proof
  let ?acc = "rc_account c"
  note r = assms(1-3)
  fix t w H A and k :: string
  assume rel: "redis_rel view ?acc T t w H A"
  show "redis_rel view ?acc T t' w H A" if "t \<le> t'" for t'
    using rel that unfolding redis_rel_def by (meson le_trans)
  assume "t0 \<le> t \<and> t < T" and k: "captcha_keys ?acc k"
  then have t: "t < T" and t0: "t0 \<le> t" by simp_all
  note at = redis_relD[OF rel order_refl t k]
  note dist = captcha_not_attempts[OF _ k] captcha_not_attempts[OF k] captcha_not_index
  obtain wp where p: "redis_peek_captcha c t k w = (Inr (H k), wp)" "view (snd wp) = view (snd w)"
    using redis_peek_reliable[OF r rel t k] by blast
  show "\<exists>s'. peek_captcha (redis_captcha_store c) t k w = (Inr (H k), s') \<and> redis_rel view ?acc T t s' H A"
    using p redis_rel_same[OF rel, of wp] by (auto simp: redis_captcha_store_def)
  show "\<exists>s' n. consume_captcha (redis_captcha_store c) t k w = (Inr (H k), s') \<and>
      redis_rel view ?acc T t s' (H(k := None)) (A(k := n))"
    using redis_consume_reliable[OF r assms(4) rel t k] by (simp add: redis_captcha_store_def)
  show "\<exists>s'. reset_failed_attempts (redis_captcha_store c) t k w = (Inr (), s') \<and> redis_rel view ?acc T t s' H (A(k := 0))"
  proof -
    obtain w' where w': "del_key c t (attempts_key k) w = (Inr (), w')"
      "sees view t (snd w') (\<lambda>t' k'. if k' = attempts_key k then None else view (snd w) t' k')"
      using del_reliable[OF r] by blast
    have "redis_rel view ?acc T t w' H (A(k := 0))"
      by (rule redis_rel_del[OF rel, where D = "{attempts_key k}"]) (use w'(2) dist in auto)
    then show ?thesis using w'(1) by (auto simp: redis_captcha_store_def)
  qed
  show "\<exists>s'. incr_failed_attempts (redis_captcha_store c) t k w = (Inr (A k + 1), s') \<and>
      redis_rel view ?acc T t s' H (A(k := A k + 1))"
  proof -
    have pre: "view (snd w) t (attempts_key k) = None \<and> A k = 0 \<or> view (snd w) t (attempts_key k) = Some (show_nat (A k))"
      using at(2) by simp
    obtain w' where w': "incr_key c t (attempts_key k) w = (Inr (A k + 1), w')"
      "sees view t (snd w') (\<lambda>t' k'. if k' = attempts_key k then if t' < t + 600 then Some (show_nat (A k + 1)) else None
          else view (snd w) t' k')"
      using incr_reliable[OF r pre] by blast
    have "redis_rel view ?acc T t w' H (A(k := A k + 1))"
    proof (rule redis_relI)
      fix t' k' assume h: "t \<le> t'" "t' < T" "captcha_keys ?acc k'"
      have "t' < t + 600" using h(2) t0 assms(5) by linarith
      then show "view (snd w') t' k' = map_option (\<lambda>(code, openid). code @ '':'' @ openid) (H k')
          \<and> view (snd w') t' (attempts_key k') =
            (if (A(k := A k + 1)) k' = 0 then None else Some (show_nat ((A(k := A k + 1)) k')))"
        using redis_relD[OF rel h] w'(2) h(1) captcha_not_attempts[OF h(3) k] by (auto simp: sees_def)
    qed (rule redis_rel_code[OF rel])
    then show ?thesis using w'(1) by (auto simp: redis_captcha_store_def)
  qed
  show "\<exists>s'. delete_captcha (redis_captcha_store c) t k w = (Inr (), s') \<and>
      redis_rel view ?acc T t s' (H(k := None)) (A(k := 0))"
  proof -
    let ?idx = "case H k of None \<Rightarrow> {} | Some (code, _) \<Rightarrow> {code_index_key ?acc code}"
    obtain w1 where w1: "(case H k of None \<Rightarrow> retS () | Some (code, _) \<Rightarrow> del_key c t (code_index_key ?acc code)) wp = (Inr (), w1)"
      "sees view t (snd w1) (\<lambda>t' k'. if k' \<in> ?idx then None else view (snd w) t' k')"
    proof (cases "H k")
      case None
      then show ?thesis using that[of wp] p(2) by (simp add: sees_def)
    next
      case (Some co)
      obtain code openid where co: "co = (code, openid)" by (cases co)
      obtain w' where "del_key c t (code_index_key ?acc code) wp = (Inr (), w')"
        "sees view t (snd w') (\<lambda>t' k'. if k' = code_index_key ?acc code then None else view (snd wp) t' k')"
        using del_reliable[OF r] by blast
      then show ?thesis using that[of w'] Some co by (simp add: p(2) cong: if_cong)
    qed
    obtain w2 where w2: "del_key c t k w1 = (Inr (), w2)" "sees view t (snd w2) (\<lambda>t' k'. if k' = k then None else view (snd w1) t' k')"
      using del_reliable[OF r] by blast
    obtain w3 where w3: "del_key c t (attempts_key k) w2 = (Inr (), w3)"
      "sees view t (snd w3) (\<lambda>t' k'. if k' = attempts_key k then None else view (snd w2) t' k')"
      using del_reliable[OF r] by blast
    have "redis_rel view ?acc T t w3 (H(k := None)) (A(k := 0))"
    proof (rule redis_rel_del[OF rel, where D = "insert k (insert (attempts_key k) ?idx)"])
      show "sees view t (snd w3) (\<lambda>t' k'. if k' \<in> insert k (insert (attempts_key k) ?idx) then None else view (snd w) t' k')"
        using w1(2) w2(2) w3(2) by (simp add: sees_def)
    qed (use dist in \<open>auto split: option.splits\<close>)
    moreover have "redis_delete_captcha c t k w = (Inr (), w3)"
      using p(1) w1(1) w2(1) w3(1) by (simp add: redis_delete_captcha_def bindS_def)
    ultimately show ?thesis by (auto simp: redis_captcha_store_def)
  qed
  fix ttl and code openid :: string
  assume cov: "T \<le> t + ttl" and code: "CHR '':'' \<notin> set code"
  have ttl: "0 < ttl" using cov t by simp
  show "\<exists>s'. set_captcha_nx (redis_captcha_store c) t k code openid ttl w = (Inr (H k = None), s') \<and>
      redis_rel view ?acc T t s' (if H k = None then H(k \<mapsto> (code, openid)) else H) (if H k = None then A(k := 0) else A)"
  proof -
    let ?v = "code @ '':'' @ openid" and ?i = "code_index_key ?acc code"
    obtain w1 where w1: "set_nx_ex c t k ?v ttl w = (Inr (view (snd w) t k = None), w1)"
      "sees view t (snd w1) (\<lambda>t' k'. if view (snd w) t k = None \<and> k' = k
          then if t' < t + ttl then Some ?v else None else view (snd w) t' k')"
      using set_nx_reliable[OF r ttl] by blast
    have free: "view (snd w) t k = None \<longleftrightarrow> H k = None" using at(1) by simp
    show ?thesis
    proof (cases "H k = None")
      case False
      have "redis_rel view ?acc T t w1 H A"
        by (rule redis_rel_del[OF rel, where D = "{}"]) (use w1(2) False free in \<open>auto simp: sees_def\<close>)
      then show ?thesis
        using w1(1) False free by (auto simp: redis_captcha_store_def redis_set_captcha_nx_def bindS_def)
    next
      case True
      obtain w2 where w2: "set_ex c t ?i openid ttl w1 = (Inr (), w2)"
        "sees view t (snd w2) (\<lambda>t' k'. if k' = ?i then if t' < t + ttl then Some openid else None else view (snd w1) t' k')"
        using set_ex_reliable[OF r ttl] by blast
      obtain w3 where w3: "del_key c t (attempts_key k) w2 = (Inr (), w3)"
        "sees view t (snd w3) (\<lambda>t' k'. if k' = attempts_key k then None else view (snd w2) t' k')"
        using del_reliable[OF r] by blast
      have "redis_rel view ?acc T t w3 (H(k \<mapsto> (code, openid))) (A(k := 0))"
      proof (rule redis_relI)
        fix t' k' assume h: "t \<le> t'" "t' < T" "captcha_keys ?acc k'"
        have "t' < t + ttl" using h(2) cov by simp
        then show "view (snd w3) t' k' = map_option (\<lambda>(code, openid). code @ '':'' @ openid) ((H(k \<mapsto> (code, openid))) k')
            \<and> view (snd w3) t' (attempts_key k') =
              (if (A(k := 0)) k' = 0 then None else Some (show_nat ((A(k := 0)) k')))"
          using redis_relD[OF rel h] w1(2) w2(2) w3(2) h(1) captcha_not_attempts[OF h(3) k] captcha_not_attempts[OF k h(3)]
            captcha_not_index[OF h(3)] free True by (auto simp: sees_def)
      next
        fix k' code' openid' assume "captcha_keys ?acc k'" "(H(k \<mapsto> (code, openid))) k' = Some (code', openid')"
        then show "CHR '':'' \<notin> set code'"
          using code redis_rel_code[OF rel] by (auto split: if_splits)
      qed
      then show ?thesis
        using w1(1) w2(1) w3(1) True free
        by (auto simp: redis_captcha_store_def redis_set_captcha_nx_def bindS_def drop_error_def)
    qed
  qed
qed

end
