(* ===== verification/CaptchaProps.thy ===== *)
theory CaptchaProps
  imports WechatStore
begin

text \<open>
  The two captcha stores meet the contract of \<^verbatim>\<open>Captcha\<close>: the Redis store of \<^verbatim>\<open>services/wechat.rs\<close> while the window
  lies inside the lifetime of a captcha and of its counter, and the in-memory store of the crate. The properties of
  the captcha login follow from the lemmas of the contract.
\<close>

section \<open>The in-memory store\<close>

definition memory_rel :: "nat \<Rightarrow> nat \<Rightarrow> memory_captchas \<Rightarrow> captchas \<Rightarrow> attempts \<Rightarrow> bool" where
  "memory_rel T t s H A \<longleftrightarrow>
     (\<forall>k. H k = map_option (\<lambda>(code, openid, _). (code, openid)) (mc_captchas s k)
        \<and> A k = (case mc_attempts s k of None \<Rightarrow> 0 | Some n \<Rightarrow> n)
        \<and> (\<forall>code openid exp. mc_captchas s k = Some (code, openid, exp) \<longrightarrow> T \<le> exp))"

lemma memory_relD:
  "memory_rel T t s H A \<Longrightarrow> H k = map_option (\<lambda>(code, openid, _). (code, openid)) (mc_captchas s k)"
  "memory_rel T t s H A \<Longrightarrow> A k = (case mc_attempts s k of None \<Rightarrow> 0 | Some n \<Rightarrow> n)"
  "memory_rel T t s H A \<Longrightarrow> mc_captchas s k = Some (code, openid, exp) \<Longrightarrow> T \<le> exp"
  by (auto simp: memory_rel_def)

interpretation memory: captcha_contract memory_store "\<lambda>_. True" "\<lambda>t. t \<le> T" "\<lambda>t ttl. T \<le> t + ttl" "memory_rel T"
  for T
proof
  fix t :: nat and s H A and k :: string
  assume rel: "memory_rel T t s H A"
  show "memory_rel T t' s H A" if "t \<le> t'" for t' using rel by (simp add: memory_rel_def)
  assume t: "t \<le> T"
  note kd = memory_relD[OF rel, of k]
  have live: "\<not> t > exp" if "mc_captchas s k = Some (code, openid, exp)" for code openid exp
    using kd(3)[OF that] t by simp
  show "\<exists>s'. peek_captcha memory_store t k s = (Inr (H k), s') \<and> memory_rel T t s' H A"
    using kd(1) rel live
    by (cases "mc_captchas s k") (auto simp: memory_store_def mem_live_def)
  show "\<exists>s' n. consume_captcha memory_store t k s = (Inr (H k), s') \<and> memory_rel T t s' (H(k := None)) (A(k := n))"
  proof (cases "mc_captchas s k")
    case None
    then have "H(k := None) = H" "A(k := A k) = A" using kd(1) by auto
    then show ?thesis using None rel kd(1) by (intro exI[of _ s] exI[of _ "A k"]) (simp add: memory_store_def)
  next
    case (Some e)
    then show ?thesis
      using rel kd(1) live
      by (intro exI[of _ "s\<lparr>mc_captchas := (mc_captchas s)(k := None)\<rparr>"] exI[of _ "A k"])
        (auto simp: memory_store_def memory_rel_def split: prod.splits)
  qed
  show "\<exists>s'. incr_failed_attempts memory_store t k s = (Inr (A k + 1), s') \<and> memory_rel T t s' H (A(k := A k + 1))"
    using rel by (auto simp: memory_store_def memory_rel_def Let_def)
  show "\<exists>s'. reset_failed_attempts memory_store t k s = (Inr (), s') \<and> memory_rel T t s' H (A(k := 0))"
    using rel by (auto simp: memory_store_def memory_rel_def)
  show "\<exists>s'. delete_captcha memory_store t k s = (Inr (), s') \<and> memory_rel T t s' (H(k := None)) (A(k := 0))"
    using rel by (auto simp: memory_store_def memory_rel_def)
  show "\<exists>s'. set_captcha_nx memory_store t k code openid ttl s = (Inr (H k = None), s') \<and>
      memory_rel T t s' (if H k = None then H(k \<mapsto> (code, openid)) else H) (if H k = None then A(k := 0) else A)"
    if "T \<le> t + ttl" for ttl code openid
    using rel that kd(1) by (cases "mc_captchas s k") (auto simp: memory_store_def memory_rel_def)
qed

section \<open>The Redis store\<close>

definition kv_captchas :: "string \<Rightarrow> kv redis_captcha" where
  "kv_captchas acc = \<lparr>rc_client = Some kv_ops, rc_account = acc\<rparr>"

interpretation redis_kv: captcha_contract "redis_captcha_store (kv_captchas ''acct'')" "captcha_keys ''acct''"
  "\<lambda>t. t0 \<le> t \<and> t < t0 + 600" "\<lambda>t ttl. t0 + 600 \<le> t + ttl" "redis_rel kv_view ''acct'' (t0 + 600)" for t0
  using redis_contract[OF kv_laws kv_reliable, of "kv_captchas ''acct''" "t0 + 600" t0]
  by (simp add: kv_captchas_def plain_account_def)

section \<open>Guessing a captcha\<close>

lemma code_no_colon:
  assumes "\<forall>i < captcha_len cfg. rng i < length CHARSET"
  shows "CHR '':'' \<notin> set (generate_captcha_code cfg rng)"
proof -
  have "CHR '':'' \<notin> set CHARSET" by (simp add: CHARSET_def)
  then show ?thesis using assms by (auto simp: generate_captcha_code_def dest: nth_mem)
qed

lemma redis_rel_empty:
  assumes "\<And>t' k. t \<le> t' \<Longrightarrow> captcha_keys acc k \<Longrightarrow> view (snd w) t' k = None \<and> view (snd w) t' (attempts_key k) = None"
  shows "redis_rel view acc T t w (\<lambda>_. None) (\<lambda>_. 0)"
  using assms by (simp add: redis_rel_def)

text \<open>C21: The Redis captcha store implements the two abstract maps. Over a reliable link, any sequence of guesses against
  one openid before a time \<^verbatim>\<open>T\<close> until which the captcha lives, and within the ten minutes its counter lives, gets exactly the answers of the abstract captcha: the right code (in any
  case of letters) wins once, a wrong one counts, the last allowed one burns the captcha, and a burnt one is not found.\<close>

theorem redis_captcha_refines:
  assumes "redis_laws ops view" "reliable ops" "rc_client c = Some ops" "plain_account (rc_account c)"
    and "CHR '':'' \<notin> set openid" "T \<le> t0 + 600" "redis_rel view (rc_account c) T t w H A"
    and "sorted (map fst gs)" "\<forall>g \<in> set gs. t \<le> fst g \<and> t0 \<le> fst g \<and> fst g < T"
  shows "fst (guess_captchas (redis_captcha_store c) cfg (rc_account c) openid gs w) =
    captcha_answers (max_failed_attempts cfg) openid (map_option fst (H (captcha_key (rc_account c) openid)))
      (A (captcha_key (rc_account c) openid)) (map snd gs)"
  using captcha_contract.guesses_refine[OF redis_contract[OF assms(1-4,6)], where ?o1.0 = openid and gs = gs
      and t = t and cfg = cfg, OF _ _ assms(8,7)] assms(5,9)
  by (auto simp: captcha_keys_def)

text \<open>C22: A captcha can be guessed at only as often as configured. After a successful generation, over a reliable link and
  while it lives, at most \<^verbatim>\<open>max_failed_attempts\<close> guesses are looked at (one when that is zero), at most one of them succeeds, and one succeeds
  exactly when the generated code is among them; all the others are told that there is no captcha.\<close>

theorem captcha_guess_bound:
  assumes "redis_laws ops view" "reliable ops" "rc_client c = Some ops" "plain_account (rc_account c)"
    and "CHR '':'' \<notin> set openid" "redis_rel view (rc_account c) (t0 + min 600 (captcha_ttl_secs cfg)) t0 w H A"
    and "H (captcha_key (rc_account c) openid) = None" "0 < captcha_ttl_secs cfg"
    and "\<forall>i < captcha_len cfg. rng i < length CHARSET"
    and "sorted (map fst gs)" "\<forall>g \<in> set gs. t0 \<le> fst g \<and> fst g < t0 + min 600 (captcha_ttl_secs cfg)"
  shows "case generate_captcha (redis_captcha_store c) cfg rng t0 (rc_account c) openid w of (x, w') \<Rightarrow>
      x = Inr (generate_captcha_code cfg rng)
    \<and> (let answers = fst (guess_captchas (redis_captcha_store c) cfg (rc_account c) openid gs w') in
        length (filter (\<lambda>y. y \<noteq> Inl CaptchaNotFound) answers) \<le> max 1 (max_failed_attempts cfg)
      \<and> length (filter (\<lambda>y. \<not> isl y) answers) \<le> 1
      \<and> (Inr openid \<in> set answers \<longleftrightarrow>
          (\<exists>code \<in> set (take (max 1 (max_failed_attempts cfg)) (map snd gs)). eq_ignore_case (generate_captcha_code cfg rng) code)))"
proof -
  let ?T = "t0 + min 600 (captcha_ttl_secs cfg)" and ?k = "captcha_key (rc_account c) openid"
  note con = redis_contract[OF assms(1-4), of ?T t0, OF add_left_mono[OF min.cobounded1]]
  have k: "captcha_keys (rc_account c) ?k" using assms(5) by (auto simp: captcha_keys_def)
  let ?code = "generate_captcha_code cfg rng"
  have T: "t0 \<le> t0" "t0 < ?T" "?T \<le> t0 + captcha_ttl_secs cfg" using assms(8) by simp_all
  obtain w' where g: "generate_captcha (redis_captcha_store c) cfg rng t0 (rc_account c) openid w = (Inr ?code, w')"
    and r: "redis_rel view (rc_account c) ?T t0 w' (H(?k \<mapsto> (?code, openid))) (A(?k := 0))"
    using captcha_contract.generate_step[OF con assms(6) _ k T(3) code_no_colon[OF assms(9)]] T(1,2)
    unfolding assms(7) if_True simp_thms by blast
  note ref = captcha_contract.guesses_refine[OF con k, where gs = gs and cfg = cfg and t = t0, OF _ assms(10) r]
  have "fst (guess_captchas (redis_captcha_store c) cfg (rc_account c) openid gs w') =
      captcha_answers (max_failed_attempts cfg) openid (map_option fst ((H(?k \<mapsto> (?code, openid))) ?k)) ((A(?k := 0)) ?k) (map snd gs)"
  proof (rule ref)
    fix g assume "g \<in> set gs"
    then show "t0 \<le> fst g \<and> fst g < ?T" using assms(11) by blast
  next
    fix g assume "g \<in> set gs"
    then show "t0 \<le> fst g" using assms(11) by blast
  qed
  then have eq: "fst (guess_captchas (redis_captcha_store c) cfg (rc_account c) openid gs w') =
      captcha_answers (max_failed_attempts cfg) openid (Some ?code) 0 (map snd gs)" by simp
  have "length (filter (\<lambda>y. y \<noteq> Inl CaptchaNotFound) (captcha_answers m openid (Some e) 0 cs)) \<le> max 1 m"
    "length (filter (\<lambda>y. \<not> isl y) (captcha_answers m openid (Some e) 0 cs)) \<le> 1"
    "Inr openid \<in> set (captcha_answers m openid (Some e) 0 cs) \<longleftrightarrow> (\<exists>code \<in> set (take (max 1 m) cs). eq_ignore_case e code)"
    for m e cs
    using answers_examined[of m openid "Some e" 0 cs] answers_won[of m openid "Some e" 0 cs]
      answers_right[of openid m openid e 0 cs] by simp_all
  then show ?thesis
    unfolding g Let_def prod.case eq by (intro conjI refl)
qed

section \<open>Witnesses\<close>

definition sample_login_config :: login_config where
  "sample_login_config = \<lparr>captcha_ttl_secs = 300, resend_cooldown_secs = 60, max_failed_attempts = 2, captcha_len = 2,
     trigger_keywords = [''login'']\<rparr>"

lemma empty_captchas: "redis_rel kv_view acc T t (False, \<lambda>_. None) (\<lambda>_. None) (\<lambda>_. 0)"
  by (rule redis_rel_empty) (simp add: kv_view_def)

lemma kv_captchas_sel: "rc_client (kv_captchas acc) = Some kv_ops" "rc_account (kv_captchas acc) = acc"
  by (simp_all add: kv_captchas_def)

lemma sample_login_config_sel:
  "captcha_ttl_secs sample_login_config = 300" "max_failed_attempts sample_login_config = 2" "captcha_len sample_login_config = 2"
  "length CHARSET = 31" "generate_captcha_code sample_login_config (\<lambda>i. i) = ''AB''"
  by (simp_all add: sample_login_config_def CHARSET_def) code_simp

text \<open>A captcha that was generated and is still alive, in the concrete store.\<close>

lemma kv_generated:
  obtains w where "generate_captcha (redis_captcha_store (kv_captchas ''acct'')) sample_login_config (\<lambda>i. i) 0 ''acct'' ''o'' (False, \<lambda>_. None)
      = (Inr ''AB'', w)"
    "redis_rel kv_view ''acct'' 300 0 w ((\<lambda>_. None)(captcha_key ''acct'' ''o'' \<mapsto> (''AB'', ''o''))) ((\<lambda>_. 0)(captcha_key ''acct'' ''o'' := 0))"
proof -
  have con: "captcha_contract (redis_captcha_store (kv_captchas ''acct'')) (captcha_keys ''acct'') (\<lambda>t. 0 \<le> t \<and> t < 300)
      (\<lambda>t ttl. 300 \<le> t + ttl) (redis_rel kv_view ''acct'' 300)"
    using redis_contract[OF kv_laws kv_reliable, of "kv_captchas ''acct''" 300 0] by (simp add: kv_captchas_sel plain_account_def)
  have "CHR '':'' \<notin> set (generate_captcha_code sample_login_config (\<lambda>i. i))" by (simp add: sample_login_config_sel)
  moreover have "captcha_keys ''acct'' (captcha_key ''acct'' ''o'')" by (auto simp: captcha_keys_def intro!: exI[of _ "''o''"])
  ultimately obtain w' where
    g: "generate_captcha (redis_captcha_store (kv_captchas ''acct'')) sample_login_config (\<lambda>i. i) 0 ''acct'' ''o'' (False, \<lambda>_. None) = (Inr ''AB'', w')"
    and r: "redis_rel kv_view ''acct'' 300 0 w' ((\<lambda>_. None)(captcha_key ''acct'' ''o'' \<mapsto> (''AB'', ''o''))) ((\<lambda>_. 0)(captcha_key ''acct'' ''o'' := 0))"
    using captcha_contract.generate_step[OF con empty_captchas, of 0 "''acct''" "''o''" sample_login_config "\<lambda>i. i"]
    unfolding sample_login_config_sel if_True simp_thms by (metis (no_types, lifting) le_numeral_extra(3) add_0 order_refl zero_less_numeral)
  show thesis by (rule that[OF g r])
qed

lemma redis_captcha_refines_witness:
  "\<exists>w. generate_captcha (redis_captcha_store (kv_captchas ''acct'')) sample_login_config (\<lambda>i. i) 0 ''acct'' ''o'' (False, \<lambda>_. None) = (Inr ''AB'', w)
    \<and> fst (guess_captchas (redis_captcha_store (kv_captchas ''acct'')) sample_login_config ''acct'' ''o'' [(1, ''AC''), (2, ''ab''), (3, ''AB'')] w)
        = [Inl CaptchaMismatch, Inr ''o'', Inl CaptchaNotFound]
    \<and> fst (guess_captchas (redis_captcha_store (kv_captchas ''acct'')) sample_login_config ''acct'' ''o'' [(1, ''AC''), (2, ''AD''), (3, ''AB'')] w)
        = [Inl CaptchaMismatch, Inl WxTooManyAttempts, Inl CaptchaNotFound]"
proof -
  obtain w where g: "generate_captcha (redis_captcha_store (kv_captchas ''acct'')) sample_login_config (\<lambda>i. i) 0 ''acct'' ''o'' (False, \<lambda>_. None)
      = (Inr ''AB'', w)"
    and r: "redis_rel kv_view ''acct'' 300 0 w ((\<lambda>_. None)(captcha_key ''acct'' ''o'' \<mapsto> (''AB'', ''o''))) ((\<lambda>_. 0)(captcha_key ''acct'' ''o'' := 0))"
    by (rule kv_generated)
  have run: "fst (guess_captchas (redis_captcha_store (kv_captchas ''acct'')) sample_login_config ''acct'' ''o'' gs w)
      = captcha_answers 2 ''o'' (Some ''AB'') 0 (map snd gs)" if "sorted (map fst gs)" "\<forall>g \<in> set gs. fst g < 300" for gs
  proof -
    let ?c = "kv_captchas ''acct''" and ?k = "captcha_key ''acct'' ''o''"
    have p: "plain_account (rc_account ?c)" "CHR '':'' \<notin> set ''o''" "(300 :: nat) \<le> 0 + 600"
      by (simp_all add: kv_captchas_sel plain_account_def)
    have g: "\<forall>g \<in> set gs. 0 \<le> fst g \<and> 0 \<le> fst g \<and> fst g < 300" using that(2) by simp
    have r': "redis_rel kv_view (rc_account ?c) 300 0 w ((\<lambda>_. None)(?k \<mapsto> (''AB'', ''o''))) ((\<lambda>_. 0)(?k := 0))"
      unfolding kv_captchas_sel by (rule r)
    show ?thesis
      using redis_captcha_refines[OF kv_laws kv_reliable kv_captchas_sel(1) p r' that(1) g, of sample_login_config]
      by (simp only: kv_captchas_sel sample_login_config_sel fun_upd_same option.map fst_conv)
  qed
  have "captcha_answers 2 ''o'' (Some ''AB'') 0 [''AC'', ''ab'', ''AB''] = [Inl CaptchaMismatch, Inr ''o'', Inl CaptchaNotFound]"
    "captcha_answers 2 ''o'' (Some ''AB'') 0 [''AC'', ''AD'', ''AB''] = [Inl CaptchaMismatch, Inl WxTooManyAttempts, Inl CaptchaNotFound]"
    by code_simp+
  then show ?thesis using g run[of "[(1, ''AC''), (2, ''ab''), (3, ''AB'')]"] run[of "[(1, ''AC''), (2, ''AD''), (3, ''AB'')]"] by simp
qed

lemma captcha_guess_bound_witness:
  "case generate_captcha (redis_captcha_store (kv_captchas ''acct'')) sample_login_config (\<lambda>i. i) 0 ''acct'' ''o'' (False, \<lambda>_. None) of
     (x, w') \<Rightarrow> x = Inr ''AB'' \<and>
       (let answers = fst (guess_captchas (redis_captcha_store (kv_captchas ''acct'')) sample_login_config ''acct'' ''o''
          [(1, ''AC''), (2, ''ab''), (3, ''AB'')] w') in
        length (filter (\<lambda>y. y \<noteq> Inl CaptchaNotFound) answers) \<le> 2 \<and> Inr ''o'' \<in> set answers)"
proof -
  have code: "generate_captcha_code sample_login_config (\<lambda>i. i) = ''AB''" by code_simp
  have eq: "eq_ignore_case ''AB'' ''ab''" by code_simp
  have cfg: "captcha_ttl_secs sample_login_config = 300" "max_failed_attempts sample_login_config = 2"
    "captcha_len sample_login_config = 2" "length CHARSET = 31"
    by (simp_all add: sample_login_config_def CHARSET_def)
  show ?thesis
    using captcha_guess_bound[OF kv_laws kv_reliable kv_captchas_sel(1) _ _ empty_captchas, where openid = "''o''"
        and cfg = sample_login_config and rng = "\<lambda>i. i" and gs = "[(1, ''AC''), (2, ''ab''), (3, ''AB'')]"] eq
    by (simp add: kv_captchas_sel plain_account_def cfg code Let_def case_prod_beta numeral_2_eq_2 del: guess_captchas.simps)
qed

end
