(* ===== verification/Adapters.thy ===== *)
theory Adapters
  imports Middleware
begin

text \<open>
  \<^verbatim>\<open>crates/webshelf-salvo\<close> beside \<^verbatim>\<open>crates/webshelf-axum\<close>: the server builds on either web framework, and each adapter has
  its own middleware, body buffering, CORS policy and rendering of responses. Both are modelled as their code has
  them; the lemmas show where they agree.
\<close>

section \<open>Salvo: authentication\<close>

definition BEARER_PREFIX :: string where "BEARER_PREFIX = ''bearer ''"

definition salvo_bearer_token :: "http_request \<Rightarrow> string option" where
  "salvo_bearer_token req =
     Option.bind (rq_authorization req) (\<lambda>auth_value.
       if length auth_value \<le> length BEARER_PREFIX then None
       else if to_lower (take (length BEARER_PREFIX) auth_value) \<noteq> to_lower BEARER_PREFIX then None
       else Some (drop (length BEARER_PREFIX) auth_value))"

definition salvo_jwt_cookie :: "parsers \<Rightarrow> http_request \<Rightarrow> string option" where
  "salvo_jwt_cookie ps req =
     Option.bind (rq_cookie req) (\<lambda>cookie_str.
       map_option snd (find (\<lambda>c. fst c = ''webshelf_jwt'')
         (List.map_filter (parse_cookie ps) (map trim (split_on (CHR '';'') cookie_str)))))"

definition or_else :: "'a option \<Rightarrow> 'a option \<Rightarrow> 'a option" where
  "or_else x y = (case x of Some a \<Rightarrow> Some a | None \<Rightarrow> y)"

text \<open>The handler writes a response, or lets the next one run with the user it injected.\<close>

definition salvo_error :: "nat \<Rightarrow> string \<Rightarrow> string \<Rightarrow> http_error" where
  "salvo_error code kind msg = \<lparr>status = code, error_type = kind, message = msg\<rparr>"

definition salvo_auth ::
    "parsers \<Rightarrow> crypto \<Rightarrow> string \<Rightarrow> 'r env option \<Rightarrow> http_request \<Rightarrow> ('r app, http_error, auth_user option) prog" where
  "salvo_auth ps k secret state req s =
     (if rq_path req = ''/health'' \<or> rq_path req = ''/api/health'' then (Inr None, s)
      else case state of
        None \<Rightarrow> (Inl (salvo_error 500 ''internal_error'' ''An unexpected error occurred''), s)
      | Some env \<Rightarrow>
          (case or_else (salvo_bearer_token req) (salvo_jwt_cookie ps req) of
             None \<Rightarrow> (Inl (salvo_error 401 ''unauthorized'' ''Missing or invalid Authorization header''), s)
           | Some token \<Rightarrow>
               (case validate_jwt k env token secret of
                  None \<Rightarrow> (Inl (salvo_error 401 ''unauthorized'' ''Invalid or expired token''), s)
                | Some claims \<Rightarrow>
                    (case parse_i64 (sub claims) of
                       None \<Rightarrow> (Inl (salvo_error 401 ''unauthorized'' ''Invalid or expired token''), s)
                     | Some user_id \<Rightarrow>
                         (case verify_token_version env user_id (jwt_version claims) s of
                            (Inr _, s') \<Rightarrow> (Inr (Some (auth_user_of claims)), s')
                          | (Inl _, s') \<Rightarrow> (Inl (salvo_error 401 ''unauthorized'' ''Invalid or expired token''), s'))))))"

definition salvo_require_admin :: "auth_user option \<Rightarrow> (http_error, unit) res" where
  "salvo_require_admin depot =
     (case depot of
        None \<Rightarrow> Inl (salvo_error 401 ''unauthorized'' ''Authentication required'')
      | Some u \<Rightarrow> if au_role u \<noteq> ''admin'' \<and> au_role u \<noteq> ''system''
                  then Inl (salvo_error 403 ''forbidden'' ''Admin privileges required'') else Inr ())"

section \<open>Salvo: rate limiting\<close>

definition salvo_client_ip :: "http_request \<Rightarrow> string option" where
  "salvo_client_ip req =
     (case rq_forwarded_for req of
        Some value \<Rightarrow>
          if trim (hd (split_on (CHR '','') value)) \<noteq> [] then Some (trim (hd (split_on (CHR '','') value)))
          else (case rq_real_ip req of Some v \<Rightarrow> if trim v \<noteq> [] then Some (trim v) else None | None \<Rightarrow> None)
      | None \<Rightarrow> (case rq_real_ip req of Some v \<Rightarrow> if trim v \<noteq> [] then Some (trim v) else None | None \<Rightarrow> None))"

definition salvo_email_from_body :: "parsers \<Rightarrow> string \<Rightarrow> string option" where
  "salvo_email_from_body ps bytes =
     (case json_email_of ps bytes of
        NoEmailKey \<Rightarrow> None
      | JsonEmail e \<Rightarrow> Some (to_lower e)
      | NotJson \<Rightarrow> map_option to_lower (form_email_of ps bytes)
      | EmailNotString \<Rightarrow> map_option to_lower (form_email_of ps bytes))"

definition salvo_check ::
    "nat \<Rightarrow> 'r rate_limit_guard \<Rightarrow> string \<Rightarrow> nat \<Rightarrow> nat \<Rightarrow> 'r limiter \<times> 'r \<Rightarrow> (http_error, unit) res \<times> 'r limiter \<times> 'r" where
  "salvo_check t guard key max_requests window w =
     (case check_limit t key max_requests window (fst w) (snd w) of
        (Inr True, w') \<Rightarrow> (Inr (), w')
      | (Inr False, w') \<Rightarrow>
          (Inl (salvo_error 429 ''rate_limited'' ''Too many requests. Please try again later.''), w')
      | (Inl _, w') \<Rightarrow>
          (if \<not> limiter_fail_open (fst w)
           then Inl (salvo_error 500 ''internal_error'' ''An unexpected error occurred'') else Inr (), w'))"

text \<open>The body it read for the email goes into the depot for the handler.\<close>

definition salvo_rate_limit ::
    "parsers \<Rightarrow> nat \<Rightarrow> 'r rate_limit_guard \<Rightarrow> http_request \<Rightarrow> 'r limiter \<times> 'r
     \<Rightarrow> (http_error, string option) res \<times> 'r limiter \<times> 'r" where
  "salvo_rate_limit ps t guard req w =
     (if \<not> limiter_is_available (fst w) then (Inr None, w)
      else
        (case (case or_else (salvo_client_ip req) (rq_peer req) of
                 None \<Rightarrow> (Inr (), w)
               | Some ip \<Rightarrow>
                   salvo_check t guard (g_key_prefix guard @ '':ip:'' @ ip) (ip_max_requests guard)
                     (ip_window_seconds guard) w) of
           (Inl e, w1) \<Rightarrow> (Inl e, w1)
         | (Inr _, w1) \<Rightarrow>
             (case email_max_requests guard of
                None \<Rightarrow> (Inr None, w1)
              | Some email_max \<Rightarrow>
                  (case rq_body req of
                     None \<Rightarrow> (Inl (salvo_error 500 ''internal_error'' ''An unexpected error occurred''), w1)
                   | Some bytes \<Rightarrow>
                       (case salvo_email_from_body ps bytes of
                          None \<Rightarrow> (Inr (Some bytes), w1)
                        | Some email \<Rightarrow>
                            (case salvo_check t guard (g_key_prefix guard @ '':email:'' @ email) email_max
                                    (email_window_seconds guard) w1 of
                               (Inl e, w2) \<Rightarrow> (Inl e, w2)
                             | (Inr _, w2) \<Rightarrow> (Inr (Some bytes), w2)))))))"

section \<open>The body a handler sees\<close>

definition bodyless :: "http_request \<Rightarrow> bool" where
  "bodyless req \<longleftrightarrow> rq_method req = ''GET'' \<or> rq_method req = ''HEAD''"

definition axum_body :: "string \<Rightarrow> http_request \<Rightarrow> (http_error, string) res" where
  "axum_body reason req =
     (if bodyless req then Inr [] else case rq_body req of None \<Rightarrow> Inl (bad_request reason) | Some b \<Rightarrow> Inr b)"

definition salvo_body :: "string option \<Rightarrow> http_request \<Rightarrow> (http_error, string) res" where
  "salvo_body cached req =
     (if bodyless req then Inr []
      else case cached of
        Some b \<Rightarrow> Inr b
      | None \<Rightarrow> (case rq_body req of
                   None \<Rightarrow> Inl (salvo_error 400 ''bad_request'' ''Failed to read request body'') | Some b \<Rightarrow> Inr b))"

text \<open>Up to the handler of a rate-limited route.\<close>

definition axum_limited ::
    "parsers \<Rightarrow> nat \<Rightarrow> 'r rate_limit_guard \<Rightarrow> string \<Rightarrow> http_request \<Rightarrow> 'r limiter \<times> 'r \<Rightarrow> (http_error, string) res \<times> 'r limiter \<times> 'r" where
  "axum_limited ps t guard reason req w =
     (case rate_limit_middleware ps t guard req w of
        (Inl e, w') \<Rightarrow> (Inl e, w') | (Inr _, w') \<Rightarrow> (axum_body reason req, w'))"

definition salvo_limited ::
    "parsers \<Rightarrow> nat \<Rightarrow> 'r rate_limit_guard \<Rightarrow> http_request \<Rightarrow> 'r limiter \<times> 'r \<Rightarrow> (http_error, string) res \<times> 'r limiter \<times> 'r" where
  "salvo_limited ps t guard req w =
     (case salvo_rate_limit ps t guard req w of
        (Inl e, w') \<Rightarrow> (Inl e, w') | (Inr cached, w') \<Rightarrow> (salvo_body cached req, w'))"

section \<open>CORS\<close>

datatype cors_policy = AllowAny | DenyAll | AllowList "string list"

text \<open>\<^verbatim>\<open>header_value\<close>: which origins parse as a header value.\<close>

definition configure_cors :: "(string \<Rightarrow> bool) \<Rightarrow> string list \<Rightarrow> string \<Rightarrow> cors_policy" where
  "configure_cors header_value allowed_origins env =
     (if allowed_origins = [] then if env \<noteq> ''development'' then DenyAll else AllowAny
      else let origins = filter header_value allowed_origins in
        if origins = [] then if env \<noteq> ''development'' then DenyAll else AllowAny
        else AllowList origins)"

record cors_config =
  allowed_origins :: "string list"
  allow_any_origin :: bool

definition salvo_origin :: "string \<Rightarrow> bool" where
  "salvo_origin o1 \<longleftrightarrow> o1 = ''*'' \<or> starts_with o1 ''http://'' \<or> starts_with o1 ''https://''"

definition from_origins :: "string list \<Rightarrow> string \<Rightarrow> cors_config" where
  "from_origins origins env =
     (if origins = []
      then if env = ''development'' then \<lparr>allowed_origins = [], allow_any_origin = True\<rparr>
           else \<lparr>allowed_origins = [], allow_any_origin = False\<rparr>
      else let valid = filter salvo_origin origins in
        if valid = [] \<and> env = ''development'' then \<lparr>allowed_origins = [], allow_any_origin = True\<rparr>
        else \<lparr>allowed_origins = valid, allow_any_origin = False\<rparr>)"

definition into_handler :: "cors_config \<Rightarrow> cors_policy" where
  "into_handler c =
     (if allow_any_origin c then AllowAny
      else if allowed_origins c = [] then DenyAll else AllowList (allowed_origins c))"

section \<open>Responses\<close>

datatype 'j response_body = EmptyBody | JsonBody 'j | BytesBody string

record 'j response =
  rs_status :: nat
  rs_headers :: "(string \<times> string) list"
  rs_body :: "'j response_body"
  rs_content_type :: "string option"

definition new_response :: "'j response" where
  "new_response = \<lparr>rs_status = 200, rs_headers = [], rs_body = EmptyBody, rs_content_type = None\<rparr>"

definition response_of_error :: "(string \<times> string \<Rightarrow> 'j) \<Rightarrow> http_error \<Rightarrow> 'j response" where
  "response_of_error json err =
     new_response\<lparr>rs_status := status err, rs_body := JsonBody (json (error_type err, message err))\<rparr>"

definition read_bytes :: "('j \<Rightarrow> string option) \<Rightarrow> 'j response \<Rightarrow> string option" where
  "read_bytes ser r = (case rs_body r of EmptyBody \<Rightarrow> Some [] | JsonBody j \<Rightarrow> ser j | BytesBody b \<Rightarrow> Some b)"

definition content_type_of :: "'j response \<Rightarrow> string" where
  "content_type_of r =
     (case rs_content_type r of
        Some ct \<Rightarrow> ct
      | None \<Rightarrow> (case rs_body r of JsonBody _ \<Rightarrow> ''application/json; charset=utf-8''
                  | _ \<Rightarrow> ''text/plain; charset=utf-8''))"

record wire_response =
  w_status :: nat
  w_headers :: "(string \<times> string) list"
  w_body :: string

definition extra_headers :: "'j response \<Rightarrow> (string \<times> string) list" where
  "extra_headers r = filter (\<lambda>(name, _). to_lower name \<noteq> ''content-type'') (rs_headers r)"

text \<open>One value that is no header value spoils the whole axum response, which becomes the empty default; salvo drops the value.\<close>

definition response_to_axum :: "(string \<Rightarrow> bool) \<Rightarrow> ('j \<Rightarrow> string option) \<Rightarrow> 'j response \<Rightarrow> wire_response" where
  "response_to_axum header_value ser r =
     (case read_bytes ser r of
        None \<Rightarrow> \<lparr>w_status = 500, w_headers = [], w_body = []\<rparr>
      | Some bytes \<Rightarrow>
          if header_value (content_type_of r) \<and> list_all (\<lambda>(_, v). header_value v) (extra_headers r)
          then \<lparr>w_status = rs_status r, w_headers = (''content-type'', content_type_of r) # extra_headers r, w_body = bytes\<rparr>
          else \<lparr>w_status = 200, w_headers = [], w_body = []\<rparr>)"

definition render_response :: "(string \<Rightarrow> bool) \<Rightarrow> ('j \<Rightarrow> string option) \<Rightarrow> 'j response \<Rightarrow> wire_response" where
  "render_response header_value ser r =
     (let ct = if header_value (content_type_of r) then content_type_of r else ''text/plain; charset=utf-8'';
          headers = (''content-type'', ct) # filter (\<lambda>(_, v). header_value v) (extra_headers r) in
      case read_bytes ser r of
        None \<Rightarrow> \<lparr>w_status = 500, w_headers = headers, w_body = []\<rparr>
      | Some bytes \<Rightarrow> \<lparr>w_status = rs_status r, w_headers = headers, w_body = bytes\<rparr>)"

section \<open>Agreement\<close>

lemma or_else_simps [simp]: "or_else None y = y" "or_else (Some a) y = Some a"
  by (simp_all add: or_else_def)

lemma bearer_agrees: "salvo_bearer_token req = extract_bearer_token req"
proof -
  have "to_lower BEARER_PREFIX = ''bearer ''" by code_simp
  moreover have "length BEARER_PREFIX = 7" by (simp add: BEARER_PREFIX_def)
  ultimately show ?thesis
    by (cases "rq_authorization req") (simp_all add: salvo_bearer_token_def extract_bearer_token_def)
qed

lemma map_filter_comp: "List.map_filter (\<lambda>p. f (g p)) xs = List.map_filter f (map g xs)"
  by (induction xs) (auto simp: List.map_filter_def)

lemma cookie_agrees: "salvo_jwt_cookie ps req = extract_jwt_cookie ps req"
  by (cases "rq_cookie req")
    (simp_all add: salvo_jwt_cookie_def extract_jwt_cookie_def cookie_value_def JWT_COOKIE_def map_filter_comp)

lemma salvo_auth_agrees: "salvo_auth ps k secret (Some env) req = auth_middleware ps k secret env req"
  by (rule ext)
    (simp add: salvo_auth_def auth_middleware_def request_token_def bearer_agrees cookie_agrees or_else_def salvo_error_def
      unauthorized_def invalid_token_response_def split: option.split sum.split prod.split)

lemma salvo_admin_agrees: "salvo_require_admin = require_admin"
  by (rule ext) (simp add: salvo_require_admin_def require_admin_def salvo_error_def unauthorized_def forbidden_def
      split: option.split)

lemma client_ip_agrees: "or_else (salvo_client_ip req) (rq_peer req) = client_ip req"
  by (cases "rq_forwarded_for req"; cases "rq_real_ip req")
    (auto simp: salvo_client_ip_def client_ip_def extract_client_ip_def Let_def)

lemma email_agrees: "salvo_email_from_body ps b = extract_email_from_body ps b"
  by (simp add: salvo_email_from_body_def extract_email_from_body_def split: json_email.split)

lemma check_agrees: "salvo_check t guard key m win w = rate_check t key m win w"
  by (auto simp: salvo_check_def rate_check_def salvo_error_def rate_limited_response_def internal_err_def unexpected_def
      split: sum.split prod.split bool.split)

lemma rate_limit_agrees:
  "salvo_rate_limit ps t guard req w =
     (case rate_limit_middleware ps t guard req w of
        (Inl e, w') \<Rightarrow> (Inl e, w')
      | (Inr _, w') \<Rightarrow>
          (Inr (if limiter_is_available (fst w) \<and> email_max_requests guard \<noteq> None then rq_body req else None), w'))"
  unfolding salvo_rate_limit_def rate_limit_middleware_def client_ip_agrees email_agrees check_agrees
  by (auto simp: salvo_error_def internal_err_def unexpected_def split: sum.split prod.split option.split)


text \<open>The two CORS policies differ exactly where the two ways to recognise an origin do.\<close>

lemma cors_agrees:
  "into_handler (from_origins origins env) = configure_cors header_value origins env \<longleftrightarrow>
     filter salvo_origin origins = filter header_value origins"
  by (auto simp: into_handler_def from_origins_def configure_cors_def Let_def)

lemma cors_diverges:
  "into_handler (from_origins [''shop.example''] ''production'') = DenyAll
   \<and> configure_cors (\<lambda>v. list_all (\<lambda>c. 32 \<le> (of_char c :: nat) \<and> (of_char c :: nat) < 127) v) [''shop.example''] ''production''
     = AllowList [''shop.example'']"
  by code_simp

lemma responses_agree:
  assumes "read_bytes ser r \<noteq> None" "header_value (content_type_of r)" "list_all (\<lambda>(_, v). header_value v) (extra_headers r)"
  shows "render_response header_value ser r = response_to_axum header_value ser r"
proof -
  have "filter (\<lambda>(_, v). header_value v) (extra_headers r) = extra_headers r"
    using assms(3) by (simp add: list_all_iff filter_id_conv)
  then show ?thesis
    using assms by (auto simp: render_response_def response_to_axum_def Let_def split: option.split)
qed

lemma errors_render_alike:
  assumes "ser (json (error_type err, message err)) \<noteq> None" "header_value ''application/json; charset=utf-8''"
  shows "render_response header_value ser (response_of_error json err)
    = response_to_axum header_value ser (response_of_error json err)"
  using assms
  by (intro responses_agree)
    (simp_all add: response_of_error_def new_response_def read_bytes_def content_type_of_def extra_headers_def)


end
