(* ===== verification/WechatApi.thy ===== *)
theory WechatApi
  imports CaptchaProps
begin

text \<open>
  \<^verbatim>\<open>crates/wechat-api\<close> beside the captcha: signatures and encrypted messages of the WeChat callbacks, the chain of message handlers, and
  the client with its cached access token. SHA-1, AES, Base64, UTF-8, XML and HTTP are libraries: fields of \<^verbatim>\<open>wx_libs\<close> and \<^verbatim>\<open>transport\<close>.
\<close>

section \<open>Configuration\<close>

datatype message_mode = PlainMode | CompatibleMode | SafeMode

record wechat_config =
  wc_account_id :: string
  wc_app_id :: string
  wc_app_secret :: string
  wc_token :: string
  wc_encoding_aes_key :: "string option"
  wc_original_id :: "string option"
  wc_message_mode :: message_mode

definition is_safe_mode :: "wechat_config \<Rightarrow> bool" where
  "is_safe_mode c \<longleftrightarrow> wc_message_mode c = SafeMode"

definition is_api_configured :: "wechat_config \<Rightarrow> bool" where
  "is_api_configured c \<longleftrightarrow> wc_app_id c \<noteq> [] \<and> wc_app_secret c \<noteq> []"

text \<open>Bytes are numbers below 256.\<close>

record wechat_message =
  to_user_name :: string
  from_user_name :: string
  msg_type :: string
  msg_content :: "string option"
  msg_event :: "string option"

record wx_libs =
  sha1 :: "string \<Rightarrow> nat list"
  base64_decode :: "string \<Rightarrow> nat list option"
  aes256_cbc_pkcs7 :: "nat list \<Rightarrow> nat list \<Rightarrow> nat list \<Rightarrow> nat list option"
  from_utf8 :: "nat list \<Rightarrow> string option"
  xml_message :: "string \<Rightarrow> (string, wechat_message) res"
  xml_encrypt :: "string \<Rightarrow> (string, string option) res"
  crypto_safe_mode :: bool

section \<open>Signatures\<close>

text \<open>The order of strings, by bytes.\<close>

fun str_le :: "string \<Rightarrow> string \<Rightarrow> bool" where
  "str_le [] t = True"
| "str_le (c # s) [] = False"
| "str_le (c # s) (d # t) = ((of_char c :: nat) < of_char d \<or> c = d \<and> str_le s t)"

fun insert_str :: "string \<Rightarrow> string list \<Rightarrow> string list" where
  "insert_str s [] = [s]"
| "insert_str s (t # ts) = (if str_le s t then s # t # ts else t # insert_str s ts)"

definition sort_strs :: "string list \<Rightarrow> string list" where "sort_strs ss = foldr insert_str ss []"

definition HEX :: string where "HEX = ''0123456789abcdef''"

definition sig_hex :: "nat list \<Rightarrow> string" where
  "sig_hex bytes = concat (map (\<lambda>b. [HEX ! (b div 16), HEX ! (b mod 16)]) bytes)"

definition compute_signature :: "wx_libs \<Rightarrow> string \<Rightarrow> string \<Rightarrow> string \<Rightarrow> string" where
  "compute_signature l token timestamp nonce = sig_hex (sha1 l (concat (sort_strs [token, timestamp, nonce])))"

definition verify_signature :: "wx_libs \<Rightarrow> string \<Rightarrow> string \<Rightarrow> string \<Rightarrow> string \<Rightarrow> bool" where
  "verify_signature l token timestamp nonce signature =
     eq_ignore_case (compute_signature l token timestamp nonce) signature"

section \<open>Encrypted messages\<close>

function pad_base64 :: "string \<Rightarrow> string" where
  "pad_base64 s = (if length s mod 4 = 0 then s else pad_base64 (s @ ''=''))"
  by pat_completeness auto
termination
proof (relation "measure (\<lambda>s. (4 - length s mod 4) mod 4)")
  fix s :: string assume "length s mod 4 \<noteq> 0"
  then have "length s mod 4 = 1 \<or> length s mod 4 = 2 \<or> length s mod 4 = 3" by presburger
  moreover have "length (s @ ''='') mod 4 = (length s mod 4 + 1) mod 4" by (simp add: mod_simps)
  ultimately show "(s @ ''='', s) \<in> measure (\<lambda>s. (4 - length s mod 4) mod 4)" by auto
qed auto

declare pad_base64.simps [simp del]

definition decode_aes_key :: "wx_libs \<Rightarrow> string \<Rightarrow> (wechat_error, nat list) res" where
  "decode_aes_key l encoding_aes_key =
     (case base64_decode l (pad_base64 encoding_aes_key) of
        None \<Rightarrow> Inl (Decrypt ''Invalid EncodingAESKey base64'')
      | Some decoded \<Rightarrow>
          if length decoded \<noteq> 32 then Inl (Decrypt ''EncodingAESKey decoded to a wrong number of bytes'') else Inr decoded)"

definition be32 :: "nat list \<Rightarrow> nat" where
  "be32 bs = foldl (\<lambda>n b. n * 256 + b) 0 bs"

text \<open>16 random bytes, the length in 4 bytes, the message, the app id.\<close>

definition message_of_payload :: "nat list \<Rightarrow> (wechat_error, nat list) res" where
  "message_of_payload pt =
     (if length pt < 20 then Inl (Decrypt ''Decrypted payload too short'')
      else let msg_len = be32 (take 4 (drop 16 pt)) in
        if 20 + msg_len > length pt then Inl (Decrypt ''Declared msg_len exceeds payload'')
        else Inr (take msg_len (drop 20 pt)))"

definition decrypt_message :: "wx_libs \<Rightarrow> string \<Rightarrow> string \<Rightarrow> (wechat_error, string) res" where
  "decrypt_message l encoding_aes_key encrypted_b64 =
     bindE (decode_aes_key l encoding_aes_key) (\<lambda>key.
     bindE (ok_or (Decrypt ''Invalid base64 ciphertext'') (base64_decode l encrypted_b64)) (\<lambda>ciphertext.
     if length ciphertext mod 16 \<noteq> 0 \<or> ciphertext = []
     then Inl (Decrypt ''Ciphertext length is not a positive multiple of 16'')
     else
       bindE (ok_or (Decrypt ''AES decrypt failed'') (aes256_cbc_pkcs7 l key (take 16 key) ciphertext)) (\<lambda>pt.
       bindE (message_of_payload pt) (\<lambda>content.
       ok_or (Decrypt ''Decrypted XML is not valid UTF-8'') (from_utf8 l content)))))"

section \<open>Callbacks\<close>

record callback_query =
  cq_signature :: string
  cq_timestamp :: string
  cq_nonce :: string
  cq_echostr :: "string option"
  cq_openid :: "string option"

definition empty_query :: callback_query where
  "empty_query = \<lparr>cq_signature = [], cq_timestamp = [], cq_nonce = [], cq_echostr = None, cq_openid = None\<rparr>"

definition set_param :: "callback_query \<Rightarrow> string \<times> string \<Rightarrow> callback_query" where
  "set_param q kv =
     (case kv of (k, v) \<Rightarrow>
        if k = ''signature'' then q\<lparr>cq_signature := v\<rparr>
        else if k = ''timestamp'' then q\<lparr>cq_timestamp := v\<rparr>
        else if k = ''nonce'' then q\<lparr>cq_nonce := v\<rparr>
        else if k = ''echostr'' then q\<lparr>cq_echostr := Some v\<rparr>
        else if k = ''openid'' then q\<lparr>cq_openid := Some v\<rparr>
        else q)"

definition from_params :: "(string \<times> string) list \<Rightarrow> callback_query" where
  "from_params params = foldl set_param empty_query params"

definition signed_query :: "wx_libs \<Rightarrow> wechat_config \<Rightarrow> callback_query \<Rightarrow> bool" where
  "signed_query l c q = verify_signature l (wc_token c) (cq_timestamp q) (cq_nonce q) (cq_signature q)"

definition handle_verification :: "wx_libs \<Rightarrow> wechat_config \<Rightarrow> callback_query \<Rightarrow> (wechat_error, string) res" where
  "handle_verification l c q =
     (if \<not> signed_query l c q then Inl SignatureMismatch
      else ok_or (WxInternal ''missing echostr in verification request'') (cq_echostr q))"

definition extract_encrypt_tag :: "wx_libs \<Rightarrow> string \<Rightarrow> (wechat_error, string) res" where
  "extract_encrypt_tag l xml =
     bindE (mapErr XmlParse (xml_encrypt l xml)) (\<lambda>encrypt.
     ok_or (Decrypt ''missing Encrypt tag in safe-mode envelope'') encrypt)"

definition parse_message :: "wx_libs \<Rightarrow> string \<Rightarrow> (wechat_error, wechat_message) res" where
  "parse_message l xml = mapErr XmlParse (xml_message l xml)"

definition parse_callback :: "wx_libs \<Rightarrow> wechat_config \<Rightarrow> callback_query \<Rightarrow> string \<Rightarrow> (wechat_error, wechat_message) res" where
  "parse_callback l c q body =
     (if \<not> signed_query l c q then Inl SignatureMismatch
      else
        bindE (if is_safe_mode c
               then if crypto_safe_mode l
                 then bindE (ok_or (ConfigIncomplete ''encoding_aes_key required for safe mode'') (wc_encoding_aes_key c)) (\<lambda>aes_key.
                      bindE (extract_encrypt_tag l body) (\<lambda>encrypt. decrypt_message l aes_key encrypt))
                 else Inl (ConfigIncomplete ''safe mode requested but crypto-safe-mode feature is not enabled'')
               else Inr body) (\<lambda>xml.
        parse_message l xml))"

definition requires_safe_mode_feature :: "wx_libs \<Rightarrow> wechat_config \<Rightarrow> bool" where
  "requires_safe_mode_feature l c \<longleftrightarrow> wc_message_mode c = SafeMode \<and> \<not> crypto_safe_mode l"

section \<open>Messages and handlers\<close>

definition is_text :: "wechat_message \<Rightarrow> bool" where "is_text m \<longleftrightarrow> msg_type m = ''text''"
definition is_event :: "wechat_message \<Rightarrow> bool" where "is_event m \<longleftrightarrow> msg_type m = ''event''"
definition is_subscribe :: "wechat_message \<Rightarrow> bool" where
  "is_subscribe m \<longleftrightarrow> is_event m \<and> msg_event m = Some ''subscribe''"
definition text_content :: "wechat_message \<Rightarrow> string" where
  "text_content m = trim (case msg_content m of None \<Rightarrow> [] | Some c \<Rightarrow> c)"

definition cdata :: "string \<Rightarrow> string \<Rightarrow> string" where
  "cdata tag v = ''<'' @ tag @ ''><![CDATA['' @ v @ '']]></'' @ tag @ ''>''"

definition build_text_reply :: "int \<Rightarrow> string \<Rightarrow> string \<Rightarrow> string \<Rightarrow> string" where
  "build_text_reply ts to_user from_user content =
     ''<xml>'' @ cdata ''ToUserName'' to_user @ cdata ''FromUserName'' from_user
     @ ''<CreateTime>'' @ show_int ts @ ''</CreateTime>'' @ cdata ''MsgType'' ''text'' @ cdata ''Content'' content @ ''</xml>''"

datatype handle_outcome = Reply string | NoReply

type_synonym 's message_handler = "wechat_config \<Rightarrow> wechat_message \<Rightarrow> ('s, wechat_error, handle_outcome) prog"

text \<open>The first reply wins, an error stops the chain.\<close>

fun handler_chain :: "'s message_handler list \<Rightarrow> 's message_handler" where
  "handler_chain [] c m s = (Inr NoReply, s)"
| "handler_chain (h # hs) c m s =
     (case h c m s of
        (Inl e, s') \<Rightarrow> (Inl e, s')
      | (Inr (Reply xml), s') \<Rightarrow> (Inr (Reply xml), s')
      | (Inr NoReply, s') \<Rightarrow> handler_chain hs c m s')"

definition default_reply_handler :: "int \<Rightarrow> string \<Rightarrow> string \<Rightarrow> 's message_handler" where
  "default_reply_handler ts welcome fallback c m s =
     (if is_subscribe m then (Inr (Reply (build_text_reply ts (from_user_name m) (to_user_name m) welcome)), s)
      else if is_text m \<or> is_event m
        then (Inr (Reply (build_text_reply ts (from_user_name m) (to_user_name m) fallback)), s)
      else (Inr NoReply, s))"

section \<open>The client\<close>

record token_response =
  access_token_of :: "string option"
  expires_in_of :: "nat option"
  errcode_of :: "int option"
  errmsg_of :: "string option"

text \<open>The two calls of the platform: the token endpoint for an app, the message endpoint for a token, an openid and a text.\<close>

record transport =
  token_api :: "string \<Rightarrow> string \<Rightarrow> (wechat_error, token_response) res"
  message_api :: "string \<Rightarrow> string \<Rightarrow> string \<Rightarrow> (wechat_error, token_response) res"

definition api_error_of :: "token_response \<Rightarrow> (wechat_error, unit) res" where
  "api_error_of r =
     (case errcode_of r of
        None \<Rightarrow> Inr ()
      | Some code \<Rightarrow>
          if code \<noteq> 0 then Inl (ApiBusiness code (case errmsg_of r of None \<Rightarrow> [] | Some m \<Rightarrow> m)) else Inr ())"

definition token_ttl :: "nat option \<Rightarrow> nat" where
  "token_ttl expires_in = max ((case expires_in of None \<Rightarrow> 7200 | Some n \<Rightarrow> n) - 300) 60"

definition access_token :: "transport \<Rightarrow> wechat_config \<Rightarrow> nat \<Rightarrow> (memory_tokens, wechat_error, string) prog" where
  "access_token tp c t s =
     (case mem_get_access_token t (wc_app_id c) s of
        Some token \<Rightarrow> (Inr token, s)
      | None \<Rightarrow>
          bindS (liftE (token_api tp (wc_app_id c) (wc_app_secret c))) (\<lambda>parsed.
          bindS (liftE (api_error_of parsed)) (\<lambda>_.
          bindS (liftE (ok_or (ApiRequest ''missing access_token in response'') (access_token_of parsed))) (\<lambda>token.
          (\<lambda>s. (Inr token, mem_set_access_token t (wc_app_id c) token (token_ttl (expires_in_of parsed)) s))))) s)"

definition send_text_message ::
    "transport \<Rightarrow> wechat_config \<Rightarrow> nat \<Rightarrow> string \<Rightarrow> string \<Rightarrow> (memory_tokens, wechat_error, unit) prog" where
  "send_text_message tp c t openid content =
     bindS (access_token tp c t) (\<lambda>token.
     bindS (liftE (message_api tp token openid content)) (\<lambda>resp.
     liftE (api_error_of resp)))"

text \<open>The texts of the handler are parameters: they are not ASCII.\<close>

record trigger_texts =
  code_text :: "string \<Rightarrow> string"
  sent_text :: string
  wait_text :: string

definition captcha_trigger_handler ::
    "'s captcha_store \<Rightarrow> login_config \<Rightarrow> transport \<Rightarrow> trigger_texts \<Rightarrow> (nat \<Rightarrow> nat) \<Rightarrow> nat \<Rightarrow> int \<Rightarrow> ('s \<times> memory_tokens) message_handler" where
  "captcha_trigger_handler store cfg tp texts rng t ts c m s =
     (if \<not> is_text m \<or> \<not> matches_trigger cfg (text_content m) then (Inr NoReply, s)
      else
        let openid = from_user_name m; answer = build_text_reply ts openid (to_user_name m) in
        (case on_fst (generate_captcha store cfg rng t (wc_account_id c) openid) s of
           (Inr code, s1) \<Rightarrow>
             (case on_snd (send_text_message tp c t openid (code_text texts code)) s1 of
                (Inl _, s2) \<Rightarrow> (Inr (Reply (answer (code_text texts code))), s2)
              | (Inr _, s2) \<Rightarrow> (Inr (Reply (answer (sent_text texts))), s2))
         | (Inl e, s1) \<Rightarrow>
             if e = CooldownActive then (Inr (Reply (answer (wait_text texts))), s1) else (Inl e, s1)))"

section \<open>Lemmas\<close>

lemma pad_base64_length: "length (pad_base64 s) mod 4 = 0 \<and> length (pad_base64 s) < length s + 4"
proof (induction s rule: pad_base64.induct)
  case (1 s)
  show ?case
  proof (cases "length s mod 4 = 0")
    case True
    then show ?thesis by (subst (1 2) pad_base64.simps) simp
  next
    case False
    have e: "pad_base64 s = pad_base64 (s @ ''='')" using False by (subst pad_base64.simps) simp
    have m: "length (pad_base64 (s @ ''='')) mod 4 = 0" "length (pad_base64 (s @ ''='')) < length s + 1 + 4"
      using 1[OF False] by simp_all
    have "length (pad_base64 (s @ ''='')) \<noteq> length s + 4" using m(1) False by (metis mod_add_self2)
    then show ?thesis using e m by simp
  qed
qed

lemma str_le_total: "str_le s t \<or> str_le t s"
  by (induction s t rule: str_le.induct) auto

lemma str_le_antisym: "str_le s t \<Longrightarrow> str_le t s \<Longrightarrow> s = t"
  by (induction s t rule: str_le.induct) (auto elim: str_le.elims)


lemma pad_base64_eq: "pad_base64 s = s @ replicate ((4 - length s mod 4) mod 4) (CHR ''='')"
proof (induction s rule: pad_base64.induct)
  case (1 s)
  show ?case
  proof (cases "length s mod 4 = 0")
    case True
    then show ?thesis by (subst pad_base64.simps) simp
  next
    case False
    then have l: "length s mod 4 = 1 \<or> length s mod 4 = 2 \<or> length s mod 4 = 3" by presburger
    have m: "length (s @ ''='') mod 4 = (length s mod 4 + 1) mod 4" by (simp add: mod_simps)
    have "pad_base64 s = pad_base64 (s @ ''='')" using False by (subst pad_base64.simps) simp
    also have "\<dots> = (s @ ''='') @ replicate ((4 - (length s mod 4 + 1) mod 4) mod 4) (CHR ''='')"
      using 1[OF False] m by simp
    finally have e: "pad_base64 s = (s @ ''='') @ replicate ((4 - (length s mod 4 + 1) mod 4) mod 4) (CHR ''='')" .
    have r: "replicate 3 x = [x, x, x]" "replicate 2 x = [x, x]" for x :: char
      by (simp_all add: numeral_3_eq_3 numeral_2_eq_2)
    from l show ?thesis unfolding e by (elim disjE) (simp_all add: r)
  qed
qed

text \<open>The frame of a payload, read and written.\<close>

lemma message_of_payload_iff:
  "message_of_payload pt = Inr content \<longleftrightarrow>
     (\<exists>rnd len appid. pt = rnd @ len @ content @ appid \<and> length rnd = 16 \<and> length len = 4 \<and> be32 len = length content)"
  (is "_ \<longleftrightarrow> ?framed")
proof
  assume h: "message_of_payload pt = Inr content"
  let ?len = "take 4 (drop 16 pt)"
  have l: "20 + be32 ?len \<le> length pt" "content = take (be32 ?len) (drop 20 pt)"
    using h by (auto simp: message_of_payload_def Let_def split: if_splits)
  have d: "drop 16 pt = ?len @ drop 20 pt" using append_take_drop_id[of 4 "drop 16 pt"] by simp
  have "pt = take 16 pt @ ?len @ content @ drop (be32 ?len) (drop 20 pt)"
    using d l(2) append_take_drop_id[of "be32 ?len" "drop 20 pt"] append_take_drop_id[of 16 pt] by simp
  moreover have "length (take 16 pt) = 16" "length ?len = 4" "be32 ?len = length content" using l by auto
  ultimately show ?framed by blast
next
  assume ?framed
  then obtain rnd len appid where f: "pt = rnd @ len @ content @ appid" "length rnd = 16" "length len = 4"
    "be32 len = length content" by blast
  then have "take 4 (drop 16 pt) = len" "drop 20 pt = content @ appid" "length pt \<ge> 20 + length content" by simp_all
  then show "message_of_payload pt = Inr content" using f(4) by (simp add: message_of_payload_def Let_def)
qed

lemma callback_is_signed:
  "parse_callback l c q body = Inr m \<Longrightarrow> signed_query l c q"
  "handle_verification l c q = Inr e \<Longrightarrow> signed_query l c q \<and> cq_echostr q = Some e"
  by (auto simp: parse_callback_def handle_verification_def split: if_splits)

end
