(* ===== verification/Handlers.thy ===== *)
theory Handlers
  imports Adapters WechatApi
begin

text \<open>
  \<^verbatim>\<open>server/src/handlers\<close>: what every endpoint does between the request and the services. A handler decodes the body,
  validates it, calls a service, and answers with a JSON body and cookies. Decoding (\<^verbatim>\<open>serde\<close>), the recognition of an email
  address and the text of a list of validation errors are libraries: fields of \<^verbatim>\<open>web\<close>. The state is the one of the services; the two logins that look at a captcha also
  see whether the captcha store has connected. The display balance is a float and left out.
\<close>

section \<open>Bodies and cookies\<close>

record 'a decoder =
  from_json :: "string \<Rightarrow> (string, 'a) res"
  from_form :: "string \<Rightarrow> (string, 'a) res"

definition parse_json_or_form :: "'a decoder \<Rightarrow> http_request \<Rightarrow> string \<Rightarrow> (string, 'a) res" where
  "parse_json_or_form d req body =
     (let content_type = to_lower (case rq_content_type req of None \<Rightarrow> [] | Some ct \<Rightarrow> ct) in
      if str_contains content_type ''application/x-www-form-urlencoded'' then from_form d body else from_json d body)"

record login_body =
  lb_email :: string
  lb_password :: string
  lb_remember :: bool
  lb_captcha_code :: "string option"

record register_body =
  rb_email :: string
  rb_password :: string
  rb_name :: string
  rb_password_confirm :: string

record verify_body =
  vb_email :: string
  vb_code :: string

record reset_body =
  sb_email :: string
  sb_code :: string
  sb_new_password :: string

record create_body =
  cb_email :: string
  cb_password :: string
  cb_name :: string
  cb_role :: "string option"

record update_body =
  ub_email :: "string option"
  ub_name :: "string option"
  ub_role :: "string option"

record change_body =
  pb_current_password :: string
  pb_new_password :: string

record decoders =
  d_login :: "login_body decoder"
  d_register :: "register_body decoder"
  d_verify :: "verify_body decoder"
  d_email :: "string decoder"
  d_reset :: "reset_body decoder"
  d_create :: "create_body decoder"
  d_update :: "update_body decoder"
  d_change :: "change_body decoder"
  d_set_balance :: "int decoder"
  d_adjust :: "int decoder"
  d_wx_code :: "string decoder"
  d_list :: "string \<Rightarrow> (string, nat option \<times> nat option) res"

record cookie =
  ck_name :: string
  ck_value :: string
  ck_max_age :: int
  ck_http_only :: bool
  ck_secure :: bool

text \<open>Every cookie has the path \<^verbatim>\<open>/\<close> and is same-site strict.\<close>

definition token_cookie :: "string \<Rightarrow> string \<Rightarrow> int \<Rightarrow> bool \<Rightarrow> cookie" where
  "token_cookie name v max_age_secs secure =
     \<lparr>ck_name = name, ck_value = v, ck_max_age = max_age_secs, ck_http_only = True, ck_secure = secure\<rparr>"

definition expiry_cookie :: "string \<Rightarrow> int \<Rightarrow> bool \<Rightarrow> cookie" where
  "expiry_cookie v max_age_secs secure =
     \<lparr>ck_name = EXPIRY_COOKIE, ck_value = v, ck_max_age = max_age_secs, ck_http_only = False, ck_secure = secure\<rparr>"

definition clear_auth_cookies :: "bool \<Rightarrow> cookie list" where
  "clear_auth_cookies secure =
     (let clear = (\<lambda>name http_only.
        \<lparr>ck_name = name, ck_value = [], ck_max_age = 0, ck_http_only = http_only, ck_secure = secure\<rparr>) in
      [clear JWT_COOKIE True, clear REFRESH_COOKIE True, clear EXPIRY_COOKIE False])"

definition unix_timestamp_from_now :: "'r env \<Rightarrow> int \<Rightarrow> int" where
  "unix_timestamp_from_now env seconds_from_now = now_secs env + seconds_from_now"

text \<open>The three cookies of a session: the token, the refresh token or its removal, the readable expiry.\<close>

definition session_cookies :: "'r env \<Rightarrow> bool \<Rightarrow> string \<Rightarrow> int \<Rightarrow> cookie \<Rightarrow> int \<Rightarrow> cookie list" where
  "session_cookies env secure token jwt_max_age refresh_cookie expiry_max_age =
     [token_cookie JWT_COOKIE token jwt_max_age secure, refresh_cookie,
      expiry_cookie (show_int (unix_timestamp_from_now env jwt_max_age)) expiry_max_age secure]"

section \<open>Answers\<close>

record token_reply =
  tr_token :: string
  tr_token_type :: string
  tr_expires_in :: int
  tr_user_id :: string
  tr_role :: string

datatype payload =
  HealthJson string string
| MessageJson string
| LoginJson login_response
| RegisterJson string string bool
| ResetJson string token_reply
| RefreshJson token_reply int
| WxJson token_reply
| EnabledJson bool
| UserJson user_response
| UsersJson paginated
| NewTokenJson string string
| BalanceJson int string
| TextBody string
| XmlBody string

record reply =
  rp_payload :: payload
  rp_cookies :: "cookie list"

definition json_reply :: "payload \<Rightarrow> reply" where
  "json_reply p = \<lparr>rp_payload = p, rp_cookies = []\<rparr>"

record 'r wechat =
  wx_config :: wechat_config
  wx_store :: "'r redis_captcha"
  wx_login_config :: login_config

record 'r web =
  wb_auth :: auth_service
  wb_cookie_secure :: bool
  wb_codes :: code_service
  wb_json :: user_json
  wb_crypto :: crypto
  wb_parsers :: parsers
  wb_decoders :: decoders
  wb_wechat :: "'r wechat option"
  valid_email :: "string \<Rightarrow> bool"
  show_errors :: "(string \<times> string) list \<Rightarrow> string"
  pkg_version :: string

text \<open>An operation with the errors of a service, answered as HTTP errors.\<close>

definition on_error :: "('e \<Rightarrow> 'f) \<Rightarrow> ('s, 'e, 'a) prog \<Rightarrow> ('s, 'f, 'a) prog" where
  "on_error g m s = (case m s of (x, s') \<Rightarrow> (mapErr g x, s'))"

definition to_http :: "('e \<Rightarrow> api_error) \<Rightarrow> 'e \<Rightarrow> http_error" where
  "to_http conv e = http_of_api (conv e)"

definition decoded :: "'a decoder \<Rightarrow> http_request \<Rightarrow> string \<Rightarrow> ('s, http_error, 'a) prog" where
  "decoded d req body = liftE (mapErr bad_request (parse_json_or_form d req body))"

text \<open>The outcome of a list of field errors.\<close>

definition validated :: "'r web \<Rightarrow> (string \<times> string) list \<Rightarrow> (string, unit) res" where
  "validated w errors = (if errors = [] then Inr () else Inl (show_errors w errors))"

definition email_errors :: "'r web \<Rightarrow> string \<Rightarrow> (string \<times> string) list" where
  "email_errors w email = (if valid_email w email then [] else [(''email'', ''must be a valid email address'')])"

text \<open>The length of a text is its number of characters: its first byte and, of the others, those that do not continue a character in UTF-8.\<close>

definition char_count :: "string \<Rightarrow> nat" where
  "char_count s =
     (case s of [] \<Rightarrow> 0
      | _ # r \<Rightarrow> Suc (length (filter (\<lambda>c. \<not> (128 \<le> (of_char c :: nat) \<and> of_char c < (192 :: nat))) r)))"

lemma char_count_pos [simp]: "Suc 0 \<le> char_count s \<longleftrightarrow> s \<noteq> []"
  by (cases s) (simp_all add: char_count_def)

definition length_errors :: "string \<Rightarrow> string \<Rightarrow> nat \<Rightarrow> nat \<Rightarrow> string \<Rightarrow> (string \<times> string) list" where
  "length_errors field s lo hi msg = (if lo \<le> char_count s \<and> char_count s \<le> hi then [] else [(field, msg)])"

definition min_errors :: "string \<Rightarrow> string \<Rightarrow> nat \<Rightarrow> string \<Rightarrow> (string \<times> string) list" where
  "min_errors field s lo msg = (if lo \<le> char_count s then [] else [(field, msg)])"

definition name_errors :: "string \<Rightarrow> (string \<times> string) list" where
  "name_errors name = length_errors ''name'' name 6 50 ''name must be between 6 and 50 characters''"

definition validate_role :: "string \<Rightarrow> (string \<times> string) list" where
  "validate_role role =
     (if role = ''user'' \<or> role = ''admin'' then [] else [(''role'', ''role must be '' @ quoted ''user'' @ '' or '' @ quoted ''admin'')])"

definition all_digits :: "string \<Rightarrow> bool" where "all_digits s \<longleftrightarrow> list_all is_digit s"

section \<open>Public endpoints\<close>

definition captcha_rejected :: http_error where
  "captcha_rejected = bad_request ''Invalid or expired captcha code''"

type_synonym 'r srv = "bool \<times> 'r app"

definition on_captcha :: "(bool \<times> 'r, 'e, 'a) prog \<Rightarrow> ('r srv, 'e, 'a) prog" where
  "on_captcha m w = (case m (fst w, redis (snd w)) of (x, (c, r)) \<Rightarrow> (x, (c, (snd w)\<lparr>redis := r\<rparr>)))"

definition on_wechat :: "((bool \<times> 'r) \<times> 'r app, 'e, 'a) prog \<Rightarrow> ('r srv, 'e, 'a) prog" where
  "on_wechat m w = (case m ((fst w, redis (snd w)), snd w) of (x, ((c, r), s)) \<Rightarrow> (x, (c, s\<lparr>redis := r\<rparr>)))"

text \<open>A captcha code names its openid through the reverse index; the login service then verifies and consumes it.\<close>

definition captcha_user :: "'r wechat \<Rightarrow> 'r env \<Rightarrow> string \<Rightarrow> ('r srv, http_error, int) prog" where
  "captcha_user wx env code =
     bindS (on_error (to_http api_of_wechat)
             (on_captcha (get_opt (wx_store wx) (cache_time env) (code_index_key (wc_account_id (wx_config wx)) code)))) (\<lambda>found.
     bindS (liftE (ok_or captcha_rejected found)) (\<lambda>openid.
     bindS (on_error (\<lambda>_. captcha_rejected)
             (on_wechat (verify_and_login (redis_captcha_store (wx_store wx)) (db_binding_store env) (wx_login_config wx)
                           (cache_time env) (wc_account_id (wx_config wx)) openid code))) (\<lambda>verified.
     retS (vl_user_id verified))))"

definition login_captcha :: "'r web \<Rightarrow> 'r env \<Rightarrow> string option \<Rightarrow> ('r srv, http_error, int option) prog" where
  "login_captcha w env captcha_code =
     (case wb_wechat w of
        None \<Rightarrow> retS None
      | Some wx \<Rightarrow>
          (let code = (case captcha_code of None \<Rightarrow> [] | Some c \<Rightarrow> c) in
           if code = [] then raiseS captcha_rejected
           else bindS (captcha_user wx env code) (\<lambda>uid. retS (Some uid))))"

definition login_cookies :: "'r web \<Rightarrow> 'r env \<Rightarrow> login_response \<Rightarrow> cookie list" where
  "login_cookies w env result =
     (let secure = wb_cookie_secure w; jwt_max_age = lo_expires_in result;
          refresh_cookie = (if lo_refresh_token result = [] then token_cookie REFRESH_COOKIE [] 0 secure
                            else token_cookie REFRESH_COOKIE (lo_refresh_token result) (lo_refresh_expires_in result) secure) in
      session_cookies env secure (lo_token result) jwt_max_age refresh_cookie (max (lo_refresh_expires_in result) jwt_max_age))"

definition login_inner :: "'r web \<Rightarrow> 'r env \<Rightarrow> login_body \<Rightarrow> ('r srv, http_error, reply) prog" where
  "login_inner w env payload =
     bindS (liftE (mapErr (to_http ApiValidation) (validated w
              (email_errors w (lb_email payload)
               @ min_errors ''password'' (lb_password payload) 1 ''password is required'')))) (\<lambda>_.
     bindS (login_captcha w env (lb_captcha_code payload)) (\<lambda>captcha_user_id.
     bindS (on_snd (on_error (to_http api_of_auth) (login (wb_crypto w) (wb_auth w) env
              \<lparr>lr_email = to_lower (lb_email payload), lr_password = lb_password payload,
               lr_remember = lb_remember payload\<rparr>))) (\<lambda>result.
     if (case captcha_user_id of None \<Rightarrow> False | Some uid \<Rightarrow> show_int uid \<noteq> lo_user_id result)
     then raiseS captcha_rejected
     else retS \<lparr>rp_payload = LoginJson result, rp_cookies = login_cookies w env result\<rparr>)))"

definition login_handler :: "'r web \<Rightarrow> 'r env \<Rightarrow> http_request \<Rightarrow> string \<Rightarrow> ('r srv, http_error, reply) prog" where
  "login_handler w env req body =
     bindS (decoded (d_login (wb_decoders w)) req body) (\<lambda>payload. login_inner w env payload)"

definition registration_failed :: http_error where
  "registration_failed = internal_err ''Registration failed due to an internal error. Please try again later.''"

text \<open>Without a mail that reaches the user the account is verified at once.\<close>

definition register_verification :: "'r web \<Rightarrow> 'r env \<Rightarrow> string \<Rightarrow> ('r app, http_error, string \<times> bool) prog" where
  "register_verification w env email s =
     (case send_verification_email (wb_codes w) env email s of
        (Inr _, s1) \<Rightarrow> (Inr (''Verification code sent to your email'', False), s1)
      | (Inl e, s1) \<Rightarrow>
          (case auto_verify env email s1 of
             (Inl _, s2) \<Rightarrow> (Inl registration_failed, s2)
           | (Inr _, s2) \<Rightarrow>
               (Inr (if e = EmailNotConfigured then ''User registered successfully''
                     else ''User registered successfully. Note: verification email could not be sent, but your account is active.'',
                     True), s2)))"

definition register_handler :: "'r web \<Rightarrow> 'r env \<Rightarrow> http_request \<Rightarrow> string \<Rightarrow> ('r app, http_error, reply) prog" where
  "register_handler w env req body =
     bindS (decoded (d_register (wb_decoders w)) req body) (\<lambda>payload.
     bindS (liftE (mapErr bad_request (validated w
              (email_errors w (rb_email payload)
               @ min_errors ''password'' (rb_password payload) 8 ''password must be at least 8 characters''
               @ name_errors (rb_name payload))))) (\<lambda>_.
     if rb_password payload \<noteq> rb_password_confirm payload then raiseS (bad_request ''passwords do not match'')
     else
       bindS (liftE (mapErr http_of_api (check_password_strength (rb_password payload)))) (\<lambda>_.
       let email = to_lower (rb_email payload) in
       bindS (on_error (to_http api_of_user) (create_user env
                \<lparr>ci_email = email, ci_password = rb_password payload, ci_name = rb_name payload, ci_role = None\<rparr>
                ''user'')) (\<lambda>user.
       bindS (register_verification w env email) (\<lambda>(msg, email_verified).
       retS (json_reply (RegisterJson msg (show_int (r_id user)) email_verified)))))))"

definition verify_email_handler :: "'r web \<Rightarrow> 'r env \<Rightarrow> http_request \<Rightarrow> string \<Rightarrow> ('r app, http_error, reply) prog" where
  "verify_email_handler w env req body =
     bindS (decoded (d_verify (wb_decoders w)) req body) (\<lambda>payload.
     bindS (liftE (mapErr bad_request (validated w
              (email_errors w (vb_email payload)
               @ length_errors ''code'' (vb_code payload) 6 6 ''code must be 6 characters'')))) (\<lambda>_.
     if \<not> all_digits (vb_code payload) then raiseS (bad_request ''code must be 6 digits'')
     else
       bindS (on_error (to_http api_of_verification)
               (verify_email (wb_codes w) env (to_lower (vb_email payload)) (vb_code payload))) (\<lambda>_.
       retS (json_reply (MessageJson ''Email verified successfully'')))))"

text \<open>One error is kept from the client, since it would tell a registered address from an unknown one.\<close>

definition swallow :: "'e \<Rightarrow> ('s, 'e, unit) prog \<Rightarrow> ('s, 'e, unit) prog" where
  "swallow e0 m s = (case m s of (Inl e, s') \<Rightarrow> (if e = e0 then Inr () else Inl e, s') | (Inr _, s') \<Rightarrow> (Inr (), s'))"

definition resend_code_handler :: "'r web \<Rightarrow> 'r env \<Rightarrow> http_request \<Rightarrow> string \<Rightarrow> ('r app, http_error, reply) prog" where
  "resend_code_handler w env req body =
     bindS (decoded (d_email (wb_decoders w)) req body) (\<lambda>email.
     bindS (liftE (mapErr bad_request (validated w (email_errors w email)))) (\<lambda>_.
     bindS (on_error (to_http api_of_verification) (swallow TooSoon (resend_code (wb_codes w) env (to_lower email)))) (\<lambda>_.
     retS (json_reply (MessageJson ''If that email is registered, a new verification code has been sent'')))))"

definition forgot_password_handler :: "'r web \<Rightarrow> 'r env \<Rightarrow> http_request \<Rightarrow> string \<Rightarrow> ('r app, http_error, reply) prog" where
  "forgot_password_handler w env req body =
     bindS (decoded (d_email (wb_decoders w)) req body) (\<lambda>email.
     bindS (liftE (mapErr bad_request (validated w (email_errors w email)))) (\<lambda>_.
     bindS (on_error (to_http api_of_reset) (swallow PTooSoon (request_reset (wb_codes w) env (to_lower email)))) (\<lambda>_.
     retS (json_reply (MessageJson ''If that email is registered, a reset code has been sent'')))))"

definition signed :: "'r web \<Rightarrow> 'r env \<Rightarrow> int \<Rightarrow> string \<Rightarrow> int \<Rightarrow> bool \<Rightarrow> int \<Rightarrow> (http_error, string) res" where
  "signed w env uid role expiry remember version =
     ok_or (internal_err unexpected)
       (generate_token (wb_crypto w) env (show_int uid) role (jwt_secret (wb_auth w)) expiry remember version)"

definition reset_password_inner :: "'r web \<Rightarrow> 'r env \<Rightarrow> reset_body \<Rightarrow> ('r app, http_error, reply) prog" where
  "reset_password_inner w env payload =
     bindS (liftE (mapErr (to_http ApiValidation) (validated w
              (email_errors w (sb_email payload)
               @ length_errors ''code'' (sb_code payload) 6 6 ''code must be 6 digits''
               @ min_errors ''new_password'' (sb_new_password payload) 8 ''password must be at least 8 characters'')))) (\<lambda>_.
     bindS (liftE (mapErr http_of_api (check_password_strength (sb_new_password payload)))) (\<lambda>_.
     if \<not> all_digits (sb_code payload) then raiseS (bad_request ''code must be 6 digits'')
     else
       bindS (on_error (to_http api_of_reset)
               (reset_password (wb_codes w) env (to_lower (sb_email payload)) (sb_code payload) (sb_new_password payload))) (\<lambda>outcome.
       let expiry = jwt_expiry_seconds (wb_auth w); secure = wb_cookie_secure w in
       bindS (liftE (signed w env (po_user_id outcome) (po_role outcome) expiry False (po_token_version outcome))) (\<lambda>token.
       retS \<lparr>rp_payload = ResetJson ''Password reset successfully''
               \<lparr>tr_token = token, tr_token_type = ''Bearer'', tr_expires_in = expiry,
                tr_user_id = show_int (po_user_id outcome), tr_role = po_role outcome\<rparr>,
             rp_cookies = session_cookies env secure token expiry (token_cookie REFRESH_COOKIE [] 0 secure) expiry\<rparr>))))"

definition reset_password_handler :: "'r web \<Rightarrow> 'r env \<Rightarrow> http_request \<Rightarrow> string \<Rightarrow> ('r app, http_error, reply) prog" where
  "reset_password_handler w env req body =
     bindS (decoded (d_reset (wb_decoders w)) req body) (\<lambda>payload. reset_password_inner w env payload)"

definition refresh_inner :: "'r web \<Rightarrow> 'r env \<Rightarrow> http_request \<Rightarrow> ('r app, http_error, reply) prog" where
  "refresh_inner w env req =
     (let k = wb_crypto w; svc = wb_auth w; secure = wb_cookie_secure w;
          jwt_max_age = jwt_remember_expiry_seconds svc; refresh_max_age = refresh_token_expiry_seconds svc in
      bindS (liftE (ok_or (unauthorized ''Missing refresh token cookie'') (cookie_value (wb_parsers w) REFRESH_COOKIE req))) (\<lambda>refresh_token.
      case generate_refresh_token k of
        (raw_refresh, new_hash) \<Rightarrow>
      bindS (liftE (ok_or (internal_err unexpected) (from_timestamp k (now_secs env + refresh_max_age)))) (\<lambda>refresh_expires_at.
      bindS (on_error (\<lambda>_. internal_err unexpected)
              (rotate_refresh_token env (hex_encode k (sha256 k refresh_token)) new_hash refresh_expires_at)) (\<lambda>rotated.
      bindS (liftE (ok_or (unauthorized ''Invalid or expired refresh token'') rotated)) (\<lambda>(user_id, role, token_version).
      bindS (liftE (signed w env user_id role jwt_max_age True token_version)) (\<lambda>token.
      retS \<lparr>rp_payload = RefreshJson
              \<lparr>tr_token = token, tr_token_type = ''Bearer'', tr_expires_in = jwt_max_age,
               tr_user_id = show_int user_id, tr_role = role\<rparr> refresh_max_age,
            rp_cookies = session_cookies env secure token jwt_max_age
              (token_cookie REFRESH_COOKIE raw_refresh refresh_max_age secure) (max refresh_max_age jwt_max_age)\<rparr>))))))"

text \<open>A refresh token that cannot be deleted does not stop a logout.\<close>

definition logout_handler :: "'r web \<Rightarrow> 'r env \<Rightarrow> http_request \<Rightarrow> ('r app, http_error, reply) prog" where
  "logout_handler w env req =
     bindS (case cookie_value (wb_parsers w) REFRESH_COOKIE req of
              None \<Rightarrow> retS ()
            | Some raw \<Rightarrow>
                if raw = [] then retS ()
                else drop_error (delete_refresh_token env (hex_encode (wb_crypto w) (sha256 (wb_crypto w) raw)))) (\<lambda>_.
     retS \<lparr>rp_payload = MessageJson ''Logged out successfully'',
           rp_cookies = clear_auth_cookies (wb_cookie_secure w)\<rparr>)"

section \<open>WeChat endpoints\<close>

definition lookup_user_role_and_version :: "'r env \<Rightarrow> int \<Rightarrow> ('r app, http_error, string \<times> int) prog" where
  "lookup_user_role_and_version env uid =
     bindS (db_stmt env (\<lambda>_. internal_err unexpected) ''Database lookup failed after WeChat captcha login''
             (read_db (user_by_id uid))) (\<lambda>row.
     bindS (liftE (ok_or (internal_err unexpected) row)) (\<lambda>user.
     retS (u_role user, u_token_version user)))"

definition wx_login_inner :: "'r web \<Rightarrow> 'r wechat \<Rightarrow> 'r env \<Rightarrow> string \<Rightarrow> ('r srv, http_error, reply) prog" where
  "wx_login_inner w wx env code =
     bindS (captcha_user wx env code) (\<lambda>user_id.
     bindS (on_snd (lookup_user_role_and_version env user_id)) (\<lambda>(role, token_version).
     let jwt_expiry = jwt_expiry_seconds (wb_auth w); secure = wb_cookie_secure w in
     bindS (liftE (signed w env user_id role jwt_expiry False token_version)) (\<lambda>token.
     retS \<lparr>rp_payload = WxJson \<lparr>tr_token = token, tr_token_type = ''Bearer'', tr_expires_in = jwt_expiry,
                                 tr_user_id = show_int user_id, tr_role = role\<rparr>,
           rp_cookies = session_cookies env secure token jwt_expiry (token_cookie REFRESH_COOKIE [] 0 secure) jwt_expiry\<rparr>)))"

definition wx_login_handler :: "'r web \<Rightarrow> 'r env \<Rightarrow> http_request \<Rightarrow> string \<Rightarrow> ('r srv, http_error, reply) prog" where
  "wx_login_handler w env req body =
     bindS (decoded (d_wx_code (wb_decoders w)) req body) (\<lambda>code.
     bindS (liftE (ok_or (bad_request ''WeChat login is not configured'') (wb_wechat w))) (\<lambda>wx.
     wx_login_inner w wx env code))"

definition wechat_enabled_handler :: "'r web \<Rightarrow> ('s, http_error, reply) prog" where
  "wechat_enabled_handler w = retS (json_reply (EnabledJson (wb_wechat w \<noteq> None)))"

definition wechat_callback_get ::
    "'r web \<Rightarrow> wx_libs \<Rightarrow> (string \<Rightarrow> (string \<times> string) list option) \<Rightarrow> http_request \<Rightarrow> (http_error, reply) res" where
  "wechat_callback_get w l parse_query req =
     bindE (ok_or (bad_request ''Missing WeChat callback query parameters'') (parse_query (rq_query req))) (\<lambda>params.
     bindE (ok_or (not_found ''WeChat components not initialized'') (wb_wechat w)) (\<lambda>wx.
     case handle_verification l (wx_config wx) (from_params params) of
       Inr echostr \<Rightarrow> Inr (json_reply (TextBody echostr))
     | Inl _ \<Rightarrow> Inl (bad_request ''Signature verification failed'')))"

text \<open>The answer to a message: a code for a trigger word, otherwise a hint. Nothing is refused, as a refused message comes again.\<close>

definition code_reply :: "login_config \<Rightarrow> string \<Rightarrow> string" where
  "code_reply cfg code =
     ''Your verification code: '' @ code @ [CHR 0x0A] @ ''Enter this code on the login page to sign in. Valid for ''
     @ show_nat (captcha_ttl_secs cfg) @ '' seconds.''"

definition dquoted :: "string \<Rightarrow> string" where "dquoted s = [CHR 0x22] @ s @ [CHR 0x22]"

definition message_reply ::
    "'r wechat \<Rightarrow> 'r env \<Rightarrow> (nat \<Rightarrow> nat) \<Rightarrow> wechat_message \<Rightarrow> ('r srv, string, string) prog" where
  "message_reply wx env rng msg s =
     (let answer = build_text_reply (now_secs env) (from_user_name msg) (to_user_name msg) in
      if msg_type msg = ''text'' then
        if matches_trigger (wx_login_config wx) (case msg_content msg of None \<Rightarrow> [] | Some c \<Rightarrow> c) then
          (case on_captcha (generate_captcha (redis_captcha_store (wx_store wx)) (wx_login_config wx) rng (cache_time env)
                              (wc_account_id (wx_config wx)) (from_user_name msg)) s of
             (Inr code, s') \<Rightarrow> (Inr (answer (code_reply (wx_login_config wx) code)), s')
           | (Inl e, s') \<Rightarrow>
               (Inr (answer
                 (if e = CooldownActive
                  then ''A verification code was already sent recently. Please check your chat history or wait before requesting a new one.''
                  else ''System busy, please try again later.'')), s'))
        else (Inr (answer (''Send '' @ dquoted ''verification code'' @ '' or '' @ dquoted ''login''
                    @ '' to receive a captcha code for logging in to WebShelf.'')), s)
      else (Inr (answer (''Welcome to WebShelf! Send '' @ dquoted ''verification code'' @ '' to log in.'')), s))"

definition wechat_process_callback ::
    "'r web \<Rightarrow> wx_libs \<Rightarrow> (string \<Rightarrow> (string \<times> string) list option) \<Rightarrow> 'r env \<Rightarrow> (nat \<Rightarrow> nat) \<Rightarrow> http_request \<Rightarrow> string
     \<Rightarrow> ('r srv, string, string) prog" where
  "wechat_process_callback w l parse_query env rng req body =
     bindS (liftE (ok_or ''Missing/invalid WeChat callback query parameters'' (parse_query (rq_query req)))) (\<lambda>params.
     bindS (liftE (ok_or ''WeChat components not initialized'' (wb_wechat w))) (\<lambda>wx.
     bindS (liftE (mapErr (\<lambda>_. ''Failed to parse WeChat message'') (parse_callback l (wx_config wx) (from_params params) body))) (\<lambda>msg.
     message_reply wx env rng msg)))"

definition wechat_callback_post ::
    "'r web \<Rightarrow> wx_libs \<Rightarrow> (string \<Rightarrow> (string \<times> string) list option) \<Rightarrow> 'r env \<Rightarrow> (nat \<Rightarrow> nat) \<Rightarrow> http_request \<Rightarrow> string
     \<Rightarrow> ('r srv, http_error, reply) prog" where
  "wechat_callback_post w l parse_query env rng req body s =
     (case wechat_process_callback w l parse_query env rng req body s of
        (Inr xml, s') \<Rightarrow> (Inr (json_reply (XmlBody xml)), s')
      | (Inl _, s') \<Rightarrow> (Inr (json_reply (XmlBody ''success'')), s'))"

end
