(* ===== verification/ApiHandlers.thy ===== *)
theory ApiHandlers
  imports Handlers
begin

text \<open>
  \<^verbatim>\<open>server/src/handlers/api.rs\<close>: the endpoints behind the authentication. Each takes the user the middleware attached; the
  requested role of a new or changed user only counts when a system user asks for it.
\<close>

section \<open>Context\<close>

definition handler_context :: "auth_user option \<Rightarrow> (http_error, auth_user) res" where
  "handler_context user = ok_or (unauthorized ''Authentication required'') user"

definition parse_id :: "string option \<Rightarrow> (http_error, int) res" where
  "parse_id param = ok_or (bad_request ''Invalid or missing user ID'') (Option.bind param parse_i64)"

definition own_id :: "auth_user \<Rightarrow> (http_error, int) res" where
  "own_id user = ok_or (internal_err unexpected) (parse_i64 (au_user_id user))"

text \<open>The path parameter: the segments of the matched pattern from its end, as the nesting strips a prefix of the path.\<close>

definition trim_slashes :: "string \<Rightarrow> string" where
  "trim_slashes s = rev (dropWhile (\<lambda>c. c = CHR ''/'') (rev (dropWhile (\<lambda>c. c = CHR ''/'') s)))"

definition braced :: "string \<Rightarrow> string option" where
  "braced seg =
     Option.bind (strip_prefix seg ''{'') (\<lambda>s. if s \<noteq> [] \<and> last s = CHR ''}'' then Some (butlast s) else None)"

definition get_param :: "string option \<Rightarrow> string \<Rightarrow> string \<Rightarrow> string option" where
  "get_param matched_pattern path name =
     Option.bind matched_pattern (\<lambda>pattern.
     let pattern_segs = split_on (CHR ''/'') (trim_slashes pattern);
         path_segs = split_on (CHR ''/'') (trim_slashes path);
         offset = length pattern_segs - length path_segs in
     map_option snd (find (\<lambda>(p, a). braced p = Some name) (zip (drop offset pattern_segs) path_segs)))"

section \<open>Reading\<close>

definition health_check :: "'r web \<Rightarrow> ('r app, http_error, reply) prog" where
  "health_check w = retS (json_reply (HealthJson ''ok'' (pkg_version w)))"

definition default_page :: nat where "default_page = 1"
definition default_per_page :: nat where "default_per_page = 10"

definition list_users_handler :: "'r web \<Rightarrow> 'r env \<Rightarrow> auth_user option \<Rightarrow> http_request \<Rightarrow> ('r app, http_error, reply) prog" where
  "list_users_handler w env user req =
     bindS (liftE (handler_context user)) (\<lambda>auth_user.
     bindS (liftE (mapErr bad_request (d_list (wb_decoders w) (rq_query req)))) (\<lambda>(pg, sz).
     bindS (on_error (to_http api_of_user) (list_users env
              \<lparr>page = (case pg of None \<Rightarrow> default_page | Some n \<Rightarrow> n),
               per_page = (case sz of None \<Rightarrow> default_per_page | Some n \<Rightarrow> n)\<rparr> (au_role auth_user))) (\<lambda>result.
     retS (json_reply (UsersJson result)))))"

definition found_user :: "user_response option \<Rightarrow> (http_error, reply) res" where
  "found_user row = (case row of None \<Rightarrow> Inl (not_found ''User not found'') | Some u \<Rightarrow> Inr (json_reply (UserJson u)))"

definition get_me :: "'r web \<Rightarrow> 'r env \<Rightarrow> auth_user option \<Rightarrow> ('r app, http_error, reply) prog" where
  "get_me w env user =
     bindS (liftE (handler_context user)) (\<lambda>auth_user.
     bindS (liftE (own_id auth_user)) (\<lambda>uid.
     bindS (on_error (to_http api_of_user) (get_user env (wb_json w) uid)) (\<lambda>row.
     liftE (found_user row))))"

definition get_user_handler :: "'r web \<Rightarrow> 'r env \<Rightarrow> auth_user option \<Rightarrow> string option \<Rightarrow> ('r app, http_error, reply) prog" where
  "get_user_handler w env user param =
     bindS (liftE (handler_context user)) (\<lambda>auth_user.
     bindS (liftE (parse_id param)) (\<lambda>i.
     bindS (on_error (to_http api_of_user) (get_user_scoped env (wb_json w) i (au_role auth_user))) (\<lambda>row.
     liftE (found_user row))))"

section \<open>Administration\<close>

definition role_errors :: "string option \<Rightarrow> (string \<times> string) list" where
  "role_errors role = (case role of None \<Rightarrow> [] | Some r \<Rightarrow> validate_role r)"

definition requested_role :: "auth_user \<Rightarrow> string option \<Rightarrow> string option" where
  "requested_role user role = (if au_role user = ''system'' then role else None)"

text \<open>The verification of a new account is best effort.\<close>

definition verified_response :: "'r env \<Rightarrow> string \<Rightarrow> user_response \<Rightarrow> ('r app, http_error, user_response) prog" where
  "verified_response env email result s =
     (case auto_verify env email s of
        (Inr _, s') \<Rightarrow> (Inr (result\<lparr>r_email_verified := True\<rparr>), s')
      | (Inl _, s') \<Rightarrow> (Inr result, s'))"

definition create_user_handler ::
    "'r web \<Rightarrow> 'r env \<Rightarrow> auth_user option \<Rightarrow> http_request \<Rightarrow> string \<Rightarrow> ('r app, http_error, reply) prog" where
  "create_user_handler w env user req body =
     bindS (liftE (handler_context user)) (\<lambda>auth_user.
     bindS (decoded (d_create (wb_decoders w)) req body) (\<lambda>payload.
     bindS (liftE (mapErr bad_request (validated w
              (email_errors w (cb_email payload)
               @ min_errors ''password'' (cb_password payload) 8 ''password must be at least 8 characters''
               @ name_errors (cb_name payload) @ role_errors (cb_role payload))))) (\<lambda>_.
     bindS (liftE (mapErr http_of_api (check_password_strength (cb_password payload)))) (\<lambda>_.
     let email = to_lower (cb_email payload) in
     bindS (on_error (to_http api_of_user) (create_user env
              \<lparr>ci_email = email, ci_password = cb_password payload, ci_name = cb_name payload,
               ci_role = requested_role auth_user (cb_role payload)\<rparr> (au_role auth_user))) (\<lambda>created.
     bindS (verified_response env email created) (\<lambda>result.
     retS (json_reply (UserJson result))))))))"

definition update_user_handler ::
    "'r web \<Rightarrow> 'r env \<Rightarrow> auth_user option \<Rightarrow> http_request \<Rightarrow> string option \<Rightarrow> string \<Rightarrow> ('r app, http_error, reply) prog" where
  "update_user_handler w env user req param body =
     bindS (liftE (handler_context user)) (\<lambda>auth_user.
     bindS (liftE (parse_id param)) (\<lambda>i.
     bindS (decoded (d_update (wb_decoders w)) req body) (\<lambda>payload.
     bindS (liftE (mapErr bad_request (validated w
              ((case ub_email payload of None \<Rightarrow> [] | Some e \<Rightarrow> email_errors w e)
               @ (case ub_name payload of None \<Rightarrow> [] | Some n \<Rightarrow> name_errors n)
               @ role_errors (ub_role payload))))) (\<lambda>_.
     if ub_email payload = None \<and> ub_name payload = None \<and> ub_role payload = None
     then raiseS (bad_request ''At least one field (email, name, or role) must be provided'')
     else
       bindS (on_error (to_http api_of_user) (update_user env i
                \<lparr>ui_email = ub_email payload, ui_name = ub_name payload,
                 ui_role = requested_role auth_user (ub_role payload)\<rparr> (au_role auth_user))) (\<lambda>result.
       retS (json_reply (UserJson result)))))))"

definition delete_user_handler ::
    "'r web \<Rightarrow> 'r env \<Rightarrow> auth_user option \<Rightarrow> string option \<Rightarrow> ('r app, http_error, reply) prog" where
  "delete_user_handler w env user param =
     bindS (liftE (handler_context user)) (\<lambda>auth_user.
     bindS (liftE (parse_id param)) (\<lambda>i.
     bindS (liftE (own_id auth_user)) (\<lambda>actor_id.
     bindS (on_error (to_http api_of_user) (delete_user env i (au_role auth_user) actor_id)) (\<lambda>_.
     retS (json_reply (MessageJson ''User deleted successfully''))))))"

definition set_balance_handler ::
    "'r web \<Rightarrow> 'r env \<Rightarrow> auth_user option \<Rightarrow> http_request \<Rightarrow> string option \<Rightarrow> string \<Rightarrow> ('r app, http_error, reply) prog" where
  "set_balance_handler w env user req param body =
     bindS (liftE (handler_context user)) (\<lambda>auth_user.
     bindS (liftE (parse_id param)) (\<lambda>i.
     bindS (decoded (d_set_balance (wb_decoders w)) req body) (\<lambda>balance.
     bindS (on_error (to_http api_of_user) (set_balance env i balance (au_role auth_user))) (\<lambda>result.
     retS (json_reply (BalanceJson (r_balance result) ''Balance updated successfully''))))))"

definition adjust_balance_handler ::
    "'r web \<Rightarrow> 'r env \<Rightarrow> auth_user option \<Rightarrow> http_request \<Rightarrow> string option \<Rightarrow> string \<Rightarrow> ('r app, http_error, reply) prog" where
  "adjust_balance_handler w env user req param body =
     bindS (liftE (handler_context user)) (\<lambda>auth_user.
     bindS (liftE (parse_id param)) (\<lambda>i.
     bindS (decoded (d_adjust (wb_decoders w)) req body) (\<lambda>amount.
     bindS (on_error (to_http api_of_user) (adjust_balance env i amount (au_role auth_user))) (\<lambda>result.
     retS (json_reply (BalanceJson (r_balance result) ''Balance adjusted successfully''))))))"

section \<open>Own account\<close>

definition change_my_password_inner ::
    "'r web \<Rightarrow> 'r env \<Rightarrow> auth_user \<Rightarrow> change_body \<Rightarrow> ('r app, http_error, reply) prog" where
  "change_my_password_inner w env auth_user payload =
     bindS (liftE (mapErr (to_http ApiValidation) (validated w
              (min_errors ''current_password'' (pb_current_password payload) 1 ''current password is required''
               @ min_errors ''new_password'' (pb_new_password payload) 1 ''new password is required'')))) (\<lambda>_.
     bindS (liftE (mapErr http_of_api (check_password_strength (pb_new_password payload)))) (\<lambda>_.
     bindS (liftE (own_id auth_user)) (\<lambda>user_id.
     if pb_current_password payload = pb_new_password payload
     then raiseS (bad_request ''New password must be different from current password'')
     else
       bindS (on_error (to_http api_of_user)
               (change_password env user_id (pb_current_password payload) (pb_new_password payload))) (\<lambda>(user, token_version).
       let secure = wb_cookie_secure w;
           jwt_expiry = (if au_remember auth_user then jwt_remember_expiry_seconds (wb_auth w) else jwt_expiry_seconds (wb_auth w)) in
       bindS (liftE (signed w env (r_id user) (r_role user) jwt_expiry (au_remember auth_user) token_version)) (\<lambda>token.
       retS \<lparr>rp_payload = NewTokenJson ''Password changed successfully'' token,
             rp_cookies = session_cookies env secure token jwt_expiry (token_cookie REFRESH_COOKIE [] 0 secure) jwt_expiry\<rparr>)))))"

definition change_my_password_handler ::
    "'r web \<Rightarrow> 'r env \<Rightarrow> auth_user option \<Rightarrow> http_request \<Rightarrow> string \<Rightarrow> ('r app, http_error, reply) prog" where
  "change_my_password_handler w env user req body =
     bindS (liftE (handler_context user)) (\<lambda>auth_user.
     bindS (decoded (d_change (wb_decoders w)) req body) (\<lambda>payload.
     change_my_password_inner w env auth_user payload))"

definition logout_all_handler :: "'r web \<Rightarrow> 'r env \<Rightarrow> auth_user option \<Rightarrow> ('r app, http_error, reply) prog" where
  "logout_all_handler w env user =
     bindS (liftE (handler_context user)) (\<lambda>auth_user.
     bindS (liftE (own_id auth_user)) (\<lambda>user_id.
     bindS (on_error (\<lambda>_. internal_err ''Failed to revoke all sessions'') (revoke_all_sessions env user_id)) (\<lambda>_.
     bindS (drop_cache env (token_version_key user_id)) (\<lambda>_.
     retS \<lparr>rp_payload = MessageJson ''Logged out from all devices'',
           rp_cookies = clear_auth_cookies (wb_cookie_secure w)\<rparr>))))"

end
