(* ===== verification/Routes.thy ===== *)
theory Routes
  imports ApiHandlers
begin

text \<open>
  \<^verbatim>\<open>server/src/routes\<close> and \<^verbatim>\<open>build_app_router\<close>: which handler answers which method and path, and behind which guards. \<^verbatim>\<open>serve_api\<close> takes
  a request under \<^verbatim>\<open>/api\<close> (prefix stripped, as the nesting does) through authentication, the admin guard, body buffering and its
  handler; \<^verbatim>\<open>serve_auth\<close> one under \<^verbatim>\<open>/api/public/auth\<close> through the rate limiter. A request without a route gets the
  default answer of the framework, which is not modelled.
\<close>

section \<open>Tables\<close>

datatype endpoint =
  Health | GetMe | ChangeMyPassword | LogoutAll
| ListUsers | CreateUser | GetUser | UpdateUser | DeleteUser | SetBalance | AdjustBalance

datatype public_endpoint =
  Login | Register | VerifyEmail | ResendCode | ForgotPassword | ResetPassword | Refresh | Logout | WechatEnabled | WxLogin

type_synonym api_route = "bool \<times> string \<times> string \<times> endpoint"

text \<open>Whether the admin guard is in front, the pattern, the method, the handler.\<close>

definition api_routes :: "api_route list" where
  "api_routes =
     [(False, ''/health'', ''GET'', Health),
      (False, ''/users/me'', ''GET'', GetMe),
      (False, ''/users/me/password'', ''POST'', ChangeMyPassword),
      (False, ''/users/me/logout-all'', ''POST'', LogoutAll),
      (True, ''/users'', ''GET'', ListUsers),
      (True, ''/users'', ''POST'', CreateUser),
      (True, ''/users/{id}'', ''GET'', GetUser),
      (True, ''/users/{id}'', ''PUT'', UpdateUser),
      (True, ''/users/{id}'', ''DELETE'', DeleteUser),
      (True, ''/users/{id}/balance'', ''PUT'', SetBalance),
      (True, ''/users/{id}/balance/adjust'', ''POST'', AdjustBalance)]"

definition segment_matches :: "string \<Rightarrow> string \<Rightarrow> bool" where
  "segment_matches p a = (if braced p \<noteq> None then a \<noteq> [] else p = a)"

definition path_matches :: "string \<Rightarrow> string \<Rightarrow> bool" where
  "path_matches pattern path =
     list_all2 segment_matches (split_on (CHR ''/'') pattern) (split_on (CHR ''/'') path)"

text \<open>The first pattern that matches the path decides; a fixed path stands before a parameter. A route for GET answers HEAD as well.\<close>

definition answers_method :: "string \<Rightarrow> string \<Rightarrow> bool" where
  "answers_method m meth \<longleftrightarrow> m = meth \<or> m = ''GET'' \<and> meth = ''HEAD''"

definition find_route :: "api_route list \<Rightarrow> string \<Rightarrow> string \<Rightarrow> api_route option" where
  "find_route routes meth path =
     (case find (\<lambda>(_, pattern, _, _). path_matches pattern path) routes of
        None \<Rightarrow> None
      | Some (_, pattern, _, _) \<Rightarrow> find (\<lambda>(_, p, m, _). p = pattern \<and> answers_method m meth) routes)"

type_synonym auth_route = "string \<times> string \<times> public_endpoint \<times> string \<times> nat \<times> nat option"

definition auth_routes :: "auth_route list" where
  "auth_routes =
     [(''/login'', ''POST'', Login, ''login'', 20, Some 5),
      (''/register'', ''POST'', Register, ''register'', 10, None),
      (''/verify-email'', ''POST'', VerifyEmail, ''verify-email'', 20, None),
      (''/resend-code'', ''POST'', ResendCode, ''resend-code'', 5, None),
      (''/forgot-password'', ''POST'', ForgotPassword, ''forgot-password'', 5, None),
      (''/reset-password'', ''POST'', ResetPassword, ''reset-password'', 10, None),
      (''/refresh'', ''POST'', Refresh, ''refresh'', 30, None),
      (''/logout'', ''POST'', Logout, ''logout'', 30, None),
      (''/wechat-enabled'', ''GET'', WechatEnabled, ''wechat-enabled'', 60, None),
      (''/wx-login'', ''POST'', WxLogin, ''wx-login'', 20, None)]"

definition make_guard :: "'r limiter \<Rightarrow> string \<Rightarrow> nat \<Rightarrow> nat option \<Rightarrow> 'r rate_limit_guard" where
  "make_guard limiter pre ip_max email_max =
     \<lparr>g_limiter = limiter, ip_max_requests = ip_max, ip_window_seconds = 600,
      email_max_requests = email_max, email_window_seconds = 600, g_key_prefix = pre\<rparr>"

definition find_auth_route :: "string \<Rightarrow> string \<Rightarrow> auth_route option" where
  "find_auth_route meth path = find (\<lambda>(p, m, _). p = path \<and> answers_method m meth) auth_routes"

section \<open>Serving\<close>

definition run_api ::
    "'r web \<Rightarrow> 'r env \<Rightarrow> endpoint \<Rightarrow> auth_user option \<Rightarrow> http_request \<Rightarrow> string option \<Rightarrow> string \<Rightarrow> ('r app, http_error, reply) prog" where
  "run_api w env e user req param body =
     (case e of
        Health \<Rightarrow> health_check w
      | GetMe \<Rightarrow> get_me w env user
      | ChangeMyPassword \<Rightarrow> change_my_password_handler w env user req body
      | LogoutAll \<Rightarrow> logout_all_handler w env user
      | ListUsers \<Rightarrow> list_users_handler w env user req
      | CreateUser \<Rightarrow> create_user_handler w env user req body
      | GetUser \<Rightarrow> get_user_handler w env user param
      | UpdateUser \<Rightarrow> update_user_handler w env user req param body
      | DeleteUser \<Rightarrow> delete_user_handler w env user param
      | SetBalance \<Rightarrow> set_balance_handler w env user req param body
      | AdjustBalance \<Rightarrow> adjust_balance_handler w env user req param body)"

definition serve_api ::
    "'r web \<Rightarrow> 'r env \<Rightarrow> string \<Rightarrow> http_request \<Rightarrow> ('r app, http_error, reply option) prog" where
  "serve_api w env reason req =
     (case find_route api_routes (rq_method req) (rq_path req) of
        None \<Rightarrow> retS None
      | Some (admin, pattern, _, e) \<Rightarrow>
          bindS (auth_middleware (wb_parsers w) (wb_crypto w) (jwt_secret (wb_auth w)) env req) (\<lambda>user.
          bindS (liftE (if admin then require_admin user else Inr ())) (\<lambda>_.
          bindS (liftE (axum_body reason req)) (\<lambda>body.
          bindS (run_api w env e user req (get_param (Some (''/api'' @ pattern)) (rq_path req) ''id'') body) (\<lambda>r.
          retS (Some r))))))"

definition run_public ::
    "'r web \<Rightarrow> 'r env \<Rightarrow> public_endpoint \<Rightarrow> http_request \<Rightarrow> string \<Rightarrow> ('r srv, http_error, reply) prog" where
  "run_public w env e req body =
     (case e of
        Login \<Rightarrow> login_handler w env req body
      | Register \<Rightarrow> on_snd (register_handler w env req body)
      | VerifyEmail \<Rightarrow> on_snd (verify_email_handler w env req body)
      | ResendCode \<Rightarrow> on_snd (resend_code_handler w env req body)
      | ForgotPassword \<Rightarrow> on_snd (forgot_password_handler w env req body)
      | ResetPassword \<Rightarrow> on_snd (reset_password_handler w env req body)
      | Refresh \<Rightarrow> on_snd (refresh_inner w env req)
      | Logout \<Rightarrow> on_snd (logout_handler w env req)
      | WechatEnabled \<Rightarrow> wechat_enabled_handler w
      | WxLogin \<Rightarrow> wx_login_handler w env req body)"

text \<open>The limiter counts on the same server as the cache.\<close>

definition limited ::
    "'r web \<Rightarrow> 'r env \<Rightarrow> 'r rate_limit_guard \<Rightarrow> http_request \<Rightarrow> ('r limiter \<times> 'r srv, http_error, unit) prog" where
  "limited w env guard req s =
     (case rate_limit_middleware (wb_parsers w) (cache_time env) guard req (fst s, redis (snd (snd s))) of
        (x, (l, r)) \<Rightarrow> (x, (l, (fst (snd s), (snd (snd s))\<lparr>redis := r\<rparr>))))"

definition serve_auth ::
    "'r web \<Rightarrow> 'r env \<Rightarrow> string \<Rightarrow> http_request \<Rightarrow> ('r limiter \<times> 'r srv, http_error, reply option) prog" where
  "serve_auth w env reason req s =
     (case find_auth_route (rq_method req) (rq_path req) of
        None \<Rightarrow> (Inr None, s)
      | Some (_, _, e, pre, ip_max, email_max) \<Rightarrow>
          bindS (limited w env (make_guard (fst s) pre ip_max email_max) req) (\<lambda>_.
          bindS (liftE (axum_body reason req)) (\<lambda>body.
          bindS (on_snd (run_public w env e req body)) (\<lambda>r.
          retS (Some r)))) s)"

text \<open>The callback of WeChat, outside both nests: its routes are there when WeChat is configured. Its libraries, the query parser and the random numbers
  are parameters.\<close>

definition serve_callback ::
    "'r web \<Rightarrow> 'r env \<Rightarrow> wx_libs \<Rightarrow> (string \<Rightarrow> (string \<times> string) list option) \<Rightarrow> (nat \<Rightarrow> nat) \<Rightarrow> string \<Rightarrow> http_request
     \<Rightarrow> ('r srv, http_error, reply option) prog" where
  "serve_callback w env l parse_query rng reason req =
     (if wb_wechat w = None \<or> rq_path req \<noteq> ''/api/public/wechat/callback'' then retS None
      else if answers_method ''GET'' (rq_method req)
      then bindS (liftE (wechat_callback_get w l parse_query req)) (\<lambda>r. retS (Some r))
      else if rq_method req = ''POST''
      then bindS (liftE (axum_body reason req)) (\<lambda>body.
           bindS (wechat_callback_post w l parse_query env rng req body) (\<lambda>r. retS (Some r)))
      else retS None)"

section \<open>The routing of a request\<close>

lemma segs_api:
  "split_on (CHR ''/'') ''/users/{id}'' = ['''', ''users'', ''{id}'']"
  "split_on (CHR ''/'') ''/users/me'' = ['''', ''users'', ''me'']"
  "split_on (CHR ''/'') ''/users'' = ['''', ''users'']"
  "split_on (CHR ''/'') ''/health'' = ['''', ''health'']"
  by simp_all

lemma braced_id: "braced ''{id}'' = Some ''id''" "braced ''users'' = None" "braced '''' = None" "braced ''me'' = None"
  by (simp_all add: braced_def strip_prefix_def)

lemma route_examples:
  "find_route api_routes ''GET'' ''/users/me'' = Some (False, ''/users/me'', ''GET'', GetMe)"
  "find_route api_routes ''DELETE'' ''/users/42'' = Some (True, ''/users/{id}'', ''DELETE'', DeleteUser)"
  "find_route api_routes ''DELETE'' ''/users/me'' = None"
  "get_param (Some ''/api/users/{id}'') ''/users/42'' ''id'' = Some ''42''"
  by code_simp+

lemma find_mem: "find P xs = Some x \<Longrightarrow> x \<in> set xs \<and> P x"
  by (induction xs) (auto split: if_splits)

text \<open>Which endpoints stand behind the admin guard.\<close>

definition admin_endpoint :: "endpoint \<Rightarrow> bool" where
  "admin_endpoint e \<longleftrightarrow> e \<notin> {Health, GetMe, ChangeMyPassword, LogoutAll}"

lemma route_level: "find_route api_routes meth path = Some (admin, pattern, m, e) \<Longrightarrow> admin \<longleftrightarrow> admin_endpoint e"
proof -
  assume "find_route api_routes meth path = Some (admin, pattern, m, e)"
  then have "(admin, pattern, m, e) \<in> set api_routes"
    by (auto simp: find_route_def split: option.splits prod.splits dest: find_mem)
  then show ?thesis by (auto simp: api_routes_def admin_endpoint_def)
qed

end
