(* ===== verification/Served.thy ===== *)
theory Served
  imports Routes
begin

text \<open>
  What every request keeps. \<^verbatim>\<open>keeps I m\<close>: running \<^verbatim>\<open>m\<close> does not break \<^verbatim>\<open>I\<close>, whether it succeeds or not. The locale
  \<^verbatim>\<open>served_invariant\<close> asks it of the operations of the services, under a configuration \<^verbatim>\<open>W\<close>, a limiter \<^verbatim>\<open>L\<close> and public
  endpoints \<^verbatim>\<open>E\<close>; inside it, all handlers, the middleware and the routes are shown to keep it too, once for every invariant.
  \<^verbatim>\<open>service_invariant\<close> is the case of an invariant of the tables alone, whatever the configuration.
\<close>

section \<open>Keeping an invariant\<close>

definition keeps :: "('s \<Rightarrow> bool) \<Rightarrow> ('s, 'e, 'a) prog \<Rightarrow> bool" where
  "keeps I m \<longleftrightarrow> (\<forall>s. I s \<longrightarrow> I (snd (m s)))"

named_theorems keeps_intros \<open>operations that keep an invariant\<close>

lemma keepsI: "(\<And>s. I s \<Longrightarrow> I (snd (m s))) \<Longrightarrow> keeps I m"
  by (simp add: keeps_def)

lemma keepsD: "keeps I m \<Longrightarrow> I s \<Longrightarrow> I (snd (m s))"
  by (simp add: keeps_def)

lemma keeps_basic [keeps_intros]:
  "keeps I (retS a)" "keeps I (raiseS e)" "keeps I (liftE r)"
  by (simp_all add: keeps_def)

lemma keeps_bindS [keeps_intros]:
  assumes "keeps I m" "\<And>a. keeps I (f a)"
  shows "keeps I (bindS m f)"
proof (rule keepsI)
  fix s assume "I s"
  then have "I (snd (m s))" by (rule keepsD[OF assms(1)])
  then show "I (snd (bindS m f s))"
    using keepsD[OF assms(2)] by (cases "m s") (auto simp: bindS_def split: sum.split)
qed

lemma keeps_liftE [keeps_intros]:
  "(\<And>a. r = Inr a \<Longrightarrow> keeps I (f a)) \<Longrightarrow> keeps I (bindS (liftE r) f)"
  by (cases r) (auto simp: keeps_def bindS_def)

lemma keeps_on_error [keeps_intros]: "keeps I m \<Longrightarrow> keeps I (on_error g m)"
  by (auto simp: keeps_def on_error_def split: prod.splits)

lemma keeps_swallow [keeps_intros]: "keeps I m \<Longrightarrow> keeps I (swallow e m)"
  by (auto simp: keeps_def swallow_def split: prod.splits sum.splits)

lemma keeps_drop_error [keeps_intros]: "keeps I m \<Longrightarrow> keeps I (drop_error m)"
  by (simp add: keeps_def drop_error_def)

lemma keeps_decoded [keeps_intros]: "keeps I (decoded d req body)"
  by (simp add: keeps_def decoded_def)

text \<open>The invariant of a part of the state.\<close>

definition of_snd :: "('s \<Rightarrow> bool) \<Rightarrow> 'b \<times> 's \<Rightarrow> bool" where "of_snd I w = I (snd w)"

lemma keeps_on_snd [keeps_intros]: "keeps I m \<Longrightarrow> keeps (of_snd I) (on_snd m)"
  by (auto simp: keeps_def on_snd_def of_snd_def split: prod.splits)

lemma keeps_if [keeps_intros]: "(b \<Longrightarrow> keeps I m) \<Longrightarrow> (\<not> b \<Longrightarrow> keeps I n) \<Longrightarrow> keeps I (if b then m else n)"
  by simp

lemma keeps_option [keeps_intros]:
  "(x = None \<Longrightarrow> keeps I m) \<Longrightarrow> (\<And>a. x = Some a \<Longrightarrow> keeps I (f a)) \<Longrightarrow> keeps I (case x of None \<Rightarrow> m | Some a \<Rightarrow> f a)"
  by (cases x) auto

lemma keeps_sum [keeps_intros]:
  "(\<And>e. x = Inl e \<Longrightarrow> keeps I (f e)) \<Longrightarrow> (\<And>a. x = Inr a \<Longrightarrow> keeps I (g a)) \<Longrightarrow>
    keeps I (case x of Inl e \<Rightarrow> f e | Inr a \<Rightarrow> g a)"
  by (cases x) auto

lemma keeps_prod [keeps_intros]: "(\<And>a b. keeps I (f a b)) \<Longrightarrow> keeps I (case x of (a, b) \<Rightarrow> f a b)"
  by (cases x) auto

lemma keeps_redis:
  assumes "\<And>s r. I s \<Longrightarrow> I (s\<lparr>redis := r\<rparr>)"
  shows "keeps I (drop_cache env key)" "keeps (of_snd I) (on_captcha m)"
  using assms
  by (auto simp: keeps_def drop_cache_def cache_do_def bindS_def on_captcha_def of_snd_def split: prod.splits)

text \<open>What \<^verbatim>\<open>serde\<close> documents for a 64-bit field: only numbers of 64 bits are read.\<close>

definition decoders_ok :: "decoders \<Rightarrow> bool" where
  "decoders_ok d \<longleftrightarrow>
     (\<forall>body b. from_json (d_set_balance d) body = Inr b \<or> from_form (d_set_balance d) body = Inr b \<longrightarrow> b \<le> i64_max)"

lemma keeps_balance_body:
  assumes "decoders_ok ds" "\<And>b. b \<le> i64_max \<Longrightarrow> keeps I (f b)"
  shows "keeps I (bindS (decoded (d_set_balance ds) req body) f)"
  unfolding decoded_def
proof (rule keeps_liftE)
  fix b assume "mapErr bad_request (parse_json_or_form (d_set_balance ds) req body) = Inr b"
  then have "b \<le> i64_max"
    using assms(1) by (auto simp: decoders_ok_def parse_json_or_form_def Let_def split: if_splits)
  then show "keeps I (f b)" by (rule assms(2))
qed

text \<open>The captcha login reads the users and changes only the Redis server.\<close>

lemma captcha_login_users:
  "snd (snd (verify_and_login store (db_binding_store env) cfg t acc openid code w)) = snd w"
  by (auto simp: verify_and_login_def bindS_def on_fst_def on_snd_def db_binding_store_def db_stmt_def read_db_def
      split: prod.splits sum.splits if_splits)

lemma keeps_captcha:
  assumes "\<And>s r. I s \<Longrightarrow> I (s\<lparr>redis := r\<rparr>)"
  shows "keeps (of_snd I) (captcha_user wx env code)"
proof -
  have v: "keeps (of_snd I) (on_wechat (verify_and_login store (db_binding_store env) cfg t acc openid code))"
    for store cfg t acc openid code
  proof (rule keepsI)
    fix w :: "'a srv" assume "of_snd I w"
    then have w: "I (snd w)" by (simp add: of_snd_def)
    let ?r = "verify_and_login store (db_binding_store env) cfg t acc openid code ((fst w, redis (snd w)), snd w)"
    obtain x c r s where r: "?r = (x, ((c, r), s))" by (metis prod.exhaust)
    then have "s = snd w" using captcha_login_users[of store env cfg t acc openid code "((fst w, redis (snd w)), snd w)"] by simp
    then show "of_snd I (snd (on_wechat (verify_and_login store (db_binding_store env) cfg t acc openid code) w))"
      using assms[OF w] r by (simp add: on_wechat_def of_snd_def)
  qed
  show ?thesis
    unfolding captcha_user_def by (intro keeps_intros keeps_redis(2)[of I, OF assms] v)
qed

lemma limited_keeps:
  assumes "\<And>s r. I s \<Longrightarrow> I (s\<lparr>redis := r\<rparr>)"
  shows "keeps (of_snd (of_snd I)) (limited w env g req)"
  using assms by (auto simp: keeps_def limited_def of_snd_def split: prod.splits)

section \<open>Every request\<close>

text \<open>An invariant of the tables, whatever the limiter does.\<close>

definition served_by :: "('r limiter \<Rightarrow> bool) \<Rightarrow> ('r app \<Rightarrow> bool) \<Rightarrow> 'r limiter \<times> 'r srv \<Rightarrow> bool" where
  "served_by L I w \<longleftrightarrow> L (fst w) \<and> I (snd (snd w))"

lemma served_by_on_snd [keeps_intros]: "keeps (of_snd I) m \<Longrightarrow> keeps (served_by L I) (on_snd m)"
  by (auto simp: keeps_def on_snd_def of_snd_def served_by_def split: prod.splits) (metis snd_conv)+

locale served_invariant =
  fixes I :: "'r app \<Rightarrow> bool" and env :: "'r env" and W :: "'r web \<Rightarrow> bool" and L :: "'r limiter \<Rightarrow> bool"
    and E :: "public_endpoint \<Rightarrow> bool"
  assumes captcha: "W w \<Longrightarrow> wb_wechat w = Some wx \<Longrightarrow> keeps (of_snd I) (captcha_user wx env code)"
    and generation: "W w \<Longrightarrow> wb_wechat w = Some wx \<Longrightarrow> keeps (of_snd I)
      (on_captcha (generate_captcha (redis_captcha_store (wx_store wx)) (wx_login_config wx) rng (cache_time env) acc openid))"
    and limiting: "W w \<Longrightarrow> keeps (served_by L I) (\<lambda>s. limited w env (make_guard (fst s) pre n em) req s)"
    and login: "keeps I (login k svc env rq)"
    and create_user: "keeps I (create_user env ci actor)"
    and send_verification: "keeps I (send_verification_email cs env email)"
    and auto_verify: "keeps I (auto_verify env email)"
    and verify_email: "keeps I (verify_email cs env email code)"
    and resend_code: "keeps I (resend_code cs env email)"
    and request_reset: "keeps I (request_reset cs env email)"
    and reset_password: "E ResetPassword \<Longrightarrow> keeps I (reset_password cs env email code pw)"
    and rotate: "keeps I (rotate_refresh_token env h h' e)"
    and delete_refresh: "keeps I (delete_refresh_token env h)"
    and revoke: "keeps I (bindS (on_error (e1 :: auth_error \<Rightarrow> http_error) (revoke_all_sessions env uid)) (\<lambda>_.
      bindS (drop_cache env (token_version_key uid)) (\<lambda>_. retS (r :: reply))))"
    and list_users: "keeps I (list_users env pp actor)"
    and get_user: "W w \<Longrightarrow> keeps I (get_user env (wb_json w) uid)"
    and get_user_scoped: "W w \<Longrightarrow> keeps I (get_user_scoped env (wb_json w) uid actor)"
    and update_user: "keeps I (update_user env uid ui actor)"
    and delete_user: "keeps I (delete_user env uid actor aid)"
    and set_balance: "b \<le> i64_max \<Longrightarrow> keeps I (set_balance env uid b actor)"
    and adjust_balance: "keeps I (adjust_balance env uid m actor)"
    and change_password: "keeps I (change_password env uid p q)"
    and check_version: "keeps I (verify_token_version env uid v)"
begin

lemmas services = login create_user send_verification auto_verify verify_email resend_code request_reset
  rotate delete_refresh revoke list_users update_user delete_user adjust_balance change_password

lemma user_handlers:
  "keeps I (list_users_handler w env u req)" "keeps I (delete_user_handler w env u param)" "keeps I (logout_all_handler w env u)"
  unfolding list_users_handler_def delete_user_handler_def logout_all_handler_def
  by (intro keeps_liftE services | intro keeps_intros services)+

lemma read_handlers:
  assumes "W w"
  shows "keeps I (get_me w env u)" "keeps I (get_user_handler w env u param)"
  unfolding get_me_def get_user_handler_def
  by (intro keeps_intros get_user[OF assms] get_user_scoped[OF assms])+

lemma write_handlers:
  "keeps I (update_user_handler w env u req param body)" "keeps I (adjust_balance_handler w env u req param body)"
  "keeps I (change_my_password_handler w env u req body)"
  unfolding update_user_handler_def adjust_balance_handler_def change_my_password_handler_def change_my_password_inner_def Let_def
  by (intro keeps_intros services)+

lemma create_handler: "keeps I (create_user_handler w env u req body)"
proof -
  have "keeps I (verified_response env email r)" for email r
    using keepsD[OF auto_verify[of email]]
    by (auto simp: keeps_def verified_response_def split: prod.splits sum.splits) (metis snd_conv)+
  then show ?thesis
    unfolding create_user_handler_def Let_def by (intro keeps_intros services)
qed

lemma set_balance_handler:
  assumes "decoders_ok (wb_decoders w)"
  shows "keeps I (set_balance_handler w env u req param body)"
  unfolding set_balance_handler_def
proof (intro keeps_bindS[OF keeps_basic(3)] keeps_balance_body[OF assms])
  fix b :: int assume "b \<le> i64_max"
  then show "keeps I (bindS (on_error g (set_balance env i b a)) (\<lambda>result. retS (h result)))" for g i a and h :: "_ \<Rightarrow> reply"
    by (intro keeps_bindS keeps_on_error keeps_basic set_balance)
qed

lemma api: "W w \<Longrightarrow> decoders_ok (wb_decoders w) \<Longrightarrow> keeps I (run_api w env e u req param body)"
  unfolding run_api_def
  by (cases e) (simp_all add: user_handlers read_handlers write_handlers create_handler set_balance_handler health_check_def keeps_basic)

lemma auth: "keeps I (auth_middleware ps k secret env req)"
proof (rule keepsI)
  fix s assume "I s"
  then have "I (snd (verify_token_version env uid v s))" for uid v by (rule keepsD[OF check_version])
  then show "I (snd (auth_middleware ps k secret env req s))"
    using \<open>I s\<close> by (auto simp: auth_middleware_def split: option.split prod.splits sum.split) (metis snd_conv)+
qed

lemma api_served: "W w \<Longrightarrow> decoders_ok (wb_decoders w) \<Longrightarrow> keeps I (serve_api w env reason req)"
  unfolding serve_api_def by (intro keeps_intros auth api)

lemma public_handlers:
  "keeps I (verify_email_handler w env req body)" "keeps I (resend_code_handler w env req body)"
  "keeps I (forgot_password_handler w env req body)" "keeps I (refresh_inner w env req)" "keeps I (logout_handler w env req)"
  unfolding verify_email_handler_def resend_code_handler_def forgot_password_handler_def refresh_inner_def logout_handler_def Let_def
  by (intro keeps_intros services)+

lemma reset_handler: "E ResetPassword \<Longrightarrow> keeps I (reset_password_handler w env req body)"
  unfolding reset_password_handler_def reset_password_inner_def Let_def
  by (intro keeps_intros reset_password)

lemma register_handler: "keeps I (register_handler w env req body)"
proof -
  have "keeps I (register_verification w env email)" for email
  proof (rule keepsI)
    fix s assume "I s"
    then have "I (snd (send_verification_email (wb_codes w) env email s))" by (rule keepsD[OF send_verification])
    then show "I (snd (register_verification w env email s))"
      using keepsD[OF auto_verify[of email]]
      by (auto simp: register_verification_def split: prod.splits sum.splits) (metis snd_conv)+
  qed
  then show ?thesis unfolding register_handler_def Let_def by (intro keeps_intros services)
qed

lemma logins:
  assumes "W w"
  shows "keeps (of_snd I) (login_handler w env req body)" "keeps (of_snd I) (wx_login_handler w env req body)"
proof -
  have "keeps I (lookup_user_role_and_version env uid)" for uid
    by (auto simp: keeps_def lookup_user_role_and_version_def bindS_def db_stmt_def read_db_def
        split: prod.splits sum.splits if_splits)
  then have "keeps (of_snd I) (wx_login_inner w wx env code)" if "wb_wechat w = Some wx" for wx code
    unfolding wx_login_inner_def Let_def by (intro keeps_intros captcha[OF assms that])
  then show "keeps (of_snd I) (wx_login_handler w env req body)"
    unfolding wx_login_handler_def by (intro keeps_bindS[OF keeps_decoded] keeps_liftE) simp
  have "keeps (of_snd I) (login_captcha w env code)" for code
    unfolding login_captcha_def Let_def by (intro keeps_intros captcha[OF assms])
  then show "keeps (of_snd I) (login_handler w env req body)"
    unfolding login_handler_def login_inner_def Let_def
    by (intro keeps_intros login)
qed

lemma public: "W w \<Longrightarrow> E e \<Longrightarrow> keeps (of_snd I) (run_public w env e req body)"
  unfolding run_public_def
  by (cases e) (simp_all add: logins public_handlers register_handler reset_handler keeps_on_snd wechat_enabled_handler_def keeps_basic)

lemma callback_served: "W w \<Longrightarrow> keeps (of_snd I) (serve_callback w env l pq rng reason req)"
proof -
  assume w: "W w"
  have m: "keeps (of_snd I) (message_reply wx env rng msg)" if "wb_wechat w = Some wx" for wx msg
    using keepsD[OF generation[OF w that]]
    by (auto simp: keeps_def message_reply_def Let_def split: prod.splits sum.splits) (metis snd_conv)+
  have p: "keeps (of_snd I) (wechat_process_callback w l pq env rng req body)" for body
    unfolding wechat_process_callback_def
    by (intro keeps_bindS[OF keeps_basic(3)] keeps_liftE m) (auto simp: ok_or_def split: option.splits)
  have "keeps (of_snd I) (wechat_callback_post w l pq env rng req body)" for body
    using keepsD[OF p] by (auto simp: keeps_def wechat_callback_post_def split: prod.splits sum.splits) (metis snd_conv)+
  then show ?thesis unfolding serve_callback_def by (intro keeps_intros)
qed

lemma public_served:
  assumes "W w" "\<And>p m e pre n em. find_auth_route (rq_method req) (rq_path req) = Some (p, m, e, pre, n, em) \<Longrightarrow> E e"
  shows "keeps (served_by L I) (serve_auth w env reason req)"
proof (rule keepsI)
  fix s :: "'r limiter \<times> 'r srv" assume s: "served_by L I s"
  show "served_by L I (snd (serve_auth w env reason req s))"
  proof (cases "find_auth_route (rq_method req) (rq_path req)")
    case None
    then show ?thesis using s by (simp add: serve_auth_def)
  next
    case (Some route)
    obtain p m e pre n em where route: "route = (p, m, e, pre, n, em)" by (metis prod.exhaust)
    have "E e" using assms(2) Some route by blast
    then have "keeps (served_by L I)
       (bindS (\<lambda>s. limited w env (make_guard (fst s) pre n em) req s) (\<lambda>_. bindS (liftE (axum_body reason req)) (\<lambda>body.
          bindS (on_snd (run_public w env e req body)) (\<lambda>r. retS (Some r)))))"
      by (intro keeps_intros limiting public assms(1))
    from keepsD[OF this s] show ?thesis
      using Some route by (simp add: serve_auth_def bindS_def)
  qed
qed

end

text \<open>An invariant that does not look at the Redis server asks nothing of the configuration, the limiter and the endpoints.\<close>

locale service_invariant =
  fixes I :: "'r app \<Rightarrow> bool" and env :: "'r env"
  assumes redis: "I s \<Longrightarrow> I (s\<lparr>redis := r\<rparr>)"
    and login: "keeps I (login k svc env rq)"
    and create_user: "keeps I (create_user env ci actor)"
    and send_verification: "keeps I (send_verification_email cs env email)"
    and auto_verify: "keeps I (auto_verify env email)"
    and verify_email: "keeps I (verify_email cs env email code)"
    and resend_code: "keeps I (resend_code cs env email)"
    and request_reset: "keeps I (request_reset cs env email)"
    and reset_password: "keeps I (reset_password cs env email code pw)"
    and rotate: "keeps I (rotate_refresh_token env h h' e)"
    and delete_refresh: "keeps I (delete_refresh_token env h)"
    and revoke: "keeps I (revoke_all_sessions env uid)"
    and list_users: "keeps I (list_users env pp actor)"
    and get_user: "keeps I (get_user env j uid)"
    and get_user_scoped: "keeps I (get_user_scoped env j uid actor)"
    and update_user: "keeps I (update_user env uid ui actor)"
    and delete_user: "keeps I (delete_user env uid actor aid)"
    and set_balance: "b \<le> i64_max \<Longrightarrow> keeps I (set_balance env uid b actor)"
    and adjust_balance: "keeps I (adjust_balance env uid m actor)"
    and change_password: "keeps I (change_password env uid p q)"
    and check_version: "keeps I (verify_token_version env uid v)"

sublocale service_invariant \<subseteq> whole: served_invariant I env "\<lambda>_. True" "\<lambda>_. True" "\<lambda>_. True"
proof
  fix w :: "'r web" and pre n em and req :: http_request
  show "keeps (served_by (\<lambda>_. True) I) (\<lambda>s. limited w env (make_guard (fst s) pre n em) req s)"
    using limited_keeps[of I w env _ req, OF redis] by (simp add: keeps_def served_by_def of_snd_def)
qed (intro keeps_captcha keeps_intros keeps_redis(1)[of I] keeps_redis(2)[of I] redis login create_user send_verification auto_verify verify_email
  resend_code request_reset reset_password rotate delete_refresh revoke list_users get_user get_user_scoped update_user
  delete_user set_balance adjust_balance change_password check_version; assumption)+

context service_invariant
begin

lemmas served = whole.served_invariant_axioms

end

section \<open>The server\<close>

datatype 'r request_kind =
  ApiRequestTo "'r web" "'r env" string http_request
| AuthRequestTo "'r web" "'r env" string http_request
| CallbackTo "'r web" "'r env" wx_libs "string \<Rightarrow> (string \<times> string) list option" "nat \<Rightarrow> nat" string http_request

definition serve :: "'r request_kind \<Rightarrow> 'r limiter \<times> 'r srv \<Rightarrow> (http_error, reply option) res \<times> 'r limiter \<times> 'r srv" where
  "serve q s =
     (case q of
        ApiRequestTo w env reason req \<Rightarrow>
          (case serve_api w env reason req (snd (snd s)) of (x, t) \<Rightarrow> (x, (fst s, (fst (snd s), t))))
      | AuthRequestTo w env reason req \<Rightarrow> serve_auth w env reason req s
      | CallbackTo w env l pq rng reason req \<Rightarrow>
          (case serve_callback w env l pq rng reason req (snd s) of (x, t) \<Rightarrow> (x, (fst s, t))))"

definition request_env :: "'r request_kind \<Rightarrow> 'r env" where
  "request_env q = (case q of ApiRequestTo w env r req \<Rightarrow> env | AuthRequestTo w env r req \<Rightarrow> env | CallbackTo w env l pq rng r req \<Rightarrow> env)"

definition request_web :: "'r request_kind \<Rightarrow> 'r web" where
  "request_web q = (case q of ApiRequestTo w env r req \<Rightarrow> w | AuthRequestTo w env r req \<Rightarrow> w | CallbackTo w env l pq rng r req \<Rightarrow> w)"

definition serve_all :: "'r request_kind list \<Rightarrow> 'r limiter \<times> 'r srv \<Rightarrow> 'r limiter \<times> 'r srv" where
  "serve_all qs s = foldl (\<lambda>s q. snd (serve q s)) s qs"

text \<open>The public endpoints a request may reach.\<close>

definition admits :: "(public_endpoint \<Rightarrow> bool) \<Rightarrow> 'r request_kind \<Rightarrow> bool" where
  "admits E q =
     (case q of
        ApiRequestTo w env r req \<Rightarrow> True
      | AuthRequestTo w env r req \<Rightarrow>
          (case find_auth_route (rq_method req) (rq_path req) of None \<Rightarrow> True | Some (_, _, e, _) \<Rightarrow> E e)
      | CallbackTo w env l pq rng r req \<Rightarrow> True)"

lemma serve_keeps_under:
  assumes "served_invariant I (request_env q) W L E" "W (request_web q)" "decoders_ok (wb_decoders (request_web q))" "admits E q"
    and "served_by L I s"
  shows "served_by L I (snd (serve q s))"
proof (cases q)
  case (ApiRequestTo w env reason req)
  then have inv: "served_invariant I env W L E" and d: "W w" "decoders_ok (wb_decoders w)"
    using assms by (simp_all add: request_env_def request_web_def)
  obtain x t where t: "serve_api w env reason req (snd (snd s)) = (x, t)" by (metis prod.exhaust)
  show ?thesis
    using keepsD[OF served_invariant.api_served[OF inv d, of reason req], of "snd (snd s)"] assms(5) ApiRequestTo t
    by (simp add: serve_def served_by_def)
next
  case (AuthRequestTo w env reason req)
  then have inv: "served_invariant I env W L E" and w: "W w" using assms by (simp_all add: request_env_def request_web_def)
  have "served_by L I (snd (serve_auth w env reason req s))"
    by (rule keepsD[OF served_invariant.public_served[OF inv w]]) (use assms(4,5) AuthRequestTo in \<open>auto simp: admits_def\<close>)
  then show ?thesis using AuthRequestTo by (simp add: serve_def)
next
  case (CallbackTo w env l pq rng reason req)
  then have inv: "served_invariant I env W L E" and w: "W w" using assms by (simp_all add: request_env_def request_web_def)
  obtain x t where t: "serve_callback w env l pq rng reason req (snd s) = (x, t)" by (metis prod.exhaust)
  show ?thesis
    using keepsD[OF served_invariant.callback_served[OF inv w, of l pq rng reason req], of "snd s"] assms(5) CallbackTo t
    by (simp add: serve_def served_by_def of_snd_def)
qed

lemma serve_keeps:
  assumes "service_invariant I (request_env q)" "decoders_ok (wb_decoders (request_web q))" "I (snd (snd s))"
  shows "I (snd (snd (snd (serve q s))))"
proof -
  have "served_by (\<lambda>_. True) I (snd (serve q s))"
    by (rule serve_keeps_under[OF service_invariant.served[OF assms(1)]])
      (use assms(2,3) in \<open>auto simp: served_by_def admits_def split: request_kind.split option.split\<close>)
  then show ?thesis by (simp add: served_by_def)
qed

lemma serve_all_keeps:
  assumes "\<And>q. q \<in> set qs \<Longrightarrow> service_invariant I (request_env q) \<and> decoders_ok (wb_decoders (request_web q))"
    and "I (snd (snd s))"
  shows "I (snd (snd (serve_all qs s)))"
  using assms
proof (induction qs arbitrary: s)
  case Nil
  then show ?case by (simp add: serve_all_def)
next
  case (Cons q qs)
  have "I (snd (snd (snd (serve q s))))"
    by (rule serve_keeps) (use Cons.prems in simp_all)
  then have "I (snd (snd (serve_all qs (snd (serve q s)))))"
    by (rule Cons.IH[rotated]) (use Cons.prems(1) in simp)
  then show ?case by (simp add: serve_all_def)
qed

end
