(* ===== verification/Sessions.thy ===== *)
theory Sessions
  imports Served
begin

text \<open>
  Two invariants of the whole server, as interpretations of \<^verbatim>\<open>service_invariant\<close>: the tables stay well formed, and the version of
  a user's tokens only grows and grows with every change of the role or the password. The second needs requests that do not
  interleave; \<^verbatim>\<open>role_change_race\<close> shows why.
\<close>

section \<open>The tables\<close>

definition tables_env :: "'r env \<Rightarrow> bool" where
  "tables_env env \<longleftrightarrow> (\<forall>t. db_ok t \<longrightarrow> db_ok (between env t))"

interpretation tables: service_invariant "\<lambda>s. tables_env env \<longrightarrow> db_ok s" env for env
proof
  fix s :: "'a app" and r
  show "tables_env env \<longrightarrow> db_ok s \<Longrightarrow> tables_env env \<longrightarrow> db_ok (s\<lparr>redis := r\<rparr>)" by simp
qed (simp_all add: keeps_def tables_env_def login_db_ok create_user_db_ok send_verification_db_ok auto_verify_db_ok
    verify_email_db_ok resend_code_db_ok request_reset_db_ok reset_password_db_ok rotate_db_ok delete_refresh_db_ok
    revoke_db_ok list_users_db_ok get_user_db_ok get_user_scoped_db_ok update_user_db_ok delete_user_db_ok
    set_balance_db_ok adjust_balance_db_ok change_password_db_ok verify_token_version_db_ok)

section \<open>Versions\<close>

definition matures :: "user \<Rightarrow> user \<Rightarrow> bool" where
  "matures u v \<longleftrightarrow> u_token_version u \<le> u_token_version v
     \<and> (u_token_version v = u_token_version u \<longrightarrow> u_role v = u_role u \<and> u_password_hash v = u_password_hash u)"

text \<open>Every row of \<^verbatim>\<open>t\<close> is new or has matured from one of \<^verbatim>\<open>s\<close>.\<close>

definition grows :: "'r env \<Rightarrow> 'r app \<Rightarrow> 'r app \<Rightarrow> bool" where
  "grows env s t \<longleftrightarrow> (\<forall>v \<in> set (users t). u_id v = new_id env \<or> (\<exists>u \<in> set (users s). u_id u = u_id v \<and> matures u v))"

definition ages :: "'r app \<Rightarrow> 'r app \<Rightarrow> bool" where
  "ages s t \<longleftrightarrow> (\<forall>u \<in> set (users s). \<forall>v \<in> set (users t). u_id v = u_id u \<longrightarrow> matures u v)"

lemma matures_refl [simp]: "matures u u"
  by (simp add: matures_def)

lemma matures_trans: "matures u v \<Longrightarrow> matures v w \<Longrightarrow> matures u w"
  by (auto simp: matures_def)

lemma ages_grows:
  assumes "ages s t" "grows env t t'" "new_id env \<notin> u_id ` set (users s)"
  shows "ages s t'"
  unfolding ages_def
proof (intro ballI impI)
  fix u v assume u: "u \<in> set (users s)" "v \<in> set (users t')" "u_id v = u_id u"
  then have "u_id v \<noteq> new_id env" using assms(3) by (metis image_eqI)
  then obtain x where "x \<in> set (users t)" "u_id x = u_id v" "matures x v" using assms(2) u(2) by (auto simp: grows_def)
  then show "matures u v" using assms(1) u by (auto simp: ages_def intro: matures_trans)
qed

lemma grows_same: "users t = users s \<Longrightarrow> grows env s t"
  by (auto simp: grows_def)

lemma grows_redis [simp]: "grows env s (t\<lparr>redis := r\<rparr>) = grows env s t"
  by (simp add: grows_def)

lemma grows_rollback [simp]: "grows env s (rollback s t)"
  by (rule grows_same) simp

lemma grows_map:
  "users t = map f (users s) \<Longrightarrow> (\<And>u. u \<in> set (users s) \<Longrightarrow> u_id (f u) = u_id u \<and> matures u (f u)) \<Longrightarrow> grows env s t"
  by (auto simp: grows_def)

lemma grows_insert: "insert_user u s = DbOk t \<Longrightarrow> u_id u = new_id env \<Longrightarrow> grows env s t"
  by (auto simp: insert_user_def grows_def split: if_splits)

lemma grows_update:
  assumes "update_user_row i f s = DbOk (t, v)"
    and "\<And>u. u \<in> set (users s) \<Longrightarrow> u_id u = i \<Longrightarrow> u_id (f u) = u_id u \<and> matures u (f u)"
  shows "grows env s t"
  by (rule grows_map[where f = "\<lambda>u. if u_id u = i then f u else u"])
    (use assms in \<open>auto simp: update_user_row_def split: option.splits if_splits\<close>)

lemma grows_many:
  assumes "\<And>u. u_id (f u) = u_id u \<and> matures u (f u)"
  shows "grows env s (snd (update_many p f s))"
  by (rule grows_map[where f = "\<lambda>u. if p u then f u else u"]) (use assms in \<open>auto simp: update_many_def\<close>)

lemma grows_delete: "grows env s (snd (delete_users p s))"
  by (auto simp: grows_def delete_users_def)

text \<open>A statement that leaves id, role, password and version of a row alone.\<close>

definition neutral :: "(user \<Rightarrow> user) \<Rightarrow> bool" where
  "neutral f \<longleftrightarrow> (\<forall>u. u_id (f u) = u_id u \<and> u_role (f u) = u_role u \<and> u_password_hash (f u) = u_password_hash u
     \<and> u_token_version (f u) = u_token_version u)"

lemma neutral_matures: "neutral f \<Longrightarrow> u_id (f u) = u_id u \<and> matures u (f u)"
  by (simp add: neutral_def matures_def)

lemma neutral_columns [simp]:
  "neutral (code_columns env h)" "neutral (\<lambda>u. (code_columns env h u)\<lparr>u_updated_at := n\<rparr>)" "neutral (auto_columns env)"
  "neutral (verified_columns env)" "neutral (reset_code_columns env h)"
  "neutral (\<lambda>u. u\<lparr>u_verification_failed_attempts := g u\<rparr>)" "neutral (\<lambda>u. u\<lparr>u_password_reset_failed_attempts := g u\<rparr>)"
  "neutral (\<lambda>u. u\<lparr>u_balance := b, u_updated_at := n\<rparr>)"
  by (simp_all add: neutral_def code_columns_def auto_columns_def verified_columns_def reset_code_columns_def)

lemma grows_neutral:
  "update_user_row i f s = DbOk (t, v) \<Longrightarrow> neutral f \<Longrightarrow> grows env s t"
  "neutral f \<Longrightarrow> grows env s (snd (update_many p f s))"
  using neutral_matures by (blast intro: grows_update grows_many)+

section \<open>Every service lets rows mature\<close>

definition serial :: "'r env \<Rightarrow> bool" where "serial env \<longleftrightarrow> (\<forall>t. between env t = t)"

lemma grows_role_change:
  assumes "role_change_txn env i input s = (r, t)"
  shows "grows env s t"
proof (cases r)
  case (Inl e)
  then show ?thesis using role_change_txn_cases[OF assms] by (intro grows_same) simp
next
  case (Inr x)
  then obtain s1 u where b: "bump_token_version i s = DbOk s1"
    and w: "update_user_row i (update_columns env input) s1 = DbOk (t, u)"
    using role_change_txn_cases[OF assms] by auto
  show ?thesis
    by (rule grows_map[where f = "\<lambda>u. if u_id u = i then update_columns env input (u\<lparr>u_token_version := u_token_version u + 1\<rparr>) else u"])
      (use b w in \<open>auto simp: bump_token_version_def update_user_row_def update_columns_def matures_def
        split: option.splits if_splits\<close>)
qed

lemma grows_password:
  assumes "password_txn env i h s = (r, t)"
  shows "grows env s t"
proof (cases r)
  case (Inl e)
  then show ?thesis using password_txn_cases[OF assms] by (intro grows_same) simp
next
  case (Inr x)
  then obtain s1 s2 u where b: "bump_token_version i s = DbOk s1"
    and w: "update_user_row i (password_columns env h) s1 = DbOk (s2, u)" "t = delete_tokens (\<lambda>t. rt_user_id t = i) s2"
    using password_txn_cases[OF assms] by auto
  show ?thesis
    by (rule grows_map[where f = "\<lambda>u. if u_id u = i then password_columns env h (u\<lparr>u_token_version := u_token_version u + 1\<rparr>) else u"])
      (use b w in \<open>auto simp: bump_token_version_def update_user_row_def password_columns_def matures_def
        split: option.splits if_splits\<close>)
qed

lemma grows_reset:
  assumes "reset_txn env uid h s = (r, t)"
  shows "grows env s t"
proof -
  have "same_tables s t \<or> (\<exists>u. reset_done env uid h u s t)"
    using reset_txn_cases[OF assms] by (auto split: sum.splits option.splits)
  then show ?thesis
  proof
    assume "same_tables s t"
    then show ?thesis by (intro grows_same) (simp add: same_tables_def)
  next
    assume "\<exists>u. reset_done env uid h u s t"
    then show ?thesis
      by (auto simp: reset_done_def consumed_columns_def matures_def
          intro!: grows_map[where f = "\<lambda>v. if u_id v = uid \<and> u_password_reset_token_hash v \<noteq> None then consumed_columns env h v else v"])
  qed
qed

lemma grows_trans:
  assumes "grows env s t" "grows env t w"
  shows "grows env s w"
  unfolding grows_def
proof (intro ballI)
  fix v assume "v \<in> set (users w)"
  then consider "u_id v = new_id env" | x where "x \<in> set (users t)" "u_id x = u_id v" "matures x v"
    using assms(2) by (auto simp: grows_def)
  then show "u_id v = new_id env \<or> (\<exists>u\<in>set (users s). u_id u = u_id v \<and> matures u v)"
  proof cases
    case 2
    then show ?thesis using assms(1) by (fastforce simp: grows_def intro: matures_trans)
  qed simp
qed

lemma keepsG: "(\<And>s. grows env s (snd (m s))) \<Longrightarrow> keeps (grows env s0) m"
  by (auto simp: keeps_def intro: grows_trans)

lemma keeps_txn:
  assumes "keeps (grows env s0) body"
  shows "keeps (grows env s0) (in_txn env err bc cc body)"
proof (rule keepsI)
  fix s assume s: "grows env s0 s"
  have r: "grows env s0 (rollback s t)" for t using s by (simp add: grows_def)
  have "grows env s0 (snd (body s))" by (rule keepsD[OF assms s])
  then show "grows env s0 (snd (in_txn env err bc cc body s))"
    using s r by (cases "body s") (auto simp: in_txn_def split: sum.split)
qed

lemma keeps_stmts:
  "keeps (grows env s0) m \<Longrightarrow> keeps (grows env s0) (db_stmt env err c m)"
  "keeps (grows env s0) (read_db f)"
  "keeps (grows env s0) (cache_do env cm)"
  "keeps (grows env s0) (drop_cache env key)"
  "keeps (grows env s0) (drop_counts env)"
  "keeps (grows env s0) (write_db (delete_tokens p))"
  "keeps (grows env s0) (run_stmt (\<lambda>s. case insert_token u h e n s of DbOk s' \<Rightarrow> DbOk (s', ()) | _ \<Rightarrow> RecordNotUpdated) a b)"
  "neutral g \<Longrightarrow> keeps (grows env s0) (many q g)"
  "neutral g \<Longrightarrow> keeps (grows env s0) (run_stmt (update_user_row i g) a b)"
proof -
  show "keeps (grows env s0) m \<Longrightarrow> keeps (grows env s0) (db_stmt env err c m)" by (simp add: keeps_def db_stmt_def)
  show "keeps (grows env s0) (read_db f)" by (simp add: keeps_def read_db_def)
  show c: "keeps (grows env s0) (cache_do env cm)" for cm by (auto simp: keeps_def cache_do_def split: prod.splits)
  show d: "keeps (grows env s0) (drop_cache env key)" for key by (rule keeps_redis(1)) simp
  show "keeps (grows env s0) (drop_counts env)" unfolding drop_counts_def by (intro keeps_intros d)
  show "keeps (grows env s0) (write_db (delete_tokens p))" by (simp add: keeps_def write_db_def grows_def)
  show "keeps (grows env s0) (run_stmt (\<lambda>s. case insert_token u h e n s of DbOk s' \<Rightarrow> DbOk (s', ()) | _ \<Rightarrow> RecordNotUpdated) a b)"
    by (rule keepsG) (auto simp: run_stmt_def stmt_result_def insert_token_def grows_def split: db_result.splits if_splits)
  show "neutral g \<Longrightarrow> keeps (grows env s0) (many q g)"
    by (rule keepsG) (simp add: many_def case_prod_beta grows_neutral(2))
  show "neutral g \<Longrightarrow> keeps (grows env s0) (run_stmt (update_user_row i g) a b)"
    by (rule keepsG) (auto simp: run_stmt_def stmt_result_def grows_same split: db_result.splits intro: grows_neutral(1))
qed

lemma keeps_interfere: "serial env \<Longrightarrow> keeps (grows env s0) (interfere env)"
  by (simp add: keeps_def interfere_def serial_def)

lemma keeps_txns:
  "keeps (grows env s0) (role_change_txn env i input)" "keeps (grows env s0) (password_txn env i h)"
  "keeps (grows env s0) (reset_txn env i h)"
  by (rule keepsG, metis prod.collapse grows_role_change grows_password grows_reset)+

lemmas keeps_service = keeps_intros keeps_stmts keeps_txn keeps_txns keeps_interfere

lemma keeps_revoke: "keeps (grows env s0) (revoke_all_sessions env uid)"
proof (rule keepsG)
  fix s :: "'a app"
  have "wp (revoke_all_sessions env uid) (\<lambda>_. revoked uid s) (\<lambda>_ t. same_tables s t \<and> redis t = redis s) s"
    by (rule wp_revoke_all_sessions)
  then have "revoked uid s (snd (revoke_all_sessions env uid s)) \<or> same_tables s (snd (revoke_all_sessions env uid s))"
    by (auto simp: wp_def split: prod.splits sum.splits)
  then show "grows env s (snd (revoke_all_sessions env uid s))"
  proof
    assume "revoked uid s (snd (revoke_all_sessions env uid s))"
    then show ?thesis
      by (intro grows_map[where f = "\<lambda>u. if u_id u = uid then u\<lparr>u_token_version := u_token_version u + 1\<rparr> else u"])
        (auto simp: revoked_def matures_def)
  next
    assume "same_tables s (snd (revoke_all_sessions env uid s))"
    then show ?thesis by (intro grows_same) (simp add: same_tables_def)
  qed
qed

lemma keeps_create: "keeps (grows env s0) (create_user env input actor)"
proof -
  have "keeps (grows env s0) (run_stmt (\<lambda>s. case insert_user (new_user_row env input h role) s of
                              DbOk s' \<Rightarrow> DbOk (s', new_user_row env input h role)
                            | UniqueViolation \<Rightarrow> UniqueViolation
                            | RecordNotUpdated \<Rightarrow> RecordNotUpdated | OutOfRange \<Rightarrow> OutOfRange) a b)" for h role a b
    by (rule keepsG) (auto simp: run_stmt_def stmt_result_def grows_same new_user_row_def split: db_result.splits
        elim: grows_insert)
  then show ?thesis unfolding create_user_def by (intro keeps_service)
qed

lemma keeps_delete_users:
  "keeps (grows env s0) (\<lambda>s. case delete_users p s of (n, s') \<Rightarrow> (Inr n, s'))"
  by (rule keepsG) (simp add: case_prod_beta grows_delete)

lemma keeps_serial:
  assumes "serial env"
  shows "keeps (grows env s0) (login k svc env rq)" "keeps (grows env s0) (send_verification_email cs env email)"
    "keeps (grows env s0) (auto_verify env email)" "keeps (grows env s0) (verify_email cs env email code)"
    "keeps (grows env s0) (resend_code cs env email)" "keeps (grows env s0) (request_reset cs env email)"
    "keeps (grows env s0) (reset_password cs env email code pw)" "keeps (grows env s0) (change_password env uid p q)"
    "keeps (grows env s0) (delete_user env uid actor aid)"
proof -
  note i = keeps_interfere[OF assms]
  have c: "neutral (code_columns env h)" for h by simp
  have find: "keeps (grows env s0) (find_user_by_email env e)" "keeps (grows env s0) (reset_find_user env e)" for e
    unfolding find_user_by_email_def reset_find_user_def by (intro keeps_service)+
  have mail: "keeps (grows env s0) (mail_code cs email code)" for email code
    unfolding mail_code_def by (intro keeps_service)
  have store: "keeps (grows env s0) (store_verification_code cs env u)" for u
    unfolding store_verification_code_def Let_def by (intro keeps_service neutral_columns)
  have inc: "keeps (grows env s0) (increment_failed_attempts env u)" "keeps (grows env s0) (increment_reset_attempts env u)" for u
    unfolding increment_failed_attempts_def increment_reset_attempts_def by (intro keeps_service neutral_columns)+
  show "keeps (grows env s0) (login k svc env rq)"
    unfolding login_def issue_refresh_def replace_tokens_txn_def delete_all_refresh_tokens_def store_refresh_token_def Let_def
    by (intro keeps_service assms)
  show "keeps (grows env s0) (send_verification_email cs env email)"
    unfolding send_verification_email_def by (intro keeps_service assms find mail store)
  show "keeps (grows env s0) (auto_verify env email)"
    unfolding auto_verify_def by (intro keeps_service assms find neutral_columns)
  show "keeps (grows env s0) (verify_email cs env email code)"
    unfolding verify_email_def by (intro keeps_service assms find inc neutral_columns)
  show "keeps (grows env s0) (resend_code cs env email)"
    unfolding resend_code_def Let_def by (intro keeps_service assms find mail neutral_columns)
  show "keeps (grows env s0) (request_reset cs env email)"
    unfolding request_reset_def Let_def by (intro keeps_service assms find neutral_columns)
  show "keeps (grows env s0) (reset_password cs env email code pw)"
    unfolding reset_password_def commit_reset_def by (intro keeps_service assms find inc)
  show "keeps (grows env s0) (change_password env uid p q)"
    unfolding change_password_def by (intro keeps_service assms)
  show "keeps (grows env s0) (delete_user env uid actor aid)"
    unfolding delete_user_def by (intro keeps_service assms keeps_delete_users)
qed

lemma keeps_reads:
  "keeps (grows env s0) (list_users env pp actor)" "keeps (grows env s0) (get_user env j uid)"
  "keeps (grows env s0) (get_user_scoped env j uid actor)" "keeps (grows env s0) (verify_token_version env uid v)"
  "keeps (grows env s0) (rotate_refresh_token env h h' e)" "keeps (grows env s0) (delete_refresh_token env h)"
proof -
  show g: "keeps (grows env s0) (get_user env j uid)" for j uid
    unfolding get_user_def by (intro keeps_service)
  show "keeps (grows env s0) (list_users env pp actor)"
    unfolding list_users_def Let_def by (intro keeps_service)
  show "keeps (grows env s0) (get_user_scoped env j uid actor)"
    unfolding get_user_scoped_def by (intro keeps_service g)
  show "keeps (grows env s0) (verify_token_version env uid v)"
    unfolding verify_token_version_def by (intro keeps_service)
  show "keeps (grows env s0) (rotate_refresh_token env h h' e)"
    unfolding rotate_refresh_token_def swap_refresh_token_def by (intro keeps_service)
  show "keeps (grows env s0) (delete_refresh_token env h)"
    unfolding delete_refresh_token_def by (intro keeps_service)
qed

lemma keeps_balance: "keeps (grows env s0) (set_balance env uid b actor)" "keeps (grows env s0) (adjust_balance env uid m actor)"
  unfolding set_balance_def adjust_balance_def write_balance_def by (intro keeps_service neutral_columns)+

text \<open>An update that writes the role it has read leaves the row's role alone; any other bumps the version.\<close>

lemma grows_update_user:
  assumes "db_ok s" "serial env"
  shows "grows env s (snd (update_user env i input actor s))"
proof -
  have finish: "grows env s (snd (finish_update env i input changed s))"
    if u: "user_by_id i s = Some u" and ch: "changed \<longleftrightarrow> ui_role input \<noteq> None \<and> ui_role input \<noteq> Some (u_role u)" for u changed
  proof -
    have stmt: "keeps (grows env s) (\<lambda>t. if t = s then run_stmt (update_user_row i (update_columns env input)) a b t else (Inl a, t))"
      if "\<not> changed" for a b :: user_error
    proof (rule keepsI)
      fix t assume t: "grows env s t"
      have "update_user_row i (update_columns env input) s = DbOk (t', v) \<Longrightarrow> grows env s t'" for t' v
      proof (erule grows_update)
        fix x assume x: "x \<in> set (users s)" "u_id x = i"
        have "x = u" using x user_by_id_Some[OF u] assms(1) by (metis db_ok_def users_ok_inj)
        then show "u_id (update_columns env input x) = u_id x \<and> matures x (update_columns env input x)"
          using ch \<open>\<not> changed\<close> by (auto simp: update_columns_def matures_def)
      qed
      then show "grows env s (snd ((if t = s then run_stmt (update_user_row i (update_columns env input)) a b t else (Inl a, t))))"
        using t by (auto simp: run_stmt_def stmt_result_def grows_same split: db_result.splits)
    qed
    have ap: "grows env s (snd (apply_update env i input changed s))"
    proof (cases changed)
      case True
      have "keeps (grows env s) (apply_update env i input changed)"
        unfolding apply_update_def using True by (simp only: if_True) (intro keeps_service)
      then show ?thesis by (rule keepsD) (rule grows_same[OF refl])
    next
      case False
      show ?thesis
        using keepsD[OF stmt[OF False] grows_same[OF refl]] False
        by (simp add: apply_update_def db_stmt_def grows_same)
    qed
    have rest: "keeps (grows env s) (bindS (drop_cache env k1) (\<lambda>_. bindS (if changed then drop_cache env k2 else retS ()) (\<lambda>_. retS r :: ('a app, user_error, user_response) prog)))"
      for k1 k2 r
      by (intro keeps_service)
    obtain x t where xt: "apply_update env i input changed s = (x, t)" by (metis prod.exhaust)
    have in0: "interfere env s = (Inr () :: (user_error, unit) res, s)"
      using assms(2) by (simp add: interfere_def serial_def)
    have "snd (finish_update env i input changed s) = (case x of Inl e \<Rightarrow> t | Inr b \<Rightarrow>
        snd (bindS (drop_cache env (user_cache_key i)) (\<lambda>_.
             bindS (if changed then drop_cache env (token_version_key i) else retS ()) (\<lambda>_. retS (response_of b) :: ('a app, user_error, user_response) prog)) t))"
      unfolding finish_update_def bindS_cases(2)[of "interfere env", OF in0] by (cases x) (simp_all add: bindS_cases xt)
    then show ?thesis
      using ap xt keepsD[OF rest, of t] by (cases x) (simp_all only: sum.case snd_conv)
  qed
  show ?thesis
    using finish
    by (auto simp: update_user_def bindS_def db_stmt_def read_db_def grows_same split: option.split)
qed

definition sessions_inv :: "'r env \<Rightarrow> 'r app \<Rightarrow> 'r app \<Rightarrow> bool" where
  "sessions_inv env s0 s \<longleftrightarrow> (serial env \<and> new_id env \<notin> u_id ` set (users s0) \<longrightarrow> db_ok s \<and> ages s0 s)"

lemma keeps_sessions:
  assumes "serial env \<Longrightarrow> keeps db_ok m" "\<And>s. serial env \<Longrightarrow> db_ok s \<Longrightarrow> grows env s (snd (m s))"
  shows "keeps (sessions_inv env s0) m"
proof (rule keepsI)
  fix s assume s: "sessions_inv env s0 s"
  show "sessions_inv env s0 (snd (m s))"
    unfolding sessions_inv_def
  proof (intro impI)
    assume e: "serial env \<and> new_id env \<notin> u_id ` set (users s0)"
    then have i: "db_ok s" "ages s0 s" using s by (auto simp: sessions_inv_def)
    then show "db_ok (snd (m s)) \<and> ages s0 (snd (m s))"
      using e keepsD[OF assms(1) i(1)] ages_grows[OF i(2) assms(2)[OF _ i(1)]] by blast
  qed
qed

lemma growsD: "keeps (grows env s) m \<Longrightarrow> grows env s (snd (m s))"
  by (erule keepsD) (rule grows_same[OF refl])

interpretation versions: service_invariant "sessions_inv env s0" env for env s0
proof
  fix s :: "'a app" and r
  show "sessions_inv env s0 s \<Longrightarrow> sessions_inv env s0 (s\<lparr>redis := r\<rparr>)"
    by (simp add: sessions_inv_def ages_def)
qed ((rule keeps_sessions, (simp add: keeps_def serial_def login_db_ok create_user_db_ok send_verification_db_ok auto_verify_db_ok
    verify_email_db_ok resend_code_db_ok request_reset_db_ok reset_password_db_ok rotate_db_ok delete_refresh_db_ok
    revoke_db_ok list_users_db_ok get_user_db_ok get_user_scoped_db_ok update_user_db_ok delete_user_db_ok
    set_balance_db_ok adjust_balance_db_ok change_password_db_ok verify_token_version_db_ok; fail),
    (rule growsD keeps_serial keeps_create keeps_reads keeps_revoke keeps_balance grows_update_user; assumption?)+)+)

end
