(* ===== verification/ServerProps.thy ===== *)
theory ServerProps
  imports Sessions
begin

text \<open>
  Properties of the whole server, over any sequence of requests: the tables stay well formed, the version of a user's tokens
  follows the credentials, what a request under \<^verbatim>\<open>/api\<close> may change without a session, how fast a revoked session ends, and
  what the answer to a forgotten password tells.
\<close>

section \<open>Sample requests\<close>

definition sample_decoder :: "'a \<Rightarrow> 'a decoder" where
  "sample_decoder a = \<lparr>from_json = (\<lambda>_. Inr a), from_form = (\<lambda>_. Inr a)\<rparr>"

definition sample_decoders :: decoders where
  "sample_decoders =
     \<lparr>d_login = sample_decoder \<lparr>lb_email = ''u'', lb_password = ''u'', lb_remember = False, lb_captcha_code = None\<rparr>,
      d_register = sample_decoder \<lparr>rb_email = ''n'', rb_password = ''New-Pass1'', rb_name = ''n'', rb_password_confirm = ''New-Pass1''\<rparr>,
      d_verify = sample_decoder \<lparr>vb_email = ''u'', vb_code = ''000042''\<rparr>, d_email = sample_decoder ''u'',
      d_reset = sample_decoder \<lparr>sb_email = ''u'', sb_code = ''000042'', sb_new_password = ''New-Pass1''\<rparr>,
      d_create = sample_decoder \<lparr>cb_email = ''n'', cb_password = ''New-Pass1'', cb_name = ''n'', cb_role = None\<rparr>,
      d_update = sample_decoder \<lparr>ub_email = None, ub_name = Some ''n'', ub_role = None\<rparr>,
      d_change = sample_decoder \<lparr>pb_current_password = ''u'', pb_new_password = ''New-Pass1''\<rparr>,
      d_set_balance = sample_decoder 7, d_adjust = sample_decoder 1, d_wx_code = sample_decoder ''123456'',
      d_list = (\<lambda>_. Inr (None, None))\<rparr>"

definition sample_web :: "kv web" where
  "sample_web =
     \<lparr>wb_auth = sample_auth, wb_cookie_secure = True, wb_codes = sample_code,
      wb_json = \<lparr>write_user = (\<lambda>_. None), read_user = (\<lambda>_. None)\<rparr>, wb_crypto = sample_crypto sample_claims,
      wb_parsers = \<lparr>parse_cookie = (\<lambda>_. None), json_email_of = (\<lambda>_. NoEmailKey), form_email_of = (\<lambda>_. None)\<rparr>,
      wb_decoders = sample_decoders, wb_wechat = None, valid_email = (\<lambda>_. True), show_errors = (\<lambda>_. []), pkg_version = ''1''\<rparr>"

text \<open>A request with the token of user 3 in the state \<^verbatim>\<open>sample_app\<close>.\<close>

definition sample_request :: "string \<Rightarrow> string \<Rightarrow> http_request" where
  "sample_request meth path =
     \<lparr>rq_method = meth, rq_path = path, rq_query = [], rq_content_type = None, rq_authorization = Some ''Bearer t.k'',
      rq_cookie = None, rq_forwarded_for = None, rq_real_ip = None, rq_peer = None, rq_body = Some []\<rparr>"

lemma sample_web_ok: "decoders_ok (wb_decoders sample_web)"
  by (simp add: decoders_ok_def sample_web_def sample_decoders_def sample_decoder_def i64_max_def)

section \<open>Any sequence of requests\<close>

definition request_ok :: "'r request_kind \<Rightarrow> bool" where
  "request_ok q \<longleftrightarrow> tables_env (request_env q) \<and> decoders_ok (wb_decoders (request_web q))"

lemma tables_service: "tables_env env \<Longrightarrow> service_invariant db_ok env"
  using tables.service_invariant_axioms[of env] by simp

lemma versions_service:
  "serial env \<Longrightarrow> new_id env \<notin> u_id ` set (users s0) \<Longrightarrow> service_invariant (\<lambda>s. db_ok s \<and> ages s0 s) env"
  using versions.service_invariant_axioms[of env s0] by (simp add: sessions_inv_def[abs_def])

text \<open>C1: the tables stay well formed. Whatever requests of whoever arrive in whatever order, however they fail, and whatever well-formed
  changes other instances of the server commit between the statements, the tables satisfy their constraints after all of them.\<close>

theorem server_keeps_tables:
  assumes "db_ok (snd (snd s))" "\<forall>q \<in> set qs. request_ok q"
  shows "db_ok (snd (snd (serve_all qs s)))"
  by (rule serve_all_keeps[where I = db_ok]) (use assms tables_service in \<open>auto simp: request_ok_def\<close>)

lemma sample_tables_env: "tables_env sample_env"
  by (simp add: tables_env_def sample_env_def)

definition logout_everywhere :: "kv request_kind" where
  "logout_everywhere = ApiRequestTo sample_web sample_env [] (sample_request ''POST'' ''/users/me/logout-all'')"

definition sample_server :: "kv limiter \<times> kv srv" where
  "sample_server = (disabled_limiter default_rate_limit_config, (False, sample_app))"

lemma logout_everywhere_ok: "request_ok logout_everywhere" "serial (request_env logout_everywhere)"
  "new_id (request_env logout_everywhere) = 99"
  using sample_tables_env sample_web_ok
  by (simp_all add: request_ok_def logout_everywhere_def request_env_def request_web_def serial_def sample_env_def)

lemma server_keeps_tables_witness:
  "db_ok (snd (snd (serve_all [logout_everywhere, logout_everywhere] sample_server)))"
  by (rule server_keeps_tables) (simp_all add: logout_everywhere_ok sample_server_def sample_app_ok)

text \<open>C3: the version of a user's tokens follows the credentials. Over any sequence of requests that do not interleave and
  hand out fresh ids, the version of an account never decreases, and while it stays the same the account has the
  same role and the same password. So a JWT whose version is still current also carries the current role.\<close>

theorem versions_follow_credentials:
  assumes "db_ok (snd (snd s))"
    and "\<forall>q \<in> set qs. request_ok q \<and> serial (request_env q) \<and> new_id (request_env q) \<notin> u_id ` set (users (snd (snd s)))"
    and "user_by_id i (snd (snd s)) = Some u" "user_by_id i (snd (snd (serve_all qs s))) = Some v"
  shows "u_token_version u \<le> u_token_version v
    \<and> (u_token_version v = u_token_version u \<longrightarrow> u_role v = u_role u \<and> u_password_hash v = u_password_hash u)"
proof -
  let ?s0 = "snd (snd s)"
  have "ages ?s0 ?s0"
    unfolding ages_def
  proof (intro ballI impI)
    fix u v assume "u \<in> set (users ?s0)" "v \<in> set (users ?s0)" "u_id v = u_id u"
    then have "v = u" using users_ok_inj assms(1) by (metis db_ok_def)
    then show "matures u v" by simp
  qed
  then have "db_ok (snd (snd (serve_all qs s))) \<and> ages ?s0 (snd (snd (serve_all qs s)))"
    by (intro serve_all_keeps[where I = "\<lambda>t. db_ok t \<and> ages ?s0 t"]) (use assms(1,2) in \<open>auto simp: request_ok_def intro!: versions_service\<close>)
  then show ?thesis
    using user_by_id_Some[OF assms(3)] user_by_id_Some[OF assms(4)] by (fastforce simp: ages_def matures_def)
qed

lemma sample_token_read:
  "request_token (wb_parsers sample_web) (sample_request meth path) = Some ''t.k''"
proof -
  have "to_lower ''Bearer '' = ''bearer ''" by code_simp
  then show ?thesis by (simp add: request_token_def extract_bearer_token_def sample_request_def)
qed

lemma sample_validated: "validate_jwt (wb_crypto sample_web) sample_env ''t.k'' ''k'' = Some sample_claims"
  by (simp add: validate_jwt_def sample_web_def sample_crypto_def sample_claims_def now_secs_def sample_env_def)

lemma parse_three: "parse_i64 ''3'' = Some 3"
  by code_simp

lemma sample_laws: "cached_env kv_ops kv_view sample_env" "versions_agree kv_view t sample_app"
  by (simp_all add: cached_env_def kv_laws kv_reliable sample_env_def versions_agree_def kv_view_def sample_app_def)

section \<open>Who gets past the middleware\<close>

lemma row_version: "db_ok s \<Longrightarrow> user_by_id uid s = Some u \<Longrightarrow> - (2 ^ 31) \<le> u_token_version u \<and> u_token_version u \<le> i32_max"
  using user_by_id_Some[of uid s u] by (auto simp: db_ok_def users_ok_def row_ok_def)

text \<open>A claim of a request: its token is signed, in time and names a user.\<close>

definition presented :: "parsers \<Rightarrow> crypto \<Rightarrow> string \<Rightarrow> 'r env \<Rightarrow> http_request \<Rightarrow> (jwt_claims \<times> int) option" where
  "presented ps k secret env req =
     Option.bind (request_token ps req) (\<lambda>token.
     Option.bind (validate_jwt k env token secret) (\<lambda>claims.
     map_option (Pair claims) (parse_i64 (sub claims))))"

definition is_health :: "http_request \<Rightarrow> bool" where
  "is_health req \<longleftrightarrow> rq_path req = ''/health'' \<or> rq_path req = ''/api/health''"

text \<open>The session of a request is live when its claims carry the current version of an existing user.\<close>

definition live_session :: "parsers \<Rightarrow> crypto \<Rightarrow> string \<Rightarrow> 'r env \<Rightarrow> http_request \<Rightarrow> 'r app \<Rightarrow> jwt_claims \<Rightarrow> bool" where
  "live_session ps k secret env req s claims \<longleftrightarrow>
     (\<exists>uid u. presented ps k secret env req = Some (claims, uid) \<and> user_by_id uid s = Some u
        \<and> u_token_version u = jwt_version claims)"

lemma auth_middleware_exact:
  assumes "cached_env ops view env" "versions_agree view (cache_time env) s" "db_ok s" "\<not> is_health req"
    and "auth_middleware ps k secret env req s = (x, t)"
  shows "x = Inr a \<longleftrightarrow> (\<exists>claims. live_session ps k secret env req s claims \<and> a = Some (auth_user_of claims))"
    and "users t = users s \<and> tokens t = tokens s \<and> versions_agree view (cache_time env) t"
proof -
  note run = verify_token_version_run[OF assms(1,2) row_version[OF assms(3)]]
  have "(x = Inr a \<longleftrightarrow> (\<exists>claims. live_session ps k secret env req s claims \<and> a = Some (auth_user_of claims)))
    \<and> users t = users s \<and> tokens t = tokens s \<and> versions_agree view (cache_time env) t"
  proof (cases "presented ps k secret env req")
    case None
    then show ?thesis
      using assms(2,4,5)
      by (auto simp: presented_def live_session_def is_health_def auth_middleware_def Option.bind_eq_None_conv split: option.splits)
  next
    case (Some cu)
    obtain claims uid where cu: "cu = (claims, uid)" by (cases cu)
    obtain y s1 where v: "verify_token_version env uid (jwt_version claims) s = (y, s1)" by (metis prod.exhaust)
    have "(x, t) = ((case y of Inr _ \<Rightarrow> Inr (Some (auth_user_of claims)) | Inl _ \<Rightarrow> Inl invalid_token_response), s1)"
      using assms(4,5) Some v
      by (auto simp: cu presented_def is_health_def auth_middleware_def Option.bind_eq_Some_conv split: option.splits sum.splits)
    moreover have "y = Inr () \<longleftrightarrow> (\<exists>u. user_by_id uid s = Some u \<and> u_token_version u = jwt_version claims)"
      "users s1 = users s" "tokens s1 = tokens s" "versions_agree view (cache_time env) s1"
      using run[where uid = uid and v = "jwt_version claims"] by (simp_all add: v)
    ultimately show ?thesis
      using Some cu by (cases y) (auto simp: live_session_def)
  qed
  then show "x = Inr a \<longleftrightarrow> (\<exists>claims. live_session ps k secret env req s claims \<and> a = Some (auth_user_of claims))"
    and "users t = users s \<and> tokens t = tokens s \<and> versions_agree view (cache_time env) t" by blast+
qed

lemma health_route: "is_health req \<Longrightarrow> find_route api_routes (rq_method req) (rq_path req) = Some (admin, pattern, m, e) \<Longrightarrow> e = Health"
proof -
  assume h: "is_health req" and r: "find_route api_routes (rq_method req) (rq_path req) = Some (admin, pattern, m, e)"
  have "path_matches p ''/api/health'' \<Longrightarrow> (a, p, m, x) \<in> set api_routes \<Longrightarrow> False" for a p m x
    by (auto simp: api_routes_def path_matches_def segment_matches_def braced_def strip_prefix_def)
  moreover have "path_matches p ''/health'' \<Longrightarrow> (a, p, m, x) \<in> set api_routes \<Longrightarrow> x = Health" for a p m x
    by (auto simp: api_routes_def path_matches_def segment_matches_def braced_def strip_prefix_def)
  moreover have "path_matches pattern (rq_path req)" "(admin, pattern, m, e) \<in> set api_routes"
    using r by (auto simp: find_route_def split: option.splits prod.splits dest!: find_mem)
  ultimately show "e = Health" using h unfolding is_health_def by metis
qed

text \<open>Whatever fails, the version check and the middleware leave the tables alone, and past the middleware there is a token whose check succeeded.\<close>

lemma verify_token_tables: "users (snd (verify_token_version env uid v s)) = users s \<and> tokens (snd (verify_token_version env uid v s)) = tokens s"
  by (auto simp: verify_token_version_def bindS_def cache_do_def db_stmt_def read_db_def liftE_def raiseS_def retS_def
      split: prod.splits sum.splits option.splits if_splits)

lemma auth_middleware_cases:
  assumes "auth_middleware ps k secret env req s = (y, s1)"
  shows "users s1 = users s \<and> tokens s1 = tokens s"
    and "\<not> is_health req \<Longrightarrow> y = Inr a \<Longrightarrow> \<exists>claims uid. presented ps k secret env req = Some (claims, uid)
      \<and> fst (verify_token_version env uid (jwt_version claims) s) = Inr () \<and> a = Some (auth_user_of claims)"
proof -
  show "users s1 = users s \<and> tokens s1 = tokens s"
    using assms verify_token_tables[of env _ _ s]
    by (auto simp: auth_middleware_def split: if_splits option.splits prod.splits sum.splits) (metis snd_conv)+
  show "\<exists>claims uid. presented ps k secret env req = Some (claims, uid)
      \<and> fst (verify_token_version env uid (jwt_version claims) s) = Inr () \<and> a = Some (auth_user_of claims)" if "\<not> is_health req" "y = Inr a"
    using assms that
    by (auto simp: auth_middleware_def is_health_def presented_def split: if_splits option.splits prod.splits sum.splits)
qed

text \<open>The endpoint that changed the tables, and who got to it.\<close>

lemma change_reached:
  assumes "serve_api w env reason req s = (x, t)" "users t \<noteq> users s \<or> tokens t \<noteq> tokens s"
  obtains admin pattern m e claims uid where "find_route api_routes (rq_method req) (rq_path req) = Some (admin, pattern, m, e)"
    "presented (wb_parsers w) (wb_crypto w) (jwt_secret (wb_auth w)) env req = Some (claims, uid)"
    "fst (verify_token_version env uid (jwt_version claims) s) = Inr ()"
    "admin_endpoint e \<Longrightarrow> jwt_role claims = ''admin'' \<or> jwt_role claims = ''system''"
proof -
  obtain admin pattern m e where r: "find_route api_routes (rq_method req) (rq_path req) = Some (admin, pattern, m, e)"
    using assms by (cases "find_route api_routes (rq_method req) (rq_path req)") (auto simp: serve_api_def)
  obtain y s1 where a: "auth_middleware (wb_parsers w) (wb_crypto w) (jwt_secret (wb_auth w)) env req s = (y, s1)"
    by (metis prod.exhaust)
  note mw = auth_middleware_cases[OF a]
  have h: "\<not> is_health req"
  proof
    assume "is_health req"
    then show False
      using assms r a health_route[OF _ r]
      by (auto simp: serve_api_def bindS_def auth_middleware_def is_health_def liftE_def run_api_def health_check_def retS_def
          split: sum.splits if_splits)
  qed
  have "\<exists>u. y = Inr u \<and> (admin \<longrightarrow> require_admin u = Inr ())"
    using assms r a mw(1) by (auto simp: serve_api_def bindS_def liftE_def split: sum.splits if_splits)
  then obtain u where u: "y = Inr u" "admin \<longrightarrow> require_admin u = Inr ()" by blast
  then show thesis
    using that[OF r] mw(2)[OF h u(1)] route_level[OF r]
    by (auto simp: require_admin_def auth_user_of_def split: if_splits)
qed

text \<open>C2: no session, no change. Whatever fails, a request under \<^verbatim>\<open>/api\<close> changes the tables only when it presents a token that is signed, in time,
  names a user and passes the version check; on the routes of the user administration the token also carries the role admin or system. When Redis
  is reached, no statement fails and the cached versions agree with the table, the version is the current one of an existing user; a stale cached
  version lets an old token pass, which \<^verbatim>\<open>reset_leaves_old_sessions\<close> shows.\<close>

theorem api_needs_session:
  assumes "serve_api w env reason req s = (x, t)" "users t \<noteq> users s \<or> tokens t \<noteq> tokens s"
  shows "\<exists>admin pattern m e claims uid.
      find_route api_routes (rq_method req) (rq_path req) = Some (admin, pattern, m, e)
      \<and> presented (wb_parsers w) (wb_crypto w) (jwt_secret (wb_auth w)) env req = Some (claims, uid)
      \<and> fst (verify_token_version env uid (jwt_version claims) s) = Inr ()
      \<and> (admin_endpoint e \<longrightarrow> jwt_role claims = ''admin'' \<or> jwt_role claims = ''system'')
      \<and> (\<forall>ops view. cached_env ops view env \<and> versions_agree view (cache_time env) s \<and> db_ok s \<longrightarrow>
           live_session (wb_parsers w) (wb_crypto w) (jwt_secret (wb_auth w)) env req s claims)"
proof -
  obtain admin pattern m e claims uid where
    r: "find_route api_routes (rq_method req) (rq_path req) = Some (admin, pattern, m, e)"
    and p: "presented (wb_parsers w) (wb_crypto w) (jwt_secret (wb_auth w)) env req = Some (claims, uid)"
    and v: "fst (verify_token_version env uid (jwt_version claims) s) = Inr ()"
    and role: "admin_endpoint e \<longrightarrow> jwt_role claims = ''admin'' \<or> jwt_role claims = ''system''"
    using change_reached[OF assms] by blast
  have "live_session (wb_parsers w) (wb_crypto w) (jwt_secret (wb_auth w)) env req s claims"
    if c: "cached_env ops view env" "versions_agree view (cache_time env) s" "db_ok s" for ops view
    using verify_token_version_run(1)[OF c(1,2) row_version[OF c(3)], where v = "jwt_version claims"] v p
    by (auto simp: live_session_def)
  then show ?thesis using r p v role by blast
qed

section \<open>How fast a session ends\<close>

lemma later_agree: "versions_agree view t s \<Longrightarrow> t \<le> t' \<Longrightarrow> versions_agree view t' s"
  unfolding versions_agree_def by (meson order_trans)

text \<open>Dropping a key removes it from the view and adds nothing.\<close>

definition dropped :: "'r redis_view \<Rightarrow> nat \<Rightarrow> string \<Rightarrow> 'r app \<Rightarrow> 'r app \<Rightarrow> bool" where
  "dropped view t key s s' \<longleftrightarrow> users s' = users s \<and> tokens s' = tokens s
     \<and> (\<forall>t' \<ge> t. view (redis s') t' key = None
          \<and> (\<forall>k x. view (redis s') t' k = Some x \<longrightarrow> view (redis s) t' k = Some x))"

lemma drop_cache_dropped:
  assumes "cached_env ops view env" "drop_cache env key s = (x, s')"
  shows "dropped view (cache_time env) key s s'"
proof -
  have laws: "redis_laws ops view" "reliable ops" "pool (cache_svc env) = Some ops"
    using assms by (simp_all add: cached_env_def)
  obtain r where r: "cache_invalidate (cache_svc env) key (cache_time env, redis s) = (Inr (), (cache_time env, r))"
    and v: "\<And>t k. cache_time env \<le> t \<Longrightarrow> view r t k = (if k = key \<or> k = null_key key then None else view (redis s) t k)"
    by (rule cache_invalidate_reliable[OF laws, of key "(cache_time env, redis s)"]) simp
  show ?thesis
    using assms(2) by (auto simp: drop_cache_run r dropped_def v split: if_splits)
qed

lemma agree_dropped:
  assumes "versions_agree view t s" "\<And>i. i \<noteq> uid \<Longrightarrow> user_by_id i s' = user_by_id i s"
    and "\<And>t' k x. t \<le> t' \<Longrightarrow> view (redis s') t' k = Some x \<Longrightarrow> view (redis s) t' k = Some x"
    and "\<And>t'. t \<le> t' \<Longrightarrow> view (redis s') t' (token_version_key uid) = None"
  shows "versions_agree view t s'"
  unfolding versions_agree_def
proof (intro allI impI)
  fix t' i x assume t: "t \<le> t'" and x: "view (redis s') t' (token_version_key i) = Some x"
  then have "i \<noteq> uid" using assms(4) by force
  then show "\<exists>u v. user_by_id i s' = Some u \<and> read_version x = Some v \<and> v = u_token_version u"
    using versions_agreeD[OF assms(1) t assms(3)[OF t x]] assms(2) by simp
qed

text \<open>The operations that end the sessions of a user, when they succeed.\<close>

definition ends_sessions :: "'r env \<Rightarrow> int \<Rightarrow> 'r app \<Rightarrow> 'r app \<Rightarrow> bool" where
  "ends_sessions env uid s t \<longleftrightarrow>
     (\<exists>w user r. logout_all_handler w env (Some user) s = (Inr r, t) \<and> parse_i64 (au_user_id user) = Some uid)
     \<or> (\<exists>p q r. change_password env uid p q s = (Inr r, t))
     \<or> (\<exists>input actor r u. update_user env uid input actor s = (Inr r, t) \<and> user_by_id uid s = Some u
          \<and> ui_role input \<noteq> None \<and> ui_role input \<noteq> Some (u_role u))
     \<or> (\<exists>actor aid r. delete_user env uid actor aid s = (Inr r, t))"

definition session_gone :: "'r redis_view \<Rightarrow> nat \<Rightarrow> int \<Rightarrow> 'r app \<Rightarrow> 'r app \<Rightarrow> bool" where
  "session_gone view t uid s s' \<longleftrightarrow>
     (case (user_by_id uid s', user_by_id uid s) of
        (Some v, Some u) \<Rightarrow> u_token_version v = u_token_version u + 1 | (Some v, None) \<Rightarrow> False | _ \<Rightarrow> True)
     \<and> (\<forall>i. i \<noteq> uid \<longrightarrow> user_by_id i s' = user_by_id i s)
     \<and> (\<forall>t' \<ge> t. view (redis s') t' (token_version_key uid) = None
          \<and> (\<forall>k x. view (redis s') t' k = Some x \<longrightarrow> view (redis s) t' k = Some x))"

lemma session_goneI:
  assumes "dropped view t k1 s1 s2" "dropped view t (token_version_key uid) s2 s3" "redis s1 = redis s"
    and "case (user_by_id uid s1, user_by_id uid s) of
        (Some v, Some u) \<Rightarrow> u_token_version v = u_token_version u + 1 | (Some v, None) \<Rightarrow> False | _ \<Rightarrow> True"
    and "\<And>i. i \<noteq> uid \<Longrightarrow> user_by_id i s1 = user_by_id i s"
  shows "session_gone view t uid s s3"
proof -
  have "users s3 = users s1" using assms(1,2) by (simp add: dropped_def)
  then have "user_by_id i s3 = user_by_id i s1" for i by (simp add: user_by_id_def)
  then show ?thesis using assms by (simp add: session_gone_def dropped_def)
qed

lemma session_gone_dropped:
  assumes "session_gone view t uid s s1" "dropped view t k s1 s2"
  shows "session_gone view t uid s s2"
proof -
  have "user_by_id i s2 = user_by_id i s1" for i using assms(2) by (simp add: user_by_id_def dropped_def)
  moreover have "view (redis s2) t' k = None" if "t \<le> t'" "view (redis s1) t' k = None" for t' k
    using assms(2) that by (cases "view (redis s2) t' k") (auto simp: dropped_def)
  ultimately show ?thesis using assms by (auto simp: session_gone_def dropped_def)
qed

lemma dropped_refl_key: "dropped view t k s s' \<Longrightarrow> dropped view t k s' s'"
  by (auto simp: dropped_def)

lemma logout_ends:
  assumes "cached_env ops view env" "logout_all_handler w env (Some user) s = (Inr r, t)" "parse_i64 (au_user_id user) = Some uid"
  shows "session_gone view (cache_time env) uid s t"
proof -
  obtain s1 where r: "revoke_all_sessions env uid s = (Inr (), s1)" "drop_cache env (token_version_key uid) s1 = ((Inr (), t) :: (http_error, unit) res \<times> 'a app)"
    using assms(2,3)
    by (auto simp: logout_all_handler_def handler_context_def own_id_def on_error_def bindS_Inr_conv mapErr_def
        split: prod.splits sum.splits)
  note d = drop_cache_dropped[OF assms(1) r(2)]
  have v: "revoked uid s s1" using revoke_cases[OF r(1)] by simp
  show ?thesis
    by (rule session_goneI[OF d dropped_refl_key[OF d]])
      (use v revoked_user[OF v] in \<open>auto simp: revoked_def split: option.split\<close>)
qed

lemma password_ends:
  assumes "cached_env ops view env" "serial env" "db_ok s" "change_password env uid p q s = (Inr r, t)"
  shows "session_gone view (cache_time env) uid s t"
proof -
  obtain h s1 s2 where tx: "password_txn env uid h s = (Inr (), s1)"
    and d: "drop_cache env (user_cache_key uid) s1 = ((Inr (), s2) :: (user_error, unit) res \<times> 'a app)"
      "drop_cache env (token_version_key uid) s2 = ((Inr (), t) :: (user_error, unit) res \<times> 'a app)"
    using assms(2,4)
    by (auto simp: change_password_def bindS_Inr_conv db_stmt_def read_db_def interfere_def serial_def split: if_splits)
  have "redis s1 = redis s"
    using password_txn_cases[OF tx] bump_token_version_ok(3)[OF _ assms(3)]
    by (auto simp: update_user_row_def delete_tokens_def split: option.splits if_splits)
  moreover have "password_done env uid h s s1" using wp_Inr[OF wp_password_done[OF assms(3)] tx] .
  ultimately show ?thesis
    by (intro session_goneI[OF drop_cache_dropped[OF assms(1) d(1)] drop_cache_dropped[OF assms(1) d(2)]])
      (auto simp: password_done_def password_columns_def)
qed

lemma update_ends:
  assumes "cached_env ops view env" "serial env" "db_ok s" "update_user env uid input actor s = (Inr r, t)"
    and "user_by_id uid s = Some u" "ui_role input \<noteq> None" "ui_role input \<noteq> Some (u_role u)"
  shows "session_gone view (cache_time env) uid s t"
proof -
  obtain x s1 s2 where tx: "role_change_txn env uid input s = (Inr x, s1)"
    and d: "drop_cache env (user_cache_key uid) s1 = ((Inr (), s2) :: (user_error, unit) res \<times> 'a app)"
      "drop_cache env (token_version_key uid) s2 = ((Inr (), t) :: (user_error, unit) res \<times> 'a app)"
    using assms(2,4-7)
    by (auto simp: update_user_def finish_update_def apply_update_def bindS_Inr_conv db_stmt_def read_db_def interfere_def
        serial_def split: if_splits option.splits)
  obtain s0 v where b: "bump_token_version uid s = DbOk s0" and up: "update_user_row uid (update_columns env input) s0 = DbOk (s1, v)"
    using role_change_txn_cases[OF tx] by auto
  have "redis s1 = redis s"
    using up bump_token_version_ok(3)[OF b assms(3)] by (auto simp: update_user_row_def split: option.splits if_splits)
  then show ?thesis
    using user_by_id_bump[OF b assms(3)] user_by_id_update[OF up] assms(5)
    by (intro session_goneI[OF drop_cache_dropped[OF assms(1) d(1)] drop_cache_dropped[OF assms(1) d(2)]])
      (auto simp: update_columns_def)
qed

lemma delete_ends:
  assumes "cached_env ops view env" "serial env" "db_ok s" "delete_user env uid actor aid s = (Inr r, t)"
  shows "session_gone view (cache_time env) uid s t"
proof -
  let ?p = "\<lambda>u. u_id u = uid \<and> (actor = ''admin'' \<longrightarrow> u_role u = ''user'')"
  obtain s2 s3 where d: "drop_cache env (user_cache_key uid) (snd (delete_users ?p s)) = ((Inr (), s2) :: (user_error, unit) res \<times> 'a app)"
      "drop_cache env (token_version_key uid) s2 = ((Inr (), s3) :: (user_error, unit) res \<times> 'a app)"
    and c: "drop_counts env s3 = ((Inr r, t) :: (user_error, unit) res \<times> 'a app)" and n: "fst (delete_users ?p s) \<noteq> 0"
    using assms(2,4)
    by (auto simp: delete_user_def bindS_Inr_conv db_stmt_def read_db_def interfere_def serial_def split: if_splits prod.splits)
  obtain u where u: "u \<in> set (users s)" "?p u" using n by (auto simp: delete_users_def filter_empty_conv)
  have "user_by_id uid (snd (delete_users ?p s)) = None"
    unfolding user_by_id_None using u assms(3) users_ok_inj[of "users s" _ u] by (fastforce simp: delete_users_def db_ok_def)
  moreover have "user_by_id i (snd (delete_users ?p s)) = user_by_id i s" if "i \<noteq> uid" for i
    using that by (auto simp: user_by_id_def delete_users_def intro!: find_filter)
  moreover have "redis (snd (delete_users ?p s)) = redis s" by (simp add: delete_users_def)
  ultimately have "session_gone view (cache_time env) uid s s3"
    by (intro session_goneI[OF drop_cache_dropped[OF assms(1) d(1)] drop_cache_dropped[OF assms(1) d(2)]]) auto
  moreover obtain s4 s5 where "drop_cache env (user_count_cache_key ''admin'') s3 = ((Inr (), s4) :: (user_error, unit) res \<times> 'a app)"
    "drop_cache env (user_count_cache_key ''user'') s4 = ((Inr (), s5) :: (user_error, unit) res \<times> 'a app)"
    "drop_cache env (user_count_cache_key ''system'') s5 = ((Inr r, t) :: (user_error, unit) res \<times> 'a app)"
    using c by (auto simp: drop_counts_def bindS_Inr_conv)
  ultimately show ?thesis by (metis session_gone_dropped drop_cache_dropped[OF assms(1)])
qed

lemma serial_tables: "serial env \<Longrightarrow> tables_env env"
  by (simp add: serial_def tables_env_def)

lemma ends_sessions_gone:
  assumes "cached_env ops view env" "serial env" "db_ok s" "ends_sessions env uid s t"
  shows "session_gone view (cache_time env) uid s t" and "db_ok t"
proof -
  note inv = tables_service[OF serial_tables[OF assms(2)]]
  note k = served_invariant.user_handlers(3)[OF service_invariant.served[OF inv], THEN keepsD, OF assms(3)]
    service_invariant.change_password[OF inv, THEN keepsD, OF assms(3)]
    service_invariant.update_user[OF inv, THEN keepsD, OF assms(3)]
    service_invariant.delete_user[OF inv, THEN keepsD, OF assms(3)]
  show "db_ok t"
    using assms(4) k unfolding ends_sessions_def by (metis snd_conv)
  show "session_gone view (cache_time env) uid s t"
    using assms(4) unfolding ends_sessions_def
    by (auto intro: logout_ends[OF assms(1)] password_ends[OF assms(1-3)] update_ends[OF assms(1-3)] delete_ends[OF assms(1-3)])
qed

text \<open>C11: revocation is immediate when nothing interferes. Let Redis be reached and no statement fail, then and later, let no other request run in
  between, and let the cached versions agree with the table. Once a logout from all devices, a password change, a role change or a deletion has
  succeeded, the cached versions still agree, and the middleware turns away every token of the user that was issued before. What
  a failure does instead is \<^verbatim>\<open>failed_requery_keeps_sessions\<close> of Coherence.\<close>

theorem ended_session_rejected:
  assumes "cached_env ops view env" "serial env" "db_ok s" "versions_agree view (cache_time env) s"
    and "ends_sessions env uid s t" "user_by_id uid s = Some u"
    and "cached_env ops view env2" "cache_time env \<le> cache_time env2" "\<not> is_health req"
    and "presented ps k secret env2 req = Some (claims, uid)" "jwt_version claims \<le> u_token_version u"
  shows "versions_agree view (cache_time env2) t
    \<and> fst (auth_middleware ps k secret env2 req t) = Inl invalid_token_response"
proof -
  note g = ends_sessions_gone[OF assms(1-3,5)]
  have "versions_agree view (cache_time env) t"
    by (rule agree_dropped[OF assms(4)]) (use g(1) in \<open>auto simp: session_gone_def\<close>)
  note ag = later_agree[OF this assms(8)]
  obtain x t2 where a: "auth_middleware ps k secret env2 req t = (x, t2)" by (metis prod.exhaust)
  have "\<not> live_session ps k secret env2 req t c" for c
    using g(1) assms(6,10,11) by (auto simp: live_session_def session_gone_def split: option.splits)
  then have "x \<noteq> Inr a" for a using auth_middleware_exact(1)[OF assms(7) ag g(2) assms(9) a] by blast
  moreover have "x = Inl invalid_token_response \<or> isl x = False"
    using a assms(9,10)
    by (auto simp: auth_middleware_def presented_def is_health_def Option.bind_eq_Some_conv split: prod.splits sum.splits)
  ultimately show ?thesis using ag a by (cases x) auto
qed

text \<open>A password reset bumps the version too, but leaves the cache alone.\<close>

lemma keeps_same_redis:
  fixes r :: 'r
  shows "keeps (\<lambda>s. redis s = r) m \<Longrightarrow> keeps (\<lambda>s. redis s = r) (db_stmt env err c m)"
    "keeps (\<lambda>s. redis s = r) (read_db f)"
    "keeps (\<lambda>s. redis s = r) (write_db (delete_tokens p))"
    "keeps (\<lambda>s. redis s = r) (many q g)"
    "keeps (\<lambda>s. redis s = r) (run_stmt (consume_code env uid h) e1 e2)"
    "between env = id \<Longrightarrow> keeps (\<lambda>s. redis s = r) (interfere env)"
  by (auto simp: keeps_def db_stmt_def read_db_def write_db_def delete_tokens_def many_def update_many_def run_stmt_def
      stmt_result_def consume_code_def interfere_def split: prod.splits sum.splits if_splits db_result.splits)

lemma keeps_same_redis_txn: "keeps (\<lambda>s. redis s = r) body \<Longrightarrow> keeps (\<lambda>s. redis s = r) (in_txn env err bc cc body)"
  by (auto simp: keeps_def in_txn_def rollback_def split: prod.splits sum.splits)

lemma reset_keeps_redis:
  assumes "between env = id"
  shows "redis (snd (reset_password svc env m code p s)) = redis s"
proof -
  have "keeps (\<lambda>t. redis t = redis s) (reset_password svc env m code p)"
    unfolding reset_password_def reset_find_user_def increment_reset_attempts_def commit_reset_def reset_txn_def
    by (intro keeps_intros keeps_same_redis keeps_same_redis_txn assms)
  then show ?thesis by (rule keepsD) simp
qed

text \<open>While the cache holds a version, it decides, whatever the row says by now.\<close>

lemma cached_version_decides:
  assumes "cached_env ops view env" "versions_agree view (cache_time env) s" "user_by_id i s = Some u" "redis t = redis s"
    and "view (redis s) (cache_time env) (token_version_key i) \<noteq> None"
  shows "fst (verify_token_version env i n t) = Inr () \<longleftrightarrow> u_token_version u = n"
proof -
  let ?key = "token_version_key i" and ?c = "cache_svc env"
  obtain y where y: "view (redis s) (cache_time env) ?key = Some y" using assms(5) by auto
  then have v: "read_version y = Some (u_token_version u)" using versions_agreeD[OF assms(2) order_refl y] assms(3) by auto
  have laws: "redis_laws ops view" "reliable ops" "pool ?c = Some ops" using assms(1) by (simp_all add: cached_env_def)
  obtain x w where g: "cache_get read_version ?c ?key (cache_time env, redis t) = (x, w)" by (metis prod.exhaust)
  have "x = Inr (Some (u_token_version u))"
    using cache_get_reliable[OF laws, of read_version ?key "(cache_time env, redis t)"] g y v assms(4) by simp
  then show ?thesis using g by (simp add: verify_token_version_def bindS_def cache_do_def)
qed

text \<open>C19: a password reset leaves the old sessions alive for a while. As long as the cache still holds the version of the user, at most thirty
  seconds after it was read, the token issued before the reset passes the version check and the one issued by the reset does not.\<close>

theorem reset_leaves_old_sessions:
  assumes "cached_env ops view env2" "db_ok s" "between env = id" "versions_agree view (cache_time env2) s"
    and "reset_password svc env m code p s = (Inr out, t)" "user_by_id (po_user_id out) s = Some u"
    and "view (redis s) (cache_time env2) (token_version_key (po_user_id out)) \<noteq> None"
  shows "fst (verify_token_version env2 (po_user_id out) (u_token_version u) t) = Inr ()
    \<and> fst (verify_token_version env2 (po_user_id out) (po_token_version out) t) \<noteq> Inr ()"
proof -
  have "redis t = redis s" using reset_keeps_redis[OF assms(3), of svc m code p s] assms(5) by simp
  note run = cached_version_decides[OF assms(1,4,6) this assms(7)]
  have "po_token_version out = u_token_version u + 1"
    using reset_password_atomic[OF assms(2,3,5), of env2 svc "[]" "[]"] assms(6) user_by_email_id(3)[OF assms(2)] by fastforce
  then show ?thesis using run by simp
qed

section \<open>What an answer tells\<close>

text \<open>What asking for a reset code tells about an address. With a working database, hash and mail server the answer to a valid address is the
  same for a registered account, in its cooldown or not, and for an unknown one, as long as the mail service is configured; when it is not, the answer
  is 503 exactly for the registered addresses.\<close>

theorem forgot_password_answer:
  assumes "quiet env" "\<forall>c. hash_code (wb_codes w) c \<noteq> None" "\<forall>m c n. send_code_email (wb_codes w) m c n"
    and "parse_json_or_form (d_email (wb_decoders w)) req body = Inr email" "valid_email w email"
  shows "fst (forgot_password_handler w env req body s) =
    (if user_by_email (to_lower (to_lower email)) s \<noteq> None \<and> \<not> is_configured (wb_codes w)
     then Inl (service_unavailable ''Password reset is currently unavailable'')
     else Inr (json_reply (MessageJson ''If that email is registered, a reset code has been sent'')))"
proof -
  obtain h where h: "hash_code (wb_codes w) (generate_code (wb_codes w)) = Some h" using assms(2) by blast
  have d: "decoded (d_email (wb_decoders w)) req body = (retS email :: ('a app, http_error, string) prog)"
    using assms(4) by (simp add: decoded_def liftE_def retS_def fun_eq_iff)
  have v: "validated w (email_errors w email) = Inr ()" using assms(5) by (simp add: validated_def email_errors_def)
  let ?e = "to_lower email"
  obtain x t where r: "request_reset (wb_codes w) env ?e s = (x, t)" by (metis prod.exhaust)
  have "x = (if user_by_email (to_lower ?e) s \<noteq> None \<and> \<not> is_configured (wb_codes w) then Inl PEmailNotConfigured else Inr ())
      \<or> x = Inl PTooSoon \<and> user_by_email (to_lower ?e) s \<noteq> None \<and> is_configured (wb_codes w)"
    using r assms(1,3) h
    by (cases "user_by_email (to_lower ?e) s")
      (auto simp: request_reset_def reset_find_user_def Let_def split: if_splits)
  then show ?thesis
    using r by (auto simp: forgot_password_handler_def d v swallow_def on_error_def to_http_def api_of_reset_def http_of_api_def bindS_def retS_def)
qed

lemma forgot_password_answer_witness:
  "fst (forgot_password_handler (sample_web\<lparr>wb_codes := sample_code\<lparr>is_configured := False\<rparr>\<rparr>) sample_env
      (sample_request ''POST'' ''/forgot-password'') [] sample_app)
     = Inl (service_unavailable ''Password reset is currently unavailable'')
   \<and> fst (forgot_password_handler sample_web sample_env (sample_request ''POST'' ''/forgot-password'') [] sample_app)
     = fst (forgot_password_handler sample_web sample_env (sample_request ''POST'' ''/forgot-password'') [] (sample_app\<lparr>users := []\<rparr>))"
proof -
  let ?off = "sample_web\<lparr>wb_codes := sample_code\<lparr>is_configured := False\<rparr>\<rparr>" and ?req = "sample_request ''POST'' ''/forgot-password''"
  have p: "parse_json_or_form (d_email (wb_decoders w)) ?req [] = Inr ''u''" if "w = sample_web \<or> w = ?off" for w
    using that by (auto simp: parse_json_or_form_def sample_web_def sample_decoders_def sample_decoder_def Let_def)
  have w: "hash_code (wb_codes w) c \<noteq> None" "send_code_email (wb_codes w) m c n" "valid_email w e"
    if "w = sample_web \<or> w = ?off" for w m c n e
    using that by (auto simp: sample_web_def sample_code_def)
  have l: "to_lower (to_lower ''u'') = ''u''" by code_simp
  have u: "user_by_email ''u'' sample_app \<noteq> None" by (simp add: user_by_email_def sample_app_def sample_user_def)
  have c: "is_configured (wb_codes sample_web)" "\<not> is_configured (wb_codes ?off)" by (simp_all add: sample_web_def sample_code_def)
  have a: "fst (forgot_password_handler w sample_env ?req [] s) = (if user_by_email ''u'' s \<noteq> None \<and> \<not> is_configured (wb_codes w)
      then Inl (service_unavailable ''Password reset is currently unavailable'')
      else Inr (json_reply (MessageJson ''If that email is registered, a reset code has been sent'')))"
    if "w = sample_web \<or> w = ?off" for w s
    using forgot_password_answer[OF sample_quiet _ _ p[OF that], of s] w[OF that] l by auto
  show ?thesis
    unfolding a[OF disjI1[OF refl]] a[OF disjI2[OF refl]] using u c by simp
qed

section \<open>A logout from all devices, served\<close>

lemma logout_all_run:
  assumes "users s = users sample_app" "tokens s = tokens sample_app"
  obtains r t where "logout_all_handler sample_web sample_env (Some (auth_user_of sample_claims)) s = (Inr r, t)"
    "user_by_id 3 t = Some ((sample_user 3 ''u'' ''user'')\<lparr>u_token_version := 2\<rparr>)"
proof -
  obtain s1 where s1: "revoke_all_sessions sample_env 3 s = (Inr (), s1)"
    by (simp add: revoke_all_sessions_def in_txn_def bindS_def db_stmt_def write_db_def bump_stmt_def bump_token_version_def
        run_stmt_def stmt_result_def delete_tokens_def assms sample_app_def sample_env_simps sample_token_def sample_user_def i32_max_def)
  have v: "revoked 3 s s1" using revoke_cases[OF s1] by simp
  have "user_by_id 3 s = Some (sample_user 3 ''u'' ''user'')" by (simp add: user_by_id_def assms sample_app_def sample_user_def)
  then have u: "user_by_id 3 s1 = Some ((sample_user 3 ''u'' ''user'')\<lparr>u_token_version := 2\<rparr>)"
    using revoked_user(1)[OF v] by (simp add: sample_user_def)
  show thesis
    by (rule that) (auto simp: logout_all_handler_def handler_context_def own_id_def on_error_def bindS_def retS_def liftE_def
        auth_user_of_def sample_claims_def parse_three s1 drop_cache_run u)
qed

lemma sample_presented:
  "presented (wb_parsers sample_web) (wb_crypto sample_web) (jwt_secret (wb_auth sample_web)) sample_env (sample_request meth path)
     = Some (sample_claims, 3)"
proof -
  have "jwt_secret (wb_auth sample_web) = ''k''" "parse_i64 (sub sample_claims) = Some 3"
    by (simp_all add: sample_web_def sample_auth_def sample_claims_def parse_three)
  then show ?thesis by (simp add: presented_def sample_token_read sample_validated)
qed

abbreviation "logout_request \<equiv> sample_request ''POST'' ''/users/me/logout-all''"

lemma logout_route: "find_route api_routes ''POST'' ''/users/me/logout-all'' = Some (False, ''/users/me/logout-all'', ''POST'', LogoutAll)"
  by code_simp

lemma sample_user_three: "user_by_id 3 sample_app = Some (sample_user 3 ''u'' ''user'')"
  by (simp add: user_by_id_def sample_app_def sample_user_def)

lemma serve_logout:
  obtains x t where "serve_api sample_web sample_env [] logout_request sample_app = (x, t)"
    "user_by_id 3 t = Some ((sample_user 3 ''u'' ''user'')\<lparr>u_token_version := 2\<rparr>)"
proof -
  have h: "\<not> is_health logout_request" by (simp add: is_health_def sample_request_def)
  obtain x s1 where a: "auth_middleware (wb_parsers sample_web) (wb_crypto sample_web) (jwt_secret (wb_auth sample_web))
      sample_env logout_request sample_app = (x, s1)" by (metis prod.exhaust)
  note mw = auth_middleware_exact[OF sample_laws sample_app_ok h a]
  have "live_session (wb_parsers sample_web) (wb_crypto sample_web) (jwt_secret (wb_auth sample_web)) sample_env
      logout_request sample_app sample_claims"
    by (simp add: live_session_def sample_presented sample_user_three) (simp add: sample_user_def sample_claims_def)
  then have x: "x = Inr (Some (auth_user_of sample_claims))" using mw(1) by blast
  obtain r t where t: "logout_all_handler sample_web sample_env (Some (auth_user_of sample_claims)) s1 = (Inr r, t)"
    "user_by_id 3 t = Some ((sample_user 3 ''u'' ''user'')\<lparr>u_token_version := 2\<rparr>)"
    using mw(2) by (blast elim: logout_all_run)
  have req: "rq_method logout_request = ''POST''" "rq_path logout_request = ''/users/me/logout-all''"
    "axum_body [] logout_request = Inr []"
    by (simp_all add: sample_request_def axum_body_def bodyless_def)
  show thesis
    by (rule that[OF _ t(2)])
      (simp add: serve_api_def req logout_route bindS_def a x liftE_def run_api_def t(1) retS_def)
qed

lemma versions_follow_credentials_witness:
  "map_option (\<lambda>v. 1 \<le> u_token_version v) (user_by_id 3 (snd (snd (serve_all [logout_everywhere] sample_server)))) = Some True"
proof -
  obtain x t where a: "serve_api sample_web sample_env [] logout_request sample_app = (x, t)"
    and v: "user_by_id 3 t = Some ((sample_user 3 ''u'' ''user'')\<lparr>u_token_version := 2\<rparr>)" by (rule serve_logout)
  then have t: "snd (snd (serve_all [logout_everywhere] sample_server)) = t"
    by (simp add: serve_all_def serve_def logout_everywhere_def sample_server_def)
  have "u_token_version (sample_user 3 ''u'' ''user'') \<le> u_token_version ((sample_user 3 ''u'' ''user'')\<lparr>u_token_version := 2\<rparr>)"
    using versions_follow_credentials[where s = sample_server and qs = "[logout_everywhere]", OF _ _ _ v[folded t]]
      sample_user_three sample_app_ok logout_everywhere_ok
    by (simp add: sample_server_def) (simp add: sample_app_def sample_user_def)
  then show ?thesis unfolding t v by (simp add: sample_user_def)
qed

lemma api_needs_session_witness:
  "\<exists>claims uid. presented (wb_parsers sample_web) (wb_crypto sample_web) (jwt_secret (wb_auth sample_web)) sample_env logout_request
       = Some (claims, uid) \<and> live_session (wb_parsers sample_web) (wb_crypto sample_web) (jwt_secret (wb_auth sample_web)) sample_env
       logout_request sample_app claims"
proof -
  obtain x t where a: "serve_api sample_web sample_env [] logout_request sample_app = (x, t)"
    and v: "user_by_id 3 t = Some ((sample_user 3 ''u'' ''user'')\<lparr>u_token_version := 2\<rparr>)" by (rule serve_logout)
  have "users t \<noteq> users sample_app"
    using v sample_user_three by (auto simp: user_by_id_def sample_user_def)
  then show ?thesis
    using api_needs_session[OF a] sample_laws sample_app_ok by blast
qed

lemma ended_session_rejected_witness:
  "\<exists>r t. logout_all_handler sample_web sample_env (Some (auth_user_of sample_claims)) sample_app = (Inr r, t)
     \<and> fst (auth_middleware (wb_parsers sample_web) (wb_crypto sample_web) (jwt_secret (wb_auth sample_web)) sample_env
          (sample_request ''GET'' ''/users/me'') t) = Inl invalid_token_response"
proof -
  obtain r t where t: "logout_all_handler sample_web sample_env (Some (auth_user_of sample_claims)) sample_app = (Inr r, t)"
    by (rule logout_all_run[OF refl refl])
  have "parse_i64 (au_user_id (auth_user_of sample_claims)) = Some 3"
    by (simp add: auth_user_of_def sample_claims_def parse_three)
  then have e: "ends_sessions sample_env 3 sample_app t" using t unfolding ends_sessions_def by blast
  have s: "serial sample_env" "\<not> is_health (sample_request ''GET'' ''/users/me'')"
    "jwt_version sample_claims \<le> u_token_version (sample_user 3 ''u'' ''user'')"
    by (simp_all add: serial_def sample_env_def is_health_def sample_request_def sample_claims_def sample_user_def)
  show ?thesis
    using ended_session_rejected[OF sample_laws(1) s(1) sample_app_ok sample_laws(2) e sample_user_three sample_laws(1) order_refl s(2)
        sample_presented s(3)] t by blast
qed

lemma reset_leaves_old_sessions_witness:
  "fst (verify_token_version sample_env 3 1 (snd (reset_password sample_code sample_env ''U'' ''000042'' ''new''
     (reset_app\<lparr>redis := [token_version_key 3 \<mapsto> (''1'', Some 1030)]\<rparr>)))) = Inr ()"
proof -
  let ?r = "[token_version_key 3 \<mapsto> (''1'', Some 1030)] :: kv" and ?out = "\<lparr>po_user_id = 3, po_role = ''user'', po_token_version = 2\<rparr>"
  have u: "user_by_id 3 reset_app = Some reset_user"
    by (simp add: user_by_id_def reset_app_def reset_user_def sample_user_def)
  have one: "read_version ''1'' = Some 1" by code_simp
  have b: "between sample_env = id" by (simp add: sample_env_def)
  have a: "versions_agree kv_view t (reset_app\<lparr>redis := ?r\<rparr>)" for t
    using u one by (auto simp: versions_agree_def kv_view_def version_key_inj reset_user_def sample_user_def split: if_splits)
  have c: "kv_view ?r (cache_time sample_env) (token_version_key 3) \<noteq> None"
    by (simp add: kv_view_def cache_time_def sample_env_def)
  obtain t where t: "reset_password sample_code sample_env ''U'' ''000042'' ''new'' (reset_app\<lparr>redis := ?r\<rparr>) = (Inr ?out, t)"
    using reset_app_run_with by blast
  have "user_by_id (po_user_id ?out) (reset_app\<lparr>redis := ?r\<rparr>) = Some reset_user" using u by simp
  from reset_leaves_old_sessions[OF sample_laws(1) _ b a t this] reset_app_ok c
  have "fst (verify_token_version sample_env 3 (u_token_version reset_user) t) = Inr ()" by simp
  then show ?thesis by (simp add: t) (simp add: reset_user_def sample_user_def)
qed

section \<open>A race between two updates\<close>

text \<open>While one update of a user with an unchanged role is under way, another one promotes the user: the first then writes the old role
  back but not the version, so the tokens issued in between keep both the role and the version of the promotion.\<close>

definition promote_meanwhile :: "kv env" where
  "promote_meanwhile = sample_env\<lparr>between :=
     \<lambda>s. snd (update_user sample_env 3 \<lparr>ui_email = None, ui_name = None, ui_role = Some ''admin''\<rparr> ''system'' s)\<rparr>"

lemma role_change_race:
  "map_option (\<lambda>u. (u_role u, u_token_version u)) (user_by_id 3 (between promote_meanwhile sample_app)) = Some (''admin'', 2)
   \<and> map_option (\<lambda>u. (u_role u, u_token_version u)) (user_by_id 3 (snd (update_user promote_meanwhile 3
        \<lparr>ui_email = None, ui_name = Some ''n'', ui_role = Some ''user''\<rparr> ''system'' sample_app))) = Some (''user'', 2)"
  by (auto simp: promote_meanwhile_def update_user_def finish_update_def apply_update_def role_change_txn_def in_txn_def bindS_def
        db_stmt_def read_db_def run_stmt_def stmt_result_def bump_stmt_def bump_token_version_def update_user_row_def
        user_by_id_def interfere_def clashes_def i32_max_def update_columns_def bad_role_def
        sample_app_def sample_env_def sample_user_def drop_cache_def cache_do_def split: prod.splits)

section \<open>Guessing a captcha\<close>

text \<open>Guesses of a captcha code are not counted: a code that is nobody's at the moment is refused before the captcha service sees it, and the store is as
  it was. Such a guess never costs one of the attempts that invalidate a captcha; only the limiter of the route stands against guessing.\<close>

theorem wrong_captcha_uncounted:
  assumes "redis_laws ops view" "reliable ops" "rc_client (wx_store wx) = Some ops"
    and "view (redis (snd w)) (cache_time env) (code_index_key (wc_account_id (wx_config wx)) code) = None"
  shows "\<exists>w'. captcha_user wx env code w = (Inl captcha_rejected, w') \<and> view (redis (snd w')) = view (redis (snd w))
    \<and> users (snd w') = users (snd w) \<and> tokens (snd w') = tokens (snd w)"
proof -
  obtain v where v: "get_opt (wx_store wx) (cache_time env) (code_index_key (wc_account_id (wx_config wx)) code) (fst w, redis (snd w)) = (Inr None, v)"
    "view (snd v) = view (redis (snd w))"
    using get_opt_reliable[OF assms(1-3), of "cache_time env" "code_index_key (wc_account_id (wx_config wx)) code" "(fst w, redis (snd w))"] assms(4)
    by auto
  show ?thesis
    using v by (cases v) (simp add: captcha_user_def bindS_def on_error_def on_captcha_def liftE_def ok_or_def)
qed

end
