(* ===== verification/Access.thy ===== *)
theory Access
  imports ServerProps
begin

text \<open>
  Which accounts a request under \<^verbatim>\<open>/api\<close> can reach, from its route to the rows. \<^verbatim>\<open>guarded P own\<close>: the rows whose role is in \<^verbatim>\<open>P\<close>
  are the same before and after, but for those of \<^verbatim>\<open>own\<close>, whose ids and roles are. The operations of UserProps are guarded for the roles
  their actor may not touch; here the handlers and the routes are, for the actor that the token of the request names.
\<close>

section \<open>Guarded rows\<close>

definition guarded :: "(string \<Rightarrow> bool) \<Rightarrow> (int \<Rightarrow> bool) \<Rightarrow> 'r app \<Rightarrow> 'r app \<Rightarrow> bool" where
  "guarded P own s t \<longleftrightarrow>
     {u \<in> set (users t). P (u_role u) \<and> \<not> own (u_id u)} = {u \<in> set (users s). P (u_role u) \<and> \<not> own (u_id u)}
     \<and> (\<lambda>u. (u_id u, u_role u)) ` {u \<in> set (users t). P (u_role u)} = (\<lambda>u. (u_id u, u_role u)) ` {u \<in> set (users s). P (u_role u)}"

lemma guarded_same: "users t = users s \<Longrightarrow> guarded P own s t"
  by (simp add: guarded_def)

lemma guarded_trans: "guarded P own s t \<Longrightarrow> guarded P own t t' \<Longrightarrow> guarded P own s t'"
  by (simp add: guarded_def)

lemma guarded_untouched: "untouched P s t \<Longrightarrow> guarded P own s t"
  unfolding untouched_def rows_with_def guarded_def by (metis (mono_tags, lifting) Collect_cong mem_Collect_eq)

text \<open>An operation on an own row that keeps its role.\<close>

lemma guarded_own:
  assumes "db_ok s" "db_ok t" "own i" "\<And>j. j \<noteq> i \<Longrightarrow> user_by_id j t = user_by_id j s"
    and "map_option u_role (user_by_id i t) = map_option u_role (user_by_id i s)"
  shows "guarded P own s t"
proof -
  have mem: "u \<in> set (users r) \<longleftrightarrow> user_by_id (u_id u) r = Some u" if "db_ok r" for r :: "'a app" and u
    using user_by_id_unique[of _ u] user_by_id_Some[of "u_id u" r u] that by (auto simp: db_ok_def)
  have role: "map_option u_role (user_by_id j t) = map_option u_role (user_by_id j s)" for j
    using assms(4,5) by (cases "j = i") simp_all
  have img: "(\<lambda>u. (u_id u, u_role u)) ` {u \<in> set (users r). P (u_role u)} = {(j, x). map_option u_role (user_by_id j r) = Some x \<and> P x}"
    if "db_ok r" for r :: "'a app"
  proof (rule equalityI; rule subsetI)
    fix y assume "y \<in> (\<lambda>u. (u_id u, u_role u)) ` {u \<in> set (users r). P (u_role u)}"
    then show "y \<in> {(j, x). map_option u_role (user_by_id j r) = Some x \<and> P x}" using mem[OF that] by auto
  next
    fix y assume "y \<in> {(j, x). map_option u_role (user_by_id j r) = Some x \<and> P x}"
    then obtain j u where "y = (j, u_role u)" "user_by_id j r = Some u" "P (u_role u)" by auto
    then show "y \<in> (\<lambda>u. (u_id u, u_role u)) ` {u \<in> set (users r). P (u_role u)}" using user_by_id_Some[of j r u] by auto
  qed
  have rows: "u \<in> set (users t) \<longleftrightarrow> u \<in> set (users s)" if "\<not> own (u_id u)" for u
    using that assms(3,4) by (metis mem[OF assms(1)] mem[OF assms(2)])
  show ?thesis
    unfolding guarded_def img[OF assms(1)] img[OF assms(2)] role using rows by blast
qed

section \<open>Operations\<close>

text \<open>The roles an actor may neither give nor touch.\<close>

definition protects :: "string \<Rightarrow> (string \<Rightarrow> bool) \<Rightarrow> bool" where
  "protects a P \<longleftrightarrow>
     (\<forall>role r. create_role a r = Inr role \<longrightarrow> \<not> P role)
     \<and> (\<forall>role. role \<noteq> ''system'' \<longrightarrow> \<not> (a = ''admin'' \<and> role \<noteq> ''user'') \<longrightarrow> \<not> P role)
     \<and> (\<forall>role. \<not> (a = ''admin'' \<and> role = ''admin'') \<longrightarrow> role = ''user'' \<or> role = ''admin'' \<longrightarrow> \<not> P role)"

lemma protects_admin_request:
  assumes "protects a P" "db_ok s" "serial env"
  shows "guarded P own s (run_admin env a req s)"
  by (rule guarded_untouched, rule untouched_admin) (use assms in \<open>auto simp: protects_def serial_def\<close>)

text \<open>The rows stay well formed and guarded from \<^verbatim>\<open>s\<close> on.\<close>

definition guards :: "(string \<Rightarrow> bool) \<Rightarrow> (int \<Rightarrow> bool) \<Rightarrow> 'r app \<Rightarrow> 'r app \<Rightarrow> bool" where
  "guards P own s t \<longleftrightarrow> db_ok t \<and> guarded P own s t"

lemma guards_same: "guards P own s t \<Longrightarrow> users t' = users t \<Longrightarrow> tokens t' = tokens t \<Longrightarrow> guards P own s t'"
  by (simp add: guards_def guarded_def db_ok_def)

lemma guards_admin:
  assumes "protects a P" "serial env"
  shows "keeps (guards P own s) (update_user env i ui a)" "keeps (guards P own s) (delete_user env i a j)"
    and "b \<le> i64_max \<Longrightarrow> keeps (guards P own s) (set_balance env i b a)" "keeps (guards P own s) (adjust_balance env i m a)"
    and "keeps (guards P own s) (create_user env ci a)"
proof -
  have step: "keeps (guards P own s) m"
    if "\<And>t. db_ok t \<Longrightarrow> db_ok (snd (m t))" "\<And>t. snd (m t) = run_admin env a req t" for m :: "('a app, user_error, 'x) prog" and req
    using that protects_admin_request[OF assms(1) _ assms(2), of _ own req] guarded_trans by (fastforce simp: keeps_def guards_def)
  have b: "db_ok t \<Longrightarrow> db_ok (between env t)" for t using assms(2) by (simp add: serial_def)
  show "keeps (guards P own s) (update_user env i ui a)"
    by (rule step[of _ "admin_request.Update i ui"]) (simp_all add: update_user_db_ok b run_admin_def)
  show "keeps (guards P own s) (delete_user env i a j)"
    by (rule step[of _ "admin_request.Delete i j"]) (simp_all add: delete_user_db_ok b run_admin_def)
  show "b \<le> i64_max \<Longrightarrow> keeps (guards P own s) (set_balance env i b a)"
    by (rule step[of _ "admin_request.SetBalance i b"]) (simp_all add: set_balance_db_ok run_admin_def)
  show "keeps (guards P own s) (adjust_balance env i m a)"
    by (rule step[of _ "admin_request.AdjustBalance i m"]) (simp_all add: adjust_balance_db_ok run_admin_def)
  show "keeps (guards P own s) (create_user env ci a)"
    by (rule step[of _ "admin_request.Create ci"]) (simp_all add: create_user_db_ok run_admin_def)
qed

lemma guards_own_step:
  assumes "guards P own s t" "own i" "db_ok t'" "\<And>j. j \<noteq> i \<Longrightarrow> user_by_id j t' = user_by_id j t"
    and "map_option u_role (user_by_id i t') = map_option u_role (user_by_id i t)"
  shows "guards P own s t'"
proof -
  have "guarded P own t t'" by (rule guarded_own[where own = own, OF _ assms(3,2,4,5)]) (use assms(1) in \<open>simp add: guards_def\<close>)
  then show ?thesis using assms(1,3) guarded_trans unfolding guards_def by blast
qed

lemma keeps_quiet_stmts:
  assumes "serial env"
  shows "keeps I (db_stmt env c m (read_db f))" "keeps I (interfere env)"
  using assms by (auto simp: keeps_def db_stmt_def read_db_def interfere_def serial_def split: prod.splits)

lemma guards_own:
  assumes "own i" "serial env"
  shows "keeps (guards P own s) (change_password env i p q)" "keeps (guards P own s) (revoke_all_sessions env i)"
proof -
  have txn: "keeps (guards P own s) (password_txn env i h)" for h
  proof (rule keepsI)
    fix t assume t: "guards P own s t"
    then have ok: "db_ok t" by (simp add: guards_def)
    let ?t = "snd (password_txn env i h t)"
    have d: "db_ok ?t" by (rule wp_snd, rule wp_password_txn[OF ok]) simp_all
    have "password_done env i h t ?t \<or> same_tables t ?t"
      using wp_password_done[OF ok, of env i h] by (auto simp: wp_def split: prod.splits sum.splits)
    then show "guards P own s ?t"
    proof
      assume "password_done env i h t ?t"
      then show ?thesis by (intro guards_own_step[OF t assms(1) d]) (auto simp: password_done_def)
    next
      assume "same_tables t ?t"
      then show ?thesis by (intro guards_same[OF t]) (simp_all add: same_tables_def)
    qed
  qed
  have drop: "keeps (guards P own s) (drop_cache env key)" for key
    using keeps_redis(1)[of "guards P own s" env key] guards_same[of P own s] by simp
  show "keeps (guards P own s) (change_password env i p q)"
    unfolding change_password_def by (intro keeps_bindS keeps_if keeps_basic keeps_quiet_stmts[OF assms(2)] txn drop)
  show "keeps (guards P own s) (revoke_all_sessions env i)"
  proof (rule keepsI)
    fix t assume t: "guards P own s t"
    obtain r t' where r: "revoke_all_sessions env i t = (r, t')" by (metis prod.exhaust)
    show "guards P own s (snd (revoke_all_sessions env i t))"
    proof (cases r)
      case (Inl e)
      then show ?thesis using revoke_cases[OF r] by (auto simp: r same_tables_def intro: guards_same[OF t])
    next
      case (Inr a)
      then have d: "revoked i t t'" using revoke_cases[OF r] by simp
      have "db_ok t'" using revoke_db_ok[of t env i] t r by (simp add: guards_def)
      then show ?thesis
        using revoked_user[OF d] by (auto simp: r option.map_comp comp_def intro: guards_own_step[OF t assms(1)])
    qed
  qed
qed

text \<open>The verification behind the creation of an account reaches the new row only.\<close>

lemma wp_created:
  assumes "protects a P" "db_ok s"
  shows "wp (create_user env ci a) (\<lambda>_ t. list_all (\<lambda>u. u_email u = to_lower (ci_email ci) \<longrightarrow> \<not> P (u_role u)) (users t)) (\<lambda>_ _. True) s"
proof -
  have new: "list_all (\<lambda>u. u_email u = to_lower (ci_email ci) \<longrightarrow> \<not> P (u_role u)) (users s')"
    if "insert_user (new_user_row env ci h role) s = DbOk s'" "create_role a (ci_role ci) = Inr role" for h role s'
  proof -
    let ?r = "new_user_row env ci h role"
    have "\<not> list_ex (\<lambda>v. u_id v = u_id ?r \<or> clashes ?r v) (users s)" "users s' = users s @ [?r]"
      using that(1) by (auto simp: insert_user_def split: if_splits)
    moreover have "u_email ?r = to_lower (ci_email ci)" "u_role ?r = role" by (simp_all add: new_user_row_def)
    moreover have "\<not> P role" using conjunct1[OF assms(1)[unfolded protects_def]] that(2) by blast
    ultimately show ?thesis by (auto simp: list_ex_iff list_all_iff clashes_def)
  qed
  show ?thesis
    by (auto simp: create_user_def wp_simps split: sum.splits db_result.splits intro!: wp_intros new)
qed

lemma guards_verified:
  assumes "serial env" "guards P own s t" "list_all (\<lambda>u. u_email u = to_lower email \<longrightarrow> \<not> P (u_role u)) (users t)"
  shows "guards P own s (snd (verified_response env email r t))"
proof -
  have t: "db_ok t" using assms(2) by (simp add: guards_def)
  have up: "untouched P t t'" if "user_by_email (to_lower email) t = Some v" "update_user_row (u_id v) (auto_columns env) t = DbOk (t', u)" for v t' u
  proof (rule rows_with_update[OF that(2) t])
    fix x assume "user_by_id (u_id v) t = Some x"
    moreover note v = user_by_email_id[OF t that(1)]
    ultimately have "x = v" by simp
    moreover have "\<not> P (u_role v)" using assms(3) v(1,2) by (simp add: list_all_iff)
    ultimately show "\<not> P (u_role x) \<and> \<not> P (u_role (auto_columns env x))" by (simp add: auto_columns_def)
  qed
  have "wp (auto_verify env email) (\<lambda>_. untouched P t) (\<lambda>_. untouched P t) t"
    using assms(1)
    by (auto simp: auto_verify_def find_user_by_email_def wp_simps serial_def split: option.split db_result.split intro: up)
  from wp_snd[OF this] have u: "untouched P t (snd (auto_verify env email t))" .
  have "db_ok (snd (auto_verify env email t))" by (rule auto_verify_db_ok[OF t]) (use assms(1) in \<open>simp add: serial_def\<close>)
  then have "guards P own s (snd (auto_verify env email t))"
    using assms(2) u guarded_untouched guarded_trans unfolding guards_def by blast
  then show ?thesis by (auto simp: verified_response_def split: prod.splits sum.splits)
qed

section \<open>Handlers and routes\<close>

lemma bind_lift: "bindS (liftE (Inr a)) f = f a"
  by (simp add: fun_eq_iff bindS_def)

lemma handler_context_Some: "handler_context (Some au) = Inr au"
  by (simp add: handler_context_def ok_or_def)

lemma guards_create_handler:
  assumes "protects (au_role au) P" "serial env"
  shows "keeps (guards P own s) (create_user_handler w env (Some au) req body)"
proof -
  have c: "keeps (guards P own s) (bindS (on_error g (create_user env ci (au_role au))) (\<lambda>created.
      bindS (verified_response env email created) (\<lambda>result. retS (h result))))"
    if "to_lower (ci_email ci) = to_lower email" for g ci email and h :: "_ \<Rightarrow> reply"
  proof (rule keepsI)
    fix t assume t: "guards P own s t"
    obtain x t1 where r: "create_user env ci (au_role au) t = (x, t1)" by (metis prod.exhaust)
    have k: "guards P own s t1" using keepsD[OF guards_admin(5)[OF assms] t] r by (metis snd_conv)
    have "x = Inr c \<Longrightarrow> list_all (\<lambda>u. u_email u = to_lower email \<longrightarrow> \<not> P (u_role u)) (users t1)" for c
      using wp_Inr[OF wp_created[OF assms(1), of t env ci]] t r that by (simp add: guards_def)
    then have "x = Inr c \<Longrightarrow> guards P own s (snd (verified_response env email c t1))" for c
      using guards_verified[OF assms(2) k] by blast
    then show "guards P own s (snd (bindS (on_error g (create_user env ci (au_role au))) (\<lambda>created.
      bindS (verified_response env email created) (\<lambda>result. retS (h result))) t))"
      using k r by (auto simp: bindS_def on_error_def split: prod.splits sum.splits)
  qed
  show ?thesis
    unfolding create_user_handler_def Let_def bind_lift handler_context_Some
    by (intro keeps_bindS[OF keeps_decoded] keeps_bindS[OF keeps_basic(3)] c) simp
qed

lemma reads_keep:
  assumes "\<And>s r. I s \<Longrightarrow> I (s\<lparr>redis := r\<rparr>)"
  shows "keeps I (get_user env j i)" "keeps I (get_user_scoped env j i a)" "keeps I (list_users env p a)"
proof -
  show g: "keeps I (get_user env j i)"
    by (rule keepsI, rule wp_snd) (use assms in \<open>auto simp: get_user_def wp_simps split: sum.splits option.splits intro!: wp_intros\<close>)
  show "keeps I (get_user_scoped env j i a)"
    unfolding get_user_scoped_def by (intro keeps_bindS g keeps_option keeps_if keeps_basic)
  show "keeps I (list_users env p a)"
    by (rule keepsI, rule wp_snd) (use assms in \<open>auto simp: list_users_def wp_simps Let_def split: sum.splits option.splits intro!: wp_intros\<close>)
qed

lemma guards_handlers:
  assumes "protects (au_role au) P" "serial env" "\<And>i. parse_i64 (au_user_id au) = Some i \<Longrightarrow> own i" "decoders_ok (wb_decoders w)"
  shows "keeps (guards P own s) (run_api w env e (Some au) req param body)"
proof -
  let ?I = "guards P own s"
  note redis = guards_same[of P own s]
  have reads: "keeps ?I (get_user env j i)" "keeps ?I (get_user_scoped env j i a)" "keeps ?I (list_users env pp a)"
    and drop: "keeps ?I (drop_cache env key)" for j i a pp key
    using reads_keep[of ?I] keeps_redis(1)[of ?I] redis by simp_all
  note ops = guards_admin[OF assms(1,2)]
  have own: "own i" if "own_id au = Inr i" for i using that assms(3) by (auto simp: own_id_def ok_or_def split: option.splits)
  note mine = guards_own[OF own assms(2)]
  note steps = keeps_bindS keeps_on_error keeps_if keeps_prod keeps_decoded keeps_basic ops reads
    drop mine guards_create_handler[OF assms(1,2)] keeps_balance_body[OF assms(4)]
  show ?thesis
    unfolding run_api_def
  proof (cases e, simp_all only: endpoint.case)
    show "keeps ?I (health_check w)" by (simp add: health_check_def keeps_basic)
    show "keeps ?I (get_me w env (Some au))" "keeps ?I (get_user_handler w env (Some au) param)" "keeps ?I (list_users_handler w env (Some au) req)"
      unfolding get_me_def get_user_handler_def list_users_handler_def handler_context_Some bind_lift
      by ((rule keeps_liftE | rule steps)+)
    show "keeps ?I (create_user_handler w env (Some au) req body)" by (rule guards_create_handler[OF assms(1,2)])
    show "keeps ?I (update_user_handler w env (Some au) req param body)" "keeps ?I (delete_user_handler w env (Some au) param)"
      "keeps ?I (adjust_balance_handler w env (Some au) req param body)"
      unfolding update_user_handler_def delete_user_handler_def adjust_balance_handler_def handler_context_Some bind_lift
      by ((rule keeps_liftE | rule steps)+)
    show "keeps ?I (change_my_password_handler w env (Some au) req body)" "keeps ?I (logout_all_handler w env (Some au))"
      unfolding change_my_password_handler_def change_my_password_inner_def logout_all_handler_def handler_context_Some bind_lift Let_def
      by ((rule keeps_liftE | rule steps | assumption)+)
    show "keeps ?I (set_balance_handler w env (Some au) req param body)"
      unfolding set_balance_handler_def handler_context_Some bind_lift
    proof (intro keeps_liftE keeps_balance_body[OF assms(4)])
      fix b :: int assume "b \<le> i64_max"
      from ops(3)[OF this] show "keeps ?I (bindS (on_error g (set_balance env i b (au_role au))) (\<lambda>result. retS (h result)))" for g i and h :: "_ \<Rightarrow> reply"
        by (intro keeps_bindS keeps_on_error keeps_basic)
    qed
  qed
qed

section \<open>Requests\<close>

definition presents :: "'r web \<Rightarrow> 'r env \<Rightarrow> http_request \<Rightarrow> jwt_claims \<Rightarrow> int \<Rightarrow> bool" where
  "presents w env req claims i \<longleftrightarrow> presented (wb_parsers w) (wb_crypto w) (jwt_secret (wb_auth w)) env req = Some (claims, i)"

lemma guards_api:
  assumes "serial env" "db_ok s" "decoders_ok (wb_decoders w)" "serve_api w env reason req s = (x, t)"
    and "\<And>claims i. presents w env req claims i \<Longrightarrow> protects (jwt_role claims) P \<and> own i"
  shows "guards P own s t"
proof (cases "find_route api_routes (rq_method req) (rq_path req)")
  case None
  then show ?thesis using assms(2,4) by (simp add: serve_api_def guards_def guarded_same)
next
  case (Some route)
  obtain admin pattern m e where route: "route = (admin, pattern, m, e)" by (metis prod.exhaust)
  obtain y s1 where a: "auth_middleware (wb_parsers w) (wb_crypto w) (jwt_secret (wb_auth w)) env req s = (y, s1)"
    by (metis prod.exhaust)
  have s1: "guards P own s s1"
    by (rule guards_same[of _ _ s]) (use assms(2) auth_middleware_cases(1)[OF a] in \<open>simp_all add: guards_def guarded_same\<close>)
  have h: "keeps (guards P own s) (run_api w env e u req param body)" if "y = Inr u" for u param body
  proof (cases "is_health req")
    case True
    then show ?thesis using health_route[OF True Some[unfolded route]] by (simp add: run_api_def health_check_def keeps_basic)
  next
    case False
    then obtain claims uid where p: "presents w env req claims uid" "u = Some (auth_user_of claims)"
      using auth_middleware_cases(2)[OF a False \<open>y = Inr u\<close>] by (auto simp: presents_def)
    have "parse_i64 (sub claims) = Some uid"
      using p(1) by (auto simp: presents_def presented_def Option.bind_eq_Some_conv)
    then show ?thesis
      unfolding p(2) using assms(5)[OF p(1)] by (intro guards_handlers assms(1,3)) (auto simp: auth_user_of_def)
  qed
  have "guards P own s (snd (bindS (liftE (if admin then require_admin u else Inr ())) (\<lambda>_. bindS (liftE (axum_body reason req)) (\<lambda>body.
      bindS (run_api w env e u req (get_param (Some (''/api'' @ pattern)) (rq_path req) ''id'') body) (\<lambda>r. retS (Some r)))) s1))" if "y = Inr u" for u
    by (rule keepsD[where I = "guards P own s", OF _ s1]) (intro keeps_bindS keeps_basic h[OF that])
  then show ?thesis
    using assms(4) a s1 Some by (cases y) (auto simp: serve_api_def route bindS_def)
qed

text \<open>C8: the system account is out of reach of the API. Whoever sends a request under \<^verbatim>\<open>/api\<close>, whatever it asks for and whichever statements
  fail, the rows with the role system are the ones before, when no other request commits in between: none is changed, deleted or added. The one
  exception is the row of the account whose token the request presents, which a change of the own password or a logout from all devices
  rewrites; its id and its role stay, too.\<close>

theorem system_rows_immutable:
  assumes "serial env" "db_ok s" "decoders_ok (wb_decoders w)" "serve_api w env reason req s = (x, t)"
  shows "{u \<in> set (users t). u_role u = ''system'' \<and> \<not> (\<exists>claims. presents w env req claims (u_id u))}
      = {u \<in> set (users s). u_role u = ''system'' \<and> \<not> (\<exists>claims. presents w env req claims (u_id u))}
    \<and> u_id ` {u \<in> set (users t). u_role u = ''system''} = u_id ` {u \<in> set (users s). u_role u = ''system''}"
proof -
  have "protects a (\<lambda>r. r = ''system'')" for a
    by (auto simp: protects_def create_role_def Let_def split: if_splits option.splits)
  then have g: "guards (\<lambda>r. r = ''system'') (\<lambda>i. \<exists>claims. presents w env req claims i) s t"
    by (intro guards_api[OF assms]) blast
  have "u_id ` {u \<in> set (users r). u_role u = ''system''} = fst ` (\<lambda>u. (u_id u, u_role u)) ` {u \<in> set (users r). u_role u = ''system''}" for r :: "'a app"
    by (simp add: image_image)
  then show ?thesis using g by (simp add: guards_def guarded_def)
qed

text \<open>C9: an admin is confined to plain users. A request under \<^verbatim>\<open>/api\<close> with a token of the role admin changes, deletes, adds or promotes no
  account whose role is not user, when no other request commits in between; only the row of the admin's own account may be rewritten, and keeps
  its id and role.\<close>

theorem admin_confined_to_users:
  assumes "serial env" "db_ok s" "decoders_ok (wb_decoders w)" "serve_api w env reason req s = (x, t)"
    and "presents w env req claims i" "jwt_role claims = ''admin''"
  shows "{u \<in> set (users t). u_role u \<noteq> ''user'' \<and> u_id u \<noteq> i} = {u \<in> set (users s). u_role u \<noteq> ''user'' \<and> u_id u \<noteq> i}
    \<and> (\<lambda>u. (u_id u, u_role u)) ` {u \<in> set (users t). u_role u \<noteq> ''user''} = (\<lambda>u. (u_id u, u_role u)) ` {u \<in> set (users s). u_role u \<noteq> ''user''}"
proof -
  have "protects ''admin'' (\<lambda>r. r \<noteq> ''user'')"
    by (auto simp: protects_def create_role_def split: if_splits)
  then have "guards (\<lambda>r. r \<noteq> ''user'') (\<lambda>j. j = i) s t"
    by (intro guards_api[OF assms(1-4)]) (use assms(5,6) in \<open>auto simp: presents_def\<close>)
  then show ?thesis by (simp add: guards_def guarded_def)
qed

section \<open>Witnesses\<close>

text \<open>The admin of the sample tables sets the balance of an account to seven.\<close>

definition admin_web :: "kv web" where
  "admin_web = sample_web\<lparr>wb_crypto := sample_crypto (sample_claims\<lparr>sub := ''2'', jwt_role := ''admin''\<rparr>)\<rparr>"

definition balance_request :: "string \<Rightarrow> http_request" where
  "balance_request i = sample_request ''PUT'' (''/users/'' @ i @ ''/balance'')"

lemma admin_web_ok: "decoders_ok (wb_decoders admin_web)" "serial sample_env"
  using sample_web_ok by (simp_all add: admin_web_def serial_def sample_env_simps)

lemma admin_presented: "presents admin_web sample_env (balance_request i) (sample_claims\<lparr>sub := ''2'', jwt_role := ''admin''\<rparr>) 2"
proof -
  have "parse_i64 ''2'' = Some 2" by code_simp
  moreover have "request_token (wb_parsers admin_web) (balance_request i) = Some ''t.k''"
    using sample_token_read[of "''PUT''" "''/users/'' @ i @ ''/balance''"] by (simp add: admin_web_def balance_request_def)
  ultimately show ?thesis
    by (simp add: presents_def presented_def validate_jwt_def admin_web_def sample_crypto_def sample_claims_def now_secs_def sample_env_simps
        sample_web_def sample_auth_def)
qed

lemma admin_sets_balance:
  obtains x t where "serve_api admin_web sample_env [] (balance_request ''3'') sample_app = (x, t)"
    "user_by_id 3 t = map_option (\<lambda>u. u\<lparr>u_balance := 7, u_updated_at := 1000000\<rparr>) (user_by_id 3 sample_app)"
proof -
  let ?c = "sample_claims\<lparr>sub := ''2'', jwt_role := ''admin''\<rparr>" and ?q = "balance_request ''3''"
  have h: "\<not> is_health ?q" by (simp add: is_health_def balance_request_def sample_request_def)
  obtain x s1 where a: "auth_middleware (wb_parsers admin_web) (wb_crypto admin_web) (jwt_secret (wb_auth admin_web)) sample_env ?q sample_app = (x, s1)"
    by (metis prod.exhaust)
  note mw = auth_middleware_exact[OF sample_laws sample_app_ok h a]
  have "live_session (wb_parsers admin_web) (wb_crypto admin_web) (jwt_secret (wb_auth admin_web)) sample_env ?q sample_app ?c"
    using admin_presented[of "''3''"] by (simp add: live_session_def presents_def)
      (simp add: user_by_id_def sample_app_def sample_user_def sample_claims_def)
  then have x: "x = Inr (Some (auth_user_of ?c))" using mw(1) by blast
  have route: "find_route api_routes ''PUT'' ''/users/3/balance'' = Some (True, ''/users/{id}/balance'', ''PUT'', endpoint.SetBalance)"
    and param: "get_param (Some ''/api/users/{id}/balance'') ''/users/3/balance'' ''id'' = Some ''3''"
    and role: "require_admin (Some (auth_user_of ?c)) = Inr ()" "au_role (auth_user_of ?c) = ''admin''"
    by code_simp+
  have req: "rq_method ?q = ''PUT''" "rq_path ?q = ''/users/3/balance''" "axum_body [] ?q = Inr []"
    by (simp_all add: balance_request_def sample_request_def axum_body_def bodyless_def)
  have s1: "users s1 = users sample_app" using mw(2) by blast
  obtain r t where t: "set_balance sample_env 3 7 ''admin'' s1 = (r, t)"
    "user_by_id 3 t = map_option (\<lambda>u. u\<lparr>u_balance := 7, u_updated_at := 1000000\<rparr>) (user_by_id 3 sample_app)"
    by (simp add: set_balance_def in_txn_def bindS_def db_stmt_def read_db_def write_balance_def run_stmt_def stmt_result_def
        update_user_row_def check_balance_rbac_def ok_or_def liftE_def retS_def drop_cache_run user_by_id_def s1 sample_app_def
        sample_user_def sample_env_simps clashes_def)
  have d: "decoded (d_set_balance (wb_decoders admin_web)) ?q [] = (retS 7 :: (kv app, http_error, int) prog)"
    by (simp add: decoded_def parse_json_or_form_def Let_def admin_web_def sample_web_def sample_decoders_def sample_decoder_def liftE_def retS_def fun_eq_iff)
  have "snd (serve_api admin_web sample_env [] ?q sample_app) = t"
    using t(1) by (cases r) (auto simp: serve_api_def req route bindS_def a x liftE_def run_api_def role param set_balance_handler_def
      handler_context_def parse_id_def parse_three d retS_def on_error_def)
  then show thesis using that t(2) by (metis prod.collapse)
qed

lemma system_rows_immutable_witness:
  "case serve_api admin_web sample_env [] (balance_request ''1'') sample_app of
     (x, t) \<Rightarrow> {u \<in> set (users t). u_role u = ''system''} = {sample_user 1 ''s'' ''system''}"
proof -
  obtain x t where r: "serve_api admin_web sample_env [] (balance_request ''1'') sample_app = (x, t)" by (metis prod.exhaust)
  let ?p = "\<lambda>i. \<exists>claims. presents admin_web sample_env (balance_request ''1'') claims i"
  have p: "?p i = (i = 2)" for i
    using admin_presented[of "''1''"] unfolding presents_def by (metis Pair_inject option.inject)
  note rows = system_rows_immutable[OF admin_web_ok(2) sample_app_ok admin_web_ok(1) r, unfolded p]
  have s: "{u \<in> set (users sample_app). u_role u = ''system''} = {sample_user 1 ''s'' ''system''}"
    by (auto simp: sample_app_def sample_user_def)
  then have "u_id ` {u \<in> set (users t). u_role u = ''system''} = {1}" using rows by (simp add: sample_user_simps)
  then have "u_id u \<noteq> 2" if "u \<in> set (users t)" "u_role u = ''system''" for u
    using imageI[of u "{u \<in> set (users t). u_role u = ''system''}" u_id] that by simp
  then have "{u \<in> set (users t). u_role u = ''system''} = {u \<in> set (users t). u_role u = ''system'' \<and> u_id u \<noteq> 2}" by blast
  also have "\<dots> = {u \<in> set (users sample_app). u_role u = ''system'' \<and> u_id u \<noteq> 2}" using rows by blast
  also have "\<dots> = {sample_user 1 ''s'' ''system''}" by (auto simp: sample_app_def sample_user_def)
  finally show ?thesis by (simp add: r)
qed

lemma admin_confined_to_users_witness:
  "\<exists>x t. serve_api admin_web sample_env [] (balance_request ''3'') sample_app = (x, t)
    \<and> map_option u_balance (user_by_id 3 t) = Some 7
    \<and> {u \<in> set (users t). u_role u \<noteq> ''user'' \<and> u_id u \<noteq> 2} = {sample_user 1 ''s'' ''system''}"
proof -
  obtain x t where r: "serve_api admin_web sample_env [] (balance_request ''3'') sample_app = (x, t)"
    and b: "user_by_id 3 t = map_option (\<lambda>u. u\<lparr>u_balance := 7, u_updated_at := 1000000\<rparr>) (user_by_id 3 sample_app)"
    by (rule admin_sets_balance)
  have "{u \<in> set (users t). u_role u \<noteq> ''user'' \<and> u_id u \<noteq> 2} = {u \<in> set (users sample_app). u_role u \<noteq> ''user'' \<and> u_id u \<noteq> 2}"
    using admin_confined_to_users[OF admin_web_ok(2) sample_app_ok admin_web_ok(1) r admin_presented] by simp
  also have "\<dots> = {sample_user 1 ''s'' ''system''}" by (auto simp: sample_app_def sample_user_def)
  finally show ?thesis using r b sample_user_three by auto
qed

end
