(* ===== verification/DbRouter.thy ===== *)
theory DbRouter
  imports Prelude "HOL-Library.Word"
begin

text \<open>
  \<^verbatim>\<open>server/src/utils/db_router.rs\<close>: one connection for writes, any number of read replicas. A statement goes to a replica unless its text
  looks like a write or takes locks; a replica that fails is not used again until its circuit breaker opens. Connections, what a statement
  does on one of them, the clock and the random numbers are libraries: a type, an argument \<^verbatim>\<open>op\<close> of every routed query, and the record
  \<^verbatim>\<open>router_lib\<close>, all of them depending on a state of the world. Times are milliseconds.
\<close>

section \<open>The router\<close>

datatype read_strategy = RoundRobin | Random | Weighted

text \<open>The errors of the database library the code tells apart, with their texts.\<close>

datatype routed_err = ConnErr string | AcquireErr string | QueryErr string | CustomErr string | OtherErr string

record 'c read_replica =
  rp_conn :: 'c
  rp_original_index :: nat
  rp_weight :: nat

record 'c router =
  ro_write :: 'c
  ro_reads :: "'c read_replica list"
  ro_strategy :: read_strategy
  ro_counter :: "64 word"
  ro_down_until :: "int option list"
  ro_circuit_break :: int
  ro_retry_attempts :: nat
  ro_fallback_to_write :: bool

record routing_config =
  rc_strategy :: string
  rc_read_weights :: "nat list"
  rc_circuit_break_ms :: int
  rc_retry_attempts :: nat
  rc_fallback_to_write :: bool

text \<open>The clock, and a random number below a positive bound.\<close>

record 's router_lib =
  clock :: "'s \<Rightarrow> int"
  gen_range :: "'s \<Rightarrow> nat \<Rightarrow> nat"

definition parse_strategy :: "string \<Rightarrow> read_strategy" where
  "parse_strategy s =
     (let l = to_lower s in if l = ''random'' then Random else if l = ''weighted'' then Weighted else RoundRobin)"

definition new_internal :: "'c \<Rightarrow> 'c read_replica list \<Rightarrow> routing_config \<Rightarrow> 'c router" where
  "new_internal write reads routing =
     \<lparr>ro_write = write, ro_reads = reads, ro_strategy = parse_strategy (rc_strategy routing), ro_counter = 0,
      ro_down_until = replicate (length reads) None, ro_circuit_break = rc_circuit_break_ms routing,
      ro_retry_attempts = rc_retry_attempts routing, ro_fallback_to_write = rc_fallback_to_write routing\<rparr>"

definition single :: "'c \<Rightarrow> 'c router" where
  "single write =
     \<lparr>ro_write = write, ro_reads = [], ro_strategy = RoundRobin, ro_counter = 0, ro_down_until = [],
      ro_circuit_break = 30000, ro_retry_attempts = 2, ro_fallback_to_write = False\<rparr>"

text \<open>The weight of a replica goes by its place in the configuration, also when others failed to connect.\<close>

definition replica_weight :: "nat list \<Rightarrow> nat \<Rightarrow> nat" where
  "replica_weight weights i = (if weights \<noteq> [] then max (if i < length weights then weights ! i else 1) 1 else 1)"

definition connected :: "nat list \<Rightarrow> (routed_err, 'c) res list \<Rightarrow> 'c read_replica list" where
  "connected weights results =
     concat (map (\<lambda>(i, x). case x of
         Inl e \<Rightarrow> [] | Inr c \<Rightarrow> [\<lparr>rp_conn = c, rp_original_index = i, rp_weight = replica_weight weights i\<rparr>])
       (enumerate 0 results))"

text \<open>The results of connecting to the writer and to each replica; a timeout or a panic of the task is an error.\<close>

definition new_router :: "(routed_err, 'c) res \<Rightarrow> (routed_err, 'c) res list \<Rightarrow> routing_config \<Rightarrow> (routed_err, 'c router) res" where
  "new_router write_result read_results routing =
     bindE write_result (\<lambda>write.
     if rc_read_weights routing \<noteq> [] \<and> length (rc_read_weights routing) \<noteq> length read_results
     then Inl (CustomErr ''read_weights length does not match database_read_urls count'')
     else Inr (new_internal write (connected (rc_read_weights routing) read_results) routing))"

section \<open>Statements\<close>

definition is_locking_select :: "string \<Rightarrow> bool" where
  "is_locking_select sql =
     (if sql = [] then False
      else let up = to_upper sql in
        str_contains up ''FOR UPDATE'' \<or> str_contains up ''FOR SHARE'' \<or> str_contains up ''FOR NO KEY UPDATE''
        \<or> str_contains up ''FOR KEY SHARE'' \<or> str_contains up ''LOCK IN SHARE MODE'')"

definition write_keywords :: "string list" where
  "write_keywords = [''INSERT '', ''UPDATE '', ''DELETE '', ''REPLACE '']"

fun cte_scan :: "nat \<Rightarrow> string \<Rightarrow> bool" where
  "cte_scan depth [] = False"
| "cte_scan depth (c # s) =
     (if c = CHR ''('' then cte_scan (depth + 1) s
      else if c = CHR '')'' \<and> 0 < depth then cte_scan (depth - 1) s
      else if depth = 0 \<and> list_ex (starts_with (c # s)) write_keywords then True
      else cte_scan depth s)"

definition cte_main_stmt_is_write :: "string \<Rightarrow> bool" where
  "cte_main_stmt_is_write uppercase_sql =
     (let rest = (case strip_prefix uppercase_sql ''WITH '' of Some r \<Rightarrow> r | None \<Rightarrow> uppercase_sql);
          rest' = (case strip_prefix rest ''RECURSIVE '' of Some r \<Rightarrow> r | None \<Rightarrow> rest)
      in cte_scan 0 rest')"

definition is_write_statement :: "string \<Rightarrow> bool" where
  "is_write_statement sql =
     (if sql = [] then False
      else let up = to_upper (trim_start sql) in
        if list_ex (starts_with up) write_keywords then True
        else if starts_with up ''WITH '' then cte_main_stmt_is_write up
        else False)"

definition is_connection_error :: "routed_err \<Rightarrow> bool" where
  "is_connection_error e =
     (case e of
        ConnErr _ \<Rightarrow> True
      | AcquireErr _ \<Rightarrow> True
      | QueryErr text \<Rightarrow>
          list_ex (str_contains (to_lower text))
            [''broken pipe'', ''connection reset'', ''io error'', ''network'', ''eof'', ''transport'']
      | _ \<Rightarrow> False)"

section \<open>Choosing a replica\<close>

fun weighted_choice :: "nat \<Rightarrow> nat \<Rightarrow> (nat \<times> nat) list \<Rightarrow> nat" where
  "weighted_choice chosen roll [] = chosen"
| "weighted_choice chosen roll ((i, w) # rest) = (if roll < w then i else weighted_choice chosen (roll - w) rest)"

text \<open>The index that is chosen, and the counter.\<close>

definition select_weighted_index ::
    "(nat \<Rightarrow> nat) \<Rightarrow> nat list \<Rightarrow> nat list \<Rightarrow> 64 word \<Rightarrow> nat \<times> 64 word" where
  "select_weighted_index gen healthy weights counter =
     (let total = sum_list weights in
      if total = 0 then (healthy ! (unat counter mod length healthy), counter + 1)
      else (weighted_choice (hd healthy) (gen total) (zip healthy weights), counter))"

definition breaker_open :: "int \<Rightarrow> int option \<Rightarrow> bool" where
  "breaker_open t slot = (case slot of None \<Rightarrow> True | Some until \<Rightarrow> until \<le> t)"

definition available :: "int \<Rightarrow> nat list \<Rightarrow> 'c router \<Rightarrow> nat \<Rightarrow> bool" where
  "available t exclude r i \<longleftrightarrow> i \<notin> set exclude \<and> breaker_open t (ro_down_until r ! i)"

definition healthy_reads :: "int \<Rightarrow> nat list \<Rightarrow> 'c router \<Rightarrow> nat list" where
  "healthy_reads t exclude r = filter (available t exclude r) [0..<length (ro_reads r)]"

definition recover :: "int \<Rightarrow> nat list \<Rightarrow> 'c router \<Rightarrow> 'c router" where
  "recover t exclude r =
     r\<lparr>ro_down_until := map (\<lambda>i. if i < length (ro_reads r) \<and> available t exclude r i then None else ro_down_until r ! i)
                        [0..<length (ro_down_until r)]\<rparr>"

definition pick_next_read :: "'s router_lib \<Rightarrow> nat list \<Rightarrow> 'c router \<Rightarrow> 's \<Rightarrow> nat option \<times> 'c router" where
  "pick_next_read lib exclude r s =
     (if ro_reads r = [] then (None, r)
      else
        let healthy = healthy_reads (clock lib s) exclude r; r1 = recover (clock lib s) exclude r in
        if healthy = [] then (None, r1)
        else case ro_strategy r of
          RoundRobin \<Rightarrow>
            (Some (healthy ! (unat (ro_counter r) mod length healthy)), r1\<lparr>ro_counter := ro_counter r + 1\<rparr>)
        | Random \<Rightarrow> (Some (healthy ! gen_range lib s (length healthy)), r1)
        | Weighted \<Rightarrow>
            (case select_weighted_index (gen_range lib s) healthy (map (\<lambda>i. rp_weight (ro_reads r ! i)) healthy) (ro_counter r) of
               (i, counter) \<Rightarrow> (Some i, r1\<lparr>ro_counter := counter\<rparr>)))"

definition mark_down :: "'s router_lib \<Rightarrow> nat \<Rightarrow> 'c router \<Rightarrow> 's \<Rightarrow> 'c router" where
  "mark_down lib i r s =
     (if i < length (ro_down_until r)
      then r\<lparr>ro_down_until := (ro_down_until r)[i := Some (clock lib s + ro_circuit_break r)]\<rparr> else r)"

text \<open>A health check pings the replicas whose breaker has run out.\<close>

definition probe :: "'s router_lib \<Rightarrow> ('c \<Rightarrow> 's \<Rightarrow> bool \<times> 's) \<Rightarrow> nat \<Rightarrow> 'c router \<times> 's \<Rightarrow> 'c router \<times> 's" where
  "probe lib ping i w =
     (case ping (rp_conn (ro_reads (fst w) ! i)) (snd w) of
        (True, s) \<Rightarrow> ((fst w)\<lparr>ro_down_until := (ro_down_until (fst w))[i := None]\<rparr>, s)
      | (False, s) \<Rightarrow>
          ((fst w)\<lparr>ro_down_until := (ro_down_until (fst w))[i := Some (clock lib s + ro_circuit_break (fst w))]\<rparr>, s))"

definition probe_reads :: "'s router_lib \<Rightarrow> ('c \<Rightarrow> 's \<Rightarrow> bool \<times> 's) \<Rightarrow> 'c router \<times> 's \<Rightarrow> 'c router \<times> 's" where
  "probe_reads lib ping w =
     (let t = clock lib (snd w);
          to_probe = filter (\<lambda>i. case ro_down_until (fst w) ! i of None \<Rightarrow> False | Some until \<Rightarrow> until \<le> t)
                       [0..<length (ro_reads (fst w))]
      in fold (probe lib ping) to_probe w)"

section \<open>Queries\<close>

type_synonym ('c, 's, 'a) db_op = "'c \<Rightarrow> 's \<Rightarrow> (routed_err, 'a) res \<times> 's"

text \<open>The first phase tries each replica once: a final result, or the replicas tried with the last error.\<close>

fun try_each ::
    "'s router_lib \<Rightarrow> ('c, 's, 'a) db_op \<Rightarrow> nat \<Rightarrow> nat list \<Rightarrow> routed_err option \<Rightarrow> 'c router \<times> 's
     \<Rightarrow> ((routed_err, 'a) res + nat list \<times> routed_err option) \<times> 'c router \<times> 's" where
  "try_each lib op 0 tried last_err w = (Inr (tried, last_err), w)"
| "try_each lib op (Suc n) tried last_err w =
     (case pick_next_read lib tried (fst w) (snd w) of
        (None, r1) \<Rightarrow> (Inr (tried, last_err), (r1, snd w))
      | (Some i, r1) \<Rightarrow>
          (case op (rp_conn (ro_reads r1 ! i)) (snd w) of
             (Inr v, s1) \<Rightarrow> (Inl (Inr v), (r1, s1))
           | (Inl e, s1) \<Rightarrow>
               if is_connection_error e
               then try_each lib op n (List.insert i tried) (Some e) (mark_down lib i r1 s1, s1)
               else (Inl (Inl e), (r1, s1))))"

text \<open>The second phase goes on from the number of replicas tried, whatever the breakers say.\<close>

fun retry_each ::
    "'s router_lib \<Rightarrow> ('c, 's, 'a) db_op \<Rightarrow> nat list \<Rightarrow> routed_err option \<Rightarrow> 'c router \<times> 's
     \<Rightarrow> ((routed_err, 'a) res + routed_err option) \<times> 'c router \<times> 's" where
  "retry_each lib op [] last_err w = (Inr last_err, w)"
| "retry_each lib op (i # rest) last_err w =
     (case op (rp_conn (ro_reads (fst w) ! i)) (snd w) of
        (Inr v, s1) \<Rightarrow> (Inl (Inr v), (fst w, s1))
      | (Inl e, s1) \<Rightarrow>
          if is_connection_error e
          then retry_each lib op rest (Some e) (mark_down lib i (fst w) s1, s1)
          else (Inl (Inl e), (fst w, s1)))"

definition retry_indices :: "'c router \<Rightarrow> nat list \<Rightarrow> routed_err option \<Rightarrow> nat list" where
  "retry_indices r tried last_err =
     (if last_err \<noteq> None then map (\<lambda>retry. (length tried + retry) mod length (ro_reads r)) [0..<ro_retry_attempts r] else [])"

definition exhausted :: "('c, 's, 'a) db_op \<Rightarrow> routed_err option \<Rightarrow> 'c router \<times> 's \<Rightarrow> (routed_err, 'a) res \<times> 'c router \<times> 's" where
  "exhausted op last_err w =
     (if ro_fallback_to_write (fst w) then case op (ro_write (fst w)) (snd w) of (x, s1) \<Rightarrow> (x, (fst w, s1))
      else (Inl (case last_err of Some e \<Rightarrow> e | None \<Rightarrow> CustomErr ''all read attempts exhausted''), w))"

definition execute_read_retry ::
    "'s router_lib \<Rightarrow> ('c, 's, 'a) db_op \<Rightarrow> 'c router \<times> 's \<Rightarrow> (routed_err, 'a) res \<times> 'c router \<times> 's" where
  "execute_read_retry lib op w =
     (if ro_reads (fst w) = [] then case op (ro_write (fst w)) (snd w) of (x, s1) \<Rightarrow> (x, (fst w, s1))
      else case try_each lib op (length (ro_reads (fst w))) [] None w of
        (Inl x, w1) \<Rightarrow> (x, w1)
      | (Inr (tried, last_err), w1) \<Rightarrow>
          (case retry_each lib op (retry_indices (fst w1) tried last_err) last_err w1 of
             (Inl x, w2) \<Rightarrow> (x, w2)
           | (Inr last_err', w2) \<Rightarrow> exhausted op last_err' w2))"

text \<open>The two queries of the interface route alike; execution and transactions always go to the writer.\<close>

definition routed_query ::
    "'s router_lib \<Rightarrow> (string \<Rightarrow> ('c, 's, 'a) db_op) \<Rightarrow> string \<Rightarrow> 'c router \<times> 's \<Rightarrow> (routed_err, 'a) res \<times> 'c router \<times> 's" where
  "routed_query lib query sql w =
     (if is_write_statement sql \<or> is_locking_select sql \<or> ro_reads (fst w) = []
      then case query sql (ro_write (fst w)) (snd w) of (x, s1) \<Rightarrow> (x, (fst w, s1))
      else execute_read_retry lib (query sql) w)"

definition write_execute :: "(string \<Rightarrow> ('c, 's, 'a) db_op) \<Rightarrow> string \<Rightarrow> 'c router \<times> 's \<Rightarrow> (routed_err, 'a) res \<times> 'c router \<times> 's" where
  "write_execute execute sql w = (case execute sql (ro_write (fst w)) (snd w) of (x, s1) \<Rightarrow> (x, (fst w, s1)))"

definition begin_transaction :: "('c, 's, 'a) db_op \<Rightarrow> 'c router \<times> 's \<Rightarrow> (routed_err, 'a) res \<times> 'c router \<times> 's" where
  "begin_transaction begin_op w = (case begin_op (ro_write (fst w)) (snd w) of (x, s1) \<Rightarrow> (x, (fst w, s1)))"

section \<open>The shares of the weights\<close>

lemma weighted_choice_in: "roll < sum_list (map snd ps) \<Longrightarrow> weighted_choice c roll ps \<in> fst ` set ps"
  by (induction c roll ps rule: weighted_choice.induct) (auto simp: less_diff_conv2)

lemma weighted_rolls:
  "{roll. roll < w + n \<and> weighted_choice c roll ((j, w) # ps) = i}
   = (if i = j then {..<w} else {}) \<union> (\<lambda>roll. roll + w) ` {roll. roll < n \<and> weighted_choice c roll ps = i}"
proof (rule set_eqI)
  fix roll
  show "roll \<in> {roll. roll < w + n \<and> weighted_choice c roll ((j, w) # ps) = i} \<longleftrightarrow>
      roll \<in> (if i = j then {..<w} else {}) \<union> (\<lambda>roll. roll + w) ` {roll. roll < n \<and> weighted_choice c roll ps = i}"
  proof (cases "roll < w")
    case True
    then show ?thesis by auto
  next
    case False
    then obtain k where "roll = k + w" by (metis add.commute le_Suc_ex not_less)
    then show ?thesis by auto
  qed
qed

lemma weighted_card:
  assumes "distinct (map fst ps)" "(i, w) \<in> set ps"
  shows "card {roll. roll < sum_list (map snd ps) \<and> weighted_choice c roll ps = i} = w"
  using assms
proof (induction ps)
  case (Cons p ps)
  obtain j v where p: "p = (j, v)" by (cases p)
  let ?R = "{roll. roll < sum_list (map snd ps) \<and> weighted_choice c roll ps = i}"
  have c: "card ((\<lambda>roll. roll + v) ` ?R) = card ?R" by (rule card_image) (simp add: inj_on_def)
  show ?case
  proof (cases "i = j")
    case True
    then have "i \<notin> fst ` set ps" using Cons.prems(1) p by simp
    then have "?R = {}" using weighted_choice_in by fastforce
    moreover have "w = v" using Cons.prems True \<open>i \<notin> fst ` set ps\<close> p by (force simp: image_iff)
    ultimately show ?thesis using True by (simp only: p list.map sum_list.Cons snd_conv weighted_rolls) simp
  next
    case False
    then have "card ?R = w" using Cons p by auto
    then show ?thesis using False c by (simp only: p list.map sum_list.Cons snd_conv weighted_rolls) simp
  qed
qed simp

text \<open>The shares of the replicas. With the weighted strategy and some positive weight, each healthy replica is chosen for exactly as many of
  the possible random numbers as its weight says, and the counter stays.\<close>

theorem weighted_shares:
  assumes "distinct healthy" "length weights = length healthy" "0 < sum_list weights" "k < length healthy"
  shows "card {roll. roll < sum_list weights
      \<and> select_weighted_index (\<lambda>_. roll) healthy weights counter = (healthy ! k, counter)} = weights ! k"
proof -
  let ?ps = "zip healthy weights"
  have m: "map fst ?ps = healthy" "map snd ?ps = weights" using assms(2) by simp_all
  have "(healthy ! k, weights ! k) \<in> set ?ps" using assms(2,4) by (auto simp: set_zip)
  note card = weighted_card[of ?ps, unfolded m, OF assms(1) this, of "hd healthy"]
  have ne: "sum_list weights \<noteq> 0" using assms(3) by (simp only: neq0_conv)
  show ?thesis
    by (simp only: select_weighted_index_def Let_def if_not_P[OF ne] prod.inject simp_thms card)
qed

lemma weighted_shares_witness:
  "card {roll. roll < 6 \<and> select_weighted_index (\<lambda>_. roll) [4, 2, 7] [1, 3, 2] 0 = (2, 0)} = 3"
  using weighted_shares[of "[4, 2, 7]" "[1, 3, 2]" 1 0] by simp

section \<open>Which statements count as writes\<close>

text \<open>The depth of parentheses, which never goes below zero.\<close>

definition depth_after :: "nat \<Rightarrow> string \<Rightarrow> nat" where
  "depth_after d s = foldl (\<lambda>d c. if c = CHR ''('' then d + 1 else if c = CHR '')'' then d - 1 else d) d s"

lemma depth_after_simps [simp]:
  "depth_after d [] = d"
  "depth_after d (c # s) = depth_after (if c = CHR ''('' then d + 1 else if c = CHR '')'' then d - 1 else d) s"
  by (simp_all add: depth_after_def)

lemma keyword_start:
  "list_ex (starts_with (c # s)) write_keywords \<Longrightarrow> c \<noteq> CHR ''('' \<and> c \<noteq> CHR '')''"
  by (auto simp: write_keywords_def)

text \<open>A write keyword occurs outside of all parentheses.\<close>

definition top_level_write :: "nat \<Rightarrow> string \<Rightarrow> bool" where
  "top_level_write d s \<longleftrightarrow> (\<exists>p q k. s = p @ k @ q \<and> k \<in> set write_keywords \<and> depth_after d p = 0)"

lemma top_level_write_simps:
  "\<not> top_level_write d []"
  "top_level_write d (c # s) \<longleftrightarrow> d = 0 \<and> list_ex (starts_with (c # s)) write_keywords
     \<or> top_level_write (if c = CHR ''('' then d + 1 else if c = CHR '')'' then d - 1 else d) s"
proof -
  have ne: "k \<noteq> []" if "k \<in> set write_keywords" for k using that by (auto simp: write_keywords_def)
  then show "\<not> top_level_write d []" by (auto simp: top_level_write_def)
  let ?d = "if c = CHR ''('' then d + 1 else if c = CHR '')'' then d - 1 else d"
  have kw: "list_ex (starts_with (c # s)) write_keywords \<longleftrightarrow> (\<exists>k \<in> set write_keywords. \<exists>q. c # s = k @ q)"
    by (auto simp: list_ex_iff starts_with_iff_prefix prefix_def)
  show "top_level_write d (c # s) \<longleftrightarrow> d = 0 \<and> list_ex (starts_with (c # s)) write_keywords \<or> top_level_write ?d s"
  proof
    assume "top_level_write d (c # s)"
    then obtain p q k where p: "c # s = p @ k @ q" "k \<in> set write_keywords" "depth_after d p = 0"
      by (auto simp: top_level_write_def)
    show "d = 0 \<and> list_ex (starts_with (c # s)) write_keywords \<or> top_level_write ?d s"
    proof (cases p)
      case Nil
      then show ?thesis using p kw by auto
    next
      case (Cons c' p')
      then have "top_level_write ?d s" unfolding top_level_write_def using p by (intro exI[of _ p'] exI[of _ q] exI[of _ k]) auto
      then show ?thesis ..
    qed
  next
    assume "d = 0 \<and> list_ex (starts_with (c # s)) write_keywords \<or> top_level_write ?d s"
    then show "top_level_write d (c # s)"
    proof
      assume "d = 0 \<and> list_ex (starts_with (c # s)) write_keywords"
      then obtain k q where "c # s = [] @ k @ q" "k \<in> set write_keywords" "depth_after d [] = 0" using kw by auto
      then show ?thesis unfolding top_level_write_def by blast
    next
      assume "top_level_write ?d s"
      then obtain p q k where p: "s = p @ k @ q" "k \<in> set write_keywords" "depth_after ?d p = 0"
        by (auto simp: top_level_write_def)
      then have "c # s = (c # p) @ k @ q" "depth_after d (c # p) = 0" by simp_all
      then show ?thesis unfolding top_level_write_def using p(2) by blast
    qed
  qed
qed

lemma cte_scan_iff: "cte_scan d s \<longleftrightarrow> top_level_write d s"
proof (induction d s rule: cte_scan.induct)
  case (1 d)
  then show ?case by (simp add: top_level_write_simps)
next
  case (2 d c s)
  obtain K where K: "list_ex (starts_with (c # s)) write_keywords = K" by blast
  have k: "K \<Longrightarrow> c \<noteq> CHR ''('' \<and> c \<noteq> CHR '')''" using keyword_start[of c s] K by blast
  show ?case
    unfolding cte_scan.simps top_level_write_simps(2) K using "2.IH"[unfolded K] k by auto
qed

text \<open>C32: what counts as a write. A statement does exactly when, after leading blanks and in whatever case, it starts with a write keyword or with
  \<^verbatim>\<open>WITH\<close>, and a write keyword occurs in it outside of all parentheses.\<close>

theorem is_write_statement_exact:
  "is_write_statement sql \<longleftrightarrow>
     (let up = to_upper (trim_start sql) in
      list_ex (\<lambda>k. prefix k up) (''WITH '' # write_keywords) \<and> top_level_write 0 up)"
proof -
  have up: "top_level_write 0 (''WITH '' @ r) = top_level_write 0 r"
    "top_level_write 0 (''RECURSIVE '' @ r) = top_level_write 0 r" for r
    by (simp_all add: top_level_write_simps(2) write_keywords_def)
  have cte: "cte_main_stmt_is_write up = top_level_write 0 up" if eq: "up = ''WITH '' @ r" for up r
  proof -
    have "strip_prefix up ''WITH '' = Some r" unfolding eq by (rule strip_prefix_append)
    then have c: "cte_main_stmt_is_write up = cte_scan 0 (case strip_prefix r ''RECURSIVE '' of Some r' \<Rightarrow> r' | None \<Rightarrow> r)"
      by (simp add: cte_main_stmt_is_write_def)
    show ?thesis
    proof (cases "\<exists>r'. r = ''RECURSIVE '' @ r'")
      case True
      then obtain r' where r: "r = ''RECURSIVE '' @ r'" by blast
      have "strip_prefix r ''RECURSIVE '' = Some r'" unfolding r by (rule strip_prefix_append)
      then have "cte_main_stmt_is_write up = top_level_write 0 r'" by (simp only: c option.case cte_scan_iff)
      also have "\<dots> = top_level_write 0 up" unfolding eq r up ..
      finally show ?thesis .
    next
      case False
      then have "strip_prefix r ''RECURSIVE '' = None" by (simp add: strip_prefix_def starts_with_iff_prefix prefix_def del: append.simps)
      then have "cte_main_stmt_is_write up = top_level_write 0 r" by (simp only: c option.case cte_scan_iff)
      then show ?thesis unfolding eq up(1) .
    qed
  qed
  let ?up = "to_upper (trim_start sql)"
  have kw: "top_level_write 0 ?up" if l: "list_ex (starts_with ?up) write_keywords"
  proof -
    obtain k q where "?up = [] @ k @ q" "k \<in> set write_keywords" "depth_after 0 [] = 0"
      using l by (auto simp: list_ex_iff starts_with_iff_prefix prefix_def)
    then show ?thesis unfolding top_level_write_def by blast
  qed
  show ?thesis
  proof (cases "prefix ''WITH '' ?up")
    case True
    then obtain r where "?up = ''WITH '' @ r" by (auto simp: prefix_def simp del: append.simps)
    then show ?thesis
      using cte[of ?up r] kw True by (auto simp: is_write_statement_def Let_def starts_with_iff_prefix trim_start_def to_upper_def)
  next
    case False
    then show ?thesis
      using kw by (auto simp: is_write_statement_def Let_def starts_with_iff_prefix trim_start_def to_upper_def write_keywords_def)
  qed
qed

text \<open>A parenthesis in a string literal hides the write, which then goes to a replica.\<close>

lemma cte_literal_hides_write:
  "\<not> is_write_statement (''WITH a AS (SELECT '' @ quoted ''('' @ '') INSERT INTO t SELECT * FROM a'')
   \<and> is_write_statement ''WITH a AS (SELECT 1) INSERT INTO t SELECT * FROM a''"
  by code_simp

section \<open>A router keeps its shape\<close>

definition router_ok :: "'c router \<Rightarrow> bool" where
  "router_ok r \<longleftrightarrow> length (ro_down_until r) = length (ro_reads r) \<and> (\<forall>x \<in> set (ro_reads r). 1 \<le> rp_weight x)"

definition router_same :: "'c router \<Rightarrow> 'c router \<Rightarrow> bool" where
  "router_same r r' \<longleftrightarrow> ro_write r' = ro_write r \<and> ro_reads r' = ro_reads r \<and> ro_strategy r' = ro_strategy r
     \<and> ro_retry_attempts r' = ro_retry_attempts r \<and> ro_fallback_to_write r' = ro_fallback_to_write r"

definition lib_ok :: "'s router_lib \<Rightarrow> bool" where
  "lib_ok lib \<longleftrightarrow> (\<forall>s n. 0 < n \<longrightarrow> gen_range lib s n < n)"

lemma router_same_refl [simp]: "router_same r r"
  by (simp add: router_same_def)

lemma router_same_trans: "router_same r r' \<Longrightarrow> router_same r' r'' \<Longrightarrow> router_same r r''"
  by (simp add: router_same_def)

lemma new_internal_ok: "(\<forall>x \<in> set reads. 1 \<le> rp_weight x) \<Longrightarrow> router_ok (new_internal w reads cfg)"
  by (simp add: router_ok_def new_internal_def)

lemma new_router_ok: "new_router w rs cfg = Inr r \<Longrightarrow> router_ok r"
  by (auto simp: new_router_def bindE_Inr_conv connected_def replica_weight_def intro!: new_internal_ok
      split: if_splits sum.splits)

lemma single_ok: "router_ok (single c)"
  by (simp add: router_ok_def single_def)

lemma recover_ok: "router_ok r \<Longrightarrow> router_ok (recover t ex r)" "router_same r (recover t ex r)"
  by (simp_all add: router_ok_def router_same_def recover_def)

lemma mark_down_ok: "router_ok r \<Longrightarrow> router_ok (mark_down lib i r s)" "router_same r (mark_down lib i r s)"
  by (simp_all add: router_ok_def router_same_def mark_down_def)

lemma healthy_mem: "i \<in> set (healthy_reads t ex r) \<longleftrightarrow> i < length (ro_reads r) \<and> available t ex r i"
  by (auto simp: healthy_reads_def)

lemma select_weighted_mem:
  assumes "healthy \<noteq> []" "length weights = length healthy" "lib_ok lib"
  shows "fst (select_weighted_index (gen_range lib s) healthy weights counter) \<in> set healthy"
proof (cases "sum_list weights = 0")
  case True
  then show ?thesis using assms(1) by (simp add: select_weighted_index_def Let_def del: sum_list_eq_0_iff)
next
  case False
  then have "gen_range lib s (sum_list weights) < sum_list (map snd (zip healthy weights))"
    using assms(2,3) by (simp add: lib_ok_def del: sum_list_eq_0_iff)
  from weighted_choice_in[OF this] have "weighted_choice c (gen_range lib s (sum_list weights)) (zip healthy weights) \<in> set healthy" for c
    using assms(2) by (metis map_fst_zip set_map)
  then show ?thesis
    using False by (simp add: select_weighted_index_def Let_def del: sum_list_eq_0_iff)
qed

lemma pick_next_read_cases:
  assumes "pick_next_read lib ex r s = (x, r')" "lib_ok lib"
  shows "case x of None \<Rightarrow> healthy_reads (clock lib s) ex r = [] | Some i \<Rightarrow> i \<in> set (healthy_reads (clock lib s) ex r)"
    and "router_same r r'" and "router_ok r \<Longrightarrow> router_ok r'"
proof -
  let ?h = "healthy_reads (clock lib s) ex r" and ?r = "recover (clock lib s) ex r"
  have ok: "router_same r (?r\<lparr>ro_counter := c\<rparr>)" "router_ok r \<Longrightarrow> router_ok (?r\<lparr>ro_counter := c\<rparr>)" for c
    using recover_ok[of r] by (simp_all add: router_same_def router_ok_def)
  let ?goal = "(case x of None \<Rightarrow> ?h = [] | Some i \<Rightarrow> i \<in> set ?h) \<and> router_same r r' \<and> (router_ok r \<longrightarrow> router_ok r')"
  have ?goal
  proof (cases "?h = []")
    case True
    then show ?thesis using assms(1) recover_ok[of r] by (auto simp: pick_next_read_def Let_def split: if_splits)
  next
    case False
    then have ne: "ro_reads r \<noteq> []" by (auto simp: healthy_reads_def)
    have m: "?h ! k \<in> set ?h" if "k < length ?h" for k using that by simp
    have g: "gen_range lib s (length ?h) < length ?h" using assms(2) False by (simp add: lib_ok_def)
    obtain i c where w: "select_weighted_index (gen_range lib s) ?h (map (\<lambda>i. rp_weight (ro_reads r ! i)) ?h) (ro_counter r) = (i, c)"
      by (metis prod.exhaust)
    have "i \<in> set ?h" using select_weighted_mem[OF False _ assms(2), of "map (\<lambda>i. rp_weight (ro_reads r ! i)) ?h" s "ro_counter r"] w by simp
    then show ?thesis
      using assms(1) False ne m g ok recover_ok[of r] w
      by (cases "ro_strategy r") (auto simp: pick_next_read_def Let_def)
  qed
  then show "case x of None \<Rightarrow> ?h = [] | Some i \<Rightarrow> i \<in> set ?h" "router_same r r'" "router_ok r \<Longrightarrow> router_ok r'" by blast+
qed

section \<open>The attempts of a query\<close>

text \<open>The same operation and library in a world that records which connection answered what.\<close>

type_synonym ('c, 'a) attempts = "('c \<times> (routed_err, 'a) res) list"

definition traced :: "('c, 's, 'a) db_op \<Rightarrow> ('c, 's \<times> ('c, 'a) attempts, 'a) db_op" where
  "traced op c w = (case op c (fst w) of (x, s) \<Rightarrow> (x, (s, snd w @ [(c, x)])))"

lemma traced_step: "op c s = (x, s1) \<Longrightarrow> traced op c (s, tr) = (x, (s1, tr @ [(c, x)]))"
  by (simp add: traced_def)

definition lift_lib :: "'s router_lib \<Rightarrow> ('s \<times> 't) router_lib" where
  "lift_lib lib = \<lparr>clock = (\<lambda>w. clock lib (fst w)), gen_range = (\<lambda>w. gen_range lib (fst w))\<rparr>"

lemma lift_lib_ok: "lib_ok lib \<Longrightarrow> lib_ok (lift_lib lib)"
  by (simp add: lib_ok_def lift_lib_def)

definition read_conns :: "'c router \<Rightarrow> 'c set" where
  "read_conns r = rp_conn ` set (ro_reads r)"

definition lost :: "'c router \<Rightarrow> ('c, 'a) attempts \<Rightarrow> bool" where
  "lost r tr \<longleftrightarrow> (\<forall>(c, y) \<in> set tr. c \<in> read_conns r \<and> (\<exists>e. y = Inl e \<and> is_connection_error e))"

text \<open>The attempts after a phase: the last one gave the result, or all were lost and the last error is known.\<close>

definition phase_done :: "'c router \<Rightarrow> (routed_err, 'a) res + routed_err option \<Rightarrow> ('c, 'a) attempts \<Rightarrow> bool" where
  "phase_done r y tr \<longleftrightarrow>
     (case y of
        Inl x \<Rightarrow> \<exists>c tr0. tr = tr0 @ [(c, x)] \<and> c \<in> read_conns r \<and> lost r tr0
      | Inr last_err \<Rightarrow> lost r tr \<and>
          (case last_err of None \<Rightarrow> tr = [] | Some e \<Rightarrow> tr \<noteq> [] \<and> snd (last tr) = Inl e))"

lemma lost_simps [simp]:
  "lost r []" "lost r (tr @ [(c, y)]) \<longleftrightarrow> lost r tr \<and> c \<in> read_conns r \<and> (\<exists>e. y = Inl e \<and> is_connection_error e)"
  by (auto simp: lost_def)

lemma same_conns: "router_same r r' \<Longrightarrow> read_conns r' = read_conns r \<and> lost r' = lost r"
  by (auto simp: router_same_def read_conns_def lost_def fun_eq_iff)

lemma phase_same: "router_same r r' \<Longrightarrow> phase_done r' = phase_done r"
  by (auto simp: phase_done_def same_conns fun_eq_iff split: sum.split)

lemma try_each_trace:
  assumes "try_each (lift_lib lib) (traced op) n tried last_err (r, (s, tr0)) = (y, (r', (s', tr)))"
    and "router_ok r" "lib_ok lib" "phase_done r (Inr last_err) tr0"
  shows "router_same r r' \<and> router_ok r' \<and> length tr \<le> length tr0 + n
    \<and> phase_done r (map_sum id snd y) tr"
  using assms
proof (induction n arbitrary: tried last_err r s tr0)
  case 0
  then show ?case by auto
next
  case (Suc n)
  obtain p r1 where p: "pick_next_read (lift_lib lib) tried r (s, tr0) = (p, r1)" by (metis prod.exhaust)
  note pick = pick_next_read_cases[OF p lift_lib_ok[OF Suc.prems(3)]]
  have ok: "router_ok r1" "router_same r r1" using pick(2,3) Suc.prems(2) by blast+
  show ?case
  proof (cases p)
    case None
    then show ?thesis using Suc.prems(1,4) p ok by auto
  next
    case (Some i)
    let ?c = "rp_conn (ro_reads r1 ! i)"
    have "i < length (ro_reads r1)" using pick(1) Some ok(2) by (simp add: healthy_mem router_same_def)
    then have c: "?c \<in> read_conns r" using ok(2) by (auto simp: read_conns_def router_same_def)
    have l: "lost r tr0" using Suc.prems(4) by (simp add: phase_done_def)
    obtain x s1 where o: "op ?c s = (x, s1)" by (metis prod.exhaust)
    show ?thesis
    proof (cases "\<exists>e. x = Inl e \<and> is_connection_error e")
      case True
      then obtain e where e: "x = Inl e" "is_connection_error e" by blast
      let ?r2 = "mark_down (lift_lib lib) i r1 (s1, tr0 @ [(?c, x)])"
      have s2: "router_same r ?r2" "router_ok ?r2"
        by (rule router_same_trans[OF ok(2) mark_down_ok(2)], rule mark_down_ok(1)[OF ok(1)])
      have "try_each (lift_lib lib) (traced op) n (List.insert i tried) (Some e) (?r2, (s1, tr0 @ [(?c, x)])) = (y, (r', (s', tr)))"
        using Suc.prems(1) p Some traced_step[of op, OF o] e by simp
      moreover have "phase_done ?r2 (Inr (Some e)) (tr0 @ [(?c, x)])"
        using l c e s2(1) by (simp add: phase_same phase_done_def)
      ultimately show ?thesis
        using Suc.IH[of "List.insert i tried" "Some e" ?r2 s1 "tr0 @ [(?c, x)]"] s2 Suc.prems(3)
        by (auto simp: phase_same intro: router_same_trans)
    next
      case False
      then have "y = Inl x \<and> r' = r1 \<and> tr = tr0 @ [(?c, x)]"
        using Suc.prems(1) p Some traced_step[of op, OF o] by (auto split: sum.splits if_splits)
      then show ?thesis using ok c l by (auto simp: phase_done_def)
    qed
  qed
qed

lemma retry_each_trace:
  assumes "retry_each (lift_lib lib) (traced op) is last_err (r, (s, tr0)) = (y, (r', (s', tr)))"
    and "\<forall>i \<in> set is. i < length (ro_reads r)" "phase_done r (Inr last_err) tr0"
  shows "router_same r r' \<and> length tr \<le> length tr0 + length is \<and> phase_done r y tr"
  using assms
proof (induction "is" arbitrary: last_err r s tr0)
  case Nil
  then show ?case by simp
next
  case (Cons i "is")
  let ?c = "rp_conn (ro_reads r ! i)"
  have c: "?c \<in> read_conns r" using Cons.prems(2) by (simp add: read_conns_def)
  have l: "lost r tr0" using Cons.prems(3) by (simp add: phase_done_def)
  obtain x s1 where o: "op ?c s = (x, s1)" by (metis prod.exhaust)
  show ?case
  proof (cases "\<exists>e. x = Inl e \<and> is_connection_error e")
    case True
    then obtain e where e: "x = Inl e" "is_connection_error e" by blast
    let ?r2 = "mark_down (lift_lib lib) i r (s1, tr0 @ [(?c, x)])"
    have s2: "router_same r ?r2" by (rule mark_down_ok)
    then have len: "length (ro_reads ?r2) = length (ro_reads r)" by (simp add: router_same_def)
    have "retry_each (lift_lib lib) (traced op) is (Some e) (?r2, (s1, tr0 @ [(?c, x)])) = (y, (r', (s', tr)))"
      using Cons.prems(1) traced_step[of op, OF o] e by simp
    moreover have "phase_done ?r2 (Inr (Some e)) (tr0 @ [(?c, x)])"
      using l c e s2 by (simp add: phase_same phase_done_def)
    ultimately show ?thesis
      using Cons.IH[of "Some e" ?r2 s1 "tr0 @ [(?c, x)]"] s2 Cons.prems(2) len
      by (auto simp: phase_same intro: router_same_trans)
  next
    case False
    then have "y = Inl x \<and> r' = r \<and> tr = tr0 @ [(?c, x)]"
      using Cons.prems(1) traced_step[of op, OF o] by (auto split: sum.splits if_splits)
    then show ?thesis using c l by (auto simp: phase_done_def)
  qed
qed

lemma execute_read_retry_trace:
  assumes "execute_read_retry (lift_lib lib) (traced op) (r, (s, [])) = (x, (r', (s', tr)))"
    and "router_ok r" "lib_ok lib" "ro_reads r \<noteq> []"
  shows "length tr \<le> length (ro_reads r) + ro_retry_attempts r + (if ro_fallback_to_write r then 1 else 0)
    \<and> lost r (butlast tr)
    \<and> (if tr = [] then x = Inl (CustomErr ''all read attempts exhausted'') \<and> \<not> ro_fallback_to_write r
       else snd (last tr) = x \<and> (fst (last tr) \<in> read_conns r \<or> ro_fallback_to_write r \<and> fst (last tr) = ro_write r))"
proof -
  obtain y r1 s1 t1 where y: "try_each (lift_lib lib) (traced op) (length (ro_reads r)) [] None (r, (s, [])) = (y, (r1, (s1, t1)))"
    by (metis prod.exhaust)
  have "phase_done r (Inr None) []" by (simp add: phase_done_def)
  note one = try_each_trace[OF y assms(2,3) this]
  have same: "ro_reads r1 = ro_reads r" "ro_write r1 = ro_write r" "ro_retry_attempts r1 = ro_retry_attempts r"
    "ro_fallback_to_write r1 = ro_fallback_to_write r" using one by (simp_all add: router_same_def)
  show ?thesis
  proof (cases y)
    case (Inl v)
    then show ?thesis using assms(1,4) y one by (auto simp: execute_read_retry_def phase_done_def)
  next
    case (Inr tl)
    obtain tried e where tl: "tl = (tried, e)" by (cases tl)
    let ?is = "retry_indices r1 tried e"
    obtain z r2 s2 t2 where z: "retry_each (lift_lib lib) (traced op) ?is e (r1, (s1, t1)) = (z, (r2, (s2, t2)))"
      by (metis prod.exhaust)
    have i: "\<forall>i \<in> set ?is. i < length (ro_reads r1)" and len: "length ?is \<le> ro_retry_attempts r"
      using assms(4) same by (auto simp: retry_indices_def)
    have "phase_done r1 (Inr e) t1" using one Inr tl by (simp add: phase_same[of r r1])
    note two = retry_each_trace[OF z i this]
    have pd: "phase_done r z t2" using one two by (simp add: phase_same[of r r1])
    have same2: "ro_write r2 = ro_write r" "ro_fallback_to_write r2 = ro_fallback_to_write r"
      using two same by (simp_all add: router_same_def)
    have n: "length t2 \<le> length (ro_reads r) + ro_retry_attempts r" using one two len by simp
    show ?thesis
    proof (cases z)
      case (Inl v)
      then show ?thesis
        using assms(1,4) y z tl Inr pd n by (auto simp: execute_read_retry_def phase_done_def)
    next
      case (Inr e')
      then have ex: "exhausted (traced op) e' (r2, (s2, t2)) = (x, (r', (s', tr)))"
        using assms(1,4) y z tl \<open>y = Inr tl\<close> by (simp add: execute_read_retry_def)
      obtain x3 s3 where o: "op (ro_write r) s2 = (x3, s3)" by (metis prod.exhaust)
      show ?thesis
      proof (cases "ro_fallback_to_write r")
        case True
        then have "tr = t2 @ [(ro_write r, x3)] \<and> x = x3"
          using ex same2 traced_step[of op, OF o] by (auto simp: exhausted_def)
        then show ?thesis using True pd n Inr by (simp add: phase_done_def)
      next
        case False
        then have "tr = t2 \<and> x = Inl (case e' of Some e \<Rightarrow> e | None \<Rightarrow> CustomErr ''all read attempts exhausted'')"
          using ex same2 by (auto simp: exhausted_def)
        then show ?thesis
          using False pd n Inr
          by (cases tr rule: rev_cases) (auto simp: phase_done_def split: option.splits)
      qed
    qed
  qed
qed

text \<open>The texts that lock rows, and the statements that must reach the writer.\<close>

definition lock_phrases :: "string list" where
  "lock_phrases = [''FOR UPDATE'', ''FOR SHARE'', ''FOR NO KEY UPDATE'', ''FOR KEY SHARE'', ''LOCK IN SHARE MODE'']"

definition needs_writer :: "string \<Rightarrow> bool" where
  "needs_writer sql \<longleftrightarrow> is_write_statement sql \<or> (\<exists>p \<in> set lock_phrases. sublist p (to_upper sql))"

lemma needs_writer_iff: "needs_writer sql \<longleftrightarrow> is_write_statement sql \<or> is_locking_select sql"
  by (auto simp: needs_writer_def lock_phrases_def is_locking_select_def str_contains_iff_sublist Let_def to_upper_def)

text \<open>C31: where a query goes. A write or a locking statement is run once, on the writer, and leaves the router alone. Any other query tries at
  most every replica, the configured number of retries, and with the fallback the writer at the end; every attempt but the last ran on a replica and was lost
  with its connection, the last attempt gives the result of the query, and no attempt is made only when no replica is available and there is no fallback.\<close>

theorem routed_query_trace:
  assumes "routed_query (lift_lib lib) (\<lambda>q. traced (query q)) sql (r, (s, [])) = (x, (r', (s', tr)))"
    and "router_ok r" "lib_ok lib"
  shows "if needs_writer sql \<or> ro_reads r = [] then r' = r \<and> tr = [(ro_write r, x)]
    else length tr \<le> length (ro_reads r) + ro_retry_attempts r + (if ro_fallback_to_write r then 1 else 0)
      \<and> (\<forall>(c, y) \<in> set (butlast tr). c \<in> read_conns r \<and> (\<exists>e. y = Inl e \<and> is_connection_error e))
      \<and> (if tr = [] then x = Inl (CustomErr ''all read attempts exhausted'') \<and> \<not> ro_fallback_to_write r
         else snd (last tr) = x \<and> (fst (last tr) \<in> read_conns r \<or> ro_fallback_to_write r \<and> fst (last tr) = ro_write r))"
proof (cases "needs_writer sql \<or> ro_reads r = []")
  case True
  obtain x1 s1 where o: "query sql (ro_write r) s = (x1, s1)" by (metis prod.exhaust)
  have "routed_query (lift_lib lib) (\<lambda>q. traced (query q)) sql (r, (s, [])) = (x1, (r, (s1, [(ro_write r, x1)])))"
    using True traced_step[of "query sql", OF o, of "[]"] unfolding needs_writer_iff routed_query_def by auto
  then show ?thesis using assms(1) True by simp
next
  case False
  then have "execute_read_retry (lift_lib lib) (traced (query sql)) (r, (s, [])) = (x, (r', (s', tr)))"
    using assms(1) unfolding needs_writer_iff routed_query_def by simp
  from execute_read_retry_trace[OF this assms(2,3)] False show ?thesis by (simp add: lost_def)
qed

text \<open>Three connections: a writer that answers, a replica that has lost its connection and one that answers.\<close>

definition sample_router :: "nat router" where
  "sample_router = new_internal 0
     [\<lparr>rp_conn = 1, rp_original_index = 0, rp_weight = 1\<rparr>, \<lparr>rp_conn = 2, rp_original_index = 1, rp_weight = 1\<rparr>]
     \<lparr>rc_strategy = ''Round'', rc_read_weights = [], rc_circuit_break_ms = 1000, rc_retry_attempts = 1, rc_fallback_to_write = True\<rparr>"

definition sample_query :: "string \<Rightarrow> (nat, int, nat) db_op" where
  "sample_query sql c t = (if c = 1 then Inl (ConnErr ''refused'') else Inr c, t + 1)"

definition sample_router_lib :: "int router_lib" where
  "sample_router_lib = \<lparr>clock = id, gen_range = (\<lambda>_ _. 0)\<rparr>"

lemma sample_router_ok: "router_ok sample_router" "lib_ok sample_router_lib"
  by (simp_all add: sample_router_def router_ok_def new_internal_def lib_ok_def sample_router_lib_def)

lemma routed_query_trace_witness:
  "fst (routed_query (lift_lib sample_router_lib) (\<lambda>q. traced (sample_query q)) ''SELECT 1'' (sample_router, (0, [])))
     = snd (last (snd (snd (snd (routed_query (lift_lib sample_router_lib) (\<lambda>q. traced (sample_query q)) ''SELECT 1''
         (sample_router, (0, [])))))))"
proof -
  obtain x r' s' tr where run: "routed_query (lift_lib sample_router_lib) (\<lambda>q. traced (sample_query q)) ''SELECT 1''
      (sample_router, (0, [])) = (x, (r', (s', tr)))" by (metis prod.exhaust)
  have n: "\<not> needs_writer ''SELECT 1''" by code_simp
  have r: "ro_reads sample_router \<noteq> []" "ro_fallback_to_write sample_router"
    by (simp_all add: sample_router_def new_internal_def)
  show ?thesis
    using routed_query_trace[OF run sample_router_ok] n r by (auto simp: run split: if_splits)
qed

section \<open>Any sequence of queries and health checks\<close>

datatype router_event = QueryEvent string | ProbeEvent

definition router_step ::
    "'s router_lib \<Rightarrow> (string \<Rightarrow> ('c, 's, 'a) db_op) \<Rightarrow> ('c \<Rightarrow> 's \<Rightarrow> bool \<times> 's) \<Rightarrow> router_event \<Rightarrow> 'c router \<times> 's \<Rightarrow> 'c router \<times> 's" where
  "router_step lib query ping ev w =
     (case ev of QueryEvent sql \<Rightarrow> snd (routed_query lib query sql w) | ProbeEvent \<Rightarrow> probe_reads lib ping w)"

lemma try_each_ok:
  assumes "try_each lib op n tried last_err w = (y, w')" "router_ok (fst w)" "lib_ok lib"
  shows "router_same (fst w) (fst w') \<and> router_ok (fst w')"
  using assms
proof (induction n arbitrary: tried last_err w)
  case (Suc n)
  obtain p r1 where p: "pick_next_read lib tried (fst w) (snd w) = (p, r1)" by (metis prod.exhaust)
  note ok = pick_next_read_cases(2,3)[OF p Suc.prems(3)]
  show ?case
  proof (cases p)
    case None
    then show ?thesis using Suc.prems(1,2) p ok by auto
  next
    case (Some i)
    obtain x s1 where o: "op (rp_conn (ro_reads r1 ! i)) (snd w) = (x, s1)" by (metis prod.exhaust)
    have m: "router_same (fst w) (mark_down lib i r1 s1)" "router_ok (mark_down lib i r1 s1)"
      by (rule router_same_trans[OF ok(1) mark_down_ok(2)], rule mark_down_ok(1)[OF ok(2)[OF Suc.prems(2)]])
    show ?thesis
      using Suc.prems(1,2) p Some o ok m Suc.IH[of "List.insert i tried" _ "(mark_down lib i r1 s1, s1)"] Suc.prems(3)
      by (auto split: sum.splits if_splits intro: router_same_trans)
  qed
qed simp

lemma retry_each_ok:
  assumes "retry_each lib op is last_err w = (y, w')" "router_ok (fst w)"
  shows "router_same (fst w) (fst w') \<and> router_ok (fst w')"
  using assms
proof (induction "is" arbitrary: last_err w)
  case (Cons i "is")
  obtain x s1 where o: "op (rp_conn (ro_reads (fst w) ! i)) (snd w) = (x, s1)" by (metis prod.exhaust)
  note m = mark_down_ok(1)[OF Cons.prems(2)] mark_down_ok(2)
  show ?case
    using Cons.prems o m(1)[of lib i s1] m(2)[of "fst w" lib i s1] Cons.IH[of _ "(mark_down lib i (fst w) s1, s1)"]
    by (auto split: sum.splits if_splits intro: router_same_trans)
qed simp

lemma routed_query_ok:
  assumes "router_ok (fst w)" "lib_ok lib"
  shows "router_same (fst w) (fst (snd (routed_query lib query sql w))) \<and> router_ok (fst (snd (routed_query lib query sql w)))"
proof -
  obtain y w1 where y: "try_each lib (query sql) (length (ro_reads (fst w))) [] None w = (y, w1)" by (metis prod.exhaust)
  note one = try_each_ok[OF y assms]
  obtain z w2 where z: "retry_each lib (query sql) (retry_indices (fst w1) (fst (projr y)) (snd (projr y))) (snd (projr y)) w1 = (z, w2)"
    by (metis prod.exhaust)
  have two: "router_same (fst w) (fst w2) \<and> router_ok (fst w2)"
    using retry_each_ok[OF z] one by (blast intro: router_same_trans)
  have ex: "fst (snd (exhausted (query sql) e w2)) = fst w2" for e by (simp add: exhausted_def split: prod.split)
  show ?thesis
    using assms(1) y z one two ex
    by (auto simp: routed_query_def execute_read_retry_def split: prod.splits sum.splits)
qed

lemma probe_ok: "router_ok (fst w) \<Longrightarrow> router_same (fst w) (fst (probe lib ping i w)) \<and> router_ok (fst (probe lib ping i w))"
  by (auto simp: probe_def router_ok_def router_same_def split: prod.splits bool.splits)

lemma probes_ok: "router_ok (fst w) \<Longrightarrow> router_same (fst w) (fst (fold (probe lib ping) is w)) \<and> router_ok (fst (fold (probe lib ping) is w))"
proof (induction "is" arbitrary: w)
  case (Cons i "is")
  note p = probe_ok[OF Cons.prems, of lib ping i]
  then show ?case using Cons.IH[of "probe lib ping i w"] by (auto intro: router_same_trans[where r' = "fst (probe lib ping i w)"])
qed simp

lemma router_step_ok:
  assumes "router_ok (fst w)" "lib_ok lib"
  shows "router_same (fst w) (fst (router_step lib query ping ev w)) \<and> router_ok (fst (router_step lib query ping ev w))"
  using routed_query_ok[OF assms] probes_ok[OF assms(1)] by (cases ev) (simp_all add: router_step_def probe_reads_def Let_def)

text \<open>C33: a router is well typed at all times. Once built, it keeps one breaker for each replica and positive weights through any sequence of queries and health checks, its
  connections never change, and whenever a query picks a replica, the pick is a replica it has not tried whose breaker lets it pass; none is picked only when there is none.\<close>

theorem router_stays_ok:
  assumes "new_router write_result read_results cfg = Inr r" "lib_ok lib"
    and "w = fold (router_step lib query ping) evs (r, s)"
  shows "router_ok (fst w) \<and> ro_write (fst w) = ro_write r \<and> ro_reads (fst w) = ro_reads r
    \<and> (case fst (pick_next_read lib tried (fst w) (snd w)) of
         None \<Rightarrow> \<forall>i < length (ro_reads r). \<not> available (clock lib (snd w)) tried (fst w) i
       | Some i \<Rightarrow> i < length (ro_reads r) \<and> available (clock lib (snd w)) tried (fst w) i)"
proof -
  have "router_same r (fst w) \<and> router_ok (fst w)"
    using new_router_ok[OF assms(1)] unfolding assms(3)
  proof (induction evs arbitrary: r s)
    case (Cons ev evs)
    obtain r1 s1 where st: "router_step lib query ping ev (r, s) = (r1, s1)" by (metis prod.exhaust)
    have "router_same r r1 \<and> router_ok r1" using router_step_ok[OF _ assms(2), of "(r, s)" query ping ev] Cons.prems st by simp
    then show ?case using Cons.IH[of r1 s1] st by (auto intro: router_same_trans)
  qed simp
  moreover obtain x r' where p: "pick_next_read lib tried (fst w) (snd w) = (x, r')" by (metis prod.exhaust)
  ultimately show ?thesis
    using pick_next_read_cases(1)[OF p assms(2)] healthy_mem[of _ "clock lib (snd w)" tried "fst w"]
    by (auto simp: router_same_def split: option.splits)
qed

lemma router_stays_ok_witness:
  "router_ok (fst (fold (router_step sample_router_lib sample_query (\<lambda>c t. (True, t))) [QueryEvent ''SELECT 1'', ProbeEvent] (sample_router, 0)))"
proof -
  have n: "new_router (Inr 0) [Inr 1, Inr 2] \<lparr>rc_strategy = ''Round'', rc_read_weights = [], rc_circuit_break_ms = 1000, rc_retry_attempts = 1,
      rc_fallback_to_write = True\<rparr> = Inr sample_router"
    by (simp add: new_router_def connected_def replica_weight_def sample_router_def)
  from router_stays_ok[OF n sample_router_ok(2) refl] show ?thesis by blast
qed

end
