(* ===== verification/ApiClient.thy ===== *)
theory ApiClient
  imports Routes
begin

text \<open>
  \<^verbatim>\<open>app/client-api\<close>: the typed client of the server. Its configuration, the error each answer becomes, the requests of its endpoints and the
  loop that sends one of them again while the failure looks transient. The transport, the waiting, and the reading of a JSON answer are libraries:
  the record \<^verbatim>\<open>net\<close> and an argument of every call. The builders of the model can always be cloned, as those of the source with their JSON bodies.
\<close>

section \<open>Errors\<close>

datatype client_error =
  ConfigError string | NetworkError string | ServerError nat string | RateLimitedError string
| DeserializationError string | OtherError nat string

definition from_status :: "nat \<Rightarrow> string \<Rightarrow> client_error" where
  "from_status st body =
     (if st = 429 then RateLimitedError body
      else if 500 \<le> st \<and> st \<le> 599 then ServerError st body else OtherError st body)"

definition status_or_label :: "client_error \<Rightarrow> string" where
  "status_or_label e = (case e of OtherError s _ \<Rightarrow> show_nat s | ServerError s _ \<Rightarrow> show_nat s | _ \<Rightarrow> ''ERR'')"

text \<open>What the transport reports; the text is the one of the library.\<close>

datatype transport_error = TimedOut | ConnectFailed string | DecodeFailed string | TransportFailed string

text \<open>In a browser a failed connection is not told apart.\<close>

definition from_transport :: "bool \<Rightarrow> transport_error \<Rightarrow> client_error" where
  "from_transport native e =
     (case e of
        TimedOut \<Rightarrow> NetworkError ''Request timed out''
      | ConnectFailed m \<Rightarrow> NetworkError (if native then ''Connection failed: '' @ m else m)
      | DecodeFailed m \<Rightarrow> DeserializationError (''Failed to decode response: '' @ m)
      | TransportFailed m \<Rightarrow> NetworkError m)"

definition should_retry :: "client_error \<Rightarrow> bool" where
  "should_retry e = (case e of NetworkError _ \<Rightarrow> True | ServerError _ _ \<Rightarrow> True | RateLimitedError _ \<Rightarrow> True | _ \<Rightarrow> False)"

section \<open>Configuration\<close>

record client_config =
  cc_base_url :: string
  cc_timeout_secs :: nat
  cc_max_retries :: nat

text \<open>Where the client runs: natively, or in a browser with a window and an origin, if it has them.\<close>

record platform =
  is_native :: bool
  has_window :: bool
  window_origin :: "string option"

definition new_config :: "string \<Rightarrow> client_config" where
  "new_config base = \<lparr>cc_base_url = base, cc_timeout_secs = 30, cc_max_retries = 3\<rparr>"

definition default_config :: client_config where
  "default_config = \<lparr>cc_base_url = ''http://127.0.0.1:8080'', cc_timeout_secs = 30, cc_max_retries = 3\<rparr>"

definition validate_config :: "platform \<Rightarrow> client_config \<Rightarrow> (client_error, unit) res" where
  "validate_config p c =
     (if is_native p \<and> cc_base_url c = []
      then Inl (ConfigError ''Base URL is required on native platform; use an absolute URL '')
      else if cc_base_url c \<noteq> [] \<and> \<not> starts_with (cc_base_url c) ''http://'' \<and> \<not> starts_with (cc_base_url c) ''https://''
      then Inl (ConfigError ''Base URL must start with http:// or https://'')
      else if cc_timeout_secs c = 0 then Inl (ConfigError ''Timeout must be greater than 0'')
      else if \<not> is_native p \<and> cc_base_url c = [] \<and> \<not> has_window p
      then Inl (ConfigError ''Empty base_url requires window context in WASM (not available in Web Workers)'')
      else Inr ())"

definition trim_start_slashes :: "string \<Rightarrow> string" where "trim_start_slashes = dropWhile (\<lambda>c. c = CHR ''/'')"
definition trim_end_slashes :: "string \<Rightarrow> string" where "trim_end_slashes s = rev (dropWhile (\<lambda>c. c = CHR ''/'') (rev s))"

definition build_url :: "platform \<Rightarrow> client_config \<Rightarrow> string \<Rightarrow> string" where
  "build_url p c path0 =
     (let path = trim_start_slashes path0 in
      if cc_base_url c = [] then
        (case (if \<not> is_native p \<and> has_window p then window_origin p else None) of
           Some origin \<Rightarrow> trim_end_slashes origin @ ''/'' @ path
         | None \<Rightarrow> ''/'' @ path)
      else trim_end_slashes (cc_base_url c) @ ''/'' @ path)"

section \<open>Requests\<close>

datatype api_body =
  NoBody | EmptyObject
| LoginReq string string bool "string option"
| RegisterReq string string string string bool
| VerifyReq string string
| EmailReq string
| ResetReq string string string
| WxCodeReq string
| ChangePasswordReq string string
| CreateUserReq string string string "string option"
| UpdateUserReq "string option" "string option" "string option"
| BalanceReq int
| AmountReq int

record api_request =
  ar_method :: string
  ar_url :: string
  ar_query :: "(string \<times> nat) list"
  ar_authorization :: "string option"
  ar_body :: api_body

record api_response =
  as_status :: nat
  as_text :: "string option"

record 's net =
  net_send :: "api_request \<Rightarrow> 's \<Rightarrow> (transport_error, api_response) res \<times> 's"
  net_sleep :: "nat \<Rightarrow> 's \<Rightarrow> 's"
  canonical_reason :: "nat \<Rightarrow> string option"

record client =
  cl_platform :: platform
  cl_config :: client_config
  cl_token :: "string option"

definition new_client :: "platform \<Rightarrow> client_config \<Rightarrow> (client_error, client) res" where
  "new_client p c = bindE (validate_config p c) (\<lambda>_. Inr \<lparr>cl_platform = p, cl_config = c, cl_token = None\<rparr>)"

definition set_token :: "string \<Rightarrow> client \<Rightarrow> client" where "set_token t cl = cl\<lparr>cl_token := Some t\<rparr>"
definition clear_client_token :: "client \<Rightarrow> client" where "clear_client_token cl = cl\<lparr>cl_token := None\<rparr>"
definition client_has_token :: "client \<Rightarrow> bool" where "client_has_token cl \<longleftrightarrow> cl_token cl \<noteq> None"

definition request_no_auth :: "client \<Rightarrow> string \<Rightarrow> string \<Rightarrow> api_body \<Rightarrow> api_request" where
  "request_no_auth cl meth path body =
     \<lparr>ar_method = meth, ar_url = build_url (cl_platform cl) (cl_config cl) path, ar_query = [], ar_authorization = None, ar_body = body\<rparr>"

definition request_with_auth :: "client \<Rightarrow> string \<Rightarrow> string \<Rightarrow> api_body \<Rightarrow> string option \<Rightarrow> api_request" where
  "request_with_auth cl meth path body token =
     (request_no_auth cl meth path body)\<lparr>ar_authorization :=
        (case token of Some t \<Rightarrow> Some (''Bearer '' @ t) | None \<Rightarrow> map_option ((@) ''Bearer '') (cl_token cl))\<rparr>"

section \<open>Sending\<close>

definition MAX_BACKOFF_SHIFT :: nat where "MAX_BACKOFF_SHIFT = 2"

definition backoff_ms :: "nat \<Rightarrow> nat" where
  "backoff_ms attempt = min (500 * 2 ^ min (attempt - 1) MAX_BACKOFF_SHIFT) (2 ^ 32 - 1)"

definition handle_response ::
    "'s net \<Rightarrow> bool \<Rightarrow> (api_response \<Rightarrow> (transport_error, 'a) res) \<Rightarrow> api_response \<Rightarrow> (client_error, 'a) res" where
  "handle_response net native json response =
     (if 200 \<le> as_status response \<and> as_status response \<le> 299 then mapErr (from_transport native) (json response)
      else
        (let text = (case as_text response of None \<Rightarrow> [] | Some t \<Rightarrow> t);
             default_msg = (case canonical_reason net (as_status response) of None \<Rightarrow> ''Unknown error'' | Some m \<Rightarrow> m)
         in Inl (from_status (as_status response) (if text = [] then default_msg else text))))"

text \<open>The outcome of one attempt.\<close>

definition outcome ::
    "'s net \<Rightarrow> bool \<Rightarrow> (api_response \<Rightarrow> (transport_error, 'a) res) \<Rightarrow> (transport_error, api_response) res \<Rightarrow> (client_error, 'a) res" where
  "outcome net native json x =
     (case x of Inl e \<Rightarrow> Inl (from_transport native e) | Inr response \<Rightarrow> handle_response net native json response)"

text \<open>The loop, with the attempts still left after this one.\<close>

primrec send_attempts ::
    "nat \<Rightarrow> nat \<Rightarrow> 's net \<Rightarrow> bool \<Rightarrow> (api_response \<Rightarrow> (transport_error, 'a) res) \<Rightarrow> api_request \<Rightarrow> 's \<Rightarrow> (client_error, 'a) res \<times> 's" where
  "send_attempts 0 attempt net native json req s =
     (case net_send net req (if 0 < attempt then net_sleep net (backoff_ms attempt) s else s) of
        (x, s1) \<Rightarrow> (outcome net native json x, s1))"
| "send_attempts (Suc left) attempt net native json req s =
     (case net_send net req (if 0 < attempt then net_sleep net (backoff_ms attempt) s else s) of
        (x, s1) \<Rightarrow>
          (case outcome net native json x of
             Inr v \<Rightarrow> (Inr v, s1)
           | Inl e \<Rightarrow> if should_retry e then send_attempts left (attempt + 1) net native json req s1 else (Inl e, s1)))"

definition send_and_parse ::
    "'s net \<Rightarrow> client \<Rightarrow> (api_response \<Rightarrow> (transport_error, 'a) res) \<Rightarrow> api_request \<Rightarrow> 's \<Rightarrow> (client_error, 'a) res \<times> 's" where
  "send_and_parse net cl json req s =
     send_attempts (cc_max_retries (cl_config cl)) 0 net (is_native (cl_platform cl)) json req s"

definition call_public ::
    "'s net \<Rightarrow> client \<Rightarrow> (api_response \<Rightarrow> (transport_error, 'a) res) \<Rightarrow> string \<Rightarrow> string \<Rightarrow> api_body \<Rightarrow> 's \<Rightarrow> (client_error, 'a) res \<times> 's" where
  "call_public net cl json meth path body = send_and_parse net cl json (request_no_auth cl meth path body)"

definition call_authorized ::
    "'s net \<Rightarrow> client \<Rightarrow> (api_response \<Rightarrow> (transport_error, 'a) res) \<Rightarrow> string \<Rightarrow> string \<Rightarrow> api_body \<Rightarrow> 's \<Rightarrow> (client_error, 'a) res \<times> 's" where
  "call_authorized net cl json meth path body = send_and_parse net cl json (request_with_auth cl meth path body None)"

section \<open>Endpoints\<close>

definition client_login ::
    "'s net \<Rightarrow> client \<Rightarrow> (api_response \<Rightarrow> (transport_error, 'a) res) \<Rightarrow> string \<Rightarrow> string \<Rightarrow> bool \<Rightarrow> string option \<Rightarrow> 's \<Rightarrow> (client_error, 'a) res \<times> 's" where
  "client_login net cl json email password remember captcha_code =
     call_public net cl json ''POST'' ''/api/public/auth/login'' (LoginReq email password remember captcha_code)"

definition client_register ::
    "'s net \<Rightarrow> client \<Rightarrow> (api_response \<Rightarrow> (transport_error, 'a) res) \<Rightarrow> string \<Rightarrow> string \<Rightarrow> string \<Rightarrow> bool \<Rightarrow> string \<Rightarrow> 's \<Rightarrow> (client_error, 'a) res \<times> 's" where
  "client_register net cl json email password name remember password_confirm =
     call_public net cl json ''POST'' ''/api/public/auth/register'' (RegisterReq email password name password_confirm remember)"

definition client_verify_email ::
    "'s net \<Rightarrow> client \<Rightarrow> (api_response \<Rightarrow> (transport_error, 'a) res) \<Rightarrow> string \<Rightarrow> string \<Rightarrow> 's \<Rightarrow> (client_error, 'a) res \<times> 's" where
  "client_verify_email net cl json email code = call_public net cl json ''POST'' ''/api/public/auth/verify-email'' (VerifyReq email code)"

definition client_resend_code ::
    "'s net \<Rightarrow> client \<Rightarrow> (api_response \<Rightarrow> (transport_error, 'a) res) \<Rightarrow> string \<Rightarrow> 's \<Rightarrow> (client_error, 'a) res \<times> 's" where
  "client_resend_code net cl json email = call_public net cl json ''POST'' ''/api/public/auth/resend-code'' (EmailReq email)"

definition client_forgot_password ::
    "'s net \<Rightarrow> client \<Rightarrow> (api_response \<Rightarrow> (transport_error, 'a) res) \<Rightarrow> string \<Rightarrow> 's \<Rightarrow> (client_error, 'a) res \<times> 's" where
  "client_forgot_password net cl json email = call_public net cl json ''POST'' ''/api/public/auth/forgot-password'' (EmailReq email)"

definition client_reset_password ::
    "'s net \<Rightarrow> client \<Rightarrow> (api_response \<Rightarrow> (transport_error, 'a) res) \<Rightarrow> string \<Rightarrow> string \<Rightarrow> string \<Rightarrow> 's \<Rightarrow> (client_error, 'a) res \<times> 's" where
  "client_reset_password net cl json email code new_password =
     call_public net cl json ''POST'' ''/api/public/auth/reset-password'' (ResetReq email code new_password)"

definition client_refresh ::
    "'s net \<Rightarrow> client \<Rightarrow> (api_response \<Rightarrow> (transport_error, 'a) res) \<Rightarrow> 's \<Rightarrow> (client_error, 'a) res \<times> 's" where
  "client_refresh net cl json = call_public net cl json ''POST'' ''/api/public/auth/refresh'' EmptyObject"

definition client_wx_login ::
    "'s net \<Rightarrow> client \<Rightarrow> (api_response \<Rightarrow> (transport_error, 'a) res) \<Rightarrow> string \<Rightarrow> 's \<Rightarrow> (client_error, 'a) res \<times> 's" where
  "client_wx_login net cl json code = call_public net cl json ''POST'' ''/api/public/auth/wx-login'' (WxCodeReq code)"

definition client_wechat_enabled ::
    "'s net \<Rightarrow> client \<Rightarrow> (api_response \<Rightarrow> (transport_error, 'a) res) \<Rightarrow> 's \<Rightarrow> (client_error, 'a) res \<times> 's" where
  "client_wechat_enabled net cl json = call_public net cl json ''GET'' ''/api/public/auth/wechat-enabled'' NoBody"

definition client_logout ::
    "'s net \<Rightarrow> client \<Rightarrow> (api_response \<Rightarrow> (transport_error, 'a) res) \<Rightarrow> 's \<Rightarrow> (client_error, 'a) res \<times> 's" where
  "client_logout net cl json = call_public net cl json ''POST'' ''/api/public/auth/logout'' EmptyObject"

definition client_health_check ::
    "'s net \<Rightarrow> client \<Rightarrow> (api_response \<Rightarrow> (transport_error, 'a) res) \<Rightarrow> 's \<Rightarrow> (client_error, 'a) res \<times> 's" where
  "client_health_check net cl json = call_public net cl json ''GET'' ''/api/health'' NoBody"

definition client_list_users ::
    "'s net \<Rightarrow> client \<Rightarrow> (api_response \<Rightarrow> (transport_error, 'a) res) \<Rightarrow> nat \<Rightarrow> nat \<Rightarrow> 's \<Rightarrow> (client_error, 'a) res \<times> 's" where
  "client_list_users net cl json pg sz s =
     (if pg = 0 \<or> sz = 0 then (Inl (ConfigError ''page and per_page must be greater than 0''), s)
      else send_and_parse net cl json
             ((request_with_auth cl ''GET'' ''/api/users'' NoBody None)\<lparr>ar_query := [(''page'', pg), (''per_page'', sz)]\<rparr>) s)"

definition client_get_user ::
    "'s net \<Rightarrow> client \<Rightarrow> (api_response \<Rightarrow> (transport_error, 'a) res) \<Rightarrow> string \<Rightarrow> 's \<Rightarrow> (client_error, 'a) res \<times> 's" where
  "client_get_user net cl json i = call_authorized net cl json ''GET'' (''/api/users/'' @ i) NoBody"

definition client_get_me ::
    "'s net \<Rightarrow> client \<Rightarrow> (api_response \<Rightarrow> (transport_error, 'a) res) \<Rightarrow> 's \<Rightarrow> (client_error, 'a) res \<times> 's" where
  "client_get_me net cl json = call_authorized net cl json ''GET'' ''/api/users/me'' NoBody"

definition client_change_password ::
    "'s net \<Rightarrow> client \<Rightarrow> (api_response \<Rightarrow> (transport_error, 'a) res) \<Rightarrow> string \<Rightarrow> string \<Rightarrow> 's \<Rightarrow> (client_error, 'a) res \<times> 's" where
  "client_change_password net cl json current new =
     call_authorized net cl json ''POST'' ''/api/users/me/password'' (ChangePasswordReq current new)"

definition client_logout_all ::
    "'s net \<Rightarrow> client \<Rightarrow> (api_response \<Rightarrow> (transport_error, 'a) res) \<Rightarrow> 's \<Rightarrow> (client_error, 'a) res \<times> 's" where
  "client_logout_all net cl json = call_authorized net cl json ''POST'' ''/api/users/me/logout-all'' EmptyObject"

definition client_create_user ::
    "'s net \<Rightarrow> client \<Rightarrow> (api_response \<Rightarrow> (transport_error, 'a) res) \<Rightarrow> string \<Rightarrow> string \<Rightarrow> string \<Rightarrow> string option \<Rightarrow> 's \<Rightarrow> (client_error, 'a) res \<times> 's" where
  "client_create_user net cl json email password name role =
     call_authorized net cl json ''POST'' ''/api/users'' (CreateUserReq email password name role)"

definition client_update_user ::
    "'s net \<Rightarrow> client \<Rightarrow> (api_response \<Rightarrow> (transport_error, 'a) res) \<Rightarrow> string \<Rightarrow> string option \<Rightarrow> string option \<Rightarrow> string option \<Rightarrow> 's \<Rightarrow> (client_error, 'a) res \<times> 's" where
  "client_update_user net cl json i email name role =
     call_authorized net cl json ''PUT'' (''/api/users/'' @ i) (UpdateUserReq email name role)"

definition client_delete_user ::
    "'s net \<Rightarrow> client \<Rightarrow> (api_response \<Rightarrow> (transport_error, 'a) res) \<Rightarrow> string \<Rightarrow> 's \<Rightarrow> (client_error, 'a) res \<times> 's" where
  "client_delete_user net cl json i = call_authorized net cl json ''DELETE'' (''/api/users/'' @ i) NoBody"

definition client_set_balance ::
    "'s net \<Rightarrow> client \<Rightarrow> (api_response \<Rightarrow> (transport_error, 'a) res) \<Rightarrow> string \<Rightarrow> int \<Rightarrow> 's \<Rightarrow> (client_error, 'a) res \<times> 's" where
  "client_set_balance net cl json i balance =
     call_authorized net cl json ''PUT'' (''/api/users/'' @ i @ ''/balance'') (BalanceReq balance)"

definition client_adjust_balance ::
    "'s net \<Rightarrow> client \<Rightarrow> (api_response \<Rightarrow> (transport_error, 'a) res) \<Rightarrow> string \<Rightarrow> int \<Rightarrow> 's \<Rightarrow> (client_error, 'a) res \<times> 's" where
  "client_adjust_balance net cl json i amount =
     call_authorized net cl json ''POST'' (''/api/users/'' @ i @ ''/balance/adjust'') (AmountReq amount)"

section \<open>The attempts of a call\<close>

text \<open>The same network in a world that records the answers and the waits.\<close>

type_synonym attempts_log = "(transport_error, api_response) res list \<times> nat list"

definition logged :: "'s net \<Rightarrow> ('s \<times> attempts_log) net" where
  "logged net =
     \<lparr>net_send = (\<lambda>req (s, outs, waits). case net_send net req s of (x, s1) \<Rightarrow> (x, (s1, (outs @ [x], waits)))),
      net_sleep = (\<lambda>ms (s, outs, waits). (net_sleep net ms s, (outs, waits @ [ms]))),
      canonical_reason = canonical_reason net\<rparr>"

lemma logged_sel [simp]:
  "net_send (logged net) req (s, (outs, waits)) = (case net_send net req s of (x, s1) \<Rightarrow> (x, (s1, (outs @ [x], waits))))"
  "net_sleep (logged net) ms (s, (outs, waits)) = (net_sleep net ms s, (outs, waits @ [ms]))"
  by (simp_all add: logged_def)

lemma outcome_logged [simp]: "outcome (logged net) native json x = outcome net native json x"
  by (simp add: outcome_def handle_response_def logged_def split: sum.split)

definition transient :: "'s net \<Rightarrow> bool \<Rightarrow> (api_response \<Rightarrow> (transport_error, 'a) res) \<Rightarrow> (transport_error, api_response) res \<Rightarrow> bool" where
  "transient net native json x \<longleftrightarrow> (\<exists>e. outcome net native json x = Inl e \<and> should_retry e)"

lemma send_attempts_log:
  assumes "send_attempts left attempt (logged net) native json req (s, (outs0, waits0)) = (x, (s', (outs, waits)))"
  shows "\<exists>new. outs = outs0 @ new \<and> new \<noteq> [] \<and> length new \<le> left + 1 \<and> x = outcome net native json (last new)
    \<and> (\<forall>y \<in> set (butlast new). transient net native json y)
    \<and> (transient net native json (last new) \<longrightarrow> length new = left + 1)
    \<and> waits = waits0 @ map backoff_ms (filter ((<) 0) [attempt..<attempt + length new])"
  using assms
proof (induction left arbitrary: attempt s outs0 waits0)
  case 0
  let ?s0 = "if 0 < attempt then net_sleep net (backoff_ms attempt) s else s"
  obtain y s1 where y: "net_send net req ?s0 = (y, s1)" by (metis prod.exhaust)
  have "outs = outs0 @ [y] \<and> x = outcome net native json y \<and> waits = (if 0 < attempt then waits0 @ [backoff_ms attempt] else waits0)"
    using 0 y by (auto split: if_splits)
  then show ?case by (intro exI[of _ "[y]"]) simp
next
  case (Suc left)
  let ?s0 = "if 0 < attempt then net_sleep net (backoff_ms attempt) s else s"
  let ?w0 = "if 0 < attempt then waits0 @ [backoff_ms attempt] else waits0"
  obtain y s1 where y: "net_send net req ?s0 = (y, s1)" by (metis prod.exhaust)
  have send: "net_send (logged net) req (if 0 < attempt then net_sleep (logged net) (backoff_ms attempt) (s, (outs0, waits0))
      else (s, (outs0, waits0))) = (y, (s1, (outs0 @ [y], ?w0)))"
    using y by auto
  show ?case
  proof (cases "transient net native json y")
    case True
    then obtain e where e: "outcome net native json y = Inl e" "should_retry e" by (auto simp: transient_def)
    have "send_attempts left (attempt + 1) (logged net) native json req (s1, (outs0 @ [y], ?w0)) = (x, (s', (outs, waits)))"
      using Suc.prems send e by simp
    from Suc.IH[OF this] obtain new where n: "outs = outs0 @ [y] @ new" "new \<noteq> []" "length new \<le> left + 1"
      "x = outcome net native json (last new)" "\<forall>y \<in> set (butlast new). transient net native json y"
      "transient net native json (last new) \<longrightarrow> length new = left + 1"
      "waits = ?w0 @ map backoff_ms (filter ((<) 0) [attempt + 1..<attempt + 1 + length new])"
      by auto
    have "[attempt..<attempt + length (y # new)] = attempt # [attempt + 1..<attempt + 1 + length new]"
      by (subst upt_conv_Cons) simp_all
    then show ?thesis using n True by (intro exI[of _ "y # new"]) auto
  next
    case False
    then have "x = outcome net native json y \<and> outs = outs0 @ [y] \<and> waits = ?w0"
      using Suc.prems send by (auto simp: transient_def split: sum.splits if_splits)
    then show ?thesis using False by (intro exI[of _ "[y]"]) auto
  qed
qed

text \<open>C34: a call ends. Whatever the network does, a call sends its request at least once and at most one time more than the configured retries; it goes on exactly
  while the failure is transient and a retry is left, gives the outcome of the last attempt, and before the n-th retry it waits 500, 1000 and then 2000 milliseconds.\<close>

theorem send_and_parse_ends:
  "case send_and_parse (logged net) cl json req (s, ([], [])) of
     (x, (s', (outs, waits))) \<Rightarrow>
       outs \<noteq> [] \<and> length outs \<le> cc_max_retries (cl_config cl) + 1
       \<and> x = outcome net (is_native (cl_platform cl)) json (last outs)
       \<and> list_all (transient net (is_native (cl_platform cl)) json) (butlast outs)
       \<and> (\<not> transient net (is_native (cl_platform cl)) json (last outs) \<or> length outs = cc_max_retries (cl_config cl) + 1)
       \<and> waits = map (\<lambda>n. if n = 1 then 500 else if n = 2 then 1000 else 2000) [1..<length outs]"
proof -
  obtain x s' outs waits where r: "send_attempts (cc_max_retries (cl_config cl)) 0 (logged net) (is_native (cl_platform cl)) json req (s, ([], []))
      = (x, (s', (outs, waits)))" by (metis prod.exhaust)
  note l = send_attempts_log[OF r]
  have ne: "outs \<noteq> []" using l by auto
  have "waits = map backoff_ms (filter ((<) 0) [0..<length outs])" using l by auto
  also have "[0..<length outs] = 0 # [1..<length outs]" using ne by (simp add: upt_conv_Cons)
  also have "filter ((<) 0) (0 # [1..<length outs]) = [1..<length outs]" by (auto simp: filter_id_conv)
  also have "map backoff_ms [1..<length outs] = map (\<lambda>n. if n = 1 then 500 else if n = 2 then 1000 else 2000) [1..<length outs]"
  proof (rule map_cong[OF refl])
    fix n assume "n \<in> set [1..<length outs]"
    then consider "n = 1" | "n = 2" | "3 \<le> n" by force
    then show "backoff_ms n = (if n = 1 then 500 else if n = 2 then 1000 else 2000)"
    proof cases
      case 3
      then have "min (n - 1) 2 = 2" by simp
      then show ?thesis using 3 by (simp add: backoff_ms_def MAX_BACKOFF_SHIFT_def)
    qed (simp_all add: backoff_ms_def MAX_BACKOFF_SHIFT_def)
  qed
  finally show ?thesis
    using l r by (auto simp: send_and_parse_def list_all_iff)
qed

text \<open>Four lost requests with the default configuration.\<close>

lemma send_and_parse_ends_witness:
  "let net = (\<lparr>net_send = (\<lambda>_ s. (Inl TimedOut, s)), net_sleep = (\<lambda>_ s. s), canonical_reason = (\<lambda>_. None)\<rparr> :: unit net);
       cl = \<lparr>cl_platform = \<lparr>is_native = True, has_window = False, window_origin = None\<rparr>, cl_config = default_config, cl_token = None\<rparr>
   in case client_get_me (logged net) cl (\<lambda>_. Inr ()) ((), ([], [])) of
     (x, (s', (outs, waits))) \<Rightarrow> x = Inl (NetworkError ''Request timed out'') \<and> length outs = 4 \<and> waits = [500, 1000, 2000]"
proof -
  define net :: "unit net" where "net = \<lparr>net_send = (\<lambda>_ s. (Inl TimedOut, s)), net_sleep = (\<lambda>_ s. s), canonical_reason = (\<lambda>_. None)\<rparr>"
  define cl where "cl = \<lparr>cl_platform = \<lparr>is_native = True, has_window = False, window_origin = None\<rparr>, cl_config = default_config, cl_token = None\<rparr>"
  define req where "req = request_with_auth cl ''GET'' ''/api/users/me'' NoBody None"
  obtain x s' outs waits where r: "send_and_parse (logged net) cl (\<lambda>_. Inr ()) req ((), ([], [])) = (x, (s', (outs, waits)))"
    by (metis prod.exhaust)
  have all: "outs = replicate (length outs) (Inl TimedOut)" and n: "length outs = 4"
    using r by (auto simp: send_and_parse_def cl_def default_config_def net_def eval_nat_numeral outcome_def from_transport_def should_retry_def)
  have "x = outcome net True (\<lambda>_. Inr ()) (last outs)" "waits = map (\<lambda>n. if n = 1 then 500 else if n = 2 then 1000 else 2000) [1..<length outs]"
    using send_and_parse_ends[where net = net and cl = cl and json = "\<lambda>_. Inr ()" and req = req and s = "()"] r by (simp_all add: cl_def)
  moreover have "[1..<length outs] = [1, 2, 3]" using n by (simp add: upt_rec)
  moreover have "last outs = Inl TimedOut" using all n by (metis last_replicate zero_neq_numeral)
  ultimately have "x = Inl (NetworkError ''Request timed out'')" "waits = [500, 1000, 2000]"
    by (simp_all add: outcome_def from_transport_def)
  then show ?thesis
    unfolding Let_def client_get_me_def call_authorized_def net_def[symmetric] cl_def[symmetric] req_def[symmetric] using r n by simp
qed

section \<open>A retried adjustment\<close>

text \<open>A request for the adjustment of the balance of an account, by its method and the end of its address.\<close>

definition adjusts :: "int \<Rightarrow> api_request \<Rightarrow> bool" where
  "adjusts i req \<longleftrightarrow>
     (let p = ''/api/users/'' @ show_int i @ ''/balance/adjust'' in
      ar_method req = ''POST'' \<and> drop (length (ar_url req) - length p) (ar_url req) = p)"

lemma drop_suffix: "drop (length (u @ p) - length p) (u @ p) = p"
  by simp

lemma adjusts_call: "adjusts i (request_with_auth cl ''POST'' (''/api/users/'' @ show_int i @ ''/balance/adjust'') body t)"
proof -
  let ?p = "''/api/users/'' @ show_int i @ ''/balance/adjust''"
  have "\<exists>u. build_url p c ?p = u @ ?p" for p c
  proof -
    have "build_url p c ?p = u @ ''/'' @ tl ?p" if "u = (if cc_base_url c = [] then
        (case (if \<not> is_native p \<and> has_window p then window_origin p else None) of Some origin \<Rightarrow> trim_end_slashes origin | None \<Rightarrow> [])
        else trim_end_slashes (cc_base_url c))" for u
      by (simp add: that build_url_def trim_start_slashes_def split: option.split)
    then show ?thesis by force
  qed
  then obtain u where "build_url (cl_platform cl) (cl_config cl) ?p = u @ ?p" by blast
  then show ?thesis
    unfolding adjusts_def Let_def request_with_auth_def request_no_auth_def by (simp only: api_request.simps drop_suffix refl simp_thms)
qed

text \<open>The balance endpoint of the server behind a link that loses the answers to the first successful requests, not the requests.\<close>

definition lossy_link :: "'r env \<Rightarrow> int \<Rightarrow> string \<Rightarrow> ('r app \<times> nat) net" where
  "lossy_link env i actor =
     \<lparr>net_send = (\<lambda>req (s, lost).
        case ar_body req of
          AmountReq m \<Rightarrow>
            if \<not> adjusts i req then (Inr \<lparr>as_status = 404, as_text = None\<rparr>, (s, lost))
            else
              (case adjust_balance env i m actor s of
                 (Inl e, t) \<Rightarrow> (Inr \<lparr>as_status = status (to_http api_of_user e), as_text = None\<rparr>, (t, lost))
               | (Inr r, t) \<Rightarrow>
                   (case lost of
                      0 \<Rightarrow> (Inr \<lparr>as_status = 200, as_text = None\<rparr>, (t, 0))
                    | Suc n \<Rightarrow> (Inl TimedOut, (t, n))))
        | _ \<Rightarrow> (Inr \<lparr>as_status = 404, as_text = None\<rparr>, (s, lost))),
      net_sleep = (\<lambda>_ s. s), canonical_reason = (\<lambda>_. None)\<rparr>"

lemma adjust_run:
  assumes "quiet env" "db_ok s" "user_by_id i s = Some u" "u_role u = ''user''" "actor = ''admin'' \<or> actor = ''system''"
    and "0 \<le> u_balance u + m" "u_balance u + m \<le> i64_max"
  shows "\<exists>r t v. adjust_balance env i m actor s = (Inr r, t) \<and> db_ok t \<and> user_by_id i t = Some v
    \<and> u_balance v = u_balance u + m \<and> u_role v = ''user''"
proof -
  let ?f = "\<lambda>v. v\<lparr>u_balance := u_balance u + m, u_updated_at := now env\<rparr>"
  have "\<not> list_ex (\<lambda>v. u_id v \<noteq> i \<and> clashes (?f u) v) (users s)"
  proof -
    have c: "clashes (?f u) v = clashes u v" for v by (simp add: clashes_def)
    have "u_id v = i" if "v \<in> set (users s)" "clashes u v" for v
      using users_ok_clash[of "users s" u v] assms(2) user_by_id_Some[OF assms(3)] that by (simp add: db_ok_def)
    then show ?thesis unfolding list_ex_iff c by blast
  qed
  then have up: "update_user_row i ?f s = DbOk (s\<lparr>users := map (\<lambda>v. if u_id v = i then ?f v else v) (users s)\<rparr>, ?f u)"
    using assms(3) by (simp add: update_user_row_def)
  obtain x t where a: "adjust_balance env i m actor s = (x, t)" by (metis prod.exhaust)
  have "wp (adjust_balance env i m actor) (\<lambda>_ t. user_by_id i t = Some (?f u)) (\<lambda>_ _. False) s"
    using assms(1,3-7) up user_by_id_update(2)[OF up]
    by (auto simp: adjust_balance_def write_balance_def wp_simps checked_add_i64_def in_i64_def i64_min_def check_balance_rbac_def
        quiet_def intro!: wp_intros)
  then have "\<exists>r. x = Inr r" "user_by_id i t = Some (?f u)" using a by (auto simp: wp_def split: sum.splits)
  then show ?thesis using a adjust_balance_db_ok[OF assms(2), of env i m actor] assms(4) by auto
qed

lemma lossy_attempts:
  assumes "quiet env" "actor = ''admin'' \<or> actor = ''system''" "ar_body req = AmountReq m" "0 \<le> m" "adjusts i req"
    and "db_ok s" "user_by_id i s = Some u" "u_role u = ''user''" "0 \<le> u_balance u"
    and "u_balance u + (int lost + 1) * m \<le> i64_max" "lost \<le> left"
  shows "\<exists>t v. send_attempts left attempt (lossy_link env i actor) native (\<lambda>_. Inr ()) req (s, lost) = (Inr (), (t, 0))
    \<and> user_by_id i t = Some v \<and> u_balance v = u_balance u + (int lost + 1) * m"
  using assms(6-)
proof (induction left arbitrary: lost attempt s u)
  case (0 lost attempt s u)
  then have "u_balance u + m \<le> i64_max" "lost = 0" by auto
  moreover have "0 \<le> u_balance u + m" using 0(4) assms(4) by simp
  ultimately obtain r t v where "adjust_balance env i m actor s = (Inr r, t)" "user_by_id i t = Some v" "u_balance v = u_balance u + m"
    using adjust_run[OF assms(1) 0(1-3) assms(2), of m] by blast
  then show ?case using assms(3,5) \<open>lost = 0\<close> by (auto simp: lossy_link_def outcome_def handle_response_def)
next
  case (Suc left lost attempt s u)
  have "0 \<le> int lost * m" using assms(4) by simp
  then have "u_balance u + m \<le> i64_max" using Suc.prems(5) by (simp add: algebra_simps)
  moreover have "0 \<le> u_balance u + m" using Suc.prems(4) assms(4) by simp
  ultimately obtain r t v where a: "adjust_balance env i m actor s = (Inr r, t)" "db_ok t" "user_by_id i t = Some v" "u_balance v = u_balance u + m"
      "u_role v = ''user''"
    using adjust_run[OF assms(1) Suc.prems(1-3) assms(2), of m] by blast
  show ?case
  proof (cases lost)
    case 0
    then show ?thesis using a assms(3,5) by (auto simp: lossy_link_def outcome_def handle_response_def)
  next
    case (Suc n)
    have "u_balance v + (int n + 1) * m \<le> i64_max" "0 \<le> u_balance v" "n \<le> left"
      using Suc.prems a(4) assms(4) Suc by (simp_all add: algebra_simps)
    from Suc.IH[OF a(2,3,5) this(2,1,3), of "attempt + 1"] obtain t2 v2 where
      r: "send_attempts left (attempt + 1) (lossy_link env i actor) native (\<lambda>_. Inr ()) req (t, n) = (Inr (), (t2, 0))"
      "user_by_id i t2 = Some v2" "u_balance v2 = u_balance v + (int n + 1) * m" by blast
    have "net_send (lossy_link env i actor) req (if 0 < attempt then net_sleep (lossy_link env i actor) (backoff_ms attempt) (s, lost) else (s, lost))
        = (Inl TimedOut, (t, n))"
      using a assms(3,5) Suc by (simp add: lossy_link_def)
    then have "send_attempts (Suc left) attempt (lossy_link env i actor) native (\<lambda>_. Inr ()) req (s, lost) = (Inr (), (t2, 0))"
      using r(1) by (simp add: outcome_def from_transport_def should_retry_def)
    moreover have "u_balance v2 = u_balance u + (int lost + 1) * m" using r(3) a(4) Suc by (simp add: algebra_simps)
    ultimately show ?thesis using r(2) by blast
  qed
qed

text \<open>C40: a retried adjustment is applied again. When the link loses the answers to the first requests, no more of them than the client retries, the call
  reports one success and the balance has moved by the amount once more for each lost answer.\<close>

theorem retried_adjustment_repeats:
  assumes "quiet env" "actor = ''admin'' \<or> actor = ''system''" "db_ok s" "user_by_id i s = Some u" "u_role u = ''user''"
    and "0 \<le> m" "u_balance u + (int lost + 1) * m \<le> i64_max" "lost \<le> cc_max_retries (cl_config cl)"
  shows "\<exists>t v. client_adjust_balance (lossy_link env i actor) cl (\<lambda>_. Inr ()) (show_int i) m (s, lost) = (Inr (), (t, 0))
    \<and> user_by_id i t = Some v \<and> u_balance v = u_balance u + (int lost + 1) * m"
proof -
  have "0 \<le> u_balance u" using assms(3) user_by_id_Some[OF assms(4)] by (auto simp: db_ok_def users_ok_def row_ok_def)
  then show ?thesis
    unfolding client_adjust_balance_def call_authorized_def send_and_parse_def
    by (intro lossy_attempts assms adjusts_call) (simp_all add: request_with_auth_def request_no_auth_def)
qed

lemma retried_adjustment_repeats_witness:
  "\<exists>t v. client_adjust_balance (lossy_link sample_env 3 ''admin'')
       \<lparr>cl_platform = \<lparr>is_native = True, has_window = False, window_origin = None\<rparr>, cl_config = default_config, cl_token = None\<rparr>
       (\<lambda>_. Inr ()) (show_int 3) 5 (sample_app, 2) = (Inr (), (t, 0))
     \<and> user_by_id 3 t = Some v \<and> u_balance v = 25"
proof -
  have u: "user_by_id 3 sample_app = Some (sample_user 3 ''u'' ''user'')" by (simp add: user_by_id_def sample_app_def sample_user_def)
  have b: "u_balance (sample_user 3 ''u'' ''user'') = 10" "u_role (sample_user 3 ''u'' ''user'') = ''user''" by (simp_all add: sample_user_def)
  show ?thesis
    using retried_adjustment_repeats[OF sample_quiet _ sample_app_ok u b(2), of "''admin''" 5 2
        "\<lparr>cl_platform = \<lparr>is_native = True, has_window = False, window_origin = None\<rparr>, cl_config = default_config, cl_token = None\<rparr>"]
    by (simp add: b default_config_def i64_max_def)
qed

end
