(* ===== verification/WebAuth.thy ===== *)
theory WebAuth
  imports ApiClient
begin

text \<open>
  \<^verbatim>\<open>app/web\<close>: the session of the browser. \<^verbatim>\<open>auth/state.rs\<close> keeps the token of the client, the current user and the expiry of the token; \<^verbatim>\<open>auth/storage.rs\<close>
  persists the token in the session storage and the expiry in a readable cookie; the guards decide what is shown; \<^verbatim>\<open>components/log_bus.rs\<close> keeps the
  last entries of a log. The network, the clock and what other tasks do while a task sleeps are libraries: the record \<^verbatim>\<open>web_lib\<close>. Signals and rendering are left out.
\<close>

section \<open>State\<close>

record jwt_payload =
  jp_sub :: string
  jp_exp :: nat
  jp_iat :: nat
  jp_role :: string

record current_user =
  cu_id :: string
  cu_role :: string
  cu_name :: string
  cu_email :: string
  cu_balance :: int

record pending_registration =
  pr_email :: string
  pr_password :: string
  pr_remember :: bool

text \<open>The browser: the session storage and the cookie with its value and the second at which it goes away.\<close>

record 's web_state =
  wa_client :: client
  wa_user :: "current_user option"
  wa_expires_at :: "nat option"
  wa_initialized :: bool
  wa_pending :: "pending_registration option"
  wa_refreshing :: bool
  br_jwt :: "string option"
  br_expiry :: "(string \<times> nat) option"
  wa_net :: 's

record login_reply =
  lg_token :: string
  lg_expires_in :: nat
  lg_refresh_expires_in :: "nat option"

record refresh_reply =
  rf_token :: string
  rf_expires_in :: nat
  rf_refresh_expires_in :: nat

record profile =
  pf_id :: string
  pf_email :: string
  pf_name :: string
  pf_role :: string
  pf_balance :: int

text \<open>Reading the answers, the payload of a token, the clock in seconds, and the other tasks.\<close>

record 's web_lib =
  wl_net :: "'s net"
  read_login :: "api_response \<Rightarrow> (transport_error, login_reply) res"
  read_refresh :: "api_response \<Rightarrow> (transport_error, refresh_reply) res"
  read_profile :: "api_response \<Rightarrow> (transport_error, profile) res"
  read_registered :: "api_response \<Rightarrow> (transport_error, bool) res"
  read_message :: "api_response \<Rightarrow> (transport_error, unit) res"
  read_payload :: "string \<Rightarrow> jwt_payload option"
  now_unix_secs :: "'s \<Rightarrow> nat"
  others :: "'s web_state \<Rightarrow> 's web_state"

definition JWT_EXPIRY_LEEWAY_SECS :: nat where "JWT_EXPIRY_LEEWAY_SECS = 5"

definition web_now :: "'s web_lib \<Rightarrow> 's web_state \<Rightarrow> nat" where "web_now lib w = now_unix_secs lib (wa_net w)"

text \<open>The test the code makes in several places.\<close>

definition looks_expired :: "nat \<Rightarrow> nat \<Rightarrow> bool" where
  "looks_expired t exp \<longleftrightarrow> exp \<le> t + JWT_EXPIRY_LEEWAY_SECS"

definition is_auth_failure :: "client_error \<Rightarrow> bool" where
  "is_auth_failure e = (case e of OtherError s _ \<Rightarrow> s = 401 \<or> s = 403 | _ \<Rightarrow> False)"

definition decode_payload :: "'s web_lib \<Rightarrow> string \<Rightarrow> jwt_payload option" where
  "decode_payload lib token = (case split_on (CHR ''.'') token of _ # p # _ \<Rightarrow> read_payload lib p | _ \<Rightarrow> None)"

definition user_from_jwt :: "jwt_payload \<Rightarrow> current_user option" where
  "user_from_jwt p =
     (if jp_sub p = [] then None
      else Some \<lparr>cu_id = jp_sub p, cu_role = jp_role p, cu_name = [], cu_email = [], cu_balance = 0\<rparr>)"

definition with_profile :: "profile \<Rightarrow> current_user \<Rightarrow> current_user" where
  "with_profile p u = u\<lparr>cu_name := pf_name p, cu_email := pf_email p, cu_balance := pf_balance p\<rparr>"

definition user_of_profile :: "profile \<Rightarrow> current_user" where
  "user_of_profile p = \<lparr>cu_id = pf_id p, cu_role = pf_role p, cu_name = pf_name p, cu_email = pf_email p, cu_balance = pf_balance p\<rparr>"

definition is_admin :: "current_user \<Rightarrow> bool" where "is_admin u \<longleftrightarrow> cu_role u = ''admin'' \<or> cu_role u = ''system''"
definition is_system :: "current_user \<Rightarrow> bool" where "is_system u \<longleftrightarrow> cu_role u = ''system''"

definition parse_token :: "'s web_lib \<Rightarrow> string \<Rightarrow> (jwt_payload \<times> current_user) option" where
  "parse_token lib token =
     Option.bind (decode_payload lib token) (\<lambda>p. map_option (Pair p) (user_from_jwt p))"

definition is_authenticated :: "'s web_state \<Rightarrow> bool" where "is_authenticated w \<longleftrightarrow> wa_user w \<noteq> None"

section \<open>Storage\<close>

definition save_jwt :: "string \<Rightarrow> 's web_state \<Rightarrow> 's web_state" where "save_jwt t w = w\<lparr>br_jwt := Some t\<rparr>"
definition clear_jwt :: "'s web_state \<Rightarrow> 's web_state" where "clear_jwt w = w\<lparr>br_jwt := None\<rparr>"
definition load_jwt :: "'s web_state \<Rightarrow> string option" where "load_jwt w = br_jwt w"

text \<open>A cookie with a maximal age of zero is removed by the browser.\<close>

definition save_token :: "'s web_lib \<Rightarrow> nat \<Rightarrow> nat \<Rightarrow> 's web_state \<Rightarrow> 's web_state" where
  "save_token lib expires_at max_age w =
     w\<lparr>br_expiry := (if max_age = 0 then None else Some (show_nat expires_at, web_now lib w + max_age))\<rparr>"

definition load_token :: "'s web_lib \<Rightarrow> 's web_state \<Rightarrow> nat option" where
  "load_token lib w =
     (case br_expiry w of None \<Rightarrow> None
      | Some (v, until) \<Rightarrow> if web_now lib w < until then parse_unsigned 64 v else None)"

definition clear_token :: "'s web_state \<Rightarrow> 's web_state" where
  "clear_token w = (clear_jwt w)\<lparr>br_expiry := None\<rparr>"

section \<open>Calls\<close>

text \<open>A call of the client on the network of the state.\<close>

definition web_call :: "('s \<Rightarrow> (client_error, 'a) res \<times> 's) \<Rightarrow> 's web_state \<Rightarrow> (client_error, 'a) res \<times> 's web_state" where
  "web_call m w = (case m (wa_net w) of (x, s) \<Rightarrow> (x, w\<lparr>wa_net := s\<rparr>))"

definition get_me_call :: "'s web_lib \<Rightarrow> 's web_state \<Rightarrow> (client_error, profile) res \<times> 's web_state" where
  "get_me_call lib w = web_call (client_get_me (wl_net lib) (wa_client w) (read_profile lib)) w"

definition web_logout :: "'s web_state \<Rightarrow> 's web_state" where
  "web_logout w = clear_token (w\<lparr>wa_client := clear_client_token (wa_client w), wa_user := None, wa_expires_at := None\<rparr>)"

definition logout_async :: "'s web_lib \<Rightarrow> 's web_state \<Rightarrow> 's web_state" where
  "logout_async lib w = web_logout (snd (web_call (client_logout (wl_net lib) (wa_client w) (read_message lib)) w))"

definition logout_all_async :: "'s web_lib \<Rightarrow> 's web_state \<Rightarrow> 's web_state" where
  "logout_all_async lib w = web_logout (snd (web_call (client_logout_all (wl_net lib) (wa_client w) (read_message lib)) w))"

section \<open>Refreshing\<close>

text \<open>Waiting for the refresh of another task, at most sixty times 200 milliseconds.\<close>

primrec wait_refresh :: "'s web_lib \<Rightarrow> nat \<Rightarrow> 's web_state \<Rightarrow> bool \<times> 's web_state" where
  "wait_refresh lib 0 w = (False, w)"
| "wait_refresh lib (Suc n) w =
     (let w1 = others lib (w\<lparr>wa_net := net_sleep (wl_net lib) 200 (wa_net w)\<rparr>) in
      if \<not> wa_refreshing w1
      then ((case wa_expires_at w1 of None \<Rightarrow> False | Some exp \<Rightarrow> web_now lib w1 + JWT_EXPIRY_LEEWAY_SECS < exp), w1)
      else wait_refresh lib n w1)"

definition keep_session :: "'s web_lib \<Rightarrow> string \<Rightarrow> nat \<Rightarrow> nat \<Rightarrow> 's web_state \<Rightarrow> 's web_state" where
  "keep_session lib token expires_in refresh_expires_in w =
     (let expires_at = web_now lib w + expires_in in
      save_token lib expires_at (max refresh_expires_in expires_in)
        (save_jwt token (w\<lparr>wa_client := set_token token (wa_client w), wa_expires_at := Some expires_at\<rparr>)))"

definition try_refresh :: "'s web_lib \<Rightarrow> 's web_state \<Rightarrow> bool \<times> 's web_state" where
  "try_refresh lib w =
     (if wa_refreshing w then wait_refresh lib 60 w
      else
        (case web_call (client_refresh (wl_net lib) (wa_client w) (read_refresh lib)) (w\<lparr>wa_refreshing := True\<rparr>) of
           (Inr resp, w1) \<Rightarrow>
             (True, (keep_session lib (rf_token resp) (rf_expires_in resp) (rf_refresh_expires_in resp) w1)\<lparr>wa_refreshing := False\<rparr>)
         | (Inl _, w1) \<Rightarrow> (False, w1\<lparr>wa_refreshing := False\<rparr>)))"

section \<open>Restoring a session\<close>

text \<open>The answer to the second request for the profile, after a refresh.\<close>

definition retry_profile :: "'s web_lib \<Rightarrow> 's web_state \<Rightarrow> 's web_state" where
  "retry_profile lib w =
     (case get_me_call lib w of
        (Inr p, w1) \<Rightarrow> w1\<lparr>wa_user := Some (user_of_profile p)\<rparr>
      | (Inl e, w1) \<Rightarrow>
          if is_auth_failure e
          then (clear_token w1)\<lparr>wa_client := clear_client_token (wa_client w1), wa_user := None, wa_expires_at := None\<rparr>
          else
            (case Option.bind (cl_token (wa_client w1)) (parse_token lib) of
               None \<Rightarrow> w1
             | Some (_, u) \<Rightarrow> w1\<lparr>wa_user := Some u\<rparr>))"

definition restore_profile :: "'s web_lib \<Rightarrow> nat \<Rightarrow> 's web_state \<Rightarrow> 's web_state" where
  "restore_profile lib expires_at w =
     (case get_me_call lib w of
        (Inr p, w1) \<Rightarrow> w1\<lparr>wa_user := Some (user_of_profile p)\<rparr>
      | (Inl e, w1) \<Rightarrow>
          if is_auth_failure e then
            (case try_refresh lib w1 of
               (True, w2) \<Rightarrow> retry_profile lib w2
             | (False, w2) \<Rightarrow>
                 (clear_token w2)\<lparr>wa_client := clear_client_token (wa_client w2), wa_user := None, wa_expires_at := None\<rparr>)
          else w1\<lparr>wa_expires_at := Some expires_at\<rparr>)"

definition with_stored_token :: "'s web_state \<Rightarrow> 's web_state" where
  "with_stored_token w = (case load_jwt w of None \<Rightarrow> w | Some t \<Rightarrow> w\<lparr>wa_client := set_token t (wa_client w)\<rparr>)"

definition restore_from_storage :: "'s web_lib \<Rightarrow> 's web_state \<Rightarrow> 's web_state" where
  "restore_from_storage lib w0 =
     (let w = with_stored_token w0 in
      case load_token lib w of
        None \<Rightarrow> w\<lparr>wa_initialized := True\<rparr>
      | Some expires_at \<Rightarrow>
          if looks_expired (web_now lib w) expires_at then
            (case try_refresh lib w of
               (True, w1) \<Rightarrow> (restore_profile lib expires_at w1)\<lparr>wa_initialized := True\<rparr>
             | (False, w1) \<Rightarrow> (clear_token w1)\<lparr>wa_initialized := True\<rparr>)
          else (restore_profile lib expires_at (w\<lparr>wa_expires_at := Some expires_at\<rparr>))\<lparr>wa_initialized := True\<rparr>)"

section \<open>Logging in\<close>

definition web_login ::
    "'s web_lib \<Rightarrow> string \<Rightarrow> string \<Rightarrow> bool \<Rightarrow> string option \<Rightarrow> 's web_state \<Rightarrow> (client_error, login_reply) res \<times> 's web_state" where
  "web_login lib email password remember captcha_code w =
     (case web_call (client_login (wl_net lib) (wa_client w) (read_login lib) email password remember captcha_code) w of
        (Inl e, w1) \<Rightarrow> (Inl e, w1)
      | (Inr resp, w1) \<Rightarrow>
          (case get_me_call lib (keep_session lib (lg_token resp) (lg_expires_in resp)
                  (case lg_refresh_expires_in resp of None \<Rightarrow> 0 | Some n \<Rightarrow> n) w1) of
             (Inr p, w2) \<Rightarrow> (Inr resp, w2\<lparr>wa_user := Some (user_of_profile p)\<rparr>)
           | (Inl e, w2) \<Rightarrow>
               if is_auth_failure e
               then (Inl e, clear_token (w2\<lparr>wa_client := clear_client_token (wa_client w2), wa_user := None, wa_expires_at := None\<rparr>))
               else (Inr resp, w2)))"

datatype register_outcome = LoggedIn | NeedsVerification string

definition set_pending_registration :: "pending_registration \<Rightarrow> 's web_state \<Rightarrow> 's web_state" where
  "set_pending_registration p w = w\<lparr>wa_pending := Some p\<rparr>"

definition take_pending_registration :: "'s web_state \<Rightarrow> pending_registration option \<times> 's web_state" where
  "take_pending_registration w = (wa_pending w, w\<lparr>wa_pending := None\<rparr>)"

definition web_register ::
    "'s web_lib \<Rightarrow> string \<Rightarrow> string \<Rightarrow> string \<Rightarrow> bool \<Rightarrow> string \<Rightarrow> 's web_state \<Rightarrow> (client_error, register_outcome) res \<times> 's web_state" where
  "web_register lib email password name remember password_confirm w =
     (case web_call (client_register (wl_net lib) (wa_client w) (read_registered lib) email password name remember password_confirm) w of
        (Inl e, w1) \<Rightarrow> (Inl e, w1)
      | (Inr verified, w1) \<Rightarrow>
          if verified then
            (case web_login lib email password remember None w1 of
               (Inl e, w2) \<Rightarrow> (Inl e, w2) | (Inr _, w2) \<Rightarrow> (Inr LoggedIn, w2))
          else
            (Inr (NeedsVerification email),
             set_pending_registration \<lparr>pr_email = email, pr_password = password, pr_remember = remember\<rparr> w1))"

definition swap_token :: "'s web_lib \<Rightarrow> string \<Rightarrow> 's web_state \<Rightarrow> 's web_state" where
  "swap_token lib new_token w =
     (case parse_token lib new_token of
        None \<Rightarrow> web_logout w
      | Some (payload, _) \<Rightarrow>
          if looks_expired (web_now lib w) (jp_exp payload) then web_logout w
          else
            (let w1 = w\<lparr>wa_client := set_token new_token (wa_client w), wa_expires_at := Some (jp_exp payload)\<rparr> in
             if load_token lib w1 \<noteq> None
             then save_token lib (jp_exp payload) (jp_exp payload - web_now lib w1) (save_jwt new_token w1)
             else clear_token w1))"

definition persist_session :: "'s web_lib \<Rightarrow> string \<Rightarrow> bool \<Rightarrow> 's web_state \<Rightarrow> 's web_state" where
  "persist_session lib token remember w =
     (case parse_token lib token of
        None \<Rightarrow> clear_token w
      | Some (payload, _) \<Rightarrow>
          (case get_me_call lib (w\<lparr>wa_client := set_token token (wa_client w), wa_expires_at := Some (jp_exp payload)\<rparr>) of
             (x, w1) \<Rightarrow>
               if (case x of Inl e \<Rightarrow> is_auth_failure e | Inr _ \<Rightarrow> False)
               then clear_jwt (clear_token (w1\<lparr>wa_client := clear_client_token (wa_client w1), wa_user := None, wa_expires_at := None\<rparr>))
               else
                 (let w2 = w1\<lparr>wa_user :=
                         (case x of Inl _ \<Rightarrow> user_from_jwt payload | Inr p \<Rightarrow> map_option (with_profile p) (user_from_jwt payload))\<rparr> in
                  if remember
                  then save_token lib (jp_exp payload) (jp_exp payload - web_now lib w2) (save_jwt token w2)
                  else clear_token w2)))"

section \<open>The log\<close>

datatype log_kind = SuccessEntry | ErrorEntry | ImportantEntry

record log_entry =
  le_id :: nat
  le_method :: string
  le_path :: string
  le_status :: string
  le_kind :: log_kind
  le_created_at_ms :: nat

text \<open>The entries and the counter of the thread.\<close>

record log_bus =
  lb_entries :: "log_entry list"
  lb_next_id :: nat

definition MAX_ENTRIES :: nat where "MAX_ENTRIES = 200"

definition log_push :: "nat \<Rightarrow> string \<Rightarrow> string \<Rightarrow> string \<Rightarrow> log_kind \<Rightarrow> log_bus \<Rightarrow> log_bus" where
  "log_push now_ms meth path st kind bus =
     (let entry = \<lparr>le_id = lb_next_id bus, le_method = meth, le_path = path, le_status = st, le_kind = kind, le_created_at_ms = now_ms\<rparr>;
          kept = (if MAX_ENTRIES \<le> length (lb_entries bus)
                  then drop (length (lb_entries bus) + 1 - MAX_ENTRIES) (lb_entries bus) else lb_entries bus)
      in \<lparr>lb_entries = kept @ [entry], lb_next_id = lb_next_id bus + 1\<rparr>)"

definition log_remove :: "nat \<Rightarrow> log_bus \<Rightarrow> log_bus" where
  "log_remove i bus = bus\<lparr>lb_entries := filter (\<lambda>e. le_id e \<noteq> i) (lb_entries bus)\<rparr>"

definition log_clear :: "log_bus \<Rightarrow> log_bus" where "log_clear bus = bus\<lparr>lb_entries := []\<rparr>"

definition push_log_err :: "nat \<Rightarrow> string \<Rightarrow> string \<Rightarrow> client_error \<Rightarrow> log_bus \<Rightarrow> log_bus" where
  "push_log_err now_ms meth path e = log_push now_ms meth path (status_or_label e) ErrorEntry"

definition push_log_ok :: "nat \<Rightarrow> string \<Rightarrow> string \<Rightarrow> log_bus \<Rightarrow> log_bus" where
  "push_log_ok now_ms meth path = log_push now_ms meth path ''200 OK'' SuccessEntry"

definition push_log_result :: "nat \<Rightarrow> string \<Rightarrow> string \<Rightarrow> (client_error, 'a) res \<Rightarrow> log_bus \<Rightarrow> log_bus" where
  "push_log_result now_ms meth path r =
     (case r of Inr _ \<Rightarrow> push_log_ok now_ms meth path | Inl e \<Rightarrow> push_log_err now_ms meth path e)"

section \<open>Guards\<close>

datatype web_route = LoginLanding | Dashboard | OtherRoute string

record 's web_ui =
  ui_auth :: "'s web_state"
  ui_route :: web_route
  ui_log :: log_bus

text \<open>What the guard of the expiry does when the expiry changes: nothing, fire, or sleep some milliseconds and fire.\<close>

datatype guard_plan = GuardIdle | FireNow | SleepThenFire nat

definition plan_guard :: "nat \<Rightarrow> nat option \<Rightarrow> guard_plan" where
  "plan_guard t expires_at =
     (case expires_at of None \<Rightarrow> GuardIdle
      | Some exp \<Rightarrow> if looks_expired t exp then FireNow else SleepThenFire (min ((exp - t) * 1000) (2 ^ 32 - 1)))"

definition fire_expiry :: "'s web_lib \<Rightarrow> nat \<Rightarrow> 's web_ui \<Rightarrow> 's web_ui" where
  "fire_expiry lib now_ms ui =
     (let w = ui_auth ui in
      if \<not> (case wa_expires_at w of Some exp \<Rightarrow> looks_expired (web_now lib w) exp | None \<Rightarrow> False) then ui
      else case try_refresh lib w of
        (True, w1) \<Rightarrow> ui\<lparr>ui_auth := w1\<rparr>
      | (False, w1) \<Rightarrow>
          ui\<lparr>ui_auth := logout_async lib w1, ui_route := LoginLanding,
             ui_log := log_push now_ms ''POST'' ''/auth/logout (token expired, refresh failed)'' ''401'' ImportantEntry (ui_log ui)\<rparr>)"

text \<open>A guarded page: whether its content is shown, and where its effect leads.\<close>

definition require_auth :: "'s web_state \<Rightarrow> bool \<times> web_route option" where
  "require_auth w =
     (wa_initialized w \<and> is_authenticated w, if wa_initialized w \<and> \<not> is_authenticated w then Some LoginLanding else None)"

definition require_admin_page :: "'s web_state \<Rightarrow> bool \<times> web_route option" where
  "require_admin_page w =
     ((case wa_user w of None \<Rightarrow> False | Some u \<Rightarrow> is_admin u),
      (case wa_user w of None \<Rightarrow> Some LoginLanding | Some u \<Rightarrow> if \<not> is_admin u then Some Dashboard else None))"

definition is_unauth :: "client_error \<Rightarrow> bool" where
  "is_unauth e = (case e of OtherError s _ \<Rightarrow> s = 401 | _ \<Rightarrow> False)"

definition handle_unauth :: "'s web_lib \<Rightarrow> nat \<Rightarrow> client_error \<Rightarrow> 's web_ui \<Rightarrow> bool \<times> 's web_ui" where
  "handle_unauth lib now_ms e ui =
     (if is_unauth e then
        (True, ui\<lparr>ui_log := log_push now_ms ''POST'' ''/auth/logout (session expired via 401)'' ''401'' ImportantEntry (ui_log ui),
                 ui_auth := logout_async lib (ui_auth ui), ui_route := LoginLanding\<rparr>)
      else if (case e of OtherError s _ \<Rightarrow> s = 403 | _ \<Rightarrow> False) then
        (True, ui\<lparr>ui_log := log_push now_ms ''POST'' ''/auth/forbidden (JWT admin scope mismatch)'' ''403'' ImportantEntry (ui_log ui),
                 ui_route := Dashboard\<rparr>)
      else (False, ui))"

section \<open>Messages\<close>

datatype error_context = AuthPage | UserManagement | EmailVerification | PasswordResetPage

text \<open>The texts, by their English version.\<close>

definition request_failed :: "nat \<Rightarrow> string \<Rightarrow> string" where
  "request_failed st msg = ''Request failed (HTTP '' @ show_nat st @ ''): '' @ msg"

definition humanize_other :: "error_context \<Rightarrow> nat \<Rightarrow> string \<Rightarrow> string \<Rightarrow> string" where
  "humanize_other ctx st code msg =
     (case ctx of
        AuthPage \<Rightarrow>
          if st = 401 then ''Invalid email or password''
          else if code = ''validation_error'' then ''Validation error: '' @ msg
          else if code = ''conflict'' then ''Email already registered''
          else request_failed st msg
      | UserManagement \<Rightarrow>
          if st = 401 then ''Not logged in or session expired''
          else if st = 403 then ''Insufficient permissions (admin required)''
          else if st = 404 then ''User not found''
          else if code = ''validation_error'' then ''Validation error: '' @ msg
          else if code = ''conflict'' then ''Operation conflict (email already exists or constraint violation)''
          else request_failed st msg
      | EmailVerification \<Rightarrow>
          if st = 400 then ''Invalid or expired verification code''
          else if st = 503 then ''Email service not configured''
          else request_failed st msg
      | PasswordResetPage \<Rightarrow>
          if st = 400 then ''Invalid or expired reset code''
          else if st = 503 then ''Password reset is currently unavailable''
          else request_failed st msg)"

text \<open>\<^verbatim>\<open>json_field\<close> reads a field of a JSON object that is a string.\<close>

definition humanize_error :: "(string \<Rightarrow> string \<Rightarrow> string option) \<Rightarrow> client_error \<Rightarrow> error_context \<Rightarrow> string" where
  "humanize_error json_field e ctx =
     (case e of
        NetworkError msg \<Rightarrow> ''Network error: '' @ msg
      | ServerError st body \<Rightarrow> ''Server error (HTTP '' @ show_nat st @ ''): '' @ body
      | OtherError st body \<Rightarrow>
          humanize_other ctx st (case json_field body ''error'' of None \<Rightarrow> [] | Some c \<Rightarrow> c)
            (case json_field body ''message'' of None \<Rightarrow> body | Some m \<Rightarrow> m)
      | RateLimitedError _ \<Rightarrow> ''Too many requests, please try again later''
      | DeserializationError msg \<Rightarrow> ''Response parse failed: '' @ msg
      | ConfigError msg \<Rightarrow> ''Client configuration error: '' @ msg)"

section \<open>Balances\<close>

definition format_balance :: "int \<Rightarrow> string" where
  "format_balance stored =
     (let cents = (if stored < 0 then - ((- stored) div (BALANCE_SCALE div 100)) else stored div (BALANCE_SCALE div 100));
          sign = (if cents < 0 then ''-'' else []);
          abs_cents = nat \<bar>cents\<bar>; fraction = abs_cents mod 100
      in sign @ show_nat (abs_cents div 100) @ ''.'' @ (if fraction < 10 then ''0'' else []) @ show_nat fraction)"

section \<open>Properties\<close>

text \<open>Every operation of the session.\<close>

datatype web_event =
  RestoreEvent | LoginEvent string string bool "string option" | RegisterEvent string string string bool string
| SwapEvent string | PersistEvent string bool | RefreshEvent | LogoutEvent | LogoutAllEvent | ExpiryEvent

definition web_step :: "'s web_lib \<Rightarrow> web_event \<Rightarrow> 's web_ui \<Rightarrow> 's web_ui" where
  "web_step lib ev ui =
     (case ev of
        RestoreEvent \<Rightarrow> ui\<lparr>ui_auth := restore_from_storage lib (ui_auth ui)\<rparr>
      | LoginEvent e p r c \<Rightarrow> ui\<lparr>ui_auth := snd (web_login lib e p r c (ui_auth ui))\<rparr>
      | RegisterEvent e p n r c \<Rightarrow> ui\<lparr>ui_auth := snd (web_register lib e p n r c (ui_auth ui))\<rparr>
      | SwapEvent t \<Rightarrow> ui\<lparr>ui_auth := swap_token lib t (ui_auth ui)\<rparr>
      | PersistEvent t r \<Rightarrow> ui\<lparr>ui_auth := persist_session lib t r (ui_auth ui)\<rparr>
      | RefreshEvent \<Rightarrow> ui\<lparr>ui_auth := snd (try_refresh lib (ui_auth ui))\<rparr>
      | LogoutEvent \<Rightarrow> ui\<lparr>ui_auth := logout_async lib (ui_auth ui)\<rparr>
      | LogoutAllEvent \<Rightarrow> ui\<lparr>ui_auth := logout_all_async lib (ui_auth ui)\<rparr>
      | ExpiryEvent \<Rightarrow> fire_expiry lib 0 ui)"

text \<open>A user is shown only with a known expiry; a log has at most \<^const>\<open>MAX_ENTRIES\<close> entries, with increasing ids.\<close>

definition session_ok :: "'s web_state \<Rightarrow> bool" where
  "session_ok w \<longleftrightarrow> (wa_user w \<noteq> None \<longrightarrow> wa_expires_at w \<noteq> None)"

definition log_ok :: "log_bus \<Rightarrow> bool" where
  "log_ok bus \<longleftrightarrow> length (lb_entries bus) \<le> MAX_ENTRIES \<and> sorted_wrt (<) (map le_id (lb_entries bus) @ [lb_next_id bus])"

lemma log_push_ok: "log_ok bus \<Longrightarrow> log_ok (log_push t m p s k bus)"
  by (auto simp: log_ok_def log_push_def Let_def MAX_ENTRIES_def sorted_wrt_append drop_map[symmetric]
      dest: in_set_dropD intro!: sorted_wrt_drop split: if_splits) (fastforce dest: in_set_dropD)+

definition lib_calm :: "'s web_lib \<Rightarrow> bool" where
  "lib_calm lib \<longleftrightarrow> (\<forall>w. session_ok w \<longrightarrow> session_ok (others lib w))"

lemma session_storage [simp]:
  "session_ok (save_jwt t w) = session_ok w" "session_ok (clear_jwt w) = session_ok w"
  "session_ok (save_token lib e m w) = session_ok w" "session_ok (clear_token w) = session_ok w"
  by (simp_all add: session_ok_def save_jwt_def clear_jwt_def save_token_def clear_token_def)

lemma keep_session_fields:
  "wa_user (keep_session lib t e r w) = wa_user w" "wa_expires_at (keep_session lib t e r w) = Some (web_now lib w + e)"
  by (simp_all add: keep_session_def save_token_def save_jwt_def Let_def)

lemma web_call_fields: "web_call m w = (x, w1) \<Longrightarrow> wa_user w1 = wa_user w \<and> wa_expires_at w1 = wa_expires_at w \<and> wa_client w1 = wa_client w"
  by (auto simp: web_call_def split: prod.splits)

lemma get_me_fields: "get_me_call lib w = (x, w1) \<Longrightarrow> wa_user w1 = wa_user w \<and> wa_expires_at w1 = wa_expires_at w \<and> wa_client w1 = wa_client w"
  unfolding get_me_call_def by (rule web_call_fields)

lemma wait_refresh_ok:
  assumes "lib_calm lib" "session_ok w" "wait_refresh lib n w = (b, w1)"
  shows "session_ok w1 \<and> (b \<longrightarrow> wa_expires_at w1 \<noteq> None)"
  using assms(2,3)
proof (induction n arbitrary: w)
  case (Suc n)
  let ?w1 = "others lib (w\<lparr>wa_net := net_sleep (wl_net lib) 200 (wa_net w)\<rparr>)"
  have "session_ok ?w1" using assms(1) Suc.prems(1) by (simp add: lib_calm_def session_ok_def)
  then show ?case using Suc.IH[of ?w1] Suc.prems(2) by (auto simp: Let_def split: if_splits option.splits)
qed simp

lemma try_refresh_ok:
  assumes "lib_calm lib" "session_ok w" "try_refresh lib w = (b, w1)"
  shows "session_ok w1 \<and> (b \<longrightarrow> wa_expires_at w1 \<noteq> None)"
proof (cases "wa_refreshing w")
  case True
  then show ?thesis using wait_refresh_ok[OF assms(1,2)] assms(3) by (simp add: try_refresh_def)
next
  case False
  obtain x w2 where c: "web_call (client_refresh (wl_net lib) (wa_client w) (read_refresh lib)) (w\<lparr>wa_refreshing := True\<rparr>) = (x, w2)"
    by (metis prod.exhaust)
  show ?thesis
    using False assms(2,3) c web_call_fields[OF c]
    by (auto simp: try_refresh_def session_ok_def keep_session_fields split: sum.splits)
qed

lemma session_okI: "wa_user w = None \<or> wa_expires_at w \<noteq> None \<Longrightarrow> session_ok w"
  by (auto simp: session_ok_def)

lemma logout_ok: "session_ok (web_logout w)" "session_ok (logout_async lib w)" "session_ok (logout_all_async lib w)"
  by (simp_all add: web_logout_def logout_async_def logout_all_async_def session_ok_def clear_token_def clear_jwt_def)

lemma retry_profile_ok: "wa_expires_at w \<noteq> None \<Longrightarrow> session_ok (retry_profile lib w)"
  by (auto simp: retry_profile_def session_ok_def clear_token_def clear_jwt_def dest!: get_me_fields
      split: prod.splits sum.splits option.splits)

lemma restore_profile_ok:
  assumes "lib_calm lib" "session_ok w" "wa_expires_at w \<noteq> None"
  shows "session_ok (restore_profile lib e w)"
proof -
  obtain x w1 where m: "get_me_call lib w = (x, w1)" by (metis prod.exhaust)
  obtain b w2 where r: "try_refresh lib w1 = (b, w2)" by (metis prod.exhaust)
  have "session_ok w1" using get_me_fields[OF m] assms(2) by (simp add: session_ok_def)
  note ref = try_refresh_ok[OF assms(1) this r]
  show ?thesis
    using m r ref get_me_fields[OF m] assms(3) retry_profile_ok[of w2 lib]
    by (auto simp: restore_profile_def session_ok_def clear_token_def clear_jwt_def split: sum.splits bool.splits)
qed

lemma restore_ok:
  assumes "lib_calm lib" "session_ok w0"
  shows "session_ok (restore_from_storage lib w0)"
proof -
  define w where "w = with_stored_token w0"
  have w: "session_ok w" using assms(2) by (simp add: w_def with_stored_token_def session_ok_def split: option.split)
  have init: "session_ok (v\<lparr>wa_initialized := b\<rparr>) = session_ok v" for v :: "'a web_state" and b by (simp add: session_ok_def)
  obtain b w1 where r: "try_refresh lib w = (b, w1)" by (metis prod.exhaust)
  note ref = try_refresh_ok[OF assms(1) w r]
  have "session_ok (w\<lparr>wa_expires_at := Some e\<rparr>)" for e by (simp add: session_ok_def)
  then show ?thesis
    using r ref w restore_profile_ok[OF assms(1)]
    unfolding restore_from_storage_def w_def[symmetric] Let_def
    by (auto simp: init split: option.split bool.splits)
qed

lemma login_ok: "session_ok w \<Longrightarrow> session_ok (snd (web_login lib e p r c w))"
proof -
  assume w: "session_ok w"
  obtain x w1 where c: "web_call (client_login (wl_net lib) (wa_client w) (read_login lib) e p r c) w = (x, w1)" by (metis prod.exhaust)
  show ?thesis
  proof (cases x)
    case (Inl err)
    then show ?thesis using c web_call_fields[OF c] w by (simp add: web_login_def session_ok_def)
  next
    case (Inr resp)
    obtain y w2 where g: "get_me_call lib (keep_session lib (lg_token resp) (lg_expires_in resp)
        (case lg_refresh_expires_in resp of None \<Rightarrow> 0 | Some n \<Rightarrow> n) w1) = (y, w2)" by (metis prod.exhaust)
    have "wa_expires_at w2 \<noteq> None" using get_me_fields[OF g] by (simp add: keep_session_fields)
    then show ?thesis
      using c g Inr by (auto simp: web_login_def session_ok_def clear_token_def clear_jwt_def split: sum.splits)
  qed
qed

lemma register_ok: "session_ok w \<Longrightarrow> session_ok (snd (web_register lib e p n r c w))"
proof -
  assume w: "session_ok w"
  obtain x w1 where c: "web_call (client_register (wl_net lib) (wa_client w) (read_registered lib) e p n r c) w = (x, w1)"
    by (metis prod.exhaust)
  have w1: "session_ok w1" using web_call_fields[OF c] w by (simp add: session_ok_def)
  then show ?thesis
    using c login_ok[OF w1, of lib e p r None]
    by (auto simp: web_register_def set_pending_registration_def session_ok_def split: sum.splits prod.splits)
qed

lemma swap_ok: "session_ok (swap_token lib t w)"
  using logout_ok(1)[of w] by (auto simp: swap_token_def Let_def session_okI split: option.split)

lemma persist_ok: "session_ok w \<Longrightarrow> session_ok (persist_session lib t r w)"
proof -
  assume w: "session_ok w"
  show ?thesis
  proof (cases "parse_token lib t")
    case None
    then show ?thesis using w by (simp add: persist_session_def)
  next
    case (Some pu)
    obtain payload u where pu: "pu = (payload, u)" by (cases pu)
    obtain x w1 where g: "get_me_call lib (w\<lparr>wa_client := set_token t (wa_client w), wa_expires_at := Some (jp_exp payload)\<rparr>) = (x, w1)"
      by (metis prod.exhaust)
    have "wa_expires_at w1 \<noteq> None" using get_me_fields[OF g] by simp
    then show ?thesis
      using Some pu g by (auto simp: persist_session_def Let_def session_okI)
  qed
qed

lemma expiry_ok:
  assumes "lib_calm lib" "session_ok (ui_auth ui)" "log_ok (ui_log ui)"
  shows "session_ok (ui_auth (fire_expiry lib t ui)) \<and> log_ok (ui_log (fire_expiry lib t ui))"
proof -
  obtain b w1 where r: "try_refresh lib (ui_auth ui) = (b, w1)" by (metis prod.exhaust)
  show ?thesis
    using try_refresh_ok[OF assms(1,2) r] r assms(2,3) logout_ok(2) log_push_ok
    by (auto simp: fire_expiry_def Let_def split: bool.splits)
qed

lemma web_step_ok:
  assumes "lib_calm lib" "session_ok (ui_auth ui)" "log_ok (ui_log ui)"
  shows "session_ok (ui_auth (web_step lib ev ui)) \<and> log_ok (ui_log (web_step lib ev ui))"
  using assms restore_ok[OF assms(1,2)] login_ok[OF assms(2)] register_ok[OF assms(2)] swap_ok persist_ok[OF assms(2)]
    try_refresh_ok[OF assms(1,2)] logout_ok(2,3) expiry_ok[OF assms]
  by (cases ev) (auto simp: web_step_def intro: prod.exhaust[of "try_refresh lib (ui_auth ui)"])

text \<open>C36: the session of the browser stays consistent. Through any sequence of restores, logins, registrations, token swaps, refreshes, logouts and expiries, whatever
  the network answers, a user is shown only while an expiry is known, so the guard of the expiry always watches a shown session; a guarded page shows its content only to
  a user, an admin page only to an admin; and the log keeps at most 200 entries with increasing ids.\<close>

theorem web_session_consistent:
  assumes "lib_calm lib" "session_ok (ui_auth ui)" "log_ok (ui_log ui)" "ui' = fold (web_step lib) evs ui"
  shows "(wa_user (ui_auth ui') \<noteq> None \<longrightarrow> plan_guard t (wa_expires_at (ui_auth ui')) \<noteq> GuardIdle)
    \<and> (fst (require_auth (ui_auth ui')) \<longrightarrow> plan_guard t (wa_expires_at (ui_auth ui')) \<noteq> GuardIdle)
    \<and> (fst (require_admin_page (ui_auth ui')) \<longrightarrow> map_option is_admin (wa_user (ui_auth ui')) = Some True)
    \<and> length (lb_entries (ui_log ui')) \<le> 200 \<and> sorted_wrt (<) (map le_id (lb_entries (ui_log ui')))"
proof -
  have "session_ok (ui_auth ui') \<and> log_ok (ui_log ui')"
    using assms(2,3) unfolding assms(4)
  proof (induction evs arbitrary: ui)
    case (Cons ev evs)
    then show ?case using web_step_ok[OF assms(1) Cons.prems, of ev] by simp
  qed simp
  then show ?thesis
    by (auto simp: session_ok_def log_ok_def plan_guard_def require_auth_def is_authenticated_def require_admin_page_def
        MAX_ENTRIES_def sorted_wrt_append split: option.splits)
qed

text \<open>A browser that was closed: the cookie with an old expiry is left; a server that answers only the refresh.\<close>

definition sample_net :: "nat net" where
  "sample_net =
     \<lparr>net_send = (\<lambda>req s. (if ar_url req = ''/api/public/auth/refresh'' then Inr \<lparr>as_status = 200, as_text = None\<rparr> else Inl TimedOut, s)),
      net_sleep = (\<lambda>_ s. s), canonical_reason = (\<lambda>_. None)\<rparr>"

definition sample_web_lib :: "nat web_lib" where
  "sample_web_lib =
     \<lparr>wl_net = sample_net, read_login = (\<lambda>_. Inl TimedOut),
      read_refresh = (\<lambda>_. Inr \<lparr>rf_token = ''new'', rf_expires_in = 3600, rf_refresh_expires_in = 7200\<rparr>),
      read_profile = (\<lambda>_. Inl TimedOut), read_registered = (\<lambda>_. Inl TimedOut), read_message = (\<lambda>_. Inr ()),
      read_payload = (\<lambda>_. None), now_unix_secs = (\<lambda>_. 1000), others = id\<rparr>"

definition sample_state :: "nat web_state" where
  "sample_state =
     \<lparr>wa_client = \<lparr>cl_platform = \<lparr>is_native = False, has_window = True, window_origin = None\<rparr>,
                   cl_config = \<lparr>cc_base_url = [], cc_timeout_secs = 30, cc_max_retries = 0\<rparr>, cl_token = None\<rparr>,
      wa_user = None, wa_expires_at = None, wa_initialized = False, wa_pending = None, wa_refreshing = False,
      br_jwt = None, br_expiry = Some (show_nat 900, 5000), wa_net = 0\<rparr>"

lemma parse_900: "parse_unsigned 64 (show_nat 900) = Some 900"
proof -
  have "show_nat 900 = ''900''" "parse_digits ''900'' = Some 900" by code_simp+
  then show ?thesis by (simp add: parse_unsigned_def)
qed

lemma sample_calls:
  "client_refresh sample_net (wa_client sample_state) json s = (mapErr (from_transport False) (json \<lparr>as_status = 200, as_text = None\<rparr>), s)"
  "client_get_me sample_net (set_token t (wa_client sample_state)) json' s = (Inl (NetworkError ''Request timed out''), s)"
proof -
  have u: "build_url \<lparr>is_native = False, has_window = True, window_origin = None\<rparr>
      \<lparr>cc_base_url = [], cc_timeout_secs = 30, cc_max_retries = 0\<rparr> ''/api/public/auth/refresh'' = ''/api/public/auth/refresh''"
    "build_url \<lparr>is_native = False, has_window = True, window_origin = None\<rparr>
      \<lparr>cc_base_url = [], cc_timeout_secs = 30, cc_max_retries = 0\<rparr> ''/api/users/me'' = ''/api/users/me''"
    by (simp_all add: build_url_def trim_start_slashes_def)
  show "client_refresh sample_net (wa_client sample_state) json s = (mapErr (from_transport False) (json \<lparr>as_status = 200, as_text = None\<rparr>), s)"
    by (simp add: client_refresh_def call_public_def send_and_parse_def request_no_auth_def sample_state_def sample_net_def u
        outcome_def handle_response_def)
  show "client_get_me sample_net (set_token t (wa_client sample_state)) json' s = (Inl (NetworkError ''Request timed out''), s)"
    by (simp add: client_get_me_def call_authorized_def send_and_parse_def request_with_auth_def request_no_auth_def sample_state_def
        sample_net_def set_token_def u outcome_def from_transport_def)
qed

lemma web_session_consistent_witness:
  "length (lb_entries (ui_log (fold (web_step sample_web_lib) [RestoreEvent, LogoutEvent, ExpiryEvent]
     \<lparr>ui_auth = sample_state, ui_route = Dashboard, ui_log = \<lparr>lb_entries = [], lb_next_id = 1\<rparr>\<rparr>))) \<le> 200"
proof -
  have "lib_calm sample_web_lib" by (simp add: lib_calm_def sample_web_lib_def)
  moreover have "session_ok sample_state" by (simp add: session_ok_def sample_state_def)
  moreover have "log_ok \<lparr>lb_entries = [], lb_next_id = 1\<rparr>" by (simp add: log_ok_def)
  ultimately show ?thesis
    using web_session_consistent[where lib = sample_web_lib and ui = "\<lparr>ui_auth = sample_state, ui_route = Dashboard, ui_log = \<lparr>lb_entries = [], lb_next_id = 1\<rparr>\<rparr>"
        and evs = "[RestoreEvent, LogoutEvent, ExpiryEvent]", OF _ _ _ refl] by simp
qed

text \<open>A restored session can keep a stale expiry. When the stored expiry has passed, the refresh succeeds and the request for the profile then fails in the network,
  the expiry of the session is the old one and not that of the new token, and the guard of the expiry fires at once.\<close>

theorem restore_keeps_stale_expiry:
  assumes "load_token lib w = Some exp" "looks_expired (web_now lib w) exp"
    and "try_refresh lib (with_stored_token w) = (True, w1)" "get_me_call lib w1 = (Inl e, w2)" "\<not> is_auth_failure e"
    and "web_now lib w \<le> web_now lib w2"
  shows "wa_expires_at (restore_from_storage lib w) = Some exp
    \<and> plan_guard (web_now lib (restore_from_storage lib w)) (wa_expires_at (restore_from_storage lib w)) = FireNow"
proof -
  have same: "load_token lib (with_stored_token w) = load_token lib w" "web_now lib (with_stored_token w) = web_now lib w"
    by (simp_all add: with_stored_token_def load_token_def web_now_def split: option.split)
  have r: "restore_from_storage lib w = (w2\<lparr>wa_expires_at := Some exp, wa_initialized := True\<rparr>)"
    using assms(1-5) same by (simp add: restore_from_storage_def restore_profile_def Let_def)
  have "looks_expired (web_now lib w2) exp" using assms(2,6) by (simp add: looks_expired_def)
  then show ?thesis by (simp add: r plan_guard_def) (simp add: web_now_def)
qed

lemma restore_keeps_stale_expiry_witness:
  "wa_expires_at (restore_from_storage sample_web_lib sample_state) = Some 900
   \<and> wa_expires_at (snd (try_refresh sample_web_lib sample_state)) = Some 4600"
proof -
  have s: "with_stored_token sample_state = sample_state" "wl_net sample_web_lib = sample_net" "web_now sample_web_lib w = 1000" for w
    by (simp_all add: with_stored_token_def load_jwt_def sample_state_def sample_web_lib_def web_now_def)
  have l: "load_token sample_web_lib sample_state = Some 900"
    unfolding load_token_def s(3) by (simp add: sample_state_def parse_900)
  have st: "\<not> wa_refreshing sample_state" by (simp add: sample_state_def)
  have c: "web_call (client_refresh sample_net (wa_client sample_state) (read_refresh sample_web_lib)) (sample_state\<lparr>wa_refreshing := True\<rparr>)
      = (Inr \<lparr>rf_token = ''new'', rf_expires_in = 3600, rf_refresh_expires_in = 7200\<rparr>, sample_state\<lparr>wa_refreshing := True\<rparr>)"
    by (simp add: web_call_def sample_calls(1)) (simp add: sample_web_lib_def)
  obtain w1 where r: "try_refresh sample_web_lib sample_state = (True, w1)" "wa_expires_at w1 = Some 4600"
    "wa_client w1 = set_token ''new'' (wa_client sample_state)"
    by (simp add: try_refresh_def s(2) st c keep_session_def save_token_def save_jwt_def Let_def s(3))
  obtain w2 where g: "get_me_call sample_web_lib w1 = (Inl (NetworkError ''Request timed out''), w2)"
    by (simp add: get_me_call_def web_call_def s r(3) sample_calls(2))
  have "wa_expires_at (restore_from_storage sample_web_lib sample_state) = Some 900"
    using restore_keeps_stale_expiry[OF l _ _ g] r(1) s
    by (simp add: looks_expired_def is_auth_failure_def JWT_EXPIRY_LEEWAY_SECS_def)
  then show ?thesis using r by simp
qed

text \<open>The browser gives a token up ten seconds before the server does.\<close>

lemma leeway_gap:
  assumes "validate_jwt k env token secret = Some c" "now_secs env = int t" "exp_at c = int e" "e \<le> t + 5"
  shows "looks_expired t e"
  using assms(4) by (simp add: looks_expired_def JWT_EXPIRY_LEEWAY_SECS_def)

text \<open>The text for a mail service that is not configured is never shown: its status is an error of the server.\<close>

lemma unconfigured_text_unreachable:
  "humanize_error f (from_status 503 body) ctx = ''Server error (HTTP 503): '' @ body"
proof -
  have "show_nat 503 = ''503''" by code_simp
  then show ?thesis by (simp add: humanize_error_def from_status_def)
qed

end
