(* ===== verification/Email.thy ===== *)
theory Email
  imports CodeProps
begin

text \<open>
  \<^verbatim>\<open>crates/emailserver\<close>: the mail service. Its configuration and the transport built from it are replaced together under one lock;
  every mail is built from the configuration in force and handed to its transport. The SMTP library is the record \<^verbatim>\<open>smtp_lib\<close>: the builders
  that check a host, the parser of mailboxes, the check of a message and the delivery, which works on a world of its own.
\<close>

section \<open>Configuration\<close>

record email_config =
  em_host :: string
  em_port :: nat
  em_username :: string
  em_password :: string
  em_from_address :: string
  em_from_name :: "string option"
  em_use_tls :: bool
  em_timeout_secs :: nat

definition default_email_config :: email_config where
  "default_email_config =
     \<lparr>em_host = [], em_port = 587, em_username = [], em_password = [], em_from_address = [], em_from_name = None,
      em_use_tls = True, em_timeout_secs = 30\<rparr>"

definition email_complete :: "email_config \<Rightarrow> bool" where
  "email_complete c \<longleftrightarrow> em_host c \<noteq> [] \<and> em_username c \<noteq> [] \<and> em_password c \<noteq> [] \<and> em_from_address c \<noteq> []"

datatype field_value = FString string | FNumber nat | FBool bool | FOption "string option"

definition serialize_email_config :: "email_config \<Rightarrow> (string \<times> field_value) list" where
  "serialize_email_config c =
     [(''smtp_host'', FString (em_host c)), (''smtp_port'', FNumber (em_port c)), (''smtp_username'', FString (em_username c)),
      (''smtp_password'', FString ''[REDACTED]''), (''from_address'', FString (em_from_address c)),
      (''from_name'', FOption (em_from_name c)), (''use_tls'', FBool (em_use_tls c)), (''timeout_secs'', FNumber (em_timeout_secs c))]"

datatype email_error = NotConfigured | InvalidConfig string | InvalidAddress string | BuildError string | SendError string

section \<open>The transport\<close>

datatype smtp_security_mode = StartTls | ImplicitTls | Plain

datatype mechanism = MechPlain | MechLogin

text \<open>What the builder of the library is told; no mechanisms means its default.\<close>

record smtp_transport =
  tr_mode :: smtp_security_mode
  tr_host :: string
  tr_credentials :: "string \<times> string"
  tr_mechanisms :: "mechanism list option"
  tr_port :: nat
  tr_timeout :: "nat option"

datatype transport_state = Disabled | InvalidTransport string | Ready smtp_transport

record 'm mail =
  ml_from :: 'm
  ml_to :: 'm
  ml_subject :: string
  ml_parts :: "(string option \<times> string) list"

record ('m, 's) smtp_lib =
  starttls_relay :: "string \<Rightarrow> string option"
  tls_relay :: "string \<Rightarrow> string option"
  parse_mailbox :: "string \<Rightarrow> 'm option"
  message_error :: "'m mail \<Rightarrow> string option"
  smtp_send :: "smtp_transport \<Rightarrow> 'm mail \<Rightarrow> 's \<Rightarrow> (string, unit) res \<times> 's"

definition smtp_timeout :: "nat \<Rightarrow> nat option" where
  "smtp_timeout secs = (if secs = 0 then None else Some secs)"

definition smtp_security_mode_of :: "email_config \<Rightarrow> smtp_security_mode" where
  "smtp_security_mode_of c = (if em_use_tls c then (if em_port c = 465 then ImplicitTls else StartTls) else Plain)"

definition transport_of :: "email_config \<Rightarrow> smtp_security_mode \<Rightarrow> mechanism list option \<Rightarrow> smtp_transport" where
  "transport_of c mode mechs =
     \<lparr>tr_mode = mode, tr_host = em_host c, tr_credentials = (em_username c, em_password c), tr_mechanisms = mechs,
      tr_port = em_port c, tr_timeout = smtp_timeout (em_timeout_secs c)\<rparr>"

definition build_transport :: "('m, 's) smtp_lib \<Rightarrow> email_config \<Rightarrow> transport_state" where
  "build_transport lib c =
     (if \<not> email_complete c then Disabled
      else
        (case smtp_security_mode_of c of
           StartTls \<Rightarrow>
             (case starttls_relay lib (em_host c) of
                None \<Rightarrow> Ready (transport_of c StartTls (Some [MechPlain, MechLogin]))
              | Some e \<Rightarrow> InvalidTransport (''Cannot build STARTTLS connection for SMTP host '' @ quoted (em_host c) @ '': '' @ e))
         | ImplicitTls \<Rightarrow>
             (case tls_relay lib (em_host c) of
                None \<Rightarrow> Ready (transport_of c ImplicitTls (Some [MechPlain, MechLogin]))
              | Some e \<Rightarrow> InvalidTransport (''Cannot build SMTPS connection for SMTP host '' @ quoted (em_host c) @ '': '' @ e))
         | Plain \<Rightarrow> Ready (transport_of c Plain None)))"

record email_runtime =
  er_config :: email_config
  er_transport :: transport_state

definition new_email_service :: "('m, 's) smtp_lib \<Rightarrow> email_config \<Rightarrow> email_runtime" where
  "new_email_service lib c = \<lparr>er_config = c, er_transport = build_transport lib c\<rparr>"

definition update_email_config :: "('m, 's) smtp_lib \<Rightarrow> email_config \<Rightarrow> email_runtime \<Rightarrow> email_runtime" where
  "update_email_config lib c rt = \<lparr>er_config = c, er_transport = build_transport lib c\<rparr>"

definition is_ready :: "transport_state \<Rightarrow> bool" where
  "is_ready t = (case t of Ready _ \<Rightarrow> True | _ \<Rightarrow> False)"

definition email_is_configured :: "email_runtime \<Rightarrow> bool" where
  "email_is_configured rt = is_ready (er_transport rt)"

section \<open>Sending\<close>

definition build_from_mailbox :: "('m, 's) smtp_lib \<Rightarrow> email_config \<Rightarrow> (email_error, 'm) res" where
  "build_from_mailbox lib c =
     ok_or (BuildError (''Invalid from address: '' @ em_from_address c))
       (parse_mailbox lib (case em_from_name c of
          Some name \<Rightarrow> name @ '' <'' @ em_from_address c @ ''>'' | None \<Rightarrow> em_from_address c))"

definition ready_transport :: "transport_state \<Rightarrow> (email_error, smtp_transport) res" where
  "ready_transport t = (case t of Ready tr \<Rightarrow> Inr tr | Disabled \<Rightarrow> Inl NotConfigured | InvalidTransport m \<Rightarrow> Inl (InvalidConfig m))"

definition deliver :: "('m, 's) smtp_lib \<Rightarrow> smtp_transport \<Rightarrow> 'm mail \<Rightarrow> ('s, email_error, unit) prog" where
  "deliver lib tr m =
     bindS (liftE (case message_error lib m of None \<Rightarrow> Inr () | Some e \<Rightarrow> Inl (BuildError e))) (\<lambda>_ s.
     case smtp_send lib tr m s of (x, s1) \<Rightarrow> (mapErr SendError x, s1))"

definition send_text_email ::
    "('m, 's) smtp_lib \<Rightarrow> email_runtime \<Rightarrow> string \<Rightarrow> string \<Rightarrow> string \<Rightarrow> ('s, email_error, unit) prog" where
  "send_text_email lib rt to_addr subject body =
     bindS (liftE (ready_transport (er_transport rt))) (\<lambda>tr.
     bindS (liftE (build_from_mailbox lib (er_config rt))) (\<lambda>from_mailbox.
     bindS (liftE (ok_or (InvalidAddress to_addr) (parse_mailbox lib to_addr))) (\<lambda>to_mailbox.
     deliver lib tr \<lparr>ml_from = from_mailbox, ml_to = to_mailbox, ml_subject = subject, ml_parts = [(None, body)]\<rparr>)))"

definition send_html_email ::
    "('m, 's) smtp_lib \<Rightarrow> email_runtime \<Rightarrow> string \<Rightarrow> string \<Rightarrow> string \<Rightarrow> string \<Rightarrow> ('s, email_error, unit) prog" where
  "send_html_email lib rt to_addr subject text_body html_body =
     bindS (liftE (ready_transport (er_transport rt))) (\<lambda>tr.
     bindS (liftE (build_from_mailbox lib (er_config rt))) (\<lambda>from_mailbox.
     bindS (liftE (ok_or (InvalidAddress to_addr) (parse_mailbox lib to_addr))) (\<lambda>to_mailbox.
     deliver lib tr
       \<lparr>ml_from = from_mailbox, ml_to = to_mailbox, ml_subject = subject,
        ml_parts = [(Some ''text/plain; charset=utf-8'', text_body), (Some ''text/html; charset=utf-8'', html_body)]\<rparr>)))"

section \<open>Bodies\<close>

text \<open>\<^verbatim>\<open>str::replace\<close> with a single character as its pattern.\<close>

definition replace_char :: "char \<Rightarrow> string \<Rightarrow> string \<Rightarrow> string" where
  "replace_char c r s = concat (map (\<lambda>x. if x = c then r else [x]) s)"

definition escape_html :: "string \<Rightarrow> string" where
  "escape_html s =
     replace_char (CHR 0x27) ''&#39;'' (replace_char (CHR 0x22) ''&quot;'' (replace_char (CHR ''>'') ''&gt;''
       (replace_char (CHR ''<'') ''&lt;'' (replace_char (CHR ''&'') ''&amp;'' s))))"

definition build_welcome_greeting :: "string option \<Rightarrow> string \<times> string" where
  "build_welcome_greeting name =
     (case (case map_option trim name of None \<Rightarrow> None | Some n \<Rightarrow> if n = [] then None else Some n) of
        Some n \<Rightarrow> (''Hello, '' @ n @ ''!'', ''Hello, '' @ escape_html n @ ''!'')
      | None \<Rightarrow> (''Hello!'', ''Hello!''))"

definition text_lines :: "string list \<Rightarrow> string" where
  "text_lines ls = concat (map (\<lambda>l. l @ [CHR 0x0A]) ls)"

definition html_page :: "string list \<Rightarrow> string" where
  \<open>html_page ls =
     text_lines
       (''<html>'' # ''<body style="font-family: Arial, sans-serif; line-height: 1.6; color: #333;">''
        # ''<div style="max-width: 600px; margin: 0 auto; padding: 20px;">'' # ls
        @ [''<hr style="border: none; border-top: 1px solid #e2e8f0; margin: 20px 0;">'',
           ''<p style="color: #718096; font-size: 12px;">Webshelf Team</p>'', ''</div>'', ''</body>''])
     @ ''</html>''\<close>

definition code_box :: "string \<Rightarrow> string list" where
  \<open>code_box code =
     [''<div style="margin: 24px 0; padding: 16px; background: #f7fafc; border: 1px solid #e2e8f0; border-radius: 8px; text-align: center;">'',
      ''<span style="font-size: 28px; letter-spacing: 8px; font-weight: bold; color: #2d3748;">'' @ code @ ''</span>'', ''</div>'']\<close>

definition registration_text :: "string \<Rightarrow> int \<Rightarrow> string" where
  "registration_text code minutes =
     text_lines
       [''Hello!'', [], ''You are registering for Webshelf.'', [], ''Your email verification code is: '' @ code, [],
        ''The code will expire in '' @ show_int minutes @ '' minutes. If you did not request this, please ignore this email.'', [],
        ''Best regards,'', ''Webshelf Team'']"

definition registration_html :: "string \<Rightarrow> int \<Rightarrow> string" where
  \<open>registration_html code minutes =
     html_page
       ([''<h2 style="color: #2c5282;">Your Registration Code</h2>'', ''<p>Hello!</p>'', ''<p>You are registering for Webshelf.</p>'',
         ''<p>Please enter the following code to complete your registration:</p>''] @ code_box code @
        [''<p style="color: #718096; font-size: 14px;">The code will expire in '' @ show_int minutes
           @ '' minutes. If you did not request this, please ignore this email.</p>''])\<close>

definition send_registration_code_email ::
    "('m, 's) smtp_lib \<Rightarrow> email_runtime \<Rightarrow> string \<Rightarrow> string \<Rightarrow> int \<Rightarrow> ('s, email_error, unit) prog" where
  "send_registration_code_email lib rt to_addr code minutes =
     send_html_email lib rt to_addr ''Your Registration Code'' (registration_text code minutes) (registration_html code minutes)"

definition reset_text :: "string \<Rightarrow> int \<Rightarrow> string" where
  "reset_text code minutes =
     text_lines
       [''Hello!'', [], ''We received a request to reset your password.'', [], ''Your password reset code is: '' @ code, [],
        ''This code will expire in '' @ show_int minutes @ '' minutes. If you did not request a password reset, please ignore this email.'', [],
        ''Best regards,'', ''Webshelf Team'']"

definition reset_html :: "string \<Rightarrow> int \<Rightarrow> string" where
  \<open>reset_html code minutes =
     html_page
       ([''<h2 style="color: #2c5282;">Password Reset Code</h2>'', ''<p>Hello!</p>'', ''<p>We received a request to reset your password.</p>'',
         ''<p>Enter the following code to reset your password:</p>''] @ code_box code @
        [''<p style="color: #718096; font-size: 14px;">This code will expire in '' @ show_int minutes
           @ '' minutes. If you did not request a password reset, please ignore this email.</p>''])\<close>

definition send_password_reset_code_email ::
    "('m, 's) smtp_lib \<Rightarrow> email_runtime \<Rightarrow> string \<Rightarrow> string \<Rightarrow> int \<Rightarrow> ('s, email_error, unit) prog" where
  "send_password_reset_code_email lib rt to_addr code minutes =
     send_html_email lib rt to_addr ''Your Password Reset Code'' (reset_text code minutes) (reset_html code minutes)"

definition welcome_html :: "string \<Rightarrow> string" where
  \<open>welcome_html greeting =
     html_page
       [''<h2 style="color: #2c5282;">Welcome to Webshelf</h2>'', ''<p>'' @ greeting @ ''</p>'',
        ''<p>Congratulations on verifying your email address.</p>'', ''<p>You can now start using all features of Webshelf.</p>'',
        ''<p>If you have any questions, please contact our support team.</p>'']\<close>

definition send_welcome_email ::
    "('m, 's) smtp_lib \<Rightarrow> email_runtime \<Rightarrow> string \<Rightarrow> string option \<Rightarrow> ('s, email_error, unit) prog" where
  "send_welcome_email lib rt to_addr name =
     (case build_welcome_greeting name of
        (text_greeting, html_greeting) \<Rightarrow>
          send_html_email lib rt to_addr ''Welcome to Webshelf''
            (text_lines [text_greeting, [], ''Congratulations on verifying your email address.'', [],
               ''You can now start using all features of Webshelf.'', [],
               ''If you have any questions, please contact our support team.'', [], ''Best regards,'', ''Webshelf Team''])
            (welcome_html html_greeting))"

section \<open>Greetings\<close>

text \<open>Escaping in one pass, and its inverse.\<close>

definition html_entity :: "char \<Rightarrow> string" where
  "html_entity c =
     (if c = CHR ''&'' then ''&amp;'' else if c = CHR ''<'' then ''&lt;'' else if c = CHR ''>'' then ''&gt;''
      else if c = CHR 0x22 then ''&quot;'' else if c = CHR 0x27 then ''&#39;'' else [c])"

fun read_html :: "string \<Rightarrow> string" where
  "read_html [] = []"
| "read_html (c # s) =
     (if starts_with (c # s) ''&amp;'' then CHR ''&'' # read_html (drop 4 s)
      else if starts_with (c # s) ''&lt;'' then CHR ''<'' # read_html (drop 3 s)
      else if starts_with (c # s) ''&gt;'' then CHR ''>'' # read_html (drop 3 s)
      else if starts_with (c # s) ''&quot;'' then CHR 0x22 # read_html (drop 5 s)
      else if starts_with (c # s) ''&#39;'' then CHR 0x27 # read_html (drop 4 s)
      else c # read_html s)"

lemma replace_char_simps [simp]:
  "replace_char c r [] = []" "replace_char c r (x # s) = (if x = c then r else [x]) @ replace_char c r s"
  by (simp_all add: replace_char_def)

lemma replace_char_append [simp]: "replace_char c r (s @ t) = replace_char c r s @ replace_char c r t"
  by (simp add: replace_char_def)

lemma escape_html_entities: "escape_html s = concat (map html_entity s)"
proof (induction s)
  case (Cons c s)
  have "escape_html (c # s) = escape_html [c] @ escape_html s" by (simp add: escape_html_def)
  moreover have "escape_html [c] = html_entity c" by (simp add: escape_html_def html_entity_def)
  ultimately show ?case using Cons by simp
qed (simp add: escape_html_def)

lemma read_html_entity: "read_html (html_entity c @ s) = c # read_html s"
  by (simp add: html_entity_def)

lemma read_escaped: "read_html (escape_html s @ t) = s @ read_html t"
  by (induction s) (simp_all add: escape_html_entities read_html_entity)

lemma escaped_chars: "set (escape_html s) \<inter> {CHR ''<'', CHR ''>'', CHR 0x22, CHR 0x27} = {}"
  by (auto simp: escape_html_entities html_entity_def split: if_splits)

text \<open>The greeting of the welcome mail. Whatever name an account carries, the greeting placed into the HTML body holds no character that
  could open a tag or leave an attribute, and a reader of HTML sees exactly the greeting of the text body.\<close>

theorem welcome_greeting_escaped:
  "case build_welcome_greeting name of
     (text_greeting, html_greeting) \<Rightarrow>
       set html_greeting \<inter> {CHR ''<'', CHR ''>'', CHR 0x22, CHR 0x27} = {} \<and> read_html html_greeting = text_greeting"
proof -
  have plain: "read_html (''Hello, '' @ s) = ''Hello, '' @ read_html s" for s by simp
  have "read_html ''!'' = ''!''" by simp
  then have "read_html (''Hello, '' @ escape_html n @ ''!'') = ''Hello, '' @ n @ ''!''" for n
    unfolding plain read_escaped by simp
  then show ?thesis
    using escaped_chars by (auto simp: build_welcome_greeting_def split: option.split)
qed

section \<open>One configuration per mail\<close>

text \<open>The library in a world that records what is handed to it.\<close>

definition logged_smtp :: "('m, 's) smtp_lib \<Rightarrow> ('m, 's \<times> (smtp_transport \<times> 'm mail) list) smtp_lib" where
  "logged_smtp lib =
     \<lparr>starttls_relay = starttls_relay lib, tls_relay = tls_relay lib, parse_mailbox = parse_mailbox lib, message_error = message_error lib,
      smtp_send = (\<lambda>tr m (s, sent). case smtp_send lib tr m s of (x, s1) \<Rightarrow> (x, (s1, sent @ [(tr, m)])))\<rparr>"

datatype email_op =
  UpdateConfig email_config
| SendText string string string
| SendRegistration string string int
| SendReset string string int
| SendWelcome string "string option"

definition email_step ::
    "('m, 's) smtp_lib \<Rightarrow> email_op \<Rightarrow> email_runtime \<times> 's \<Rightarrow> email_runtime \<times> 's" where
  "email_step lib oper st =
     (case st of (rt, s) \<Rightarrow>
        (case oper of
           UpdateConfig c \<Rightarrow> (update_email_config lib c rt, s)
         | SendText a subject body \<Rightarrow> (rt, snd (send_text_email lib rt a subject body s))
         | SendRegistration a code minutes \<Rightarrow> (rt, snd (send_registration_code_email lib rt a code minutes s))
         | SendReset a code minutes \<Rightarrow> (rt, snd (send_password_reset_code_email lib rt a code minutes s))
         | SendWelcome a name \<Rightarrow> (rt, snd (send_welcome_email lib rt a name s))))"

definition configs_of :: "email_config \<Rightarrow> email_op list \<Rightarrow> email_config list" where
  "configs_of c ops = c # concat (map (\<lambda>oper. case oper of UpdateConfig c' \<Rightarrow> [c'] | _ \<Rightarrow> []) ops)"

definition sent_under :: "('m, 's) smtp_lib \<Rightarrow> email_config \<Rightarrow> smtp_transport \<times> 'm mail \<Rightarrow> bool" where
  "sent_under lib c e =
     (case e of (tr, m) \<Rightarrow>
        email_complete c \<and> tr_host tr = em_host c \<and> tr_port tr = em_port c \<and> tr_credentials tr = (em_username c, em_password c)
        \<and> (em_use_tls c \<longleftrightarrow> tr_mode tr \<noteq> Plain) \<and> build_from_mailbox lib c = Inr (ml_from m))"

definition in_force :: "('m, 's) smtp_lib \<Rightarrow> email_runtime \<Rightarrow> bool" where
  "in_force lib rt \<longleftrightarrow> er_transport rt = build_transport lib (er_config rt)"

lemma build_transport_ready:
  "build_transport lib c = Ready tr \<Longrightarrow>
     email_complete c \<and> tr_host tr = em_host c \<and> tr_port tr = em_port c \<and> tr_credentials tr = (em_username c, em_password c)
     \<and> (em_use_tls c \<longleftrightarrow> tr_mode tr \<noteq> Plain)"
  by (auto simp: build_transport_def transport_of_def smtp_security_mode_of_def split: if_splits option.splits)

lemma logged_smtp_sel [simp]:
  "starttls_relay (logged_smtp lib) = starttls_relay lib" "tls_relay (logged_smtp lib) = tls_relay lib"
  "parse_mailbox (logged_smtp lib) = parse_mailbox lib" "message_error (logged_smtp lib) = message_error lib"
  "smtp_send (logged_smtp lib) tr m (s, sent) = (case smtp_send lib tr m s of (x, s1) \<Rightarrow> (x, (s1, sent @ [(tr, m)])))"
  by (simp_all add: logged_smtp_def)

lemma logged_smtp_simps [simp]:
  "build_from_mailbox (logged_smtp lib) c = build_from_mailbox lib c"
  "build_transport (logged_smtp lib) c = build_transport lib c"
  by (simp add: build_from_mailbox_def) (cases "smtp_security_mode_of c"; simp add: build_transport_def)

text \<open>An operation that hands over only mails with a property.\<close>

definition sends_only :: "('e \<Rightarrow> bool) \<Rightarrow> ('s \<times> 'e list, 'x, 'a) prog \<Rightarrow> bool" where
  "sends_only P q \<longleftrightarrow> (\<forall>s sent. \<exists>new. snd (snd (q (s, sent))) = sent @ new \<and> (\<forall>e \<in> set new. P e))"

lemma sends_only_lift: "(\<And>a. r = Inr a \<Longrightarrow> sends_only P (f a)) \<Longrightarrow> sends_only P (bindS (liftE r) f)"
  by (cases r) (simp_all add: sends_only_def)

lemma sends_only_deliver: "P (tr, m) \<Longrightarrow> sends_only P (deliver (logged_smtp lib) tr m)"
  by (cases "message_error lib m") (auto simp: sends_only_def deliver_def bindS_def split: prod.split)

lemma ready_transport_Inr [simp]: "ready_transport t = Inr tr \<longleftrightarrow> t = Ready tr"
  by (cases t) (simp_all add: ready_transport_def)

lemma sent_underI:
  "in_force lib rt \<Longrightarrow> er_transport rt = Ready tr \<Longrightarrow> build_from_mailbox lib (er_config rt) = Inr (ml_from m)
     \<Longrightarrow> sent_under lib (er_config rt) (tr, m)"
  using build_transport_ready[of lib "er_config rt" tr] by (simp add: in_force_def sent_under_def)

lemma sends_under:
  assumes "in_force lib rt"
  shows "sends_only (sent_under lib (er_config rt)) (send_text_email (logged_smtp lib) rt a subject body)"
    and "sends_only (sent_under lib (er_config rt)) (send_html_email (logged_smtp lib) rt a subject body html)"
  unfolding send_text_email_def send_html_email_def using assms
  by (intro sends_only_lift sends_only_deliver sent_underI; simp)+

lemma email_step_log:
  fixes lib :: "('m, 's) smtp_lib"
  assumes "in_force lib rt" "email_step (logged_smtp lib) oper (rt, (s, sent)) = (rt', (s', sent'))"
  shows "in_force lib rt' \<and> er_config rt' \<in> set (configs_of (er_config rt) [oper])
    \<and> (\<exists>new. sent' = sent @ new \<and> (\<forall>e \<in> set new. sent_under lib (er_config rt) e))"
proof -
  have q: ?thesis
    if "sends_only (sent_under lib (er_config rt)) q" "rt' = rt" "snd (q (s, sent)) = (s', sent')"
    for q :: "('s \<times> (smtp_transport \<times> 'm mail) list, email_error, unit) prog"
  proof -
    note sends = that(1)
    obtain new where "snd (snd (q (s, sent))) = sent @ new" "\<forall>e \<in> set new. sent_under lib (er_config rt) e"
      using sends unfolding sends_only_def by blast
    then show ?thesis using that(2,3) assms(1) by (simp add: configs_of_def)
  qed
  note u = sends_under[OF assms(1)]
  show ?thesis
  proof (cases oper)
    case (UpdateConfig c)
    then show ?thesis using assms by (auto simp: email_step_def update_email_config_def in_force_def configs_of_def)
  next
    case (SendText a subject body)
    then show ?thesis
      by (intro q[of "send_text_email (logged_smtp lib) rt a subject body"]) (use assms(2) u in \<open>auto simp: email_step_def\<close>)
  next
    case (SendRegistration a code minutes)
    then show ?thesis
      by (intro q[of "send_registration_code_email (logged_smtp lib) rt a code minutes"])
        (use assms(2) u in \<open>auto simp: email_step_def send_registration_code_email_def\<close>)
  next
    case (SendReset a code minutes)
    then show ?thesis
      by (intro q[of "send_password_reset_code_email (logged_smtp lib) rt a code minutes"])
        (use assms(2) u in \<open>auto simp: email_step_def send_password_reset_code_email_def\<close>)
  next
    case (SendWelcome a name)
    obtain g h where "build_welcome_greeting name = (g, h)" by fastforce
    then show ?thesis using SendWelcome
      by (intro q[of "send_welcome_email (logged_smtp lib) rt a name"])
        (use assms(2) u in \<open>auto simp: email_step_def send_welcome_email_def\<close>)
  qed
qed

lemma email_steps_log:
  "in_force lib rt \<Longrightarrow> foldl (\<lambda>st oper. email_step (logged_smtp lib) oper st) (rt, (s, sent)) ops = (rt', (s', sent')) \<Longrightarrow>
     e \<in> set sent' \<Longrightarrow> e \<in> set sent \<or> (\<exists>c \<in> set (configs_of (er_config rt) ops). sent_under lib c e)"
proof (induction ops arbitrary: rt s sent)
  case (Cons oper ops)
  obtain rt1 s1 sent1 where st: "email_step (logged_smtp lib) oper (rt, (s, sent)) = (rt1, (s1, sent1))" by (metis prod.exhaust)
  note l = email_step_log[OF Cons.prems(1) st]
  have sub: "set (configs_of (er_config rt1) ops) \<subseteq> set (configs_of (er_config rt) (oper # ops))"
    "er_config rt \<in> set (configs_of (er_config rt) (oper # ops))"
    using l by (auto simp: configs_of_def)
  have "e \<in> set sent1 \<or> (\<exists>c \<in> set (configs_of (er_config rt1) ops). sent_under lib c e)"
    by (rule Cons.IH[of rt1 s1 sent1]) (use l Cons.prems st in simp_all)
  moreover obtain new where n: "sent1 = sent @ new" "\<forall>e \<in> set new. sent_under lib (er_config rt) e" using l by blast
  ultimately have "e \<in> set sent \<or> e \<in> set new \<or> (\<exists>c \<in> set (configs_of (er_config rt1) ops). sent_under lib c e)" by simp
  then show ?case using sub n(2) by blast
qed simp

text \<open>One configuration per mail. Whatever the order of configuration changes and mails, each mail is handed to the transport of one
  complete configuration that was in force, with its host, port, credentials and sender together; with TLS configured it is never handed
  to a plain transport.\<close>

theorem mail_has_one_configuration:
  "list_all (\<lambda>e. list_ex (\<lambda>c. sent_under lib c e) (configs_of c0 ops))
     (snd (snd (foldl (\<lambda>st oper. email_step (logged_smtp lib) oper st) (new_email_service lib c0, (s0, [])) ops)))"
proof -
  obtain rt' s' sent' where
    r: "foldl (\<lambda>st oper. email_step (logged_smtp lib) oper st) (new_email_service lib c0, (s0, [])) ops = (rt', (s', sent'))"
    by (metis prod.exhaust)
  have "\<exists>c \<in> set (configs_of c0 ops). sent_under lib c e" if "e \<in> set sent'" for e
    using email_steps_log[OF _ r \<open>e \<in> set sent'\<close>] by (simp add: new_email_service_def in_force_def)
  then show ?thesis by (simp add: r list_all_iff list_ex_iff)
qed

section \<open>Codes by mail\<close>

text \<open>The mail service as the verification service sees it at a moment.\<close>

definition mailer :: "('m, 's) smtp_lib \<Rightarrow> email_runtime \<Rightarrow> 's \<Rightarrow> code_service \<Rightarrow> code_service" where
  "mailer lib rt world svc =
     svc\<lparr>is_configured := email_is_configured rt,
         send_code_email := (\<lambda>a code minutes. \<not> isl (fst (send_registration_code_email lib rt a code minutes world)))\<rparr>"

definition sender_of :: "email_config \<Rightarrow> string" where
  "sender_of c = (case em_from_name c of Some n \<Rightarrow> n @ '' <'' @ em_from_address c @ ''>'' | None \<Rightarrow> em_from_address c)"

lemma unparsable_sender_fails:
  assumes "parse_mailbox lib (sender_of (er_config rt)) = None"
  shows "isl (fst (send_registration_code_email lib rt a code minutes world))"
  using assms
  by (cases "er_transport rt")
    (simp_all add: send_registration_code_email_def send_html_email_def ready_transport_def build_from_mailbox_def bindS_def sender_of_def)

text \<open>A mail service that counts as configured although its sender address cannot be parsed. A resend then fails, but only after it has
  replaced the stored code and started the cooldown: the code mailed earlier is dead and the next minute of requests is refused.\<close>

theorem failed_mail_replaces_code:
  assumes "db_ok s" "user_by_email (to_lower m) s = Some u" "\<not> u_email_verified u" "quiet env"
    and "cooled_down (now env - 60000) (u_verification_code_sent_at u)" "acquire_permit svc"
    and "hash_code svc (generate_code svc) = Some h"
    and "email_is_configured rt" "parse_mailbox lib (sender_of (er_config rt)) = None"
  shows "case resend_code (mailer lib rt world svc) env m s of
    (x, t) \<Rightarrow> x = Inl (VInternal ''Failed to send verification email'')
      \<and> user_by_email (to_lower m) t = Some (code_columns env h u)"
proof -
  let ?svc = "mailer lib rt world svc"
  let ?p = "\<lambda>w. u_id w = u_id u \<and> cooled_down (now env - RESEND_COOLDOWN_SECONDS * 1000) (u_verification_code_sent_at w)"
  have q: "between env s = s" "\<And>c. \<not> db_err env c" using assms(4) by (simp_all add: quiet_def)
  have f: "is_configured ?svc" "hash_code ?svc (generate_code ?svc) = Some h"
    "\<And>a c n. \<not> send_code_email ?svc a c n" "acquire_permit ?svc"
    using assms(6-8) unparsable_sender_fails[OF assms(9)] by (simp_all add: mailer_def generate_code_def)
  have c: "cooled_down (now env - RESEND_COOLDOWN_SECONDS * 1000) (u_verification_code_sent_at u)"
    using assms(5) by (simp add: code_consts)
  have "resend_code ?svc env m s = (Inl (VInternal ''Failed to send verification email''), snd (update_many ?p (code_columns env h) s))"
    using resend_run[of env s m u ?svc h u] assms(1-3) q f c by (simp add: mail_code_def)
  then show ?thesis
    using user_after_many(2)[OF assms(1,2) harmless_columns(1)[of env h], where p = ?p] c by simp
qed

text \<open>A resend for the pending account with a sender that is not an address.\<close>

lemma failed_mail_replaces_code_witness:
  "let lib = \<lparr>starttls_relay = (\<lambda>_. None), tls_relay = (\<lambda>_. None),
         parse_mailbox = (\<lambda>a. if str_contains a ''@'' then Some a else None), message_error = (\<lambda>_. None), smtp_send = (\<lambda>_ _ s. (Inr (), s))\<rparr>;
       rt = new_email_service lib (default_email_config\<lparr>em_host := ''h'', em_username := ''n'', em_password := ''p'', em_from_address := ''noreply''\<rparr>)
   in map_option u_verification_code_sent_at (user_by_email ''u''
       (snd (resend_code (mailer lib rt () sample_code) (sample_env\<lparr>now := 1060000\<rparr>) ''U'' pending_app))) = Some (Some 1060000)"
proof -
  define lib :: "(string, unit) smtp_lib" where
    "lib = \<lparr>starttls_relay = (\<lambda>_. None), tls_relay = (\<lambda>_. None),
       parse_mailbox = (\<lambda>a. if str_contains a ''@'' then Some a else None), message_error = (\<lambda>_. None), smtp_send = (\<lambda>_ _ s. (Inr (), s))\<rparr>"
  define rt where
    "rt = new_email_service lib (default_email_config\<lparr>em_host := ''h'', em_username := ''n'', em_password := ''p'', em_from_address := ''noreply''\<rparr>)"
  let ?e = "sample_env\<lparr>now := 1060000\<rparr>"
  have u: "user_by_email (to_lower ''U'') pending_app = Some (pending_user 0)" by (simp only: lower_u pending_app_user)
  have "case resend_code (mailer lib rt () sample_code) ?e ''U'' pending_app of
      (x, t) \<Rightarrow> x = Inl (VInternal ''Failed to send verification email'')
        \<and> user_by_email (to_lower ''U'') t = Some (code_columns ?e (the (hash_code sample_code (generate_code sample_code))) (pending_user 0))"
    by (rule failed_mail_replaces_code[OF pending_app_ok u])
      (simp_all add: pending_user_def quiet_def sample_env_def cooled_down_def sample_code_def
        rt_def new_email_service_def email_is_configured_def build_transport_def email_complete_def default_email_config_def
        smtp_security_mode_of_def is_ready_def lib_def sender_of_def)
  then show ?thesis
    unfolding Let_def lib_def[symmetric] rt_def[symmetric] by (auto simp: lower_u code_columns_def split: prod.splits)
qed

end
