(* ===== verification/Float64.thy ===== *)
theory Float64
  imports Prelude Complex_Main
begin

text \<open>
  The part of Rust's \<^verbatim>\<open>f64\<close> that the balance form uses: reading a decimal text to the nearest number, comparisons, one
  multiplication and \<^verbatim>\<open>round() as i64\<close>. A finite number is an integer times a power of two; results are rounded to 53 bits,
  ties to even, as IEEE 754 prescribes.
\<close>

datatype f64 = NaN | Infinite bool | Finite int int

section \<open>Rounding\<close>

fun bits :: "nat \<Rightarrow> nat" where
  "bits n = (if n = 0 then 0 else Suc (bits (n div 2)))"

declare bits.simps [simp del]

text \<open>A quotient divided by a power of two, as numerator and denominator.\<close>

definition scaled :: "nat \<Rightarrow> nat \<Rightarrow> int \<Rightarrow> nat \<times> nat" where
  "scaled num den e = (if 0 \<le> e then (num, den * 2 ^ nat e) else (num * 2 ^ nat (- e), den))"

definition half_even :: "nat \<Rightarrow> nat \<Rightarrow> nat" where
  "half_even a b =
     (let q = a div b; r = a mod b in if 2 * r < b \<or> (2 * r = b \<and> even q) then q else q + 1)"

definition f64_exponent :: "nat \<Rightarrow> nat \<Rightarrow> int" where
  "f64_exponent num den =
     (let e0 = int (bits num) - int (bits den) - 53 in
      case scaled num den e0 of (a, b) \<Rightarrow> max (- 1074) (if 2 ^ 53 * b \<le> a then e0 + 1 else e0))"

definition round_f64 :: "nat \<Rightarrow> nat \<Rightarrow> f64" where
  "round_f64 num den =
     (if num = 0 then Finite 0 0
      else
        (let e = f64_exponent num den in
         case scaled num den e of (a, b) \<Rightarrow>
           if 971 < e \<or> (e = 971 \<and> half_even a b = 2 ^ 53) then Infinite False else Finite (int (half_even a b)) e))"

section \<open>Reading\<close>

definition span_digits :: "string \<Rightarrow> string \<times> string" where
  "span_digits s = (takeWhile is_digit s, dropWhile is_digit s)"

definition read_exponent :: "string \<Rightarrow> int option" where
  "read_exponent s =
     (case s of
        [] \<Rightarrow> Some 0
      | c # r \<Rightarrow>
          if lower_char c \<noteq> CHR ''e'' then None
          else
            (case r of
               [] \<Rightarrow> None
             | d # t \<Rightarrow>
                 if d = CHR ''-'' then map_option (\<lambda>n. - int n) (parse_digits t)
                 else if d = CHR ''+'' then map_option int (parse_digits t)
                 else map_option int (parse_digits r)))"

definition read_decimal :: "string \<Rightarrow> f64 option" where
  "read_decimal s =
     (case span_digits s of (ip, rest) \<Rightarrow>
      case (case rest of c # t \<Rightarrow> if c = CHR ''.'' then span_digits t else ([], rest) | [] \<Rightarrow> ([], [])) of (fp, rest2) \<Rightarrow>
        if ip = [] \<and> fp = [] then None
        else
          map_option (\<lambda>x. let p = x - int (length fp); n = digits_val (ip @ fp) in
              if 0 \<le> p then round_f64 (n * 10 ^ nat p) 1 else round_f64 n (10 ^ nat (- p)))
            (read_exponent rest2))"

definition negate_f64 :: "f64 \<Rightarrow> f64" where
  "negate_f64 x = (case x of NaN \<Rightarrow> NaN | Infinite b \<Rightarrow> Infinite (\<not> b) | Finite m e \<Rightarrow> Finite (- m) e)"

definition unsigned_f64 :: "string \<Rightarrow> f64 option" where
  "unsigned_f64 s =
     (if to_lower s = ''inf'' \<or> to_lower s = ''infinity'' then Some (Infinite False)
      else if to_lower s = ''nan'' then Some NaN else read_decimal s)"

definition parse_f64 :: "string \<Rightarrow> f64 option" where
  "parse_f64 s =
     (case s of
        [] \<Rightarrow> None
      | c # r \<Rightarrow> if c = CHR ''-'' then map_option negate_f64 (unsigned_f64 r) else if c = CHR ''+'' then unsigned_f64 r else unsigned_f64 s)"

section \<open>Operations\<close>

definition f64_not_positive :: "f64 \<Rightarrow> bool" where
  "f64_not_positive x = (case x of NaN \<Rightarrow> False | Infinite neg \<Rightarrow> neg | Finite m e \<Rightarrow> m \<le> 0)"

definition is_finite :: "f64 \<Rightarrow> bool" where
  "is_finite x = (case x of Finite _ _ \<Rightarrow> True | _ \<Rightarrow> False)"

definition f64_exceeds :: "f64 \<Rightarrow> nat \<Rightarrow> bool" where
  "f64_exceeds x n =
     (case x of NaN \<Rightarrow> False | Infinite neg \<Rightarrow> \<not> neg
      | Finite m e \<Rightarrow> if 0 \<le> e then int n < m * 2 ^ nat e else int n * 2 ^ nat (- e) < m)"

text \<open>A product of a number that is not negative with an integer that has at most 53 bits.\<close>

definition f64_times :: "f64 \<Rightarrow> nat \<Rightarrow> f64" where
  "f64_times x n =
     (case x of
        Finite m e \<Rightarrow> if 0 \<le> e then round_f64 (nat m * 2 ^ nat e * n) 1 else round_f64 (nat m * n) (2 ^ nat (- e))
      | y \<Rightarrow> y)"

text \<open>\<^verbatim>\<open>round() as i64\<close>: halves away from zero, then cut to the range.\<close>

definition saturate_i64 :: "int \<Rightarrow> int" where
  "saturate_i64 i = (if i < i64_min then i64_min else if i64_max < i then i64_max else i)"

definition f64_round_i64 :: "f64 \<Rightarrow> int" where
  "f64_round_i64 x =
     (case x of
        NaN \<Rightarrow> 0
      | Infinite neg \<Rightarrow> if neg then i64_min else i64_max
      | Finite m e \<Rightarrow>
          saturate_i64 (if 0 \<le> e then m * 2 ^ nat e
            else sgn m * ((2 * \<bar>m\<bar> + 2 ^ nat (- e)) div (2 * 2 ^ nat (- e)))))"

section \<open>The error of rounding\<close>

definition f64_value :: "f64 \<Rightarrow> real" where
  "f64_value x = (case x of Finite m e \<Rightarrow> real_of_int m * 2 powi e | _ \<Rightarrow> 0)"

lemma bits_bounds: "0 < n \<Longrightarrow> 0 < bits n \<and> 2 ^ (bits n - 1) \<le> n \<and> n < 2 ^ bits n"
proof (induction n rule: bits.induct)
  case (1 n)
  show ?case
  proof (cases "n div 2 = 0")
    case True
    then have "n = 1" using 1(2) by linarith
    then show ?thesis by (simp add: bits.simps)
  next
    case False
    then have ih: "0 < bits (n div 2)" "2 ^ (bits (n div 2) - 1) \<le> n div 2" "n div 2 < 2 ^ bits (n div 2)"
      using 1 by auto
    have b: "bits n = Suc (bits (n div 2))" using 1(2) bits.simps[of n] by simp
    have n: "2 * (n div 2) \<le> n" "n < 2 * (n div 2) + 2" by simp_all
    have h: "(2::nat) ^ bits (n div 2) = 2 * 2 ^ (bits (n div 2) - 1)" using ih(1) by (simp flip: power_Suc)
    have "2 ^ bits n = 4 * (2::nat) ^ (bits (n div 2) - 1)" "2 ^ (bits n - 1) = 2 * (2::nat) ^ (bits (n div 2) - 1)"
      using b h by simp_all
    then show ?thesis using ih b n h by (intro conjI; linarith)
  qed
qed

lemma scaled_value:
  assumes "scaled num den e = (a, b)" "0 < den"
  shows "0 < b" "real a / real b = real num / real den * 2 powi (- e)"
  using assms by (auto simp: scaled_def power_int_def field_simps split: if_splits)

lemma half_even_error:
  assumes "0 < b"
  shows "\<bar>real (half_even a b) - real a / real b\<bar> \<le> 1 / 2"
proof -
  define q r where "q = a div b" and "r = a mod b"
  have "a = q * b + r" by (simp add: q_def r_def)
  then have "real a = real q * real b + real r" by (metis of_nat_add of_nat_mult)
  then have ab: "real a / real b = real q + real r / real b" using assms by (simp add: field_simps)
  have "real r < real b" using assms by (simp add: r_def)
  then have r: "0 \<le> real r / real b" "real r / real b < 1" using assms by simp_all
  have h: "half_even a b = (if 2 * r < b \<or> (2 * r = b \<and> even q) then q else q + 1)"
    by (simp add: half_even_def q_def r_def Let_def)
  show ?thesis
  proof (cases "2 * r < b \<or> (2 * r = b \<and> even q)")
    case True
    then have "2 * real r \<le> real b" by linarith
    then have "real r / real b \<le> 1 / 2" using assms by (simp add: field_simps)
    then show ?thesis using True r by (simp add: h ab)
  next
    case False
    then have "real b \<le> 2 * real r" by linarith
    then have "1 / 2 \<le> real r / real b" using assms by (simp add: field_simps)
    then show ?thesis unfolding h if_not_P[OF False] ab using r by simp
  qed
qed

lemma f64_exponent_le:
  assumes "0 < num" "0 < den" "real num / real den < 2 powi k" "- 1021 \<le> k"
  shows "f64_exponent num den \<le> k - 53"
proof -
  define e0 where "e0 = int (bits num) - int (bits den) - 53"
  have "real (2 ^ (bits num - 1)) \<le> real num" "real den < real (2 ^ bits den)"
    using bits_bounds[OF assms(1)] bits_bounds[OF assms(2)] by (simp_all only: of_nat_le_iff of_nat_less_iff)
  then have "2 ^ (bits num - 1) / 2 ^ bits den \<le> real num / real den"
    using assms(2) by (intro frac_le) simp_all
  moreover have "(2::real) ^ (bits num - 1) / 2 ^ bits den = 2 powi (int (bits num) - 1 - int (bits den))"
    using bits_bounds[OF assms(1)] by (simp add: power_int_diff of_nat_diff flip: power_int_of_nat)
  ultimately have "(2::real) powi (int (bits num) - 1 - int (bits den)) < 2 powi k" using assms(3) by linarith
  then have "int (bits num) - 1 - int (bits den) < k" by (metis one_less_numeral_iff power_int_increasing leD not_less semiring_norm(76) order_less_imp_le)
  then have e0: "e0 \<le> k - 53" by (simp add: e0_def)
  obtain a b where ab: "scaled num den e0 = (a, b)" by fastforce
  note v = scaled_value[OF ab assms(2)]
  have "e0 + 1 \<le> k - 53" if "2 ^ 53 * b \<le> a"
  proof -
    have "real (2 ^ 53 * b) \<le> real a" using that by (simp only: of_nat_le_iff)
    then have "2 powi 53 \<le> real a / real b" using v(1) by (simp add: field_simps power_int_def)
    also have "\<dots> < 2 powi k * 2 powi (- e0)" unfolding v(2) by (intro mult_strict_right_mono assms(3)) simp
    also have "\<dots> = 2 powi (k - e0)" by (simp flip: power_int_add)
    finally have "(53::int) < k - e0" by (metis one_less_numeral_iff power_int_increasing leD not_less semiring_norm(76) order_less_imp_le)
    then show ?thesis by simp
  qed
  then show ?thesis using e0 assms(4) unfolding f64_exponent_def Let_def e0_def[symmetric] by (simp add: ab)
qed

lemma round_f64_error:
  assumes "0 < num" "0 < den" "real num / real den < 2 powi k" "- 1021 \<le> k" "k \<le> 1000"
  shows "\<exists>m e. round_f64 num den = Finite m e \<and> 0 \<le> m \<and> e \<le> k - 53
    \<and> \<bar>real_of_int m * 2 powi e - real num / real den\<bar> \<le> 1 / 2 * 2 powi e"
proof -
  define e where "e = f64_exponent num den"
  obtain a b where ab: "scaled num den e = (a, b)" by fastforce
  have e: "e \<le> k - 53" unfolding e_def by (rule f64_exponent_le[OF assms(1-4)])
  then have r: "round_f64 num den = Finite (int (half_even a b)) e"
    using assms(1,5) ab by (simp add: round_f64_def e_def[symmetric] Let_def)
  note v = scaled_value[OF ab assms(2)]
  have "real num / real den = real a / real b * 2 powi e" unfolding v(2) by (simp add: power_int_minus)
  then have d: "real (half_even a b) * 2 powi e - real num / real den = (real (half_even a b) - real a / real b) * 2 powi e"
    by (simp add: left_diff_distrib)
  have "\<bar>real (half_even a b) * 2 powi e - real num / real den\<bar> = \<bar>real (half_even a b) - real a / real b\<bar> * 2 powi e"
    unfolding d by (simp only: abs_mult power_int_abs abs_numeral)
  also have "\<dots> \<le> 1 / 2 * 2 powi e" by (intro mult_right_mono half_even_error v(1)) simp
  finally show ?thesis using r e by simp
qed

section \<open>Amounts of the form\<close>

text \<open>A product with ten powers of ten and its rounding to an integer, for a number that is known up to an error.\<close>

lemma f64_times_error:
  assumes "0 < m" "0 < n" "real_of_int m * 2 powi e * real n < 2 powi k" "- 1021 \<le> k" "k \<le> 1000"
  shows "\<exists>m' e'. f64_times (Finite m e) n = Finite m' e' \<and> 0 \<le> m' \<and> e' \<le> k - 53
    \<and> \<bar>real_of_int m' * 2 powi e' - real_of_int m * 2 powi e * real n\<bar> \<le> 1 / 2 * 2 powi e'"
proof (cases "0 \<le> e")
  case True
  then have v: "real (nat m * 2 ^ nat e * n) / real 1 = real_of_int m * 2 powi e * real n"
    using assms(1) by (simp add: power_int_def)
  show ?thesis using True round_f64_error[of "nat m * 2 ^ nat e * n" 1 k, unfolded v] assms by (simp add: f64_times_def)
next
  case False
  then have v: "real (nat m * n) / real (2 ^ nat (- e)) = real_of_int m * 2 powi e * real n"
    using assms(1) by (simp add: power_int_def field_simps)
  show ?thesis using False round_f64_error[of "nat m * n" "2 ^ nat (- e)" k, unfolded v] assms by (simp add: f64_times_def)
qed

lemma round_i64_error:
  assumes "0 \<le> m" "f64_value (Finite m e) \<le> 2 ^ 62"
  shows "\<bar>real_of_int (f64_round_i64 (Finite m e)) - f64_value (Finite m e)\<bar> \<le> (if e < 0 then 1 / 2 else 0)"
proof (cases "0 \<le> e")
  case True
  then have v: "f64_value (Finite m e) = real_of_int (m * 2 ^ nat e)" by (simp add: f64_value_def power_int_def)
  have "real_of_int (m * 2 ^ nat e) \<le> real_of_int (2 ^ 62)" using assms(2) unfolding v by simp
  then have "m * 2 ^ nat e \<le> 2 ^ 62" by (simp only: of_int_le_iff)
  moreover have "0 \<le> m * 2 ^ nat e" using assms(1) by simp
  ultimately show ?thesis using True unfolding v by (simp add: f64_round_i64_def saturate_i64_def i64_min_def i64_max_def)
next
  case False
  define d :: int where "d = 2 ^ nat (- e)"
  have d: "0 < d" by (simp add: d_def)
  define q where "q = (2 * m + d) div (2 * d)"
  have v: "f64_value (Finite m e) = real_of_int m / real_of_int d"
    using False by (simp add: f64_value_def power_int_def d_def field_simps)
  have "2 * m + d = q * (2 * d) + (2 * m + d) mod (2 * d)" by (simp only: q_def div_mult_mod_eq)
  moreover have "0 \<le> (2 * m + d) mod (2 * d)" "(2 * m + d) mod (2 * d) < 2 * d" using d by simp_all
  ultimately have "q * (2 * d) \<le> 2 * m + d" "2 * m + d < q * (2 * d) + 2 * d" by linarith+
  then have "real_of_int (q * (2 * d)) \<le> real_of_int (2 * m + d)" "real_of_int (2 * m + d) \<le> real_of_int (q * (2 * d) + 2 * d)"
    by (simp_all only: of_int_le_iff)
  moreover define t where "t = real_of_int d * real_of_int q"
  ultimately have "2 * t \<le> 2 * real_of_int m + real_of_int d" "2 * real_of_int m \<le> 2 * t + real_of_int d"
    by (simp_all add: algebra_simps)
  then have "2 * \<bar>t - real_of_int m\<bar> \<le> real_of_int d" by (simp add: abs_if)
  then have err: "\<bar>real_of_int q - real_of_int m / real_of_int d\<bar> \<le> 1 / 2"
    using d by (simp add: field_simps t_def)
  have "real_of_int m \<le> real_of_int (2 ^ 62 * d)" using assms(2) d unfolding v by (simp add: field_simps)
  then have "m \<le> 2 ^ 62 * d" by (simp only: of_int_le_iff)
  then have "2 * m + d \<le> (2 ^ 62 + 1) * (2 * d)" using d by simp
  then have "q \<le> ((2 ^ 62 + 1) * (2 * d)) div (2 * d)" unfolding q_def using d by (intro zdiv_mono1) simp_all
  then have "q \<le> 2 ^ 62 + 1" using d by simp
  moreover have "0 \<le> q" unfolding q_def using assms(1) d by (simp add: pos_imp_zdiv_nonneg_iff)
  moreover have "f64_round_i64 (Finite m e) = saturate_i64 q" if "m \<noteq> 0"
    using that False assms(1) by (simp add: f64_round_i64_def q_def d_def)
  moreover have "q = 0" if "m = 0" using that d by (simp add: q_def)
  ultimately have "f64_round_i64 (Finite m e) = q"
    using False by (cases "m = 0") (simp_all add: f64_round_i64_def saturate_i64_def i64_min_def i64_max_def)
  then show ?thesis using err False unfolding v by simp
qed

text \<open>Digits, a point, digits: the number nearest to the decimal.\<close>

lemma parse_f64_digits:
  assumes "list_all is_digit ip" "ip \<noteq> []" "list_all is_digit fp"
  shows "parse_f64 (ip @ CHR ''.'' # fp) = Some (round_f64 (digits_val (ip @ fp)) (10 ^ length fp))"
proof -
  obtain c r where ip: "ip = c # r" using assms(2) by (cases ip) auto
  have c: "is_digit c" using assms(1) ip by simp
  have lc: "lower_char c = c" using c by (auto simp: lower_char_def is_digit_def)
  have ne: "c \<noteq> CHR ''-''" "c \<noteq> CHR ''+''" "c \<noteq> CHR ''i''" "c \<noteq> CHR ''n''" using c by (auto simp: is_digit_def)
  have dot: "\<not> is_digit (CHR ''.'')" by (simp add: is_digit_def)
  have sp: "span_digits (ip @ CHR ''.'' # fp) = (ip, CHR ''.'' # fp)" "span_digits fp = (fp, [])"
    using assms(1,3) dot by (simp_all add: span_digits_def list_all_iff)
  have "read_decimal (ip @ CHR ''.'' # fp) = Some (round_f64 (digits_val (ip @ fp)) (10 ^ length fp))"
  proof -
    have "read_decimal (ip @ CHR ''.'' # fp) =
        Some (if length fp = 0 then round_f64 (digits_val (ip @ fp)) 1 else round_f64 (digits_val (ip @ fp)) (10 ^ length fp))"
      using assms(2) by (simp add: read_decimal_def sp read_exponent_def Let_def del: length_0_conv)
    then show ?thesis by simp
  qed
  then show ?thesis using ne lc by (simp add: parse_f64_def unsigned_f64_def ip to_lower_def)
qed

text \<open>Reading alone, and the product with its rounding: the bounds the balance form needs.\<close>

lemma round_f64_relative:
  assumes "0 < num" "0 < den" "2 powi (- 1000) \<le> real num / real den" "real num / real den < 2 powi 1000"
  shows "\<exists>m e. round_f64 num den = Finite m e \<and> 0 < m"
proof -
  define x where "x = real num / real den"
  define k where "k = \<lfloor>log 2 x\<rfloor> + 1"
  have x: "0 < x" using assms(1,2) by (simp add: x_def)
  have p: "2 powi i = 2 powr real_of_int i" for i by (simp add: powr_real_of_int')
  have "2 powr (- 1000) \<le> x" "x < 2 powr 1000" using assms(3,4) p[of "- 1000"] p[of 1000] by (simp_all only: x_def of_int_minus of_int_numeral)
  then have lo: "- 1000 \<le> log 2 x" and hi: "log 2 x < 1000" using x by (simp_all only: le_log_iff log_less_iff one_less_numeral_iff semiring_norm)
  have k: "- 999 \<le> k" "k \<le> 1000" unfolding k_def using lo hi by linarith+
  have b: "2 powi (k - 1) \<le> x" "x < 2 powi k"
    unfolding p using x by (simp_all add: k_def flip: le_log_iff log_less_iff)
  obtain m e where me: "round_f64 num den = Finite m e" "0 \<le> m" "e \<le> k - 53"
      "\<bar>real_of_int m * 2 powi e - x\<bar> \<le> 1 / 2 * 2 powi e"
    using round_f64_error[OF assms(1,2) b(2)[unfolded x_def]] k unfolding x_def by auto
  have "m \<noteq> 0"
  proof
    assume "m = 0"
    then have "x \<le> 1 / 2 * 2 powi e" using me(4) x by simp
    also have "\<dots> < 2 powi e" by simp
    also have "\<dots> \<le> 2 powi (k - 1)" using me(3) by (intro power_int_increasing) simp_all
    finally show False using b(1) by simp
  qed
  then show ?thesis using me(1,2) by auto
qed

lemma abs_via: "\<bar>a - c\<bar> \<le> \<bar>a - b\<bar> + \<bar>b - (c::real)\<bar>"
  by linarith

lemma times_round_error:
  assumes "0 < m" "0 < n" "real_of_int m * 2 powi e * real n < 2 powi k" "- 1021 \<le> k" "k \<le> 54"
  shows "\<bar>real_of_int (f64_round_i64 (f64_times (Finite m e) n)) - real_of_int m * 2 powi e * real n\<bar> \<le> (if k \<le> 52 then 3 / 4 else 1)"
proof -
  define v where "v = real_of_int m * 2 powi e * real n"
  obtain m' e' where t: "f64_times (Finite m e) n = Finite m' e'" "0 \<le> m'" "e' \<le> k - 53"
      "\<bar>real_of_int m' * 2 powi e' - v\<bar> \<le> 1 / 2 * 2 powi e'"
    using f64_times_error[OF assms(1-4)] assms(5) unfolding v_def by auto
  define w where "w = f64_value (Finite m' e')"
  have "v < 2 powi 54" using assms(3,5) power_int_increasing[of k 54 "2::real"] unfolding v_def by simp
  moreover have two: "2 powi e' \<le> (2::real)" using power_int_increasing[of e' 1 "2::real"] t(3) assms(5) by simp
  moreover have wv: "\<bar>w - v\<bar> \<le> 1 / 2 * 2 powi e'" using t(4) by (simp add: w_def f64_value_def)
  ultimately have "w - v \<le> 1" "v \<le> 2 ^ 54" using abs_ge_self[of "w - v"] by (simp_all add: power_int_def)
  then have "w \<le> 2 ^ 62" by simp
  then have r: "\<bar>real_of_int (f64_round_i64 (Finite m' e')) - w\<bar> \<le> (if e' < 0 then 1 / 2 else 0)"
    using round_i64_error[OF t(2)] unfolding w_def by blast
  define r' where "r' = real_of_int (f64_round_i64 (Finite m' e'))"
  note tri = abs_via[of r' v w]
  have "\<bar>r' - v\<bar> \<le> (if k \<le> 52 then 3 / 4 else 1)"
  proof (cases "e' < 0")
    case True
    then have "2 powi e' \<le> (1 / 2 :: real)" using power_int_increasing[of e' "- 1" "2::real"] by (simp add: power_int_minus)
    moreover have "\<bar>r' - w\<bar> \<le> 1 / 2" using r True by (simp add: r'_def)
    ultimately have "\<bar>r' - v\<bar> \<le> 3 / 4" using wv tri by linarith
    then show ?thesis by simp
  next
    case False
    then have "\<not> k \<le> 52" using t(3) by simp
    moreover have "\<bar>r' - w\<bar> \<le> 0" using r False by (simp only: r'_def if_False)
    ultimately show ?thesis using wv two tri by simp
  qed
  then show ?thesis by (simp only: t(1) v_def r'_def)
qed

end
