(* ===== verification/UsersPage.thy ===== *)
theory UsersPage
  imports WebAuth Float64
begin

text \<open>
  \<^verbatim>\<open>app/web/src/views/users.rs\<close>: the page on which accounts are managed. A click changes the page and may start a request; the answer arrives
  later, whatever happened to the page in between, so that a request is a pending task and its answer a step of its own. Texts that
  the translations give are the record \<^verbatim>\<open>users_texts\<close>; rendering is left out but for which buttons there are.
\<close>

section \<open>State\<close>

record user_item =
  it_id :: string
  it_email :: string
  it_name :: string
  it_role :: string
  it_created_at :: int
  it_updated_at :: int
  it_balance :: int

datatype list_state = Loading | Loaded "user_item list" | ListError string

datatype modal_kind = NoModal | CreateModal | EditModal | DeleteModal

record users_page =
  up_list :: list_state
  up_version :: nat
  up_page :: nat
  up_per_page :: nat
  up_total :: nat
  up_total_pages :: nat
  up_search :: string
  up_modal :: modal_kind
  up_editing :: "user_item option"
  up_deleting :: "user_item option"
  up_name :: string
  up_email :: string
  up_password :: string
  up_role :: string
  up_balance :: string
  up_submitting :: bool
  up_error :: "string option"

definition new_users_page :: "string \<Rightarrow> users_page" where
  "new_users_page search =
     \<lparr>up_list = Loading, up_version = 0, up_page = 1, up_per_page = 20, up_total = 0, up_total_pages = 0, up_search = search,
      up_modal = NoModal, up_editing = None, up_deleting = None, up_name = [], up_email = [], up_password = [], up_role = ''user'',
      up_balance = [], up_submitting = False, up_error = None\<rparr>"

record users_texts =
  tx_adjust_empty :: string
  tx_adjust_invalid :: string
  tx_adjust_positive :: string
  tx_adjust_overflow :: string
  tx_system_editable :: string
  tx_name_empty :: string
  tx_email_empty :: string
  tx_password_empty :: string
  tx_no_target_id :: string

record users_data =
  pd_items :: "user_item list"
  pd_total :: nat
  pd_total_pages :: nat

section \<open>The table\<close>

definition role_of_actor :: "current_user option \<Rightarrow> string" where
  "role_of_actor actor = (case actor of None \<Rightarrow> [] | Some u \<Rightarrow> cu_role u)"

definition can_edit_row :: "current_user option \<Rightarrow> user_item \<Rightarrow> bool" where
  "can_edit_row actor u \<longleftrightarrow>
     (case actor of None \<Rightarrow> False | Some a \<Rightarrow> is_system a \<or> (is_admin a \<and> it_role u = ''user''))"

definition can_delete_row :: "current_user option \<Rightarrow> user_item \<Rightarrow> bool" where
  "can_delete_row actor u \<longleftrightarrow> can_edit_row actor u \<and> it_id u \<noteq> (case actor of None \<Rightarrow> [] | Some a \<Rightarrow> cu_id a)"

text \<open>The buttons of a row: to edit, to delete. A protected row has none.\<close>

definition row_buttons :: "current_user option \<Rightarrow> user_item \<Rightarrow> bool \<times> bool" where
  "row_buttons actor u =
     (if it_role u = ''system'' \<or> it_role u = ''admin'' then (False, False)
      else (can_edit_row actor u, can_delete_row actor u))"

definition shown_rows :: "users_page \<Rightarrow> user_item list" where
  "shown_rows p =
     (case up_list p of
        Loaded items \<Rightarrow>
          if up_search p = [] then items
          else filter (\<lambda>u. str_contains (to_lower (it_name u)) (to_lower (up_search p))
                         \<or> str_contains (to_lower (it_email u)) (to_lower (up_search p))) items
      | _ \<Rightarrow> [])"

definition is_loaded :: "users_page \<Rightarrow> bool" where
  "is_loaded p = (case up_list p of Loaded _ \<Rightarrow> True | _ \<Rightarrow> False)"

definition prev_page :: "users_page \<Rightarrow> users_page" where
  "prev_page p = (if is_loaded p \<and> 1 < up_page p then p\<lparr>up_page := max (up_page p - 1) 1\<rparr> else p)"

definition next_page :: "users_page \<Rightarrow> users_page" where
  "next_page p = (if is_loaded p \<and> up_page p < up_total_pages p then p\<lparr>up_page := min (up_page p + 1) (up_total_pages p)\<rparr> else p)"

definition choose_per_page :: "string \<Rightarrow> users_page \<Rightarrow> users_page" where
  "choose_per_page v p =
     (if is_loaded p
      then case parse_unsigned 64 v of None \<Rightarrow> p | Some n \<Rightarrow> p\<lparr>up_per_page := clamp n 1 100, up_page := 1\<rparr>
      else p)"

definition change_search :: "string \<Rightarrow> users_page \<Rightarrow> users_page" where
  "change_search s p = p\<lparr>up_search := s, up_page := 1\<rparr>"

section \<open>The dialogs\<close>

definition open_create :: "users_page \<Rightarrow> users_page" where
  "open_create p =
     p\<lparr>up_name := [], up_email := [], up_password := [], up_role := ''user'', up_error := None, up_editing := None, up_modal := CreateModal\<rparr>"

definition open_edit :: "current_user option \<Rightarrow> user_item \<Rightarrow> users_page \<Rightarrow> users_page" where
  "open_edit actor u p =
     (if u \<in> set (shown_rows p) \<and> fst (row_buttons actor u)
      then p\<lparr>up_name := it_name u, up_email := it_email u, up_password := [], up_role := it_role u, up_balance := [], up_error := None,
             up_editing := Some u, up_modal := EditModal\<rparr>
      else p)"

definition open_delete :: "current_user option \<Rightarrow> user_item \<Rightarrow> users_page \<Rightarrow> users_page" where
  "open_delete actor u p =
     (if u \<in> set (shown_rows p) \<and> snd (row_buttons actor u)
      then p\<lparr>up_error := None, up_deleting := Some u, up_modal := DeleteModal\<rparr> else p)"

definition close_all :: "users_page \<Rightarrow> users_page" where
  "close_all p =
     p\<lparr>up_modal := NoModal, up_editing := None, up_deleting := None, up_name := [], up_email := [], up_password := [],
       up_role := ''user'', up_balance := [], up_submitting := False, up_error := None\<rparr>"

section \<open>Requests\<close>

text \<open>A task between its start and its answer: what it captured and what it asks the server for.\<close>

datatype page_task =
  ListSpawned nat nat
| ListWaiting nat nat nat
| AdjustWaiting string int
| DeleteWaiting string
| CreateWaiting string string string "string option"
| EditWaiting string string string "string option"

definition BALANCE_SCALE_NAT :: nat where "BALANCE_SCALE_NAT = 10000000000"

text \<open>The amount a text stands for, in stored units; the error is the one the form shows.\<close>

definition typed_amount :: "users_texts \<Rightarrow> string \<Rightarrow> (string, int) res" where
  "typed_amount t text =
     (if trim text = [] then Inl (tx_adjust_empty t)
      else
        (case parse_f64 text of
           None \<Rightarrow> Inl (tx_adjust_invalid t)
         | Some display \<Rightarrow>
             if f64_not_positive display then Inl (tx_adjust_positive t)
             else if \<not> is_finite display then Inl (tx_adjust_invalid t)
             else if f64_exceeds display 1000000 then Inl (tx_adjust_overflow t)
             else Inr (f64_round_i64 (f64_times display BALANCE_SCALE_NAT))))"

definition can_adjust :: "current_user option \<Rightarrow> users_page \<Rightarrow> bool" where
  "can_adjust actor p \<longleftrightarrow>
     (case up_editing p of None \<Rightarrow> False
      | Some u \<Rightarrow> (role_of_actor actor = ''system'' \<and> it_role u \<noteq> ''system'') \<or> (role_of_actor actor = ''admin'' \<and> it_role u = ''user''))"

definition start_adjust :: "users_texts \<Rightarrow> int \<Rightarrow> users_page \<Rightarrow> users_page \<times> page_task list" where
  "start_adjust t multiplier p =
     (if up_submitting p then (p, [])
      else case up_editing p of
        None \<Rightarrow> (p, [])
      | Some u \<Rightarrow>
          (case typed_amount t (up_balance p) of
             Inl e \<Rightarrow> (p\<lparr>up_error := Some e\<rparr>, [])
           | Inr stored \<Rightarrow>
               (p\<lparr>up_submitting := True, up_error := None\<rparr>, [AdjustWaiting (it_id u) (stored * multiplier)])))"

definition start_delete :: "current_user option \<Rightarrow> users_page \<Rightarrow> users_page \<times> page_task list" where
  "start_delete actor p =
     (if up_submitting p then (p, [])
      else case up_deleting p of
        None \<Rightarrow> (p, [])
      | Some u \<Rightarrow>
          if it_role u = ''system'' then (p, [])
          else if role_of_actor actor = ''admin'' \<and> it_role u \<noteq> ''user'' then (p, [])
          else (p\<lparr>up_submitting := True\<rparr>, [DeleteWaiting (it_id u)]))"

definition start_form :: "users_texts \<Rightarrow> current_user option \<Rightarrow> users_page \<Rightarrow> users_page \<times> page_task list" where
  "start_form t actor p =
     (let email = to_lower (up_email p);
          role = (if role_of_actor actor = ''system'' then Some (up_role p) else None) in
      if up_submitting p then (p, [])
      else if up_modal p = EditModal \<and> (case up_editing p of None \<Rightarrow> False | Some u \<Rightarrow> it_role u = ''system'')
      then (p\<lparr>up_error := Some (tx_system_editable t)\<rparr>, [])
      else if trim (up_name p) = [] then (p\<lparr>up_error := Some (tx_name_empty t)\<rparr>, [])
      else if trim email = [] then (p\<lparr>up_error := Some (tx_email_empty t)\<rparr>, [])
      else if up_modal p = CreateModal \<and> up_password p = [] then (p\<lparr>up_error := Some (tx_password_empty t)\<rparr>, [])
      else
        (let p1 = p\<lparr>up_submitting := True, up_error := None\<rparr> in
         if up_modal p = CreateModal then (p1, [CreateWaiting email (up_password p) (up_name p) role])
         else case up_editing p of
           None \<Rightarrow> (p1\<lparr>up_error := Some (tx_no_target_id t), up_submitting := False\<rparr>, [])
         | Some u \<Rightarrow> (p1, [EditWaiting (it_id u) email (up_name p) role])))"

text \<open>The effect of the list and the first part of its task.\<close>

definition run_list_effect :: "users_page \<Rightarrow> page_task" where
  "run_list_effect p = ListSpawned (up_page p) (up_per_page p)"

definition begin_list :: "nat \<Rightarrow> nat \<Rightarrow> users_page \<Rightarrow> users_page \<times> page_task" where
  "begin_list current_page current_per_page p =
     (p\<lparr>up_list := Loading\<rparr>, ListWaiting (up_version p) current_page current_per_page)"

section \<open>Answers\<close>

text \<open>What an answer is handled with: the library of the session, the fields of a JSON error, the time of the log.\<close>

record 's page_lib =
  pl_web :: "'s web_lib"
  pl_json_field :: "string \<Rightarrow> string \<Rightarrow> string option"
  pl_now_ms :: nat

definition log_of :: "(log_bus \<Rightarrow> log_bus) \<Rightarrow> 's web_ui \<Rightarrow> 's web_ui" where
  "log_of f ui = ui\<lparr>ui_log := f (ui_log ui)\<rparr>"

definition page_error :: "'s page_lib \<Rightarrow> client_error \<Rightarrow> string" where
  "page_error lib e = humanize_error (pl_json_field lib) e UserManagement"

text \<open>An error is first offered to \<^const>\<open>handle_unauth\<close>; what is left is logged and shown by \<^verbatim>\<open>f\<close>.\<close>

definition page_failure ::
    "'s page_lib \<Rightarrow> string \<Rightarrow> string \<Rightarrow> client_error \<Rightarrow> (users_page \<Rightarrow> users_page) \<Rightarrow> users_page \<times> 's web_ui \<Rightarrow> users_page \<times> 's web_ui" where
  "page_failure lib meth path e f w =
     (case handle_unauth (pl_web lib) (pl_now_ms lib) e (snd w) of
        (True, ui) \<Rightarrow> (fst w, ui)
      | (False, ui) \<Rightarrow> (f (fst w), log_of (push_log_err (pl_now_ms lib) meth path e) ui))"

definition finish_list ::
    "'s page_lib \<Rightarrow> nat \<Rightarrow> nat \<Rightarrow> nat \<Rightarrow> (client_error, users_data) res \<Rightarrow> users_page \<times> 's web_ui \<Rightarrow> users_page \<times> 's web_ui" where
  "finish_list lib version current_page current_per_page res w =
     (case w of (p, ui) \<Rightarrow>
        if up_version p \<noteq> version \<or> up_page p \<noteq> current_page \<or> up_per_page p \<noteq> current_per_page then w
        else
          (case res of
             Inr d \<Rightarrow>
               (p\<lparr>up_total := pd_total d, up_total_pages := pd_total_pages d, up_list := Loaded (pd_items d)\<rparr>,
                log_of (push_log_ok (pl_now_ms lib) ''GET'' ''/api/users'') ui)
           | Inl e \<Rightarrow> page_failure lib ''GET'' ''/api/users'' e (\<lambda>p. p\<lparr>up_list := ListError (page_error lib e)\<rparr>) w))"

definition finish_adjust ::
    "'s page_lib \<Rightarrow> string \<Rightarrow> (client_error, int) res \<Rightarrow> users_page \<times> 's web_ui \<Rightarrow> users_page \<times> 's web_ui" where
  "finish_adjust lib i res w =
     (case w of (p0, ui) \<Rightarrow>
        let p = p0\<lparr>up_submitting := False\<rparr>; path = ''/api/users/'' @ i @ ''/balance/adjust'' in
        (case res of
           Inr balance \<Rightarrow>
             (p\<lparr>up_editing := map_option (\<lambda>u. u\<lparr>it_balance := balance\<rparr>) (up_editing p), up_balance := [], up_version := up_version p + 1\<rparr>,
              log_of (push_log_ok (pl_now_ms lib) ''POST'' path) ui)
         | Inl e \<Rightarrow> page_failure lib ''POST'' path e (\<lambda>p. p\<lparr>up_error := Some (page_error lib e)\<rparr>) (p, ui)))"

definition finish_delete ::
    "'s page_lib \<Rightarrow> string \<Rightarrow> (client_error, unit) res \<Rightarrow> users_page \<times> 's web_ui \<Rightarrow> users_page \<times> 's web_ui" where
  "finish_delete lib i res w =
     (case w of (p0, ui) \<Rightarrow>
        let p = p0\<lparr>up_submitting := False\<rparr>; path = ''/api/users/'' @ i in
        (case res of
           Inr _ \<Rightarrow>
             ((if up_modal p = DeleteModal then p\<lparr>up_modal := NoModal, up_deleting := None, up_error := None\<rparr> else p)
                \<lparr>up_version := up_version p + 1\<rparr>,
              log_of (push_log_ok (pl_now_ms lib) ''DELETE'' path) ui)
         | Inl e \<Rightarrow> page_failure lib ''DELETE'' path e id (p, ui)))"

definition finish_form ::
    "'s page_lib \<Rightarrow> modal_kind \<Rightarrow> string \<Rightarrow> (client_error, unit) res \<Rightarrow> users_page \<times> 's web_ui \<Rightarrow> users_page \<times> 's web_ui" where
  "finish_form lib kind i res w =
     (case w of (p0, ui) \<Rightarrow>
        let p = p0\<lparr>up_submitting := False\<rparr>;
            meth = (if kind = CreateModal then ''POST'' else ''PUT'');
            path = (if kind = CreateModal then ''/api/users'' else ''/api/users/'' @ i) in
        (case res of
           Inr _ \<Rightarrow>
             ((if up_modal p = kind
               then p\<lparr>up_modal := NoModal, up_editing := None, up_name := [], up_email := [], up_password := [], up_role := ''user'', up_error := None\<rparr>
               else p)\<lparr>up_version := up_version p + 1\<rparr>,
              log_of (push_log_ok (pl_now_ms lib) meth path) ui)
         | Inl e \<Rightarrow> page_failure lib meth path e (\<lambda>p. p\<lparr>up_error := Some (page_error lib e)\<rparr>) (p, ui)))"

section \<open>Clicks and answers\<close>

record 's page_world =
  pw_page :: users_page
  pw_tasks :: "page_task list"
  pw_ui :: "'s web_ui"

datatype page_event =
  OpenCreate | OpenEdit user_item | OpenDelete user_item | CloseModal
| TypeName string | TypeEmail string | TypePassword string | TypeBalance string | PickRole bool
| ClickAdjust bool | ClickSubmit | ClickDelete
| ClickPrev | ClickNext | ChoosePerPage string | TypeSearch string
| RunEffect | PollList nat
| ListAnswer nat "(client_error, users_data) res"
| BalanceAnswer nat "(client_error, int) res"
| UnitAnswer nat "(client_error, unit) res"

definition in_form :: "users_page \<Rightarrow> bool" where
  "in_form p \<longleftrightarrow> up_modal p = CreateModal \<or> up_modal p = EditModal"

text \<open>A click, as the buttons that are there allow it: the page and the tasks it starts.\<close>

definition click :: "users_texts \<Rightarrow> current_user option \<Rightarrow> page_event \<Rightarrow> users_page \<Rightarrow> users_page \<times> page_task list" where
  "click t actor ev p =
     (case ev of
        OpenCreate \<Rightarrow> (open_create p, [])
      | OpenEdit u \<Rightarrow> (open_edit actor u p, [])
      | OpenDelete u \<Rightarrow> (open_delete actor u p, [])
      | CloseModal \<Rightarrow> (if up_modal p = NoModal then p else close_all p, [])
      | TypeName s \<Rightarrow> (if in_form p \<and> \<not> up_submitting p then p\<lparr>up_name := s\<rparr> else p, [])
      | TypeEmail s \<Rightarrow> (if in_form p \<and> \<not> up_submitting p then p\<lparr>up_email := s\<rparr> else p, [])
      | TypePassword s \<Rightarrow> (if up_modal p = CreateModal \<and> \<not> up_submitting p then p\<lparr>up_password := s\<rparr> else p, [])
      | TypeBalance s \<Rightarrow> (if up_modal p = EditModal \<and> can_adjust actor p \<and> \<not> up_submitting p then p\<lparr>up_balance := s\<rparr> else p, [])
      | PickRole admin \<Rightarrow>
          (if in_form p \<and> role_of_actor actor = ''system'' then p\<lparr>up_role := if admin then ''admin'' else ''user''\<rparr> else p, [])
      | ClickAdjust increase \<Rightarrow>
          (if up_modal p = EditModal \<and> can_adjust actor p then start_adjust t (if increase then 1 else - 1) p else (p, []))
      | ClickSubmit \<Rightarrow> (if in_form p then start_form t actor p else (p, []))
      | ClickDelete \<Rightarrow> (if up_modal p = DeleteModal then start_delete actor p else (p, []))
      | ClickPrev \<Rightarrow> (prev_page p, [])
      | ClickNext \<Rightarrow> (next_page p, [])
      | ChoosePerPage v \<Rightarrow> (choose_per_page v p, [])
      | TypeSearch s \<Rightarrow> (change_search s p, [])
      | RunEffect \<Rightarrow> (p, [run_list_effect p])
      | _ \<Rightarrow> (p, []))"

definition remove_task :: "nat \<Rightarrow> page_task list \<Rightarrow> page_task list" where
  "remove_task i ts = take i ts @ drop (Suc i) ts"

definition finish_task ::
    "'s page_lib \<Rightarrow> page_event \<Rightarrow> page_task \<Rightarrow> users_page \<times> 's web_ui \<Rightarrow> (users_page \<times> 's web_ui) option" where
  "finish_task lib ev task w =
     (case (ev, task) of
        (ListAnswer _ res, ListWaiting v cp cpp) \<Rightarrow> Some (finish_list lib v cp cpp res w)
      | (BalanceAnswer _ res, AdjustWaiting i _) \<Rightarrow> Some (finish_adjust lib i res w)
      | (UnitAnswer _ res, DeleteWaiting i) \<Rightarrow> Some (finish_delete lib i res w)
      | (UnitAnswer _ res, CreateWaiting _ _ _ _) \<Rightarrow> Some (finish_form lib CreateModal [] res w)
      | (UnitAnswer _ res, EditWaiting i _ _ _) \<Rightarrow> Some (finish_form lib EditModal i res w)
      | _ \<Rightarrow> None)"

definition answer ::
    "'s page_lib \<Rightarrow> page_event \<Rightarrow> nat \<Rightarrow> 's page_world \<Rightarrow> 's page_world" where
  "answer lib ev i w =
     (if i < length (pw_tasks w)
      then case finish_task lib ev (pw_tasks w ! i) (pw_page w, pw_ui w) of
             None \<Rightarrow> w
           | Some (p, ui) \<Rightarrow> w\<lparr>pw_page := p, pw_ui := ui, pw_tasks := remove_task i (pw_tasks w)\<rparr>
      else w)"

definition poll_list :: "nat \<Rightarrow> 's page_world \<Rightarrow> 's page_world" where
  "poll_list i w =
     (if i < length (pw_tasks w)
      then case pw_tasks w ! i of
             ListSpawned cp cpp \<Rightarrow>
               (case begin_list cp cpp (pw_page w) of (p, task) \<Rightarrow> w\<lparr>pw_page := p, pw_tasks := (pw_tasks w)[i := task]\<rparr>)
           | _ \<Rightarrow> w
      else w)"

definition page_step :: "'s page_lib \<Rightarrow> users_texts \<Rightarrow> current_user option \<Rightarrow> page_event \<Rightarrow> 's page_world \<Rightarrow> 's page_world" where
  "page_step lib t actor ev w =
     (case ev of
        PollList i \<Rightarrow> poll_list i w
      | ListAnswer i _ \<Rightarrow> answer lib ev i w
      | BalanceAnswer i _ \<Rightarrow> answer lib ev i w
      | UnitAnswer i _ \<Rightarrow> answer lib ev i w
      | _ \<Rightarrow> (case click t actor ev (pw_page w) of (p, new) \<Rightarrow> w\<lparr>pw_page := p, pw_tasks := pw_tasks w @ new\<rparr>))"

definition page_run :: "'s page_lib \<Rightarrow> users_texts \<Rightarrow> current_user option \<Rightarrow> page_event list \<Rightarrow> 's page_world \<Rightarrow> 's page_world" where
  "page_run lib t actor evs w = foldl (\<lambda>w ev. page_step lib t actor ev w) w evs"

section \<open>Requests the server accepts\<close>

text \<open>Which accounts an actor may change, by the role of their row: the guard of \<^verbatim>\<open>update_user\<close>, \<^verbatim>\<open>delete_user\<close> and the balance operations.\<close>

definition target_allowed :: "string \<Rightarrow> string \<Rightarrow> bool" where
  "target_allowed actor_role role \<longleftrightarrow> role \<noteq> ''system'' \<and> \<not> (actor_role = ''admin'' \<and> role \<noteq> ''user'')"

lemma target_allowed_balance:
  "check_balance_rbac u a = Inr () \<longleftrightarrow> (a = ''admin'' \<or> a = ''system'') \<and> target_allowed a (u_role u)"
  by (auto simp: check_balance_rbac_def target_allowed_def)

text \<open>The accounts the server has listed, each with the role it had then.\<close>

definition listed :: "page_event list \<Rightarrow> (string \<times> string) list" where
  "listed evs =
     concat (map (\<lambda>ev. case ev of ListAnswer _ (Inr d) \<Rightarrow> map (\<lambda>u. (it_id u, it_role u)) (pd_items d) | _ \<Rightarrow> []) evs)"

definition target_listed :: "(string \<times> string) list \<Rightarrow> string \<Rightarrow> string \<Rightarrow> bool" where
  "target_listed rows actor_role i \<longleftrightarrow> list_ex (\<lambda>(j, role). j = i \<and> target_allowed actor_role role) rows"

text \<open>The rules of the server on a request of an actor, for accounts with the roles that were listed: paging, the role of the target and the one that is
  given, the range of an amount, and no deletion of oneself. The formats of names, addresses and passwords are checked by the server alone; the
  page only refuses blank ones.\<close>

definition server_accepts :: "(string \<times> string) list \<Rightarrow> string \<Rightarrow> string \<Rightarrow> page_task \<Rightarrow> bool" where
  "server_accepts rows actor_role actor_id task =
     (case task of
        ListSpawned cp cpp \<Rightarrow> 1 \<le> cp \<and> clamp cpp 1 100 = cpp
      | ListWaiting v cp cpp \<Rightarrow> 1 \<le> cp \<and> clamp cpp 1 100 = cpp
      | AdjustWaiting i amount \<Rightarrow> in_i64 amount \<and> target_listed rows actor_role i
      | DeleteWaiting i \<Rightarrow> i \<noteq> actor_id \<and> target_listed rows actor_role i
      | CreateWaiting email pw name role \<Rightarrow>
          isl (create_role actor_role role) = False \<and> email = to_lower email \<and> trim email \<noteq> [] \<and> pw \<noteq> [] \<and> trim name \<noteq> []
      | EditWaiting i email name role \<Rightarrow>
          \<not> bad_role role \<and> \<not> (actor_role = ''admin'' \<and> role = Some ''admin'') \<and> email = to_lower email \<and> trim email \<noteq> [] \<and> trim name \<noteq> []
          \<and> target_listed rows actor_role i)"

definition known_roles :: "user_item list \<Rightarrow> bool" where
  "known_roles us \<longleftrightarrow> list_all (\<lambda>u. it_role u \<in> {''user'', ''admin'', ''system''}) us"

definition from_rows :: "(string \<times> string) list \<Rightarrow> user_item list \<Rightarrow> bool" where
  "from_rows rows us \<longleftrightarrow> known_roles us \<and> list_all (\<lambda>u. (it_id u, it_role u) \<in> set rows) us"

definition page_ok :: "(string \<times> string) list \<Rightarrow> current_user \<Rightarrow> users_page \<Rightarrow> bool" where
  "page_ok rows a p \<longleftrightarrow>
     1 \<le> up_page p \<and> 1 \<le> up_per_page p \<and> up_per_page p \<le> 100 \<and> up_role p \<in> {''user'', ''admin''}
     \<and> (case up_list p of Loaded us \<Rightarrow> from_rows rows us | _ \<Rightarrow> True)
     \<and> (case up_editing p of Some u \<Rightarrow> it_role u = ''user'' \<and> (it_id u, ''user'') \<in> set rows | None \<Rightarrow> True)
     \<and> (case up_deleting p of Some u \<Rightarrow> it_role u = ''user'' \<and> (it_id u, ''user'') \<in> set rows \<and> it_id u \<noteq> cu_id a | None \<Rightarrow> True)"

definition answer_known :: "page_event \<Rightarrow> bool" where
  "answer_known ev = (case ev of ListAnswer _ (Inr d) \<Rightarrow> known_roles (pd_items d) | _ \<Rightarrow> True)"

definition answer_from :: "(string \<times> string) list \<Rightarrow> page_event \<Rightarrow> bool" where
  "answer_from rows ev = (case ev of ListAnswer _ (Inr d) \<Rightarrow> from_rows rows (pd_items d) | _ \<Rightarrow> True)"

lemma answer_from_listed: "list_all answer_known evs \<Longrightarrow> list_all (answer_from (listed evs)) evs"
  by (fastforce simp: list_all_iff answer_known_def answer_from_def from_rows_def listed_def split: page_event.splits sum.splits)

lemma user_allowed: "(i, ''user'') \<in> set rows \<Longrightarrow> target_listed rows r i"
  unfolding target_listed_def list_ex_iff by (rule bexI[of _ "(i, ''user'')"]) (simp_all add: target_allowed_def)

lemma shown_known: "page_ok rows a p \<Longrightarrow> u \<in> set (shown_rows p) \<Longrightarrow> it_role u \<in> {''user'', ''admin'', ''system''} \<and> (it_id u, it_role u) \<in> set rows"
  by (auto simp: page_ok_def shown_rows_def from_rows_def known_roles_def list_all_iff split: list_state.splits if_splits)

definition nonneg_f64 :: "f64 \<Rightarrow> bool" where
  "nonneg_f64 x = (case x of Finite m e \<Rightarrow> 0 \<le> m | Infinite neg \<Rightarrow> \<not> neg | NaN \<Rightarrow> False)"

lemma nonneg_round: "nonneg_f64 (round_f64 n d)"
  by (simp add: round_f64_def nonneg_f64_def Let_def split: prod.split)

lemma nonneg_times: "is_finite x \<Longrightarrow> nonneg_f64 (f64_times x n)"
  by (cases x) (simp_all add: is_finite_def f64_times_def nonneg_round)

lemma f64_round_i64_range:
  assumes "nonneg_f64 x"
  shows "0 \<le> f64_round_i64 x \<and> f64_round_i64 x \<le> i64_max"
proof (cases x)
  case (Finite m e)
  define r where "r = (if 0 \<le> e then m * 2 ^ nat e else sgn m * ((2 * \<bar>m\<bar> + 2 ^ nat (- e)) div (2 * 2 ^ nat (- e))))"
  have "0 \<le> r" using assms Finite by (auto simp: r_def nonneg_f64_def sgn_if pos_imp_zdiv_nonneg_iff)
  moreover have "f64_round_i64 x = saturate_i64 r" unfolding Finite f64_round_i64_def r_def f64.case by simp
  ultimately show ?thesis by (simp add: saturate_i64_def i64_min_def i64_max_def)
qed (use assms in \<open>auto simp: nonneg_f64_def f64_round_i64_def i64_max_def\<close>)

lemma typed_amount_range:
  assumes "typed_amount t text = Inr stored"
  shows "0 \<le> stored \<and> stored \<le> i64_max"
proof -
  obtain x where x: "is_finite x" "stored = f64_round_i64 (f64_times x BALANCE_SCALE_NAT)"
    using assms by (auto simp: typed_amount_def split: if_splits option.splits)
  show ?thesis unfolding x(2) by (rule f64_round_i64_range[OF nonneg_times[OF x(1)]])
qed

lemma page_ok_irrelevant [simp]:
  "page_ok rows a (p\<lparr>up_submitting := b\<rparr>) = page_ok rows a p" "page_ok rows a (p\<lparr>up_error := x\<rparr>) = page_ok rows a p"
  "page_ok rows a (p\<lparr>up_version := n\<rparr>) = page_ok rows a p" "page_ok rows a (p\<lparr>up_modal := k\<rparr>) = page_ok rows a p"
  "page_ok rows a (p\<lparr>up_name := s\<rparr>) = page_ok rows a p" "page_ok rows a (p\<lparr>up_email := s\<rparr>) = page_ok rows a p"
  "page_ok rows a (p\<lparr>up_password := s\<rparr>) = page_ok rows a p" "page_ok rows a (p\<lparr>up_balance := s\<rparr>) = page_ok rows a p"
  "page_ok rows a (p\<lparr>up_search := s\<rparr>) = page_ok rows a p" "page_ok rows a (p\<lparr>up_total := n\<rparr>) = page_ok rows a p"
  "page_ok rows a (p\<lparr>up_total_pages := n\<rparr>) = page_ok rows a p"
  by (simp_all add: page_ok_def)

lemma page_ok_set:
  "page_ok rows a p \<Longrightarrow> page_ok rows a (p\<lparr>up_editing := None\<rparr>)" "page_ok rows a p \<Longrightarrow> page_ok rows a (p\<lparr>up_deleting := None\<rparr>)"
  "page_ok rows a p \<Longrightarrow> r \<in> {''user'', ''admin''} \<Longrightarrow> page_ok rows a (p\<lparr>up_role := r\<rparr>)"
  "page_ok rows a p \<Longrightarrow> 1 \<le> n \<Longrightarrow> page_ok rows a (p\<lparr>up_page := n\<rparr>)"
  "page_ok rows a p \<Longrightarrow> page_ok rows a (p\<lparr>up_list := ListError m\<rparr>)" "page_ok rows a p \<Longrightarrow> page_ok rows a (p\<lparr>up_list := Loading\<rparr>)"
  "page_ok rows a p \<Longrightarrow> 1 \<le> n \<Longrightarrow> n \<le> 100 \<Longrightarrow> page_ok rows a (p\<lparr>up_per_page := n\<rparr>)"
  "page_ok rows a p \<Longrightarrow> from_rows rows us \<Longrightarrow> page_ok rows a (p\<lparr>up_list := Loaded us\<rparr>)"
  "page_ok rows a p \<Longrightarrow> page_ok rows a (p\<lparr>up_editing := map_option (\<lambda>u. u\<lparr>it_balance := n'\<rparr>) (up_editing p)\<rparr>)"
  "page_ok rows a p \<Longrightarrow> it_role u = ''user'' \<Longrightarrow> (it_id u, ''user'') \<in> set rows \<Longrightarrow> page_ok rows a (p\<lparr>up_editing := Some u\<rparr>)"
  "page_ok rows a p \<Longrightarrow> it_role u = ''user'' \<Longrightarrow> (it_id u, ''user'') \<in> set rows \<Longrightarrow> it_id u \<noteq> cu_id a \<Longrightarrow> page_ok rows a (p\<lparr>up_deleting := Some u\<rparr>)"
  by (auto simp: page_ok_def split: option.splits)

lemma start_adjust_ok:
  assumes "page_ok rows a p" "is_admin a" "start_adjust t m p = (p', ts)" "m = 1 \<or> m = - 1"
  shows "page_ok rows a p' \<and> list_all (server_accepts rows (cu_role a) (cu_id a)) ts"
proof -
  have range: "in_i64 (stored * m)" if "typed_amount t s = Inr stored" for s stored
    using typed_amount_range[OF that] assms(4) by (auto simp: in_i64_def i64_min_def i64_max_def)
  show ?thesis
    using assms(1,3) range
    by (auto simp: start_adjust_def page_ok_def server_accepts_def user_allowed split: if_splits option.splits sum.splits)
qed

lemma start_delete_ok:
  "page_ok rows a p \<Longrightarrow> start_delete (Some a) p = (p', ts) \<Longrightarrow> page_ok rows a p' \<and> list_all (server_accepts rows (cu_role a) (cu_id a)) ts"
  by (auto simp: start_delete_def page_ok_def server_accepts_def user_allowed split: if_splits option.splits)

lemma start_form_ok:
  assumes "page_ok rows a p" "is_admin a" "start_form t (Some a) p = (p', ts)"
  shows "page_ok rows a p' \<and> list_all (server_accepts rows (cu_role a) (cu_id a)) ts"
proof -
  define role where "role = (if cu_role a = ''system'' then Some (up_role p) else None)"
  have role: "isl (create_role (cu_role a) role) = False" "\<not> bad_role role" "\<not> (cu_role a = ''admin'' \<and> role = Some ''admin'')"
    using assms(1,2) by (auto simp: role_def create_role_def bad_role_def page_ok_def is_admin_def Let_def)
  have target: "target_listed rows (cu_role a) (it_id u)" if "up_editing p = Some u" for u
    using assms(1) that user_allowed[of "it_id u" rows] by (simp add: page_ok_def)
  have "list_all (server_accepts rows (cu_role a) (cu_id a)) ts"
    using assms(3) role target
    by (auto simp: start_form_def server_accepts_def role_of_actor_def role_def[symmetric] Let_def split: if_splits option.splits)
  moreover have "page_ok rows a p'"
    using assms(1,3) by (auto simp: start_form_def Let_def split: if_splits option.splits)
  ultimately show ?thesis by simp
qed

lemma open_edit_ok: "page_ok rows a p \<Longrightarrow> page_ok rows a (open_edit (Some a) u p)"
  using shown_known[of rows a p u] by (auto simp: open_edit_def row_buttons_def page_ok_set split: if_splits)

lemma open_delete_ok: "page_ok rows a p \<Longrightarrow> page_ok rows a (open_delete (Some a) u p)"
  using shown_known[of rows a p u] by (auto simp: open_delete_def row_buttons_def can_delete_row_def page_ok_set split: if_splits)

lemma clamp_range: "Suc 0 \<le> clamp n (Suc 0) 100" "clamp n (Suc 0) 100 \<le> 100"
  by (simp_all add: clamp_def)

lemma page_ok_pages: "page_ok rows a p \<Longrightarrow> 1 \<le> up_page p" "page_ok rows a p \<Longrightarrow> clamp (up_per_page p) 1 100 = up_per_page p"
  by (simp_all add: page_ok_def clamp_def)

lemma turn_page_ok: "page_ok rows a p \<Longrightarrow> page_ok rows a (prev_page p)" "page_ok rows a p \<Longrightarrow> page_ok rows a (next_page p)"
  by (auto simp: prev_page_def next_page_def intro!: page_ok_set(4))

lemma choose_per_page_ok: "page_ok rows a p \<Longrightarrow> page_ok rows a (choose_per_page v p)"
  by (auto simp: choose_per_page_def clamp_range intro!: page_ok_set(4,7) split: option.split)

lemma click_ok:
  assumes "page_ok rows a p" "is_admin a" "click t (Some a) ev p = (p', ts)"
  shows "page_ok rows a p' \<and> list_all (server_accepts rows (cu_role a) (cu_id a)) ts"
proof (cases ev)
  case (ClickAdjust inc)
  then show ?thesis using assms start_adjust_ok[of rows a p t "if inc then 1 else - 1" p' ts] by (auto simp: click_def split: if_splits)
next
  case ClickSubmit
  then show ?thesis using assms start_form_ok by (auto simp: click_def split: if_splits)
next
  case ClickDelete
  then show ?thesis using assms start_delete_ok by (auto simp: click_def split: if_splits)
next
  case RunEffect
  then show ?thesis using assms page_ok_pages[OF assms(1)] by (auto simp: click_def run_list_effect_def server_accepts_def)
qed (use assms in \<open>auto simp: click_def open_create_def close_all_def change_search_def page_ok_set open_edit_ok open_delete_ok
        turn_page_ok choose_per_page_ok\<close>)

lemma page_failure_ok:
  assumes "page_ok rows a (fst w)" "\<And>p. page_ok rows a p \<Longrightarrow> page_ok rows a (f p)"
  shows "page_ok rows a (fst (page_failure lib meth path e f w))"
  using assms by (auto simp: page_failure_def split: prod.split bool.split)

lemma finish_list_ok:
  "page_ok rows a p \<Longrightarrow> (case res of Inr d \<Rightarrow> from_rows rows (pd_items d) | Inl _ \<Rightarrow> True) \<Longrightarrow> page_ok rows a (fst (finish_list lib v cp cpp res (p, ui)))"
  by (cases res) (simp_all add: finish_list_def page_failure_ok page_ok_set)

lemma finish_adjust_ok: "page_ok rows a p \<Longrightarrow> page_ok rows a (fst (finish_adjust lib i res (p, ui)))"
  using page_ok_set(9)[of rows a "p\<lparr>up_submitting := False\<rparr>"] by (cases res) (simp_all add: finish_adjust_def Let_def page_failure_ok)

lemma finish_delete_ok: "page_ok rows a p \<Longrightarrow> page_ok rows a (fst (finish_delete lib i res (p, ui)))"
  by (cases res) (simp_all add: finish_delete_def Let_def page_failure_ok page_ok_set)

lemma finish_form_ok: "page_ok rows a p \<Longrightarrow> page_ok rows a (fst (finish_form lib k i res (p, ui)))"
  by (cases res) (simp_all add: finish_form_def Let_def page_failure_ok page_ok_set)

lemma finish_task_ok:
  assumes "page_ok rows a p" "answer_from rows ev" "finish_task lib ev task (p, ui) = Some (p', ui')"
  shows "page_ok rows a p'"
proof -
  note f = finish_list_ok[OF assms(1), of _ lib _ _ _ ui] finish_adjust_ok[OF assms(1), of lib _ _ ui]
    finish_delete_ok[OF assms(1), of lib _ _ ui] finish_form_ok[OF assms(1), of lib _ _ _ ui]
  show ?thesis
    using assms(2,3) f
    by (cases ev; cases task; simp add: finish_task_def answer_from_def; metis fst_conv)
qed

definition world_ok :: "(string \<times> string) list \<Rightarrow> current_user \<Rightarrow> 's page_world \<Rightarrow> bool" where
  "world_ok rows a w \<longleftrightarrow> page_ok rows a (pw_page w) \<and> list_all (server_accepts rows (cu_role a) (cu_id a)) (pw_tasks w)"

lemma list_all_remove: "list_all P ts \<Longrightarrow> list_all P (remove_task i ts)"
  by (auto simp: remove_task_def list_all_iff dest: in_set_takeD in_set_dropD)

lemma answer_ok: "world_ok rows a w \<Longrightarrow> answer_from rows ev \<Longrightarrow> world_ok rows a (answer lib ev i w)"
  using finish_task_ok[of rows a "pw_page w" ev lib "pw_tasks w ! i" "pw_ui w"]
  by (auto simp: answer_def world_ok_def list_all_remove split: option.split)

lemma poll_ok:
  assumes "world_ok rows a w"
  shows "world_ok rows a (poll_list i w)"
proof (cases "i < length (pw_tasks w)")
  case True
  then have acc: "server_accepts rows (cu_role a) (cu_id a) (pw_tasks w ! i)" using assms by (simp add: world_ok_def list_all_length)
  have "page_ok rows a ((pw_page w)\<lparr>up_list := Loading\<rparr>)" using assms by (simp add: world_ok_def page_ok_set)
  moreover have "list_all P (ts[i := x])" if "list_all P ts" "P x" for P ts and x :: page_task
    using that set_update_subset_insert[of ts i x] by (auto simp: list_all_iff)
  ultimately show ?thesis
    using assms acc True by (auto simp: poll_list_def begin_list_def world_ok_def server_accepts_def split: page_task.split)
qed (use assms in \<open>simp add: poll_list_def\<close>)

lemma page_step_ok:
  assumes "world_ok rows a w" "is_admin a" "answer_from rows ev"
  shows "world_ok rows a (page_step lib t (Some a) ev w)"
proof -
  have c: "world_ok rows a (case click t (Some a) ev (pw_page w) of (p, new) \<Rightarrow> w\<lparr>pw_page := p, pw_tasks := pw_tasks w @ new\<rparr>)"
    using assms(1) click_ok[of rows a "pw_page w" t ev] assms(2) by (auto simp: world_ok_def split: prod.split)
  then show ?thesis using assms answer_ok poll_ok by (cases ev) (simp_all add: page_step_def)
qed

lemma page_run_ok:
  "world_ok rows a w \<Longrightarrow> is_admin a \<Longrightarrow> list_all (answer_from rows) evs \<Longrightarrow> world_ok rows a (page_run lib t (Some a) evs w)"
  by (induction evs arbitrary: w) (simp_all add: page_run_def page_step_ok)

section \<open>Late answers\<close>

lemma shown_rows_cong: "up_list q = up_list p \<Longrightarrow> up_search q = up_search p \<Longrightarrow> shown_rows q = shown_rows p"
  by (cases "up_list p") (simp_all add: shown_rows_def)

text \<open>The answer of an edit closes the dialog of another account in the same way.\<close>

lemma late_edit_closes_other_dialog:
  assumes "up_modal p = EditModal" "up_editing p = Some u" "it_role u \<noteq> ''system''" "\<not> up_submitting p"
    and "trim (up_name p) \<noteq> []" "trim (to_lower (up_email p)) \<noteq> []"
    and "v \<in> set (shown_rows p)" "fst (row_buttons (Some a) v)"
  shows "let w = page_run lib t (Some a) [ClickSubmit, CloseModal, OpenEdit v, UnitAnswer 0 (Inr ())]
      \<lparr>pw_page = p, pw_tasks = [], pw_ui = ui\<rparr> in
    up_modal (pw_page w) = NoModal \<and> up_editing (pw_page w) = None"
proof -
  have sh: "shown_rows (close_all (p\<lparr>up_submitting := True, up_error := None\<rparr>)) = shown_rows p"
    by (rule shown_rows_cong) (simp_all add: close_all_def)
  show ?thesis
    using assms sh
    by (simp add: page_run_def page_step_def click_def in_form_def start_form_def open_edit_def answer_def finish_task_def finish_form_def Let_def)
qed

text \<open>The row of an administrator shows no buttons to the system role, which may edit and delete it by the permissions the page computes.\<close>

lemma protected_rows_hide_buttons:
  "is_system a \<Longrightarrow> it_role u = ''admin'' \<Longrightarrow> can_edit_row (Some a) u \<and> row_buttons (Some a) u = (False, False)"
  by (simp add: can_edit_row_def row_buttons_def)

section \<open>Typed amounts\<close>

lemma f64_exceeds_value: "f64_exceeds (Finite m e) n \<longleftrightarrow> real n < f64_value (Finite m e)"
proof (cases "0 \<le> e")
  case True
  have "int n < m * 2 ^ nat e \<longleftrightarrow> real_of_int (int n) < real_of_int (m * 2 ^ nat e)" by (simp only: of_int_less_iff)
  then show ?thesis using True by (simp add: f64_exceeds_def f64_value_def power_int_def)
next
  case False
  have "int n * 2 ^ nat (- e) < m \<longleftrightarrow> real_of_int (int n * 2 ^ nat (- e)) < real_of_int m" by (simp only: of_int_less_iff)
  then show ?thesis using False by (simp add: f64_exceeds_def f64_value_def power_int_def field_simps)
qed

text \<open>A positive decimal below a million, with at most ten digits after the point, is read, accepted and scaled to within two units.\<close>

lemma accepted_decimal:
  assumes "0 < n" "0 < d" "d \<le> 10 ^ 10" "n < 1000000 * d"
  shows "\<exists>m e. round_f64 n d = Finite m e \<and> 0 < m \<and> \<not> f64_exceeds (Finite m e) 1000000
    \<and> \<bar>real_of_int (f64_round_i64 (f64_times (Finite m e) BALANCE_SCALE_NAT)) - real n / real d * 10 ^ 10\<bar>
        < (if n < 262144 * d then 1 else 2)"
proof -
  define x where "x = real n / real d"
  have dr: "0 < real d" "real d \<le> 10 ^ 10" using assms(2,3) by (simp_all flip: of_nat_le_iff)
  have "real n + 1 \<le> 1000000 * real d" using assms(4) by (simp add: flip: of_nat_mult of_nat_Suc)
  then have "x + 1 / real d \<le> 1000000" using dr by (simp add: x_def field_simps)
  moreover have "1 / 10 ^ 10 \<le> 1 / real d" using dr by (simp add: field_simps)
  ultimately have hi: "x \<le> 1000000 - 1 / 10 ^ 10" by linarith
  have lo: "1 / 10 ^ 10 \<le> x"
    using assms(1) dr frac_le[of 1 "real n" "real d" "10 ^ 10"] by (simp add: x_def)
  have small: "2 powi (- 1000) \<le> (1 / 10 ^ 10 :: real)" using power_int_increasing[of "- 1000" "- 40" "2::real"] by (simp add: power_int_minus)
  have big: "(1000000::real) < 2 powi 20" "(262144::real) = 2 powi 18" "(2::real) powi 20 \<le> 2 powi 1000" by (simp_all add: power_int_increasing)
  obtain m e where me: "round_f64 n d = Finite m e" "0 < m"
    using round_f64_relative[OF assms(1,2)] lo hi small big unfolding x_def[symmetric] by (smt (verit) divide_pos_pos zero_less_power)
  define v where "v = real_of_int m * 2 powi e"
  have err: "\<bar>v - x\<bar> \<le> 1 / 2 * 2 powi (k - 53)" if "x < 2 powi k" "- 1021 \<le> k" "k \<le> 1000" for k
  proof -
    have "e \<le> k - 53" "\<bar>v - x\<bar> \<le> 1 / 2 * 2 powi e"
      using round_f64_error[OF assms(1,2) that[unfolded x_def]] me(1) by (auto simp: v_def x_def)
    moreover have "2 powi e \<le> (2::real) powi (k - 53)" using \<open>e \<le> k - 53\<close> by (intro power_int_increasing) simp_all
    ultimately show ?thesis by simp
  qed
  have e20: "\<bar>v - x\<bar> \<le> 1 / 2 ^ 34" using err[of 20] hi big by (simp add: power_int_minus)
  have S: "real BALANCE_SCALE_NAT = 10 ^ 10" "0 < BALANCE_SCALE_NAT" by (simp_all add: BALANCE_SCALE_NAT_def)
  have "v - x \<le> 1 / 2 ^ 34" using e20 abs_ge_self[of "v - x"] by linarith
  moreover have "(1 / 2 ^ 34 :: real) \<le> 1 / 10 ^ 10" by simp
  ultimately have v: "v \<le> 1000000" using hi by linarith
  have "\<not> f64_exceeds (Finite m e) 1000000" using v by (simp add: f64_exceeds_value f64_value_def v_def)
  moreover define r where "r = real_of_int (f64_round_i64 (f64_times (Finite m e) BALANCE_SCALE_NAT))"
  moreover note tri = abs_via[of r "x * 10 ^ 10" "v * 10 ^ 10"]
  have scaled: "\<bar>v * 10 ^ 10 - x * 10 ^ 10\<bar> = \<bar>v - x\<bar> * 10 ^ 10" by (simp only: left_diff_distrib[symmetric] abs_mult) simp
  have "\<bar>r - x * 10 ^ 10\<bar> < (if n < 262144 * d then 1 else 2)"
  proof (cases "n < 262144 * d")
    case True
    then have "real n < 262144 * real d" by (simp flip: of_nat_mult)
    then have x18: "x < 262144" using dr by (simp add: x_def field_simps)
    then have "x < 2 powi 18" by simp
    from err[OF this] have e18: "\<bar>v - x\<bar> \<le> 1 / 2 ^ 36" by (simp add: power_int_minus)
    moreover have "(1 / 2 ^ 36 :: real) \<le> 1" by simp
    ultimately have "v < 262145" using x18 abs_ge_self[of "v - x"] by linarith
    then have "v * real BALANCE_SCALE_NAT < 2 powi 52" unfolding S by simp
    from times_round_error[OF me(2) S(2) this[unfolded v_def]]
    have "\<bar>r - v * 10 ^ 10\<bar> \<le> 3 / 4" by (simp add: v_def S r_def)
    moreover have "\<bar>v - x\<bar> * 10 ^ 10 < 1 / 5" using e18 by (simp add: field_simps)
    ultimately show ?thesis using scaled tri True by simp
  next
    case False
    have "v * real BALANCE_SCALE_NAT < 2 powi 54" using v unfolding S by simp
    from times_round_error[OF me(2) S(2) this[unfolded v_def]]
    have "\<bar>r - v * 10 ^ 10\<bar> \<le> 1" by (simp add: v_def S r_def)
    moreover have "\<bar>v - x\<bar> * 10 ^ 10 < 3 / 5" using e20 by simp
    ultimately show ?thesis using scaled tri False by simp
  qed
  ultimately show ?thesis using me by (intro exI[of _ m] exI[of _ e]) (simp add: x_def)
qed

lemma trim_digit_first: "is_digit c \<Longrightarrow> trim (c # s) \<noteq> []"
  by (simp add: trim_def trim_end_def trim_start_def is_space_def is_digit_def dropWhile_eq_Nil_conv)

lemma typed_decimal:
  assumes "list_all is_digit ip" "ip \<noteq> []" "list_all is_digit fp" "length fp \<le> 10"
    and "0 < digits_val (ip @ fp)" "digits_val (ip @ fp) < 1000000 * 10 ^ length fp"
  shows "\<exists>stored. typed_amount t (ip @ CHR ''.'' # fp) = Inr stored
    \<and> \<bar>stored - int (digits_val (ip @ fp) * 10 ^ (10 - length fp))\<bar> \<le> (if digits_val (ip @ fp) < 262144 * 10 ^ length fp then 0 else 1)"
proof -
  define n where "n = digits_val (ip @ fp)"
  define d :: nat where "d = 10 ^ length fp"
  have d: "0 < d" "d \<le> 10 ^ 10" using assms(4) power_increasing[of "length fp" 10 "10::nat"] by (simp_all add: d_def)
  obtain m e where me: "round_f64 n d = Finite m e" "0 < m" "\<not> f64_exceeds (Finite m e) 1000000"
      "\<bar>real_of_int (f64_round_i64 (f64_times (Finite m e) BALANCE_SCALE_NAT)) - real n / real d * 10 ^ 10\<bar> < (if n < 262144 * d then 1 else 2)"
    using accepted_decimal[of n d] d assms(5,6) unfolding n_def[symmetric] d_def[symmetric] by blast
  have "real d * 10 ^ (10 - length fp) = 10 ^ 10" using assms(4) by (simp add: d_def flip: power_add)
  then have "real n / real d * 10 ^ 10 = real_of_int (int (n * 10 ^ (10 - length fp)))" using d by (simp add: field_simps)
  then have "\<bar>f64_round_i64 (f64_times (Finite m e) BALANCE_SCALE_NAT) - int (n * 10 ^ (10 - length fp))\<bar> < (if n < 262144 * d then 1 else 2)"
    using me(4) by (simp del: of_nat_mult flip: of_int_diff of_int_abs split: if_splits)
  moreover have "trim (ip @ CHR ''.'' # fp) \<noteq> []" using assms(1,2) trim_digit_first by (cases ip) simp_all
  moreover have "parse_f64 (ip @ CHR ''.'' # fp) = Some (Finite m e)"
    using parse_f64_digits[OF assms(1-3)] me(1) by (simp add: n_def d_def)
  ultimately show ?thesis
    using me(2,3) by (simp add: typed_amount_def is_finite_def f64_not_positive_def n_def[symmetric] d_def[symmetric] split: if_splits)
qed

section \<open>Sample\<close>

definition sample_texts :: users_texts where
  "sample_texts =
     \<lparr>tx_adjust_empty = ''empty'', tx_adjust_invalid = ''invalid'', tx_adjust_positive = ''positive'', tx_adjust_overflow = ''overflow'',
      tx_system_editable = ''system'', tx_name_empty = ''name'', tx_email_empty = ''email'', tx_password_empty = ''password'',
      tx_no_target_id = ''id''\<rparr>"

definition sample_admin :: current_user where
  "sample_admin = \<lparr>cu_id = ''1'', cu_role = ''admin'', cu_name = ''root'', cu_email = ''root@x'', cu_balance = 0\<rparr>"

definition sample_row :: "string \<Rightarrow> user_item" where
  "sample_row i = \<lparr>it_id = i, it_email = i @ ''@x'', it_name = i, it_role = ''user'', it_created_at = 0, it_updated_at = 0, it_balance = 0\<rparr>"

definition sample_page_lib :: "nat page_lib" where
  "sample_page_lib = \<lparr>pl_web = sample_web_lib, pl_json_field = (\<lambda>_ _. None), pl_now_ms = 0\<rparr>"

definition sample_ui :: "nat web_ui" where
  "sample_ui = \<lparr>ui_auth = sample_state\<lparr>wa_user := Some sample_admin\<rparr>, ui_route = Dashboard, ui_log = \<lparr>lb_entries = [], lb_next_id = 1\<rparr>\<rparr>"

text \<open>An amount a page may send: a whole number of tens.\<close>

lemma sample_amount: "typed_amount sample_texts ''2.5'' = Inr 25000000000"
proof -
  obtain stored where "typed_amount sample_texts ''2.5'' = Inr stored" "\<bar>stored - 25000000000\<bar> \<le> 0"
    using typed_decimal[of "''2''" "''5''" sample_texts] by (auto simp: is_digit_def digits_val_def digit_val_def)
  then show ?thesis by simp
qed

definition sample_events :: "page_event list" where
  "sample_events =
     [RunEffect, PollList 0, ListAnswer 0 (Inr \<lparr>pd_items = [sample_row ''2'', sample_row ''3''], pd_total = 2, pd_total_pages = 1\<rparr>),
      OpenEdit (sample_row ''2''), TypeBalance ''2.5'', ClickAdjust True]"

lemma sample_edit_run:
  "page_run sample_page_lib sample_texts (Some sample_admin) sample_events
     \<lparr>pw_page = new_users_page [], pw_tasks = [], pw_ui = sample_ui\<rparr> =
   \<lparr>pw_page = (new_users_page [])\<lparr>up_list := Loaded [sample_row ''2'', sample_row ''3''], up_total := 2, up_total_pages := 1,
       up_modal := EditModal, up_editing := Some (sample_row ''2''), up_name := ''2'', up_email := ''2@x'', up_balance := ''2.5'',
       up_submitting := True\<rparr>,
    pw_tasks = [AdjustWaiting ''2'' 25000000000],
    pw_ui = log_of (push_log_ok 0 ''GET'' ''/api/users'') sample_ui\<rparr>"
  by (simp add: sample_events_def page_run_def page_step_def click_def run_list_effect_def poll_list_def begin_list_def answer_def
      finish_task_def finish_list_def new_users_page_def sample_page_lib_def sample_row_def open_edit_def shown_rows_def row_buttons_def
      can_edit_row_def sample_admin_def is_admin_def is_system_def can_adjust_def role_of_actor_def start_adjust_def sample_amount remove_task_def)

section \<open>Properties\<close>

text \<open>C15: binary fractions in the balance form. A typed amount with up to ten decimals below a million is sent as the number of stored units it stands for, up
  to a single unit, although it passes through binary floating point twice; below 262144 it is exact.\<close>

theorem typed_amount_error:
  assumes "list_all is_digit ip" "ip \<noteq> []" "list_all is_digit fp" "length fp \<le> 10"
    and "0 < digits_val (ip @ fp)" "digits_val (ip @ fp) < 1000000 * 10 ^ length fp"
  shows "case typed_amount t (ip @ CHR ''.'' # fp) of
      Inl _ \<Rightarrow> False
    | Inr stored \<Rightarrow>
        \<bar>stored - int (digits_val (ip @ fp) * 10 ^ (10 - length fp))\<bar>
          \<le> (if digits_val (ip @ fp) < 262144 * 10 ^ length fp then 0 else 1)"
  using typed_decimal[OF assms, of t] by auto

lemma typed_amount_error_witness:
  "case typed_amount sample_texts ''2.5'' of Inl _ \<Rightarrow> False | Inr stored \<Rightarrow> \<bar>stored - 25000000000\<bar> \<le> 0"
  using typed_amount_error[of "''2''" "''5''" sample_texts] by (simp add: is_digit_def digits_val_def digit_val_def split: sum.splits)

text \<open>C10: the page and the rules of the server. For an administrator or the system role, whatever is clicked and typed and whatever answers arrive in
  whatever order, the page stays on a valid page number and size, and each request it has sent is one the actor is entitled to: an edit, a deletion
  or an adjustment is of an account the server has listed with a role the actor may change, never of a protected account, and never the deletion of
  the actor; a given role is one the actor may give; an amount fits 64 bits; an address is in lower case and nothing is blank. The formats of
  names, addresses and passwords are left to the server.\<close>

theorem users_page_requests_allowed:
  assumes "require_admin_page w0 = (True, None)" "wa_user w0 = Some a" "list_all answer_known evs"
  shows "let w = page_run lib t (Some a) evs \<lparr>pw_page = new_users_page search, pw_tasks = [], pw_ui = ui\<rparr> in
    1 \<le> up_page (pw_page w) \<and> 1 \<le> up_per_page (pw_page w) \<and> up_per_page (pw_page w) \<le> 100
    \<and> list_all (server_accepts (listed evs) (cu_role a) (cu_id a)) (pw_tasks w)"
proof -
  have "is_admin a" using assms(1,2) by (simp add: require_admin_page_def)
  moreover have "world_ok (listed evs) a \<lparr>pw_page = new_users_page search, pw_tasks = [], pw_ui = ui\<rparr>"
    by (simp add: world_ok_def page_ok_def new_users_page_def)
  ultimately have "world_ok (listed evs) a (page_run lib t (Some a) evs \<lparr>pw_page = new_users_page search, pw_tasks = [], pw_ui = ui\<rparr>)"
    using answer_from_listed[OF assms(3)] by (intro page_run_ok)
  then show ?thesis by (simp add: world_ok_def page_ok_def Let_def)
qed

lemma users_page_requests_allowed_witness:
  "server_accepts [(''2'', ''user''), (''3'', ''user'')] ''admin'' ''1'' (AdjustWaiting ''2'' 25000000000)"
proof -
  have u: "wa_user (ui_auth sample_ui) = Some sample_admin" by (simp add: sample_ui_def)
  have "require_admin_page (ui_auth sample_ui) = (True, None)"
    by (simp add: require_admin_page_def u sample_admin_def is_admin_def)
  moreover have "list_all answer_known sample_events"
    by (simp add: sample_events_def answer_known_def known_roles_def sample_row_def)
  ultimately show ?thesis
    using users_page_requests_allowed[where ?w0.0 = "ui_auth sample_ui" and a = sample_admin and evs = sample_events and search = "[]"
        and lib = sample_page_lib and t = sample_texts and ui = sample_ui] u
    by (simp add: sample_edit_run Let_def) (simp add: sample_admin_def sample_events_def listed_def sample_row_def)
qed

text \<open>A late answer on another account. When a balance dialog is closed while its request is out and the dialog of another account is opened, the answer
  writes the balance of the first account into the second account's dialog.\<close>

theorem late_balance_on_other_user:
  assumes "up_modal p = EditModal" "up_editing p = Some u" "\<not> up_submitting p" "can_adjust (Some a) p"
    and "typed_amount t (up_balance p) = Inr stored"
    and "v \<in> set (shown_rows p)" "fst (row_buttons (Some a) v)"
  shows "let w = page_run lib t (Some a) [ClickAdjust True, CloseModal, OpenEdit v, BalanceAnswer 0 (Inr b)]
      \<lparr>pw_page = p, pw_tasks = [], pw_ui = ui\<rparr> in
    up_modal (pw_page w) = EditModal \<and> up_editing (pw_page w) = Some (v\<lparr>it_balance := b\<rparr>)"
proof -
  have sh: "shown_rows (close_all (p\<lparr>up_submitting := True, up_error := None\<rparr>)) = shown_rows p"
    by (rule shown_rows_cong) (simp_all add: close_all_def)
  show ?thesis
    using assms sh
    by (simp add: page_run_def page_step_def click_def start_adjust_def open_edit_def answer_def finish_task_def finish_adjust_def Let_def)
qed

lemma late_balance_on_other_user_witness:
  "up_editing (pw_page (page_run sample_page_lib sample_texts (Some sample_admin)
       [ClickAdjust True, CloseModal, OpenEdit (sample_row ''3''), BalanceAnswer 0 (Inr 25000000000)]
       \<lparr>pw_page = (new_users_page [])\<lparr>up_list := Loaded [sample_row ''2'', sample_row ''3''], up_modal := EditModal,
           up_editing := Some (sample_row ''2''), up_balance := ''2.5''\<rparr>, pw_tasks = [], pw_ui = sample_ui\<rparr>))
   = Some ((sample_row ''3'')\<lparr>it_balance := 25000000000\<rparr>)"
proof -
  define p where "p = (new_users_page [])\<lparr>up_list := Loaded [sample_row ''2'', sample_row ''3''], up_modal := EditModal,
           up_editing := Some (sample_row ''2''), up_balance := ''2.5''\<rparr>"
  have "up_modal p = EditModal" "up_editing p = Some (sample_row ''2'')" "\<not> up_submitting p"
    "can_adjust (Some sample_admin) p" "typed_amount sample_texts (up_balance p) = Inr 25000000000"
    "sample_row ''3'' \<in> set (shown_rows p)" "fst (row_buttons (Some sample_admin) (sample_row ''3''))"
    by (simp_all add: p_def sample_amount new_users_page_def can_adjust_def role_of_actor_def sample_admin_def sample_row_def
        shown_rows_def row_buttons_def can_edit_row_def is_admin_def)
  from late_balance_on_other_user[OF this, where lib = sample_page_lib and b = 25000000000 and ui = sample_ui]
  show ?thesis by (simp add: Let_def p_def)
qed

end
