(* ===== verification/Pages.thy ===== *)
theory Pages
  imports UsersPage
begin

text \<open>
  What the pages of the web application share: a page with its signals, the requests it has started and the shared session; the answers
  come later and in any order. A page that is left goes away; whether its unfinished tasks go with it is a parameter, \<^verbatim>\<open>keeps\<close>
  (the documentation of \<^verbatim>\<open>spawn\<close> says that they do). Also the templates of the translations, \<^verbatim>\<open>crates/i18n/src/tf.rs\<close>.
\<close>

section \<open>Pages and their tasks\<close>

record ('p, 't, 'u) page_state =
  ps_page :: 'p
  ps_tasks :: "'t list"
  ps_mounted :: bool
  ps_ui :: 'u

text \<open>What a step leaves: the page and the session, the tasks it starts, whether it leads to another page.\<close>

type_synonym ('p, 't, 'u) page_result = "('p \<times> 'u) \<times> 't list \<times> bool"

datatype 'c page_input = Click 'c | Answer nat

definition stay :: "'p \<Rightarrow> 'u \<Rightarrow> ('p, 't, 'u) page_result" where "stay p u = ((p, u), [], False)"

definition settle :: "bool \<Rightarrow> ('p, 't, 'u) page_result \<Rightarrow> 't list \<Rightarrow> ('p, 't, 'u) page_state \<Rightarrow> ('p, 't, 'u) page_state" where
  "settle keeps r ts s =
     (case r of ((p, u), new, leaves) \<Rightarrow>
        s\<lparr>ps_page := p, ps_ui := u, ps_tasks := (if leaves \<and> \<not> keeps then [] else ts @ new), ps_mounted := ps_mounted s \<and> \<not> leaves\<rparr>)"

definition input_step ::
    "bool \<Rightarrow> ('c \<Rightarrow> 'p \<times> 'u \<Rightarrow> ('p, 't, 'u) page_result) \<Rightarrow> ('t \<Rightarrow> 'p \<times> 'u \<Rightarrow> ('p, 't, 'u) page_result)
      \<Rightarrow> 'c page_input \<Rightarrow> ('p, 't, 'u) page_state \<Rightarrow> ('p, 't, 'u) page_state" where
  "input_step keeps on_click on_answer inp s =
     (case inp of
        Click c \<Rightarrow> if ps_mounted s then settle keeps (on_click c (ps_page s, ps_ui s)) (ps_tasks s) s else s
      | Answer i \<Rightarrow>
          if i < length (ps_tasks s)
          then settle keeps (on_answer (ps_tasks s ! i) (ps_page s, ps_ui s)) (take i (ps_tasks s) @ drop (Suc i) (ps_tasks s)) s
          else s)"

definition run_inputs ::
    "bool \<Rightarrow> ('c \<Rightarrow> 'p \<times> 'u \<Rightarrow> ('p, 't, 'u) page_result) \<Rightarrow> ('t \<Rightarrow> 'p \<times> 'u \<Rightarrow> ('p, 't, 'u) page_result)
      \<Rightarrow> 'c page_input list \<Rightarrow> ('p, 't, 'u) page_state \<Rightarrow> ('p, 't, 'u) page_state" where
  "run_inputs keeps on_click on_answer inps s = fold (input_step keeps on_click on_answer) inps s"

lemma distinct_map_remove:
  assumes "distinct (map f ts)" "i < length ts" "t \<in> set (take i ts @ drop (Suc i) ts)"
  shows "t \<in> set ts" "f t \<noteq> f (ts ! i)"
proof -
  have ts: "ts = take i ts @ ts ! i # drop (Suc i) ts" by (rule id_take_nth_drop[OF assms(2)])
  show "t \<in> set ts" by (subst ts) (use assms(3) in auto)
  have "distinct (map f (take i ts @ ts ! i # drop (Suc i) ts))" using assms(1) ts by simp
  then show "f t \<noteq> f (ts ! i)" using assms(3) by (auto simp flip: image_image) (metis image_eqI)+
qed

lemma distinct_map_without:
  assumes "distinct (map f ts)"
  shows "distinct (map f (take i ts @ drop (Suc i) ts))"
proof (cases "i < length ts")
  case True
  have "distinct (map f (take i ts @ ts ! i # drop (Suc i) ts))" using assms id_take_nth_drop[OF True] by simp
  then show ?thesis by (auto simp del: append_take_drop_id)
qed (use assms in simp)

lemma distinct_map_snoc: "distinct (map f xs) \<Longrightarrow> f y \<notin> f ` set xs \<Longrightarrow> distinct (map f (xs @ [y]))"
  by simp

section \<open>One request of a kind at a time\<close>

text \<open>
  The law of a page that guards its requests with flags: a click starts a request only when its flag is down and raises it; only the answer
  lowers it. Then no two requests of a kind are under way, and what a request was checked for still holds when its answer comes.
\<close>

locale guarded_page =
  fixes kind :: "'t \<Rightarrow> 'k" and busy :: "'k \<Rightarrow> 'p \<Rightarrow> bool" and good :: "'p \<Rightarrow> bool" and fit :: "'t \<Rightarrow> 'p \<Rightarrow> bool"
    and on_click :: "'c \<Rightarrow> 'p \<times> 'u \<Rightarrow> ('p, 't, 'u) page_result"
    and on_answer :: "'t \<Rightarrow> 'p \<times> 'u \<Rightarrow> ('p, 't, 'u) page_result"
  assumes click_law: "good p \<Longrightarrow> on_click c (p, u) = ((p', u'), new, l) \<Longrightarrow>
      good p' \<and> length new \<le> 1 \<and> (\<forall>k. busy k p \<longrightarrow> busy k p')
      \<and> (\<forall>t \<in> set new. \<not> busy (kind t) p \<and> busy (kind t) p' \<and> fit t p')
      \<and> (\<forall>t. busy (kind t) p \<and> fit t p \<longrightarrow> fit t p')"
    and answer_law: "good p \<Longrightarrow> busy (kind t) p \<Longrightarrow> fit t p \<Longrightarrow> on_answer t (p, u) = ((p', u'), new, l) \<Longrightarrow>
      good p' \<and> length new \<le> 1 \<and> (\<forall>t' \<in> set new. kind t' = kind t \<and> busy (kind t') p' \<and> fit t' p')
      \<and> (\<forall>k. k \<noteq> kind t \<and> busy k p \<longrightarrow> busy k p') \<and> (\<forall>t'. kind t' \<noteq> kind t \<and> fit t' p \<longrightarrow> fit t' p')"
begin

definition tasks_ok :: "('p, 't, 'u) page_state \<Rightarrow> bool" where
  "tasks_ok s \<longleftrightarrow> good (ps_page s) \<and> distinct (map kind (ps_tasks s))
     \<and> (\<forall>t \<in> set (ps_tasks s). busy (kind t) (ps_page s) \<and> fit t (ps_page s))"

lemma tasks_click:
  assumes "tasks_ok s"
  shows "tasks_ok (input_step keeps on_click on_answer (Click c) s)"
proof (cases "ps_mounted s")
  case True
  obtain p' u' new l where r: "on_click c (ps_page s, ps_ui s) = ((p', u'), new, l)" by (metis prod.exhaust)
  have g: "good (ps_page s)" using assms by (simp add: tasks_ok_def)
  note law = click_law[OF g r]
  have "distinct (map kind (ps_tasks s @ new))"
  proof (cases new)
    case (Cons t rest)
    then have "rest = []" "\<not> busy (kind t) (ps_page s)" using law by simp_all
    then show ?thesis using assms Cons by (auto simp: tasks_ok_def)
  qed (use assms in \<open>simp add: tasks_ok_def\<close>)
  then show ?thesis using assms law True r by (auto simp: input_step_def settle_def tasks_ok_def)
qed (use assms in \<open>simp add: input_step_def\<close>)

lemma tasks_answer:
  assumes "tasks_ok s"
  shows "tasks_ok (input_step keeps on_click on_answer (Answer i) s)"
proof (cases "i < length (ps_tasks s)")
  case True
  let ?t = "ps_tasks s ! i" and ?rest = "take i (ps_tasks s) @ drop (Suc i) (ps_tasks s)"
  obtain p' u' new l where r: "on_answer ?t (ps_page s, ps_ui s) = ((p', u'), new, l)" by (metis prod.exhaust)
  have t: "busy (kind ?t) (ps_page s)" "fit ?t (ps_page s)" and g: "good (ps_page s)" and d: "distinct (map kind (ps_tasks s))"
    using assms True by (simp_all add: tasks_ok_def)
  note law = answer_law[OF g t r]
  have other: "u \<in> set (ps_tasks s) \<and> kind u \<noteq> kind ?t" if "u \<in> set ?rest" for u
    using distinct_map_remove[OF d True that] by simp
  have "distinct (map kind (?rest @ new))"
  proof (cases new)
    case (Cons t' rest)
    then have "rest = []" and "kind t' = kind ?t" using law by simp_all
    then have "kind t' \<notin> kind ` set ?rest" using other by (metis imageE)
    from distinct_map_snoc[OF distinct_map_without[OF d] this] show ?thesis unfolding Cons \<open>rest = []\<close> .
  qed (use distinct_map_without[OF d, of i] in simp)
  moreover have "busy (kind u) p' \<and> fit u p'" if "u \<in> set ?rest \<or> u \<in> set new" for u
    using that other law assms by (auto simp: tasks_ok_def)
  ultimately show ?thesis using law True r by (auto simp: input_step_def settle_def tasks_ok_def)
qed (use assms in \<open>simp add: input_step_def\<close>)

lemma run_ok: "tasks_ok s \<Longrightarrow> tasks_ok (run_inputs keeps on_click on_answer inps s)"
proof (induction inps arbitrary: s)
  case (Cons inp inps)
  then show ?case using tasks_click tasks_answer by (cases inp) (simp_all add: run_inputs_def)
qed (simp add: run_inputs_def)

lemma started_ok: "good p \<Longrightarrow> tasks_ok \<lparr>ps_page = p, ps_tasks = [], ps_mounted = True, ps_ui = u\<rparr>"
  by (simp add: tasks_ok_def)

lemma one_of_a_kind:
  assumes "good p"
  shows "let s = run_inputs keeps on_click on_answer inps \<lparr>ps_page = p, ps_tasks = [], ps_mounted = True, ps_ui = u\<rparr> in
    distinct (map kind (ps_tasks s)) \<and> good (ps_page s) \<and> list_all (\<lambda>t. fit t (ps_page s)) (ps_tasks s)"
  using run_ok[OF started_ok[OF assms]] by (simp add: Let_def tasks_ok_def list_all_iff)

end

section \<open>Every flag comes down\<close>

text \<open>
  The law of a page whose flags are raised only together with a request and lowered by its answer, where an answer starts only lighter
  tasks: while the page is there, a raised flag has a task, and once its tasks are answered no flag is up.
\<close>

locale live_page = guarded_page kind busy good fit on_click on_answer
  for kind :: "'t \<Rightarrow> 'k" and busy :: "'k \<Rightarrow> 'p \<Rightarrow> bool" and good :: "'p \<Rightarrow> bool" and fit :: "'t \<Rightarrow> 'p \<Rightarrow> bool"
    and on_click :: "'c \<Rightarrow> 'p \<times> 'u \<Rightarrow> ('p, 't, 'u) page_result"
    and on_answer :: "'t \<Rightarrow> 'p \<times> 'u \<Rightarrow> ('p, 't, 'u) page_result" +
  fixes weight :: "'t \<Rightarrow> nat"
  assumes click_raises: "good p \<Longrightarrow> on_click c (p, u) = ((p', u'), new, l) \<Longrightarrow> busy k p' \<Longrightarrow> busy k p \<or> k \<in> kind ` set new"
    and answer_lowers: "good p \<Longrightarrow> busy (kind t) p \<Longrightarrow> fit t p \<Longrightarrow> on_answer t (p, u) = ((p', u'), new, l) \<Longrightarrow> busy k p' \<Longrightarrow>
      l \<or> (k \<noteq> kind t \<and> busy k p) \<or> k \<in> kind ` set new"
    and answer_weight: "good p \<Longrightarrow> busy (kind t) p \<Longrightarrow> fit t p \<Longrightarrow> on_answer t (p, u) = ((p', u'), new, l) \<Longrightarrow>
      sum_list (map weight new) < weight t"
begin

definition flags_ok :: "('p, 't, 'u) page_state \<Rightarrow> bool" where
  "flags_ok s \<longleftrightarrow> tasks_ok s \<and> (ps_mounted s \<longrightarrow> (\<forall>k. busy k (ps_page s) \<longrightarrow> k \<in> kind ` set (ps_tasks s)))"

lemma flags_click:
  assumes "flags_ok s"
  shows "flags_ok (input_step keeps on_click on_answer (Click c) s)"
proof -
  let ?s = "input_step keeps on_click on_answer (Click c) s"
  obtain p' u' new l where r: "on_click c (ps_page s, ps_ui s) = ((p', u'), new, l)" by (metis prod.exhaust)
  have "good (ps_page s)" using assms by (simp add: flags_ok_def tasks_ok_def)
  note raises = click_raises[OF this r]
  have "k \<in> kind ` set (ps_tasks ?s)" if "ps_mounted ?s" "busy k (ps_page ?s)" for k
    using that assms raises[of k] by (auto simp: input_step_def settle_def r flags_ok_def split: if_splits)
  then show ?thesis using assms tasks_click[of s keeps c] by (simp add: flags_ok_def)
qed

lemma flags_answer:
  assumes "flags_ok s"
  shows "flags_ok (input_step keeps on_click on_answer (Answer i) s)"
proof (cases "i < length (ps_tasks s)")
  case True
  let ?s = "input_step keeps on_click on_answer (Answer i) s" and ?t = "ps_tasks s ! i"
  obtain p' u' new l where r: "on_answer ?t (ps_page s, ps_ui s) = ((p', u'), new, l)" by (metis prod.exhaust)
  have t: "good (ps_page s)" "busy (kind ?t) (ps_page s)" "fit ?t (ps_page s)"
    using assms True by (simp_all add: flags_ok_def tasks_ok_def)
  note lowers = answer_lowers[OF t r]
  have set: "set (ps_tasks s) = set (take i (ps_tasks s)) \<union> {?t} \<union> set (drop (Suc i) (ps_tasks s))"
    by (subst id_take_nth_drop[OF True]) auto
  have "k \<in> kind ` set (ps_tasks ?s)" if "ps_mounted ?s" "busy k (ps_page ?s)" for k
  proof -
    have m: "ps_mounted s" "\<not> l" "busy k p'" using that True by (simp_all add: input_step_def settle_def r)
    have "k \<in> kind ` set (take i (ps_tasks s)) \<union> kind ` set (drop (Suc i) (ps_tasks s)) \<union> kind ` set new"
      using lowers[OF m(3)] m assms set by (auto simp: flags_ok_def)
    then show ?thesis using m True by (auto simp: input_step_def settle_def r)
  qed
  then show ?thesis using assms tasks_answer[of s keeps i] by (simp add: flags_ok_def)
qed (use assms in \<open>simp add: input_step_def\<close>)

lemma flags_run: "flags_ok s \<Longrightarrow> flags_ok (run_inputs keeps on_click on_answer inps s)"
proof (induction inps arbitrary: s)
  case (Cons inp inps)
  then show ?case using flags_click flags_answer by (cases inp) (simp_all add: run_inputs_def)
qed (simp add: run_inputs_def)

text \<open>Answering the first task again and again, as often as the tasks weigh.\<close>

lemma answers_finish:
  assumes "flags_ok s" "sum_list (map weight (ps_tasks s)) \<le> n"
  shows "ps_tasks (run_inputs keeps on_click on_answer (replicate n (Answer 0)) s) = []"
  using assms
proof (induction n arbitrary: s)
  case 0
  show ?case
  proof (cases "ps_tasks s")
    case (Cons t ts)
    obtain p' u' new l where r: "on_answer t (ps_page s, ps_ui s) = ((p', u'), new, l)" by (metis prod.exhaust)
    have "0 < weight t" using answer_weight[OF _ _ _ r] 0(1) Cons by (auto simp: flags_ok_def tasks_ok_def)
    then show ?thesis using 0(2) Cons by simp
  qed (simp add: run_inputs_def)
next
  case (Suc n)
  let ?s = "input_step keeps on_click on_answer (Answer 0) s"
  have "sum_list (map weight (ps_tasks ?s)) \<le> n"
  proof (cases "ps_tasks s")
    case (Cons t ts)
    obtain p' u' new l where r: "on_answer t (ps_page s, ps_ui s) = ((p', u'), new, l)" by (metis prod.exhaust)
    have "sum_list (map weight new) < weight t" using answer_weight[OF _ _ _ r] Suc.prems(1) Cons by (auto simp: flags_ok_def tasks_ok_def)
    then show ?thesis using Suc.prems(2) Cons r by (simp add: input_step_def settle_def)
  qed (simp add: input_step_def)
  then show ?case using Suc.IH[of ?s] flags_answer[OF Suc.prems(1), of keeps 0] by (simp add: run_inputs_def)
qed

lemma all_flags_down:
  assumes "good p" "\<And>k. \<not> busy k p"
  shows "\<exists>n. let s = run_inputs keeps on_click on_answer (inps @ replicate n (Answer 0))
        \<lparr>ps_page = p, ps_tasks = [], ps_mounted = True, ps_ui = u\<rparr> in
    ps_tasks s = [] \<and> (ps_mounted s \<longrightarrow> (\<forall>k. \<not> busy k (ps_page s)))"
proof -
  let ?s0 = "\<lparr>ps_page = p, ps_tasks = [], ps_mounted = True, ps_ui = u\<rparr>"
  let ?s1 = "run_inputs keeps on_click on_answer inps ?s0"
  let ?n = "sum_list (map weight (ps_tasks ?s1))"
  have s1: "flags_ok ?s1" by (rule flags_run) (use assms started_ok in \<open>simp add: flags_ok_def\<close>)
  have run: "run_inputs keeps on_click on_answer (inps @ replicate ?n (Answer 0)) ?s0
      = run_inputs keeps on_click on_answer (replicate ?n (Answer 0)) ?s1"
    by (simp add: run_inputs_def)
  have "ps_tasks (run_inputs keeps on_click on_answer (inps @ replicate ?n (Answer 0)) ?s0) = []"
    unfolding run by (rule answers_finish[OF s1 order_refl])
  moreover have "flags_ok (run_inputs keeps on_click on_answer (inps @ replicate ?n (Answer 0)) ?s0)"
    unfolding run by (rule flags_run[OF s1])
  ultimately show ?thesis by (intro exI[of _ ?n]) (simp add: Let_def flags_ok_def)
qed

end

section \<open>Templates\<close>

function replace_all :: "string \<Rightarrow> string \<Rightarrow> string \<Rightarrow> string" where
  "replace_all s pat to =
     (case s of
        [] \<Rightarrow> []
      | c # r \<Rightarrow> if pat \<noteq> [] \<and> starts_with s pat then to @ replace_all (drop (length pat) s) pat to else c # replace_all r pat to)"
  by pat_completeness auto
termination by (relation "measure (\<lambda>(s, _, _). length s)") auto

declare replace_all.simps [simp del]

definition ESCAPED_OPEN :: string where "ESCAPED_OPEN = ''__ESC_OPEN_7F3A__''"
definition ESCAPED_CLOSE :: string where "ESCAPED_CLOSE = ''__ESC_CLOSE_7F3A__''"

text \<open>Longer keys first.\<close>

definition tf :: "string \<Rightarrow> (string \<times> string) list \<Rightarrow> string" where
  "tf template args =
     (if args = [] then template
      else
        (let r0 = replace_all template [CHR 0x5C, CHR ''{''] ESCAPED_OPEN;
             r1 = replace_all r0 [CHR 0x5C, CHR ''}''] ESCAPED_CLOSE;
             sorted = rev (sort_key (\<lambda>(k, _). length k) (rev args));
             r2 = fold (\<lambda>(k, v) r. replace_all r (CHR ''{'' # k @ ''}'') v) sorted r1
         in replace_all (replace_all r2 ESCAPED_OPEN ''{'') ESCAPED_CLOSE ''}''))"

end
