(* ===== verification/AuthPages.thy ===== *)
theory AuthPages
  imports Pages
begin

text \<open>
  The pages an account passes through, from \<^verbatim>\<open>app/web/src/views\<close>: \<^verbatim>\<open>verify_email.rs\<close>, \<^verbatim>\<open>forgot_password.rs\<close>, \<^verbatim>\<open>reset_password.rs\<close>,
  \<^verbatim>\<open>settings.rs\<close>, \<^verbatim>\<open>login_landing.rs\<close> and \<^verbatim>\<open>auth.rs\<close>. The translated texts are a function of a key.
\<close>

datatype page_text =
  VerifyCodeShape | VerifyTooMany | VerifyAutoLoginFailed | VerifySessionExpired | VerifyAttemptsSuffix | VerifyInfoSent
| ForgotEmailEmpty | ForgotEmailInvalid
| ResetEmailEmpty | ResetEmailInvalid | ResetCodeInvalid | ResetPasswordShort | ResetPasswordMismatch
| SettingsCurrentEmpty | SettingsNewEmpty | SettingsNewShort | SettingsNewMismatch | SettingsNewSame
| LoginCaptchaEmpty | LoginEmailEmpty | LoginPasswordEmpty | LoginNameEmpty | LoginNameLength | LoginPasswordMismatch

record 's auth_lib =
  al_page :: "'s page_lib"
  al_text :: "page_text \<Rightarrow> string"
  al_read_reset :: "api_response \<Rightarrow> (transport_error, string) res"
  al_read_changed :: "api_response \<Rightarrow> (transport_error, string \<times> string) res"
  al_read_enabled :: "api_response \<Rightarrow> (transport_error, bool) res"

definition al_web :: "'s auth_lib \<Rightarrow> 's web_lib" where "al_web lib = pl_web (al_page lib)"

definition error_text :: "'s auth_lib \<Rightarrow> client_error \<Rightarrow> error_context \<Rightarrow> string" where
  "error_text lib e ctx = humanize_error (pl_json_field (al_page lib)) e ctx"

definition logged_result :: "'s auth_lib \<Rightarrow> string \<Rightarrow> (client_error, 'a) res \<Rightarrow> 's web_ui \<Rightarrow> 's web_ui" where
  "logged_result lib path r = log_of (push_log_result (pl_now_ms (al_page lib)) ''POST'' path r)"

text \<open>A call of the client within the session.\<close>

definition ui_call ::
    "('s web_state \<Rightarrow> (client_error, 'a) res \<times> 's web_state) \<Rightarrow> 's web_ui \<Rightarrow> (client_error, 'a) res \<times> 's web_ui" where
  "ui_call m ui = (case m (ui_auth ui) of (x, w) \<Rightarrow> (x, ui\<lparr>ui_auth := w\<rparr>))"

definition six_digits :: "string \<Rightarrow> bool" where "six_digits s \<longleftrightarrow> length s = 6 \<and> list_all is_digit s"

section \<open>Verifying an address\<close>

definition MAX_CLIENT_ATTEMPTS :: nat where "MAX_CLIENT_ATTEMPTS = 5"
definition RESEND_COOLDOWN_SECS :: nat where "RESEND_COOLDOWN_SECS = 60"

record verify_page =
  vp_email :: string
  vp_code :: string
  vp_countdown :: nat
  vp_attempts :: nat
  vp_loading :: bool
  vp_error :: "string option"
  vp_info :: "string option"

datatype verify_task = VerifyTask string | AutoLoginTask pending_registration | ResendTask

datatype verify_click = TypeCode string | SubmitCode | ClickResend | TickSecond | ClickBack | RunAuthGuard | RunDirtyGuard

definition new_verify_page :: "string \<Rightarrow> verify_page" where
  "new_verify_page email =
     \<lparr>vp_email = email, vp_code = [], vp_countdown = RESEND_COOLDOWN_SECS, vp_attempts = 0, vp_loading = False,
      vp_error = None, vp_info = None\<rparr>"

definition pending_matches :: "string \<Rightarrow> 's web_state \<Rightarrow> bool" where
  "pending_matches email w = (case wa_pending w of None \<Rightarrow> False | Some p \<Rightarrow> to_lower (pr_email p) = to_lower email)"

definition verify_shown :: "verify_page \<Rightarrow> 's web_state \<Rightarrow> bool" where
  "verify_shown p w \<longleftrightarrow> \<not> is_authenticated w \<and> pending_matches (vp_email p) w"

definition clear_pending_registration :: "'s web_state \<Rightarrow> 's web_state" where
  "clear_pending_registration w = w\<lparr>wa_pending := None\<rparr>"

definition lead :: "web_route \<Rightarrow> 'p \<Rightarrow> 's web_ui \<Rightarrow> ('p, 't, 's web_ui) page_result" where
  "lead r p ui = ((p, ui\<lparr>ui_route := r\<rparr>), [], True)"

definition do_verify :: "'s auth_lib \<Rightarrow> verify_page \<Rightarrow> 's web_ui \<Rightarrow> (verify_page, verify_task, 's web_ui) page_result" where
  "do_verify lib p ui =
     (let code = trim (vp_code p) in
      if vp_loading p then stay p ui
      else if \<not> six_digits code then stay (p\<lparr>vp_error := Some (al_text lib VerifyCodeShape)\<rparr>) ui
      else if MAX_CLIENT_ATTEMPTS \<le> vp_attempts p then stay (p\<lparr>vp_error := Some (al_text lib VerifyTooMany)\<rparr>) ui
      else ((p\<lparr>vp_loading := True, vp_error := None, vp_info := None\<rparr>, ui), [VerifyTask code], False))"

definition on_resend :: "verify_page \<Rightarrow> 's web_ui \<Rightarrow> (verify_page, verify_task, 's web_ui) page_result" where
  "on_resend p ui =
     (if vp_loading p \<or> 0 < vp_countdown p then stay p ui
      else ((p\<lparr>vp_loading := True, vp_error := None, vp_info := None\<rparr>, ui), [ResendTask], False))"

definition verify_typed :: "string \<Rightarrow> verify_page \<Rightarrow> verify_page" where
  "verify_typed v p =
     (if MAX_CLIENT_ATTEMPTS \<le> vp_attempts p \<or> vp_loading p then p
      else p\<lparr>vp_code := take 6 (filter is_digit v), vp_error := None\<rparr>)"

definition verify_back :: "verify_page \<Rightarrow> 's web_ui \<Rightarrow> (verify_page, verify_task, 's web_ui) page_result" where
  "verify_back p ui = lead LoginLanding p (ui\<lparr>ui_auth := clear_pending_registration (ui_auth ui)\<rparr>)"

definition verify_dirty_guard :: "verify_page \<Rightarrow> 's web_ui \<Rightarrow> (verify_page, verify_task, 's web_ui) page_result" where
  "verify_dirty_guard p ui =
     (if is_authenticated (ui_auth ui) \<or> pending_matches (vp_email p) (ui_auth ui) then stay p ui
      else lead LoginLanding p (ui\<lparr>ui_auth := clear_pending_registration (ui_auth ui)\<rparr>))"

text \<open>A page that already has a session leads on; others stay.\<close>

definition leave_when_logged_in :: "bool \<Rightarrow> 'p \<Rightarrow> 's web_ui \<Rightarrow> ('p, 't, 's web_ui) page_result" where
  "leave_when_logged_in wait p ui =
     (if (wait \<longrightarrow> wa_initialized (ui_auth ui)) \<and> is_authenticated (ui_auth ui) then lead Dashboard p ui else stay p ui)"

definition verify_click :: "'s auth_lib \<Rightarrow> verify_click \<Rightarrow> verify_page \<times> 's web_ui \<Rightarrow> (verify_page, verify_task, 's web_ui) page_result" where
  "verify_click lib c w =
     (case w of (p, ui) \<Rightarrow>
      case c of
        TickSecond \<Rightarrow> stay (if 0 < vp_countdown p then p\<lparr>vp_countdown := vp_countdown p - 1\<rparr> else p) ui
      | RunAuthGuard \<Rightarrow> leave_when_logged_in False p ui
      | RunDirtyGuard \<Rightarrow> verify_dirty_guard p ui
      | _ \<Rightarrow>
          if \<not> verify_shown p (ui_auth ui) then stay p ui
          else (case c of
              TypeCode v \<Rightarrow> stay (verify_typed v p) ui
            | SubmitCode \<Rightarrow> do_verify lib p ui
            | ClickResend \<Rightarrow> on_resend p ui
            | _ \<Rightarrow> verify_back p ui))"

text \<open>The answer to a code; a right one takes the pending registration and goes on to log in with it.\<close>

definition verified :: "'s auth_lib \<Rightarrow> string \<Rightarrow> verify_page \<Rightarrow> 's web_ui \<Rightarrow> (verify_page, verify_task, 's web_ui) page_result" where
  "verified lib code p ui =
     (case ui_call (\<lambda>w. web_call (client_verify_email (wl_net (al_web lib)) (wa_client w) (read_message (al_web lib)) (vp_email p) code) w) ui of
        (res, ui1) \<Rightarrow>
          let ui2 = logged_result lib ''/api/public/auth/verify-email'' res ui1 in
          (case res of
             Inr _ \<Rightarrow>
               (case take_pending_registration (ui_auth ui2) of
                  (Some reg, w) \<Rightarrow> ((p, ui2\<lparr>ui_auth := w\<rparr>), [AutoLoginTask reg], False)
                | (None, w) \<Rightarrow> stay (p\<lparr>vp_error := Some (al_text lib VerifySessionExpired), vp_loading := False\<rparr>) (ui2\<lparr>ui_auth := w\<rparr>))
           | Inl e \<Rightarrow>
               (let attempts = vp_attempts p + 1;
                    msg = error_text lib e EmailVerification in
                stay (p\<lparr>vp_loading := False, vp_attempts := attempts,
                        vp_error := Some (if MAX_CLIENT_ATTEMPTS \<le> attempts then msg @ al_text lib VerifyAttemptsSuffix else msg)\<rparr>) ui2)))"

definition auto_logged_in ::
    "'s auth_lib \<Rightarrow> pending_registration \<Rightarrow> verify_page \<Rightarrow> 's web_ui \<Rightarrow> (verify_page, verify_task, 's web_ui) page_result" where
  "auto_logged_in lib reg p ui =
     (case ui_call (web_login (al_web lib) (pr_email reg) (pr_password reg) (pr_remember reg) None) ui of
        (res, ui1) \<Rightarrow>
          let ui2 = logged_result lib ''/api/public/auth/login'' res ui1 in
          (case res of
             Inl e \<Rightarrow>
               stay (p\<lparr>vp_error := Some (tf (al_text lib VerifyAutoLoginFailed) [(''msg'', error_text lib e EmailVerification)]), vp_loading := False\<rparr>) ui2
           | Inr _ \<Rightarrow> stay (p\<lparr>vp_loading := False\<rparr>) ui2))"

definition resent :: "'s auth_lib \<Rightarrow> verify_page \<Rightarrow> 's web_ui \<Rightarrow> (verify_page, verify_task, 's web_ui) page_result" where
  "resent lib p ui =
     (case ui_call (\<lambda>w. web_call (client_resend_code (wl_net (al_web lib)) (wa_client w) (read_message (al_web lib)) (vp_email p)) w) ui of
        (res, ui1) \<Rightarrow>
          let ui2 = logged_result lib ''/api/public/auth/resend-code'' res ui1 in
          (case res of
             Inr _ \<Rightarrow>
               stay (p\<lparr>vp_loading := False, vp_countdown := RESEND_COOLDOWN_SECS, vp_attempts := 0, vp_code := [],
                       vp_info := Some (al_text lib VerifyInfoSent)\<rparr>) ui2
           | Inl e \<Rightarrow>
               stay (p\<lparr>vp_loading := False, vp_countdown := (case e of OtherError s _ \<Rightarrow> if s = 400 then 10 else vp_countdown p | _ \<Rightarrow> vp_countdown p),
                       vp_error := Some (error_text lib e EmailVerification)\<rparr>) ui2))"

definition verify_answer ::
    "'s auth_lib \<Rightarrow> verify_task \<Rightarrow> verify_page \<times> 's web_ui \<Rightarrow> (verify_page, verify_task, 's web_ui) page_result" where
  "verify_answer lib task w =
     (case w of (p, ui) \<Rightarrow>
      case task of
        VerifyTask code \<Rightarrow> verified lib code p ui
      | AutoLoginTask reg \<Rightarrow> auto_logged_in lib reg p ui
      | ResendTask \<Rightarrow> resent lib p ui)"

section \<open>Asking for a reset code\<close>

record forgot_page =
  fp_email :: string
  fp_submitting :: bool
  fp_error :: "string option"

datatype forgot_click = TypeForgotEmail string | SubmitForgot | RunForgotGuard

definition new_forgot_page :: forgot_page where "new_forgot_page = \<lparr>fp_email = [], fp_submitting = False, fp_error = None\<rparr>"

text \<open>The form shows once the session is restored and there is none.\<close>

definition form_shown :: "'s web_state \<Rightarrow> bool" where
  "form_shown w \<longleftrightarrow> wa_initialized w \<and> \<not> is_authenticated w"

definition submit_forgot :: "'s auth_lib \<Rightarrow> forgot_page \<Rightarrow> 's web_ui \<Rightarrow> (forgot_page, string, 's web_ui) page_result" where
  "submit_forgot lib p ui =
     (let value = trim (fp_email p) in
      if fp_submitting p then stay p ui
      else if value = [] then stay (p\<lparr>fp_error := Some (al_text lib ForgotEmailEmpty)\<rparr>) ui
      else if CHR ''@'' \<notin> set value then stay (p\<lparr>fp_error := Some (al_text lib ForgotEmailInvalid)\<rparr>) ui
      else ((p\<lparr>fp_submitting := True, fp_error := None\<rparr>, ui), [value], False))"

definition forgot_click :: "'s auth_lib \<Rightarrow> forgot_click \<Rightarrow> forgot_page \<times> 's web_ui \<Rightarrow> (forgot_page, string, 's web_ui) page_result" where
  "forgot_click lib c w =
     (case w of (p, ui) \<Rightarrow>
      case c of
        RunForgotGuard \<Rightarrow> leave_when_logged_in True p ui
      | TypeForgotEmail s \<Rightarrow> stay (if form_shown (ui_auth ui) \<and> \<not> fp_submitting p then p\<lparr>fp_email := s\<rparr> else p) ui
      | SubmitForgot \<Rightarrow> if form_shown (ui_auth ui) then submit_forgot lib p ui else stay p ui)"

definition forgot_answer :: "'s auth_lib \<Rightarrow> string \<Rightarrow> forgot_page \<times> 's web_ui \<Rightarrow> (forgot_page, string, 's web_ui) page_result" where
  "forgot_answer lib email w =
     (case w of (p, ui) \<Rightarrow>
      case ui_call (\<lambda>w. web_call (client_forgot_password (wl_net (al_web lib)) (wa_client w) (read_message (al_web lib)) email) w) ui of
        (res, ui1) \<Rightarrow>
          let ui2 = logged_result lib ''/api/public/auth/forgot-password'' res ui1; p1 = p\<lparr>fp_submitting := False\<rparr> in
          (case res of
             Inr _ \<Rightarrow> lead (OtherRoute (''/reset-password/'' @ email)) p1 ui2
           | Inl e \<Rightarrow> stay (p1\<lparr>fp_error := Some (error_text lib e PasswordResetPage)\<rparr>) ui2))"

section \<open>Resetting a password\<close>

record reset_page =
  rp_email :: string
  rp_code :: string
  rp_new :: string
  rp_confirm :: string
  rp_submitting :: bool
  rp_error :: "string option"

datatype reset_field = ResetEmail | ResetCode | ResetNew | ResetConfirm
datatype reset_click = TypeReset reset_field string | SubmitReset | RunResetGuard

text \<open>Address, code and new password, and whether the session was a remembered one.\<close>

datatype reset_task = ResetTask string string string bool

definition new_reset_page :: "string option \<Rightarrow> reset_page" where
  "new_reset_page email =
     \<lparr>rp_email = (case email of None \<Rightarrow> [] | Some e \<Rightarrow> e), rp_code = [], rp_new = [], rp_confirm = [], rp_submitting = False, rp_error = None\<rparr>"

definition reset_check :: "reset_page \<Rightarrow> page_text option" where
  "reset_check p =
     (let email = trim (rp_email p); code = trim (rp_code p) in
      if email = [] then Some ResetEmailEmpty
      else if CHR ''@'' \<notin> set email then Some ResetEmailInvalid
      else if \<not> six_digits code then Some ResetCodeInvalid
      else if length (rp_new p) < 8 then Some ResetPasswordShort
      else if rp_new p \<noteq> rp_confirm p then Some ResetPasswordMismatch
      else None)"

definition submit_reset :: "'s auth_lib \<Rightarrow> reset_page \<Rightarrow> 's web_ui \<Rightarrow> (reset_page, reset_task, 's web_ui) page_result" where
  "submit_reset lib p ui =
     (if rp_submitting p then stay p ui
      else case reset_check p of
        Some t \<Rightarrow> stay (p\<lparr>rp_error := Some (al_text lib t)\<rparr>) ui
      | None \<Rightarrow>
          ((p\<lparr>rp_submitting := True, rp_error := None\<rparr>, ui),
           [ResetTask (trim (rp_email p)) (trim (rp_code p)) (rp_new p) (load_token (al_web lib) (ui_auth ui) \<noteq> None)], False))"

definition type_reset :: "reset_field \<Rightarrow> string \<Rightarrow> reset_page \<Rightarrow> reset_page" where
  "type_reset f s p =
     (case f of ResetEmail \<Rightarrow> p\<lparr>rp_email := s\<rparr> | ResetCode \<Rightarrow> p\<lparr>rp_code := s\<rparr> | ResetNew \<Rightarrow> p\<lparr>rp_new := s\<rparr> | ResetConfirm \<Rightarrow> p\<lparr>rp_confirm := s\<rparr>)"

definition reset_click :: "'s auth_lib \<Rightarrow> reset_click \<Rightarrow> reset_page \<times> 's web_ui \<Rightarrow> (reset_page, reset_task, 's web_ui) page_result" where
  "reset_click lib c w =
     (case w of (p, ui) \<Rightarrow>
      case c of
        RunResetGuard \<Rightarrow> leave_when_logged_in True p ui
      | TypeReset f s \<Rightarrow> stay (if form_shown (ui_auth ui) \<and> \<not> rp_submitting p then type_reset f s p else p) ui
      | SubmitReset \<Rightarrow> if form_shown (ui_auth ui) then submit_reset lib p ui else stay p ui)"

definition reset_answer :: "'s auth_lib \<Rightarrow> reset_task \<Rightarrow> reset_page \<times> 's web_ui \<Rightarrow> (reset_page, reset_task, 's web_ui) page_result" where
  "reset_answer lib task w =
     (case w of (p, ui) \<Rightarrow>
      case task of ResetTask email code new_password remembered \<Rightarrow>
      case ui_call (\<lambda>w. web_call (client_reset_password (wl_net (al_web lib)) (wa_client w) (al_read_reset lib) email code new_password) w) ui of
        (res, ui1) \<Rightarrow>
          let ui2 = logged_result lib ''/api/public/auth/reset-password'' res ui1; p1 = p\<lparr>rp_submitting := False\<rparr> in
          (case res of
             Inr token \<Rightarrow> lead Dashboard p1 (ui2\<lparr>ui_auth := persist_session (al_web lib) token remembered (ui_auth ui2)\<rparr>)
           | Inl e \<Rightarrow> stay (p1\<lparr>rp_error := Some (error_text lib e PasswordResetPage)\<rparr>) ui2))"

end
