(* ===== verification/AccountPages.thy ===== *)
theory AccountPages
  imports AuthPages
begin

text \<open>
  The two pages with several requests: \<^verbatim>\<open>settings.rs\<close>, where a password is changed and all sessions are ended, and \<^verbatim>\<open>login_landing.rs\<close> with its
  form \<^verbatim>\<open>ui/src/auth_form.rs\<close>; and the redirection \<^verbatim>\<open>auth.rs\<close>.
\<close>

section \<open>Settings\<close>

record settings_page =
  sp_current :: string
  sp_new :: string
  sp_confirm :: string
  sp_submitting :: bool
  sp_logging_out :: bool
  sp_asking :: bool
  sp_error :: "string option"
  sp_success :: "string option"

datatype settings_field = CurrentPassword | NewPassword | ConfirmPassword
datatype settings_click =
  TypeSettings settings_field string | SubmitPassword | ClearForm | AskLogoutAll | ConfirmLogoutAll | CancelLogoutAll | RunSettingsGuard
datatype settings_task = ChangeTask string string | LogoutAllTask

definition new_settings_page :: settings_page where
  "new_settings_page =
     \<lparr>sp_current = [], sp_new = [], sp_confirm = [], sp_submitting = False, sp_logging_out = False, sp_asking = False,
      sp_error = None, sp_success = None\<rparr>"

definition settings_check :: "settings_page \<Rightarrow> page_text option" where
  "settings_check p =
     (if sp_current p = [] then Some SettingsCurrentEmpty
      else if sp_new p = [] then Some SettingsNewEmpty
      else if length (sp_new p) < 8 then Some SettingsNewShort
      else if sp_new p \<noteq> sp_confirm p then Some SettingsNewMismatch
      else if sp_new p = sp_current p then Some SettingsNewSame
      else None)"

definition submit_password :: "'s auth_lib \<Rightarrow> settings_page \<Rightarrow> 's web_ui \<Rightarrow> (settings_page, settings_task, 's web_ui) page_result" where
  "submit_password lib p ui =
     (if sp_submitting p then stay p ui
      else case settings_check p of
        Some t \<Rightarrow> stay (p\<lparr>sp_error := Some (al_text lib t)\<rparr>) ui
      | None \<Rightarrow>
          ((p\<lparr>sp_submitting := True, sp_error := None, sp_success := None\<rparr>, ui), [ChangeTask (sp_current p) (sp_new p)], False))"

definition type_settings :: "settings_field \<Rightarrow> string \<Rightarrow> settings_page \<Rightarrow> settings_page" where
  "type_settings f s p =
     (case f of CurrentPassword \<Rightarrow> p\<lparr>sp_current := s\<rparr> | NewPassword \<Rightarrow> p\<lparr>sp_new := s\<rparr> | ConfirmPassword \<Rightarrow> p\<lparr>sp_confirm := s\<rparr>)"

definition clear_settings_form :: "settings_page \<Rightarrow> settings_page" where
  "clear_settings_form p = p\<lparr>sp_current := [], sp_new := [], sp_confirm := [], sp_error := None, sp_success := None\<rparr>"

definition settings_shown :: "'s web_state \<Rightarrow> bool" where
  "settings_shown w \<longleftrightarrow> wa_initialized w \<and> is_authenticated w"

text \<open>The buttons of the confirmation: cancel, and confirm unless it is loading.\<close>

definition confirm_logout_all :: "settings_page \<Rightarrow> 's web_ui \<Rightarrow> (settings_page, settings_task, 's web_ui) page_result" where
  "confirm_logout_all p ui =
     (if sp_asking p \<and> \<not> sp_logging_out p
      then ((p\<lparr>sp_logging_out := True, sp_asking := False\<rparr>, ui), [LogoutAllTask], False) else stay p ui)"

definition settings_click ::
    "'s auth_lib \<Rightarrow> settings_click \<Rightarrow> settings_page \<times> 's web_ui \<Rightarrow> (settings_page, settings_task, 's web_ui) page_result" where
  "settings_click lib c w =
     (case w of (p, ui) \<Rightarrow>
      if c = RunSettingsGuard
      then (if wa_initialized (ui_auth ui) \<and> \<not> is_authenticated (ui_auth ui) then lead LoginLanding p ui else stay p ui)
      else if \<not> settings_shown (ui_auth ui) then stay p ui
      else (case c of
          TypeSettings f s \<Rightarrow> stay (if sp_submitting p then p else type_settings f s p) ui
        | SubmitPassword \<Rightarrow> submit_password lib p ui
        | ClearForm \<Rightarrow> stay (clear_settings_form p) ui
        | AskLogoutAll \<Rightarrow> stay (if sp_logging_out p then p else p\<lparr>sp_asking := True\<rparr>) ui
        | ConfirmLogoutAll \<Rightarrow> confirm_logout_all p ui
        | _ \<Rightarrow> stay (p\<lparr>sp_asking := False\<rparr>) ui))"

text \<open>A session that the server no longer accepts is left; \<^const>\<open>handle_unauth\<close> decides where to.\<close>

definition changed_password ::
    "'s auth_lib \<Rightarrow> string \<Rightarrow> string \<Rightarrow> settings_page \<Rightarrow> 's web_ui \<Rightarrow> (settings_page, settings_task, 's web_ui) page_result" where
  "changed_password lib cp np p ui =
     (case ui_call (\<lambda>w. web_call (client_change_password (wl_net (al_web lib)) (wa_client w) (al_read_changed lib) cp np) w) ui of
        (res, ui1) \<Rightarrow>
          let p1 = p\<lparr>sp_submitting := False\<rparr>; path = ''/api/users/me/password'' in
          (case res of
             Inr (said, new_token) \<Rightarrow>
               let ui2 = logged_result lib path res ui1 in
               stay (p1\<lparr>sp_success := Some said, sp_current := [], sp_new := [], sp_confirm := []\<rparr>)
                 (ui2\<lparr>ui_auth := swap_token (al_web lib) new_token (ui_auth ui2)\<rparr>)
           | Inl e \<Rightarrow>
               (case handle_unauth (al_web lib) (pl_now_ms (al_page lib)) e ui1 of
                  (True, ui2) \<Rightarrow> ((p1, ui2), [], True)
                | (False, ui2) \<Rightarrow> stay (p1\<lparr>sp_error := Some (error_text lib e UserManagement)\<rparr>) (logged_result lib path res ui2))))"

definition logged_out_everywhere ::
    "'s auth_lib \<Rightarrow> settings_page \<Rightarrow> 's web_ui \<Rightarrow> (settings_page, settings_task, 's web_ui) page_result" where
  "logged_out_everywhere lib p ui =
     lead LoginLanding p
       (log_of (log_push (pl_now_ms (al_page lib)) ''POST'' ''/api/users/me/logout-all'' ''200'' ImportantEntry)
         (ui\<lparr>ui_auth := logout_all_async (al_web lib) (ui_auth ui)\<rparr>))"

definition settings_answer ::
    "'s auth_lib \<Rightarrow> settings_task \<Rightarrow> settings_page \<times> 's web_ui \<Rightarrow> (settings_page, settings_task, 's web_ui) page_result" where
  "settings_answer lib task w =
     (case w of (p, ui) \<Rightarrow>
      case task of ChangeTask cp np \<Rightarrow> changed_password lib cp np p ui | LogoutAllTask \<Rightarrow> logged_out_everywhere lib p ui)"

section \<open>Logging in and registering\<close>

datatype auth_mode = LoginMode | RegisterMode

record landing_page =
  lp_mode :: auth_mode
  lp_name :: string
  lp_email :: string
  lp_password :: string
  lp_password_confirm :: string
  lp_captcha :: string
  lp_remember :: bool
  lp_loading :: bool
  lp_error :: "string option"
  lp_wechat :: bool

record auth_payload =
  ap_mode :: auth_mode
  ap_name :: string
  ap_email :: string
  ap_password :: string
  ap_password_confirm :: string
  ap_remember :: bool
  ap_captcha_code :: string

datatype landing_task = ProbeTask | SubmitTask auth_payload

datatype landing_field = NameField | EmailField | PasswordField | ConfirmField | CaptchaField
datatype landing_click =
  ChooseMode auth_mode | TypeLanding landing_field string | TickRemember bool | SubmitLanding | ForgotLink
| RunLandingGuard | RunClearPending | RunProbe

definition new_landing_page :: landing_page where
  "new_landing_page =
     \<lparr>lp_mode = LoginMode, lp_name = [], lp_email = [], lp_password = [], lp_password_confirm = [], lp_captcha = [],
      lp_remember = False, lp_loading = False, lp_error = None, lp_wechat = False\<rparr>"

text \<open>Choosing a mode and its effect; choosing the mode that is on changes nothing.\<close>

definition choose_mode :: "auth_mode \<Rightarrow> landing_page \<Rightarrow> landing_page" where
  "choose_mode m p =
     (if m = lp_mode p then p
      else p\<lparr>lp_mode := m, lp_name := [], lp_email := [], lp_password := [], lp_password_confirm := [], lp_captcha := [],
             lp_error := None, lp_loading := False\<rparr>)"

definition type_landing :: "landing_field \<Rightarrow> string \<Rightarrow> landing_page \<Rightarrow> landing_page" where
  "type_landing f s p =
     (if lp_loading p then p
      else case f of
        NameField \<Rightarrow> if lp_mode p = RegisterMode then p\<lparr>lp_name := s\<rparr> else p
      | EmailField \<Rightarrow> p\<lparr>lp_email := s\<rparr>
      | PasswordField \<Rightarrow> p\<lparr>lp_password := s\<rparr>
      | ConfirmField \<Rightarrow> if lp_mode p = RegisterMode then p\<lparr>lp_password_confirm := s\<rparr> else p
      | CaptchaField \<Rightarrow> if lp_mode p = LoginMode \<and> lp_wechat p then p\<lparr>lp_captcha := s\<rparr> else p)"

definition form_payload :: "landing_page \<Rightarrow> auth_payload" where
  "form_payload p =
     \<lparr>ap_mode = lp_mode p, ap_name = lp_name p, ap_email = lp_email p, ap_password = lp_password p,
      ap_password_confirm = lp_password_confirm p, ap_remember = lp_remember p, ap_captcha_code = lp_captcha p\<rparr>"

definition landing_check :: "bool \<Rightarrow> auth_payload \<Rightarrow> page_text option" where
  "landing_check wechat d =
     (let name = trim (ap_name d) in
      if ap_mode d = LoginMode \<and> wechat \<and> trim (ap_captcha_code d) = [] then Some LoginCaptchaEmpty
      else if trim (ap_email d) = [] then Some LoginEmailEmpty
      else if ap_password d = [] then Some LoginPasswordEmpty
      else if ap_mode d = RegisterMode \<and> name = [] then Some LoginNameEmpty
      else if ap_mode d = RegisterMode \<and> (length name < 6 \<or> 50 < length name) then Some LoginNameLength
      else if ap_mode d = RegisterMode \<and> ap_password d \<noteq> ap_password_confirm d then Some LoginPasswordMismatch
      else None)"

definition submit_landing :: "'s auth_lib \<Rightarrow> landing_page \<Rightarrow> 's web_ui \<Rightarrow> (landing_page, landing_task, 's web_ui) page_result" where
  "submit_landing lib p ui =
     (if lp_loading p then stay p ui
      else case landing_check (lp_wechat p) (form_payload p) of
        Some t \<Rightarrow> stay (p\<lparr>lp_error := Some (al_text lib t)\<rparr>) ui
      | None \<Rightarrow> ((p\<lparr>lp_loading := True, lp_error := None\<rparr>, ui), [SubmitTask (form_payload p)], False))"

definition landing_click ::
    "'s auth_lib \<Rightarrow> landing_click \<Rightarrow> landing_page \<times> 's web_ui \<Rightarrow> (landing_page, landing_task, 's web_ui) page_result" where
  "landing_click lib c w =
     (case w of (p, ui) \<Rightarrow>
      if \<not> wa_initialized (ui_auth ui) then stay p ui
      else (case c of
          RunLandingGuard \<Rightarrow> leave_when_logged_in True p ui
        | RunClearPending \<Rightarrow> stay p (ui\<lparr>ui_auth := clear_pending_registration (ui_auth ui)\<rparr>)
        | _ \<Rightarrow>
            if is_authenticated (ui_auth ui) then stay p ui
            else (case c of
                RunProbe \<Rightarrow> ((p, ui), [ProbeTask], False)
              | ChooseMode m \<Rightarrow> stay (choose_mode m p) ui
              | TypeLanding f s \<Rightarrow> stay (type_landing f s p) ui
              | TickRemember b \<Rightarrow> stay (if lp_mode p = LoginMode \<and> \<not> lp_loading p then p\<lparr>lp_remember := b\<rparr> else p) ui
              | SubmitLanding \<Rightarrow> submit_landing lib p ui
              | _ \<Rightarrow> if lp_mode p = LoginMode then lead (OtherRoute ''/forgot-password'') p ui else stay p ui)))"

definition logged_if :: "bool \<Rightarrow> 's auth_lib \<Rightarrow> string \<Rightarrow> (client_error, 'a) res \<Rightarrow> 's web_ui \<Rightarrow> 's web_ui" where
  "logged_if b lib path res ui = (if b then logged_result lib path res ui else ui)"

text \<open>The outcome of a submission: an error of a mode that is no longer on is not shown.\<close>

definition landing_outcome ::
    "'s auth_lib \<Rightarrow> auth_mode \<Rightarrow> (client_error, string option) res \<Rightarrow> landing_page \<Rightarrow> 's web_ui \<Rightarrow> (landing_page, landing_task, 's web_ui) page_result" where
  "landing_outcome lib mode res p ui =
     (let p1 = p\<lparr>lp_loading := False\<rparr> in
      case res of
        Inr None \<Rightarrow> stay p1 ui
      | Inr (Some email) \<Rightarrow> lead (OtherRoute (''/verify-email/'' @ email)) p1 ui
      | Inl e \<Rightarrow> stay (if lp_mode p = mode then p1\<lparr>lp_error := Some (error_text lib e AuthPage)\<rparr> else p1) ui)"

definition submitted :: "'s auth_lib \<Rightarrow> auth_payload \<Rightarrow> landing_page \<Rightarrow> 's web_ui \<Rightarrow> (landing_page, landing_task, 's web_ui) page_result" where
  "submitted lib d p ui =
     (case ap_mode d of
        LoginMode \<Rightarrow>
          (case ui_call (web_login (al_web lib) (ap_email d) (ap_password d) (ap_remember d)
                 (if ap_captcha_code d = [] then None else Some (ap_captcha_code d))) ui of
             (res, ui1) \<Rightarrow>
               landing_outcome lib LoginMode (map_sum id (\<lambda>_. None) res) p
                 (logged_if (lp_mode p = LoginMode) lib ''/api/public/auth/login'' res ui1))
      | RegisterMode \<Rightarrow>
          (case ui_call (web_register (al_web lib) (ap_email d) (ap_password d) (ap_name d) (ap_remember d) (ap_password_confirm d)) ui of
             (res, ui1) \<Rightarrow>
               landing_outcome lib RegisterMode
                 (map_sum id (\<lambda>out. case out of LoggedIn \<Rightarrow> None | NeedsVerification email \<Rightarrow> Some email) res) p
                 (logged_if (lp_mode p = RegisterMode) lib ''/api/public/auth/register'' res ui1)))"

definition probed :: "'s auth_lib \<Rightarrow> landing_page \<Rightarrow> 's web_ui \<Rightarrow> (landing_page, landing_task, 's web_ui) page_result" where
  "probed lib p ui =
     (case ui_call (\<lambda>w. web_call (client_wechat_enabled (wl_net (al_web lib)) (wa_client w) (al_read_enabled lib)) w) ui of
        (Inr enabled, ui1) \<Rightarrow> stay (p\<lparr>lp_wechat := enabled\<rparr>) ui1 | (Inl _, ui1) \<Rightarrow> stay p ui1)"

definition landing_answer ::
    "'s auth_lib \<Rightarrow> landing_task \<Rightarrow> landing_page \<times> 's web_ui \<Rightarrow> (landing_page, landing_task, 's web_ui) page_result" where
  "landing_answer lib task w =
     (case w of (p, ui) \<Rightarrow> case task of ProbeTask \<Rightarrow> probed lib p ui | SubmitTask d \<Rightarrow> submitted lib d p ui)"

section \<open>The old route\<close>

definition auth_redirect :: "'s web_state \<Rightarrow> web_route option" where
  "auth_redirect w =
     (if wa_initialized w then Some (if is_authenticated w then Dashboard else LoginLanding) else None)"

end
