(* ===== verification/PageProps.thy ===== *)
theory PageProps
  imports AccountPages ServerProps
begin

text \<open>
  What holds of the account pages: the pages that guard their requests with a flag have the law of \<^verbatim>\<open>guarded_page\<close>, the landing page
  has not; the verification page against the server and against its own guard.
\<close>

section \<open>Guarded pages\<close>

lemma page_results [simp]:
  "stay p u = ((p, u), [], False)" "lead r p ui = ((p, ui\<lparr>ui_route := r\<rparr>), [], True)"
  by (simp_all add: stay_def lead_def)

definition verify_good :: "verify_page \<Rightarrow> bool" where
  "verify_good p \<longleftrightarrow> vp_countdown p \<le> 60 \<and> vp_attempts p \<le> 5"

definition verify_fit :: "verify_task \<Rightarrow> verify_page \<Rightarrow> bool" where
  "verify_fit t p = (case t of VerifyTask code \<Rightarrow> six_digits code \<and> vp_attempts p < 5 | _ \<Rightarrow> True)"

lemmas verify_defs = verify_click_def verify_answer_def verify_good_def verify_fit_def do_verify_def on_resend_def verify_typed_def
  verify_back_def verify_dirty_guard_def leave_when_logged_in_def MAX_CLIENT_ATTEMPTS_def RESEND_COOLDOWN_SECS_def

definition verify_weight :: "verify_task \<Rightarrow> nat" where
  "verify_weight t = (case t of VerifyTask _ \<Rightarrow> 2 | _ \<Rightarrow> 1)"

lemma verified_shape:
  "verified lib code p ui = ((p', ui'), new, l) \<Longrightarrow>
     vp_countdown p' = vp_countdown p \<and> length new \<le> 1 \<and> (\<forall>t \<in> set new. \<exists>r. t = AutoLoginTask r \<and> p' = p)
     \<and> (vp_attempts p' = vp_attempts p \<or> vp_attempts p' = vp_attempts p + 1) \<and> (new = [] \<longrightarrow> \<not> vp_loading p')
     \<and> sum_list (map verify_weight new) \<le> 1"
  by (auto simp: verified_def Let_def take_pending_registration_def verify_weight_def split: prod.splits sum.splits option.splits)

lemma auto_logged_in_shape:
  "auto_logged_in lib r p ui = ((p', ui'), new, l) \<Longrightarrow>
     vp_countdown p' = vp_countdown p \<and> vp_attempts p' = vp_attempts p \<and> new = [] \<and> \<not> vp_loading p'"
  by (auto simp: auto_logged_in_def Let_def split: prod.splits sum.splits)

lemma resent_shape:
  "resent lib p ui = ((p', ui'), new, l) \<Longrightarrow>
     new = [] \<and> \<not> vp_loading p' \<and> (vp_countdown p' = vp_countdown p \<or> vp_countdown p' \<le> 60)
     \<and> (vp_attempts p' = vp_attempts p \<or> vp_attempts p' = 0)"
  by (auto simp: resent_def Let_def RESEND_COOLDOWN_SECS_def split: prod.splits sum.splits client_error.splits)

lemma verify_answer_shape:
  assumes "verify_answer lib t (p, u) = ((p', u'), new, l)"
  shows "(new = [] \<longrightarrow> \<not> vp_loading p') \<and> sum_list (map verify_weight new) < verify_weight t"
  using assms verified_shape[of lib _ p u p' u' new l] auto_logged_in_shape[of lib _ p u p' u' new l] resent_shape[of lib p u p' u' new l]
  by (cases t) (fastforce simp: verify_answer_def verify_weight_def)+

lemma verify_click_law:
  assumes "verify_good p" "verify_click lib c (p, u) = ((p', u'), new, l)"
  shows "verify_good p' \<and> length new \<le> 1 \<and> (vp_loading p \<longrightarrow> vp_loading p')
    \<and> (\<forall>t \<in> set new. \<not> vp_loading p \<and> vp_loading p' \<and> verify_fit t p') \<and> (\<forall>t. vp_loading p \<and> verify_fit t p \<longrightarrow> verify_fit t p')"
  using assms by (cases c) (auto simp: verify_defs Let_def split: if_splits verify_task.splits)

lemma verify_click_raises: "verify_click lib c (p, u) = ((p', u'), new, l) \<Longrightarrow> vp_loading p' \<Longrightarrow> vp_loading p \<or> new \<noteq> []"
  by (cases c) (auto simp: verify_defs Let_def split: if_splits)

interpretation verify: live_page "\<lambda>_. ()" "\<lambda>_. vp_loading" verify_good verify_fit "verify_click lib" "verify_answer lib" verify_weight for lib
proof (unfold_locales, goal_cases)
  case (1 p c u p' u' new l)
  then show ?case using verify_click_law[of p lib c u p' u' new l] by simp
next
  case (2 p t u p' u' new l)
  show ?case
  proof (cases t)
    case (VerifyTask code)
    then show ?thesis using 2 verified_shape[of lib code p u p' u' new l] by (auto simp: verify_answer_def verify_good_def verify_fit_def)
  next
    case (AutoLoginTask r)
    then show ?thesis using 2 auto_logged_in_shape[of lib r p u p' u' new l] by (auto simp: verify_answer_def verify_good_def)
  next
    case ResendTask
    then show ?thesis using 2 resent_shape[of lib p u p' u' new l] by (auto simp: verify_answer_def verify_good_def)
  qed
next
  case (3 p c u p' u' new l k)
  then show ?case using verify_click_raises[of lib c p u p' u' new l] by (cases new) auto
next
  case (4 p t u p' u' new l k)
  then show ?case using verify_answer_shape[of lib t p u p' u' new l] by (cases new) auto
next
  case (5 p t u p' u' new l)
  then show ?case using verify_answer_shape[of lib t p u p' u' new l] by simp
qed

definition reset_fit :: "reset_task \<Rightarrow> reset_page \<Rightarrow> bool" where
  "reset_fit t p =
     (case t of ResetTask email code new_password remembered \<Rightarrow> CHR ''@'' \<in> set email \<and> six_digits code \<and> 8 \<le> length new_password)"

lemma reset_click_shape:
  assumes "reset_click lib c (p, u) = ((p', u'), new, l)"
  shows "length new \<le> 1 \<and> (rp_submitting p \<longrightarrow> rp_submitting p') \<and> (\<forall>t \<in> set new. \<not> rp_submitting p \<and> rp_submitting p' \<and> reset_fit t p')
    \<and> (rp_submitting p' \<longrightarrow> rp_submitting p \<or> new \<noteq> [])"
proof -
  have "rp_submitting (type_reset f s p) = rp_submitting p" for f s by (cases f) (simp_all add: type_reset_def)
  then show ?thesis using assms
    by (cases c) (auto simp: reset_click_def submit_reset_def leave_when_logged_in_def reset_check_def reset_fit_def Let_def
        split: if_splits option.splits reset_task.splits)
qed

lemma reset_answer_shape: "reset_answer lib t (p, u) = ((p', u'), new, l) \<Longrightarrow> new = [] \<and> \<not> rp_submitting p'"
  by (auto simp: reset_answer_def Let_def split: reset_task.splits prod.splits sum.splits)

lemma reset_fit_page: "reset_fit t p = reset_fit t p'"
  by (simp add: reset_fit_def)

interpretation reset: live_page "\<lambda>_. ()" "\<lambda>_. rp_submitting" "\<lambda>_. True" reset_fit "reset_click lib" "reset_answer lib" "\<lambda>_. 1" for lib
proof (unfold_locales, goal_cases)
  case (1 p c u p' u' new l)
  then show ?case using reset_click_shape[of lib c p u p' u' new l] reset_fit_page[of _ p p'] by auto
next
  case (3 p c u p' u' new l k)
  then show ?case using reset_click_shape[of lib c p u p' u' new l] by (cases new) auto
qed (auto dest: reset_answer_shape)

lemma forgot_click_shape:
  "forgot_click lib c (p, u) = ((p', u'), new, l) \<Longrightarrow>
     length new \<le> 1 \<and> (fp_submitting p \<longrightarrow> fp_submitting p') \<and> (\<forall>t \<in> set new. \<not> fp_submitting p \<and> fp_submitting p' \<and> CHR ''@'' \<in> set t)
     \<and> (fp_submitting p' \<longrightarrow> fp_submitting p \<or> new \<noteq> [])"
  by (cases c) (auto simp: forgot_click_def submit_forgot_def leave_when_logged_in_def Let_def split: if_splits)

lemma forgot_answer_shape: "forgot_answer lib t (p, u) = ((p', u'), new, l) \<Longrightarrow> new = [] \<and> \<not> fp_submitting p'"
  by (auto simp: forgot_answer_def Let_def split: prod.splits sum.splits)

interpretation forgot: live_page "\<lambda>_. ()" "\<lambda>_. fp_submitting" "\<lambda>_. True" "\<lambda>t _. CHR ''@'' \<in> set t" "forgot_click lib" "forgot_answer lib" "\<lambda>_. 1"
  for lib
proof (unfold_locales, goal_cases)
  case (1 p c u p' u' new l)
  then show ?case using forgot_click_shape[of lib c p u p' u' new l] by auto
next
  case (3 p c u p' u' new l k)
  then show ?case using forgot_click_shape[of lib c p u p' u' new l] by (cases new) auto
qed (auto dest: forgot_answer_shape)

definition settings_kind :: "settings_task \<Rightarrow> bool" where
  "settings_kind t = (case t of ChangeTask _ _ \<Rightarrow> True | LogoutAllTask \<Rightarrow> False)"

definition settings_busy :: "bool \<Rightarrow> settings_page \<Rightarrow> bool" where
  "settings_busy k p = (if k then sp_submitting p else sp_logging_out p)"

definition settings_fit :: "settings_task \<Rightarrow> settings_page \<Rightarrow> bool" where
  "settings_fit t p = (case t of ChangeTask cp np \<Rightarrow> cp \<noteq> [] \<and> 8 \<le> length np \<and> np \<noteq> cp | LogoutAllTask \<Rightarrow> True)"

lemma settings_click_shape:
  assumes "settings_click lib c (p, u) = ((p', u'), new, l)"
  shows "length new \<le> 1 \<and> (\<forall>k. settings_busy k p \<longrightarrow> settings_busy k p')
    \<and> (\<forall>t \<in> set new. \<not> settings_busy (settings_kind t) p \<and> settings_busy (settings_kind t) p' \<and> settings_fit t p')
    \<and> (\<forall>k. settings_busy k p' \<longrightarrow> settings_busy k p \<or> k \<in> settings_kind ` set new)"
proof -
  have "sp_submitting (type_settings f s p) = sp_submitting p" "sp_logging_out (type_settings f s p) = sp_logging_out p" for f s
    by (cases f; simp add: type_settings_def)+
  then show ?thesis using assms
    by (cases c) (auto simp: settings_click_def submit_password_def settings_check_def clear_settings_form_def confirm_logout_all_def
        settings_fit_def settings_kind_def settings_busy_def Let_def split: if_splits option.splits settings_task.splits)
qed

lemma settings_answer_shape:
  "settings_answer lib t (p, u) = ((p', u'), new, l) \<Longrightarrow>
     new = [] \<and> (\<forall>k. k \<noteq> settings_kind t \<longrightarrow> settings_busy k p' = settings_busy k p) \<and> (settings_busy (settings_kind t) p' \<longrightarrow> l)"
  by (auto simp: settings_answer_def changed_password_def logged_out_everywhere_def settings_busy_def settings_kind_def Let_def
      split: settings_task.splits prod.splits sum.splits bool.splits if_splits)

lemma settings_fit_page: "settings_fit t p = settings_fit t p'"
  by (simp add: settings_fit_def)

interpretation settings: live_page settings_kind settings_busy "\<lambda>_. True" settings_fit "settings_click lib" "settings_answer lib" "\<lambda>_. 1" for lib
proof (unfold_locales, goal_cases)
  case (1 p c u p' u' new l)
  then show ?case using settings_click_shape[of lib c p u p' u' new l] settings_fit_page[of _ p p'] by auto
next
  case (2 p t u p' u' new l)
  then show ?case using settings_answer_shape[of lib t p u p' u' new l] settings_fit_page[of _ p p'] by auto
next
  case (3 p c u p' u' new l k)
  then show ?case using settings_click_shape[of lib c p u p' u' new l] by blast
next
  case (4 p t u p' u' new l k)
  then show ?case using settings_answer_shape[of lib t p u p' u' new l] by (cases "k = settings_kind t") auto
qed (auto dest: settings_answer_shape)

lemma distinct_const_le1: "distinct (map (\<lambda>_. ()) ts) \<Longrightarrow> length ts \<le> Suc 0"
  using card_mono[of "UNIV :: unit set" "set (map (\<lambda>_. ()) ts)"] by (simp only: distinct_card length_map card_UNIV_unit) simp

text \<open>The verification page. From its start, whatever is typed and clicked, whatever the server answers and when: at most one request is under way, each code
  sent has six digits, the countdown stays within a minute and the failed attempts within five.\<close>

theorem verify_page_bounds:
  "let s = run_inputs kept (verify_click lib) (verify_answer lib) inps
       \<lparr>ps_page = new_verify_page email, ps_tasks = [], ps_mounted = True, ps_ui = ui\<rparr> in
    length (ps_tasks s) \<le> 1 \<and> vp_countdown (ps_page s) \<le> 60 \<and> vp_attempts (ps_page s) \<le> 5
    \<and> list_all (\<lambda>t. case t of VerifyTask code \<Rightarrow> six_digits code | _ \<Rightarrow> True) (ps_tasks s)"
proof -
  have "verify_good (new_verify_page email)" by (simp add: verify_good_def new_verify_page_def RESEND_COOLDOWN_SECS_def)
  note run = verify.one_of_a_kind[OF this, where keeps = kept and lib = lib and inps = inps and u = ui]
  define s where "s = run_inputs kept (verify_click lib) (verify_answer lib) inps
       \<lparr>ps_page = new_verify_page email, ps_tasks = [], ps_mounted = True, ps_ui = ui\<rparr>"
  have "length (ps_tasks s) \<le> 1" using run distinct_const_le1[of "ps_tasks s"] by (simp add: Let_def s_def)
  moreover have "verify_good (ps_page s)" and "list_all (\<lambda>t. verify_fit t (ps_page s)) (ps_tasks s)"
    using run by (simp_all add: Let_def s_def)
  ultimately show ?thesis
    unfolding Let_def s_def[symmetric] verify_good_def verify_fit_def list_all_iff by (auto split: verify_task.splits)
qed

text \<open>The forms for passwords. The reset form sends one request at a time, with an address that has an at sign, a six-digit code and at least eight
  characters; the settings send at most one change of the password, to a different one of at least eight characters, and one logout of all sessions.\<close>

theorem password_forms_guarded:
  "(let s = run_inputs kept (reset_click lib) (reset_answer lib) inps
       \<lparr>ps_page = new_reset_page email, ps_tasks = [], ps_mounted = True, ps_ui = ui\<rparr> in
     length (ps_tasks s) \<le> 1
     \<and> list_all (\<lambda>t. case t of ResetTask e code np _ \<Rightarrow> CHR ''@'' \<in> set e \<and> six_digits code \<and> 8 \<le> length np) (ps_tasks s))
   \<and> (let s = run_inputs kept (settings_click lib) (settings_answer lib) inps'
       \<lparr>ps_page = new_settings_page, ps_tasks = [], ps_mounted = True, ps_ui = ui\<rparr> in
     distinct (map settings_kind (ps_tasks s))
     \<and> list_all (\<lambda>t. case t of ChangeTask cp np \<Rightarrow> 8 \<le> length np \<and> np \<noteq> cp | LogoutAllTask \<Rightarrow> True) (ps_tasks s))"
proof
  show "let s = run_inputs kept (reset_click lib) (reset_answer lib) inps
       \<lparr>ps_page = new_reset_page email, ps_tasks = [], ps_mounted = True, ps_ui = ui\<rparr> in
     length (ps_tasks s) \<le> 1
     \<and> list_all (\<lambda>t. case t of ResetTask e code np _ \<Rightarrow> CHR ''@'' \<in> set e \<and> six_digits code \<and> 8 \<le> length np) (ps_tasks s)"
    using reset.one_of_a_kind[where p = "new_reset_page email" and keeps = kept and lib = lib and inps = inps and u = ui]
    by (auto simp: Let_def reset_fit_def dest: distinct_const_le1)
  show "let s = run_inputs kept (settings_click lib) (settings_answer lib) inps'
       \<lparr>ps_page = new_settings_page, ps_tasks = [], ps_mounted = True, ps_ui = ui\<rparr> in
     distinct (map settings_kind (ps_tasks s))
     \<and> list_all (\<lambda>t. case t of ChangeTask cp np \<Rightarrow> 8 \<le> length np \<and> np \<noteq> cp | LogoutAllTask \<Rightarrow> True) (ps_tasks s)"
    using settings.one_of_a_kind[where p = new_settings_page and keeps = kept and lib = lib and inps = inps' and u = ui]
    by (auto simp: Let_def settings_fit_def elim!: list.pred_mono_strong split: settings_task.splits)
qed

text \<open>C18: no page hangs. On the verification page, the password forms and the settings, whatever has been clicked and answered before: once the pending requests
  are answered, no task is left and a page that is still there shows no spinner.\<close>

theorem pages_settle:
  "(\<exists>n. let s = run_inputs kept (verify_click lib) (verify_answer lib) (inps @ replicate n (Answer 0))
        \<lparr>ps_page = new_verify_page email, ps_tasks = [], ps_mounted = True, ps_ui = ui\<rparr> in
      ps_tasks s = [] \<and> \<not> (ps_mounted s \<and> vp_loading (ps_page s)))
   \<and> (\<exists>n. let s = run_inputs kept (reset_click lib) (reset_answer lib) (inps2 @ replicate n (Answer 0))
        \<lparr>ps_page = new_reset_page known, ps_tasks = [], ps_mounted = True, ps_ui = ui\<rparr> in
      ps_tasks s = [] \<and> \<not> (ps_mounted s \<and> rp_submitting (ps_page s)))
   \<and> (\<exists>n. let s = run_inputs kept (forgot_click lib) (forgot_answer lib) (inps3 @ replicate n (Answer 0))
        \<lparr>ps_page = new_forgot_page, ps_tasks = [], ps_mounted = True, ps_ui = ui\<rparr> in
      ps_tasks s = [] \<and> \<not> (ps_mounted s \<and> fp_submitting (ps_page s)))
   \<and> (\<exists>n. let s = run_inputs kept (settings_click lib) (settings_answer lib) (inps4 @ replicate n (Answer 0))
        \<lparr>ps_page = new_settings_page, ps_tasks = [], ps_mounted = True, ps_ui = ui\<rparr> in
      ps_tasks s = [] \<and> \<not> (ps_mounted s \<and> (sp_submitting (ps_page s) \<or> sp_logging_out (ps_page s))))"
proof -
  have v: "verify_good (new_verify_page email)" "\<not> vp_loading (new_verify_page email)"
    by (simp_all add: verify_good_def new_verify_page_def RESEND_COOLDOWN_SECS_def)
  have s: "\<not> settings_busy k new_settings_page" for k by (simp add: settings_busy_def new_settings_page_def)
  have busy: "sp_submitting p = settings_busy True p" "sp_logging_out p = settings_busy False p" for p by (simp_all add: settings_busy_def)
  have down: "\<exists>n. P (f n)" if "\<exists>n. let s = f n in Q s" "\<And>s. Q s \<Longrightarrow> P s" for f :: "nat \<Rightarrow> 'x" and P Q
    using that by (auto simp: Let_def)
  show ?thesis
    unfolding Let_def
    by (intro conjI) (rule down[OF verify.all_flags_down[OF v]] down[OF reset.all_flags_down] down[OF forgot.all_flags_down] down[OF settings.all_flags_down[OF TrueI s]];
      auto simp: new_reset_page_def new_forgot_page_def busy)+
qed

section \<open>Samples\<close>

text \<open>A network on which every request is answered with success.\<close>

definition sample_auth_lib :: "nat auth_lib" where
  "sample_auth_lib =
     \<lparr>al_page = sample_page_lib\<lparr>pl_web := sample_web_lib\<lparr>wl_net := sample_net\<lparr>net_send := \<lambda>_ s. (Inr \<lparr>as_status = 200, as_text = None\<rparr>, s)\<rparr>\<rparr>\<rparr>,
      al_text = (\<lambda>_. []), al_read_reset = (\<lambda>_. Inl TimedOut), al_read_changed = (\<lambda>_. Inl TimedOut), al_read_enabled = (\<lambda>_. Inl TimedOut)\<rparr>"

definition waiting_ui :: "nat web_ui" where
  "waiting_ui =
     \<lparr>ui_auth = sample_state\<lparr>wa_initialized := True, wa_pending := Some \<lparr>pr_email = ''u@x'', pr_password = ''pw'', pr_remember = False\<rparr>\<rparr>,
      ui_route = OtherRoute ''/verify-email/u@x'', ui_log = \<lparr>lb_entries = [], lb_next_id = 1\<rparr>\<rparr>"

lemma sample_verifies:
  "web_call (client_verify_email (wl_net (al_web sample_auth_lib)) cl (read_message (al_web sample_auth_lib)) e c) w = (Inr (), w)"
proof -
  have send: "send_attempts n k (wl_net (al_web sample_auth_lib)) native (read_message (al_web sample_auth_lib)) req s = (Inr (), s)"
    if "k = 0" for n k native req s
    using that by (cases n) (simp_all add: al_web_def sample_auth_lib_def sample_page_lib_def sample_web_lib_def outcome_def handle_response_def)
  show ?thesis by (simp add: web_call_def client_verify_email_def call_public_def send_and_parse_def send)
qed

section \<open>The verification page and its guard\<close>

lemma web_call_pending: "web_call m w = (x, w1) \<Longrightarrow> wa_pending w1 = wa_pending w"
  by (auto simp: web_call_def split: prod.splits)

text \<open>C37: a verified address that is not logged in. A right code takes the pending registration away and then logs in; the page's own guard sees it missing
  while the login is under way and leaves for the landing page. With the page goes its task, so that nobody is logged in and the registration is lost.\<close>

theorem verified_then_sent_back:
  assumes "verify_shown p (ui_auth ui)" "\<not> vp_loading p" "vp_attempts p < 5" "six_digits (trim (vp_code p))"
    and "web_call (client_verify_email (wl_net (al_web lib)) (wa_client (ui_auth ui)) (read_message (al_web lib)) (vp_email p) (trim (vp_code p)))
           (ui_auth ui) = (Inr (), w1)"
  shows "let s = run_inputs False (verify_click lib) (verify_answer lib) [Click SubmitCode, Answer 0, Click RunDirtyGuard, Answer 0]
           \<lparr>ps_page = p, ps_tasks = [], ps_mounted = True, ps_ui = ui\<rparr> in
    \<not> ps_mounted s \<and> ps_tasks s = [] \<and> ui_route (ps_ui s) = LoginLanding
    \<and> \<not> is_authenticated (ui_auth (ps_ui s)) \<and> wa_pending (ui_auth (ps_ui s)) = None"
proof -
  obtain r where r: "wa_pending (ui_auth ui) = Some r"
    using assms(1) by (auto simp: verify_shown_def pending_matches_def split: option.splits)
  have w1: "wa_pending w1 = Some r" "wa_user w1 = wa_user (ui_auth ui)"
    using web_call_pending[OF assms(5)] web_call_fields[OF assms(5)] r by simp_all
  have nobody: "wa_user (ui_auth ui) = None" using assms(1) by (simp add: verify_shown_def is_authenticated_def)
  show ?thesis
    using assms(1-4) w1 nobody
    by (simp add: run_inputs_def input_step_def settle_def verify_click_def do_verify_def verify_answer_def verified_def ui_call_def assms(5)
        logged_result_def log_of_def take_pending_registration_def verify_dirty_guard_def is_authenticated_def pending_matches_def
        clear_pending_registration_def MAX_CLIENT_ATTEMPTS_def Let_def)
qed

lemma verified_then_sent_back_witness:
  "ui_route (ps_ui (run_inputs False (verify_click sample_auth_lib) (verify_answer sample_auth_lib)
       [Click SubmitCode, Answer 0, Click RunDirtyGuard, Answer 0]
       \<lparr>ps_page = (new_verify_page ''u@x'')\<lparr>vp_code := ''123456''\<rparr>, ps_tasks = [], ps_mounted = True, ps_ui = waiting_ui\<rparr>)) = LoginLanding"
proof -
  let ?p = "(new_verify_page ''u@x'')\<lparr>vp_code := ''123456''\<rparr>"
  have t: "trim ''123456'' = ''123456''" by code_simp
  have s: "verify_shown ?p (ui_auth waiting_ui)" "\<not> vp_loading ?p" "vp_attempts ?p < 5"
    by (simp_all add: verify_shown_def waiting_ui_def is_authenticated_def pending_matches_def new_verify_page_def sample_state_def)
  have c: "six_digits (trim (vp_code ?p))" by (simp add: t six_digits_def is_digit_def)
  show ?thesis using verified_then_sent_back[OF s c sample_verifies] by (simp add: Let_def)
qed

text \<open>Whatever the error, the network's included, it counts as a wrong code.\<close>

lemma any_error_counts:
  assumes "web_call (client_verify_email (wl_net (al_web lib)) (wa_client (ui_auth ui)) (read_message (al_web lib)) (vp_email p) code)
      (ui_auth ui) = (Inl e, w1)"
  shows "\<exists>p' ui'. verified lib code p ui = ((p', ui'), [], False) \<and> vp_attempts p' = vp_attempts p + 1 \<and> \<not> vp_loading p'"
  using assms by (simp add: verified_def ui_call_def Let_def)

lemma resend_code_errors:
  "wp (resend_code svc env email) (\<lambda>_ _. True) (\<lambda>e _. e = TooSoon \<or> e = EmailNotConfigured \<or> (\<exists>m. e = VInternal m)) s"
  by (auto simp: resend_code_def wp_simps Let_def intro!: wp_mail_code split: option.split sum.split)

text \<open>The verification page and the server. A resend for a valid address is never answered with status 400, not even within the cooldown of the server;
  so the page always takes an answer for a mail that was sent, and never shows the ten seconds it has for a refusal.\<close>

theorem resend_never_refused:
  assumes "parse_json_or_form (d_email (wb_decoders w)) req body = Inr email" "valid_email w email"
  shows "case fst (resend_code_handler w env req body s) of Inr reply \<Rightarrow> True | Inl e \<Rightarrow> status e \<noteq> 400"
proof -
  obtain x t where r: "resend_code (wb_codes w) env (to_lower email) s = (x, t)" by (metis prod.exhaust)
  have "e = TooSoon \<or> e = EmailNotConfigured \<or> (\<exists>m. e = VInternal m)" if "x = Inl e" for e
    using wp_Inl[OF resend_code_errors, of "wb_codes w" env "to_lower email" s e t] r that by simp
  then show ?thesis
    using assms r
    by (cases x) (auto simp: resend_code_handler_def bindS_def decoded_def validated_def email_errors_def on_error_def swallow_def liftE_def
        retS_def to_http_def api_of_verification_def http_of_api_def http_errors)
qed

lemma resend_never_refused_witness:
  "case fst (resend_code_handler sample_web sample_env (sample_request ''POST'' ''/resend-code'') [] sample_app) of
     Inr reply \<Rightarrow> True | Inl e \<Rightarrow> status e \<noteq> 400"
  by (rule resend_never_refused[of sample_web _ _ "''u''"])
    (simp_all add: parse_json_or_form_def sample_web_def sample_decoders_def sample_decoder_def Let_def)

section \<open>The landing page\<close>

text \<open>Two submissions at once. The landing page guards its requests with a flag that choosing the other mode lowers: a login and a registration can be under
  way together, and the registration leads to the verification page although the form shows the login again.\<close>

theorem landing_mode_defeats_guard:
  assumes "form_shown (ui_auth ui)" "landing_check (lp_wechat p) (form_payload p) = None" "\<not> lp_loading p" "lp_mode p = LoginMode"
    and "6 \<le> length (trim name)" "length (trim name) \<le> 50" "trim email \<noteq> []" "password \<noteq> []"
  shows "length (ps_tasks (run_inputs kept (landing_click lib) (landing_answer lib)
      [Click SubmitLanding, Click (ChooseMode RegisterMode), Click (TypeLanding NameField name), Click (TypeLanding EmailField email),
       Click (TypeLanding PasswordField password), Click (TypeLanding ConfirmField password), Click SubmitLanding]
      \<lparr>ps_page = p, ps_tasks = [], ps_mounted = True, ps_ui = ui\<rparr>)) = 2"
proof -
  have "trim name \<noteq> []" using assms(5) by auto
  then show ?thesis
    using assms
    by (simp add: run_inputs_def input_step_def settle_def landing_click_def submit_landing_def choose_mode_def type_landing_def
        landing_check_def form_payload_def form_shown_def Let_def)
qed

lemma landing_mode_defeats_guard_witness:
  "length (ps_tasks (run_inputs False (landing_click sample_auth_lib) (landing_answer sample_auth_lib)
      [Click SubmitLanding, Click (ChooseMode RegisterMode), Click (TypeLanding NameField ''second''), Click (TypeLanding EmailField ''v@x''),
       Click (TypeLanding PasswordField ''pw''), Click (TypeLanding ConfirmField ''pw''), Click SubmitLanding]
      \<lparr>ps_page = new_landing_page\<lparr>lp_email := ''u@x'', lp_password := ''pw''\<rparr>, ps_tasks = [], ps_mounted = True, ps_ui = waiting_ui\<rparr>)) = 2"
proof -
  let ?p = "new_landing_page\<lparr>lp_email := ''u@x'', lp_password := ''pw''\<rparr>"
  have t: "trim ''u@x'' = ''u@x''" "trim ''v@x'' = ''v@x''" "trim ''second'' = ''second''" by code_simp+
  have s: "form_shown (ui_auth waiting_ui)"
    by (simp add: form_shown_def waiting_ui_def is_authenticated_def sample_state_def)
  have c: "landing_check (lp_wechat ?p) (form_payload ?p) = None" "\<not> lp_loading ?p" "lp_mode ?p = LoginMode"
    by (simp_all add: landing_check_def form_payload_def new_landing_page_def t Let_def)
  show ?thesis by (rule landing_mode_defeats_guard[OF s c]) (simp_all add: t)
qed

end
