(* ===== verification/Shell.thy ===== *)
theory Shell
  imports Pages
begin

text \<open>
  What stands around the pages: the language (\<^verbatim>\<open>crates/i18n\<close>, \<^verbatim>\<open>main.rs\<close>, \<^verbatim>\<open>ui/src/language_switcher.rs\<close>), the toasts of \<^verbatim>\<open>main.rs\<close> over the log,
  the layout with its navigation (\<^verbatim>\<open>components/app_shell_layout.rs\<close>), and the dashboard (\<^verbatim>\<open>views/dashboard.rs\<close>).
\<close>

section \<open>The language\<close>

datatype language = En | Zh

text \<open>What the browser gives: the stored choice, if there is a storage, and the languages it prefers.\<close>

record language_browser =
  lb_stored :: "string option"
  lb_storage :: bool
  lb_navigator :: "string option"
  lb_preferred :: "string option list"

definition language_str :: "language \<Rightarrow> string" where
  "language_str l = (case l of En \<Rightarrow> ''en'' | Zh \<Rightarrow> ''zh'')"

definition detected_language :: "language_browser \<Rightarrow> language" where
  "detected_language b =
     (if (case lb_navigator b of None \<Rightarrow> False | Some l \<Rightarrow> starts_with l ''zh'') then Zh
      else (case lb_preferred b of Some l # _ \<Rightarrow> if starts_with l ''zh'' then Zh else En | _ \<Rightarrow> En))"

definition init_language :: "language_browser \<Rightarrow> language" where
  "init_language b =
     (case (if lb_storage b then lb_stored b else None) of
        Some v \<Rightarrow> if v = ''zh'' then Zh else if v = ''en'' then En else detected_language b
      | None \<Rightarrow> detected_language b)"

definition set_lang :: "language \<Rightarrow> language \<times> language_browser \<Rightarrow> language \<times> language_browser" where
  "set_lang l w = (case w of (_, b) \<Rightarrow> (l, if lb_storage b then b\<lparr>lb_stored := Some (language_str l)\<rparr> else b))"

definition toggle_language :: "language \<times> language_browser \<Rightarrow> language \<times> language_browser" where
  "toggle_language w = set_lang (if fst w = En then Zh else En) w"

section \<open>Toasts\<close>

datatype toast_kind = ToastSuccess | ToastError | ToastImportant

record toast_entry =
  te_id :: nat
  te_method :: string
  te_path :: string
  te_status :: string
  te_kind :: toast_kind
  te_created_at_ms :: nat

definition toast_of :: "log_entry \<Rightarrow> toast_entry" where
  "toast_of e =
     \<lparr>te_id = le_id e, te_method = le_method e, te_path = le_path e, te_status = le_status e,
      te_kind = (case le_kind e of SuccessEntry \<Rightarrow> ToastSuccess | ErrorEntry \<Rightarrow> ToastError | ImportantEntry \<Rightarrow> ToastImportant),
      te_created_at_ms = le_created_at_ms e\<rparr>"

record toast_layer =
  tl_bus :: log_bus
  tl_dismissed :: "nat set"

definition visible_toasts :: "toast_layer \<Rightarrow> toast_entry list" where
  "visible_toasts s = map toast_of (filter (\<lambda>e. le_id e \<notin> tl_dismissed s) (lb_entries (tl_bus s)))"

definition dismiss_toast :: "nat \<Rightarrow> toast_layer \<Rightarrow> toast_layer" where
  "dismiss_toast i s = s\<lparr>tl_dismissed := insert i (tl_dismissed s)\<rparr>"

definition forget_dismissed :: "toast_layer \<Rightarrow> toast_layer" where
  "forget_dismissed s = s\<lparr>tl_dismissed := tl_dismissed s \<inter> le_id ` set (lb_entries (tl_bus s))\<rparr>"

section \<open>The layout\<close>

datatype nav_key = NavDashboard | NavUsers

definition active_nav :: "web_route \<Rightarrow> nav_key" where
  "active_nav r = (if r = OtherRoute ''/users'' then NavUsers else NavDashboard)"

definition nav_target :: "nav_key \<Rightarrow> web_route" where
  "nav_target k = (case k of NavDashboard \<Rightarrow> Dashboard | NavUsers \<Rightarrow> OtherRoute ''/users'')"

definition shows_admin_modules :: "'s web_state \<Rightarrow> bool" where
  "shows_admin_modules w = (case wa_user w of None \<Rightarrow> False | Some u \<Rightarrow> is_admin u)"

record shell_page =
  sh_sidebar_open :: bool
  sh_asking :: bool

datatype shell_click = ToggleSidebar | CloseSidebar | SelectNav nav_key | OpenSettings | AskLogout | ConfirmLogout | CancelLogout

definition shell_click :: "shell_click \<Rightarrow> shell_page \<times> 's web_ui \<Rightarrow> (shell_page, unit, 's web_ui) page_result" where
  "shell_click c w =
     (case w of (p, ui) \<Rightarrow>
      case c of
        ToggleSidebar \<Rightarrow> stay (p\<lparr>sh_sidebar_open := \<not> sh_sidebar_open p\<rparr>) ui
      | CloseSidebar \<Rightarrow> stay (p\<lparr>sh_sidebar_open := False\<rparr>) ui
      | SelectNav k \<Rightarrow>
          if k = NavUsers \<and> \<not> shows_admin_modules (ui_auth ui) then stay p ui
          else stay (p\<lparr>sh_sidebar_open := False\<rparr>) (ui\<lparr>ui_route := nav_target k\<rparr>)
      | OpenSettings \<Rightarrow> stay p (ui\<lparr>ui_route := OtherRoute ''/settings''\<rparr>)
      | AskLogout \<Rightarrow> stay (p\<lparr>sh_asking := True\<rparr>) ui
      | ConfirmLogout \<Rightarrow> if sh_asking p then ((p\<lparr>sh_asking := False\<rparr>, ui), [()], False) else stay p ui
      | CancelLogout \<Rightarrow> stay (p\<lparr>sh_asking := False\<rparr>) ui)"

definition shell_answer :: "'s web_lib \<Rightarrow> unit \<Rightarrow> shell_page \<times> 's web_ui \<Rightarrow> (shell_page, unit, 's web_ui) page_result" where
  "shell_answer lib task w =
     (case w of (p, ui) \<Rightarrow> ((p, ui\<lparr>ui_auth := logout_async lib (ui_auth ui), ui_route := LoginLanding\<rparr>), [], True))"

section \<open>The dashboard\<close>

record health_state =
  hs_status_label :: string
  hs_version :: "string option"
  hs_ok :: bool

record dashboard_page =
  db_health :: health_state
  db_latency_ms :: "nat option"
  db_total_users :: "nat option"
  db_checking :: bool
  db_health_version :: nat
  db_count_version :: nat

definition no_value :: string where "no_value = ''-''"

definition new_dashboard :: dashboard_page where
  "new_dashboard =
     \<lparr>db_health = \<lparr>hs_status_label = no_value, hs_version = None, hs_ok = False\<rparr>, db_latency_ms = None, db_total_users = None,
      db_checking = False, db_health_version = 0, db_count_version = 0\<rparr>"

record dashboard_texts =
  dt_network :: string
  dt_rate_limited :: string
  dt_config :: string
  dt_deserialize :: string
  dt_console_ready :: string
  dt_console_replay :: string

text \<open>The library of the page, the readers of its answers, the time of its clock.\<close>

record 's dashboard_lib =
  dl_page :: "'s page_lib"
  dl_texts :: dashboard_texts
  dl_read_health :: "api_response \<Rightarrow> (transport_error, string \<times> string) res"
  dl_read_count :: "api_response \<Rightarrow> (transport_error, nat) res"
  dl_clock :: "'s web_state \<Rightarrow> nat"

definition error_summary :: "dashboard_texts \<Rightarrow> client_error \<Rightarrow> string \<times> string" where
  "error_summary t e =
     (case e of
        OtherError s _ \<Rightarrow> (show_nat s, ''HTTP '' @ show_nat s)
      | ServerError s _ \<Rightarrow> (show_nat s, ''HTTP '' @ show_nat s)
      | NetworkError _ \<Rightarrow> (''NET'', dt_network t)
      | RateLimitedError _ \<Rightarrow> (''429'', dt_rate_limited t)
      | ConfigError _ \<Rightarrow> (''CFG'', dt_config t)
      | DeserializationError _ \<Rightarrow> (''JSON'', dt_deserialize t))"

text \<open>The check with its version, whether the count of users follows and with which version.\<close>

datatype dashboard_task = HealthTask nat nat bool | CountTask nat nat

definition run_health_clicked :: "dashboard_page \<Rightarrow> 's web_ui \<Rightarrow> (dashboard_page, dashboard_task, 's web_ui) page_result" where
  "run_health_clicked p ui =
     (if db_checking p then stay p ui
      else
        (let v = db_health_version p + 1; c = db_count_version p + 1 in
         ((p\<lparr>db_health_version := v, db_count_version := c, db_checking := True\<rparr>, ui),
          [HealthTask v c (shows_admin_modules (ui_auth ui))], False)))"

text \<open>The end of a task: the button is free again when no newer check has been started.\<close>

definition check_done :: "nat \<Rightarrow> dashboard_page \<Rightarrow> dashboard_page" where
  "check_done v p = (if db_health_version p = v then p\<lparr>db_checking := False\<rparr> else p)"

definition health_checked :: "'s dashboard_lib \<Rightarrow> nat \<Rightarrow> dashboard_page \<Rightarrow> 's web_ui \<Rightarrow> dashboard_page \<times> 's web_ui" where
  "health_checked lib v p ui =
     (let started = dl_clock lib (ui_auth ui); now_ms = pl_now_ms (dl_page lib); net = wl_net (pl_web (dl_page lib)) in
      case web_call (client_health_check net (wa_client (ui_auth ui)) (dl_read_health lib)) (ui_auth ui) of
        (res, w) \<Rightarrow>
          let ui1 = ui\<lparr>ui_auth := w\<rparr>; elapsed = dl_clock lib w - started in
          if db_health_version p \<noteq> v then (p, ui1)
          else (case res of
              Inr (st, ver) \<Rightarrow>
                (p\<lparr>db_latency_ms := Some elapsed, db_health := \<lparr>hs_status_label = ''UP ('' @ st @ '')'', hs_version = Some ver, hs_ok = True\<rparr>\<rparr>,
                 log_of (push_log_ok now_ms ''GET'' ''/api/health'') ui1)
            | Inl e \<Rightarrow>
                (p\<lparr>db_latency_ms := None,
                   db_health := \<lparr>hs_status_label = snd (error_summary (dl_texts lib) e), hs_version = Some no_value, hs_ok = False\<rparr>\<rparr>,
                 log_of (push_log_err now_ms ''GET'' ''/api/health'' e) ui1)))"

text \<open>Counting the users; the flag says whether an answer led away.\<close>

definition users_counted :: "'s dashboard_lib \<Rightarrow> nat \<Rightarrow> dashboard_page \<Rightarrow> 's web_ui \<Rightarrow> (dashboard_page \<times> 's web_ui) \<times> bool" where
  "users_counted lib c p ui =
     (let now_ms = pl_now_ms (dl_page lib); web = pl_web (dl_page lib) in
      case web_call (client_list_users (wl_net web) (wa_client (ui_auth ui)) (dl_read_count lib) 1 1) (ui_auth ui) of
        (res, w) \<Rightarrow>
          let ui1 = ui\<lparr>ui_auth := w\<rparr> in
          if db_count_version p \<noteq> c then ((p, ui1), False)
          else (case res of
              Inr n \<Rightarrow> ((p\<lparr>db_total_users := Some n\<rparr>, log_of (push_log_ok now_ms ''GET'' ''/api/users'') ui1), False)
            | Inl e \<Rightarrow>
                (case handle_unauth web now_ms e ui1 of
                   (True, ui2) \<Rightarrow> ((p\<lparr>db_total_users := None\<rparr>, ui2), is_unauth e)
                 | (False, ui2) \<Rightarrow> ((p\<lparr>db_total_users := None\<rparr>, log_of (push_log_err now_ms ''GET'' ''/api/users'' e) ui2), False))))"

definition dashboard_click :: "unit \<Rightarrow> dashboard_page \<times> 's web_ui \<Rightarrow> (dashboard_page, dashboard_task, 's web_ui) page_result" where
  "dashboard_click c w = (case w of (p, ui) \<Rightarrow> run_health_clicked p ui)"

definition dashboard_answer ::
    "'s dashboard_lib \<Rightarrow> dashboard_task \<Rightarrow> dashboard_page \<times> 's web_ui \<Rightarrow> (dashboard_page, dashboard_task, 's web_ui) page_result" where
  "dashboard_answer lib task w =
     (case w of (p, ui) \<Rightarrow>
      case task of
        HealthTask v c admin \<Rightarrow>
          (case health_checked lib v p ui of (p1, ui1) \<Rightarrow>
             if admin then ((p1, ui1), [CountTask v c], False) else stay (check_done v p1) ui1)
      | CountTask v c \<Rightarrow> (case users_counted lib c p ui of ((p1, ui1), left) \<Rightarrow> ((check_done v p1, ui1), [], left)))"

text \<open>The console: two lines of its own and one for each entry of the log, those that the search finds.\<close>

datatype console_kind = ConsoleSuccess | ConsoleInfo | ConsoleAmber | ConsoleRose

record console_line =
  cl_timestamp :: "string option"
  cl_method :: "string option"
  cl_path :: string
  cl_status :: string
  cl_kind :: console_kind

definition two_digits :: "nat \<Rightarrow> string" where
  "two_digits n = (if n < 10 then ''0'' else []) @ show_nat n"

text \<open>\<^verbatim>\<open>in_range\<close>: the seconds that the calendar of the library reaches.\<close>

definition format_ts :: "(nat \<Rightarrow> bool) \<Rightarrow> nat \<Rightarrow> string" where
  "format_ts in_range unix_ms =
     (let secs = unix_ms div 1000; day = secs mod 86400 in
      if in_range secs then two_digits (day div 3600) @ '':'' @ two_digits (day div 60 mod 60) @ '':'' @ two_digits (day mod 60)
      else ''--:--:--'')"

definition console_kind_of :: "log_entry \<Rightarrow> console_kind" where
  "console_kind_of e =
     (case le_kind e of
        SuccessEntry \<Rightarrow> if le_method e = ''PUT'' then ConsoleAmber else if le_method e = ''DELETE'' then ConsoleRose else ConsoleSuccess
      | ErrorEntry \<Rightarrow> ConsoleRose
      | ImportantEntry \<Rightarrow> ConsoleAmber)"

definition build_console_lines :: "(nat \<Rightarrow> bool) \<Rightarrow> dashboard_texts \<Rightarrow> log_entry list \<Rightarrow> console_line list" where
  "build_console_lines in_range t entries =
     [\<lparr>cl_timestamp = None, cl_method = None, cl_path = dt_console_ready t, cl_status = [], cl_kind = ConsoleInfo\<rparr>,
      \<lparr>cl_timestamp = None, cl_method = None, cl_path = dt_console_replay t, cl_status = [], cl_kind = ConsoleInfo\<rparr>]
     @ map (\<lambda>e. \<lparr>cl_timestamp = Some (format_ts in_range (le_created_at_ms e)), cl_method = Some (le_method e), cl_path = le_path e,
                  cl_status = le_status e, cl_kind = console_kind_of e\<rparr>) entries"

definition console_lines :: "(nat \<Rightarrow> bool) \<Rightarrow> dashboard_texts \<Rightarrow> string \<Rightarrow> log_bus \<Rightarrow> console_line list" where
  "console_lines in_range t q bus =
     build_console_lines in_range t
       (if q = [] then lb_entries bus
        else filter (\<lambda>e. str_contains (to_lower (le_path e)) (to_lower q) \<or> str_contains (to_lower (le_method e)) (to_lower q)
               \<or> str_contains (to_lower (le_status e)) (to_lower q)) (lb_entries bus))"

section \<open>Properties\<close>

text \<open>The chosen language is found again, as far as the browser keeps what is stored.\<close>

theorem language_roundtrip:
  "(case set_lang l (l0, b\<lparr>lb_storage := True\<rparr>) of (l1, b1) \<Rightarrow> l1 = l \<and> init_language b1 = l)
   \<and> (case toggle_language (l, b\<lparr>lb_storage := True\<rparr>) of (l1, b1) \<Rightarrow> l1 \<noteq> l \<and> init_language b1 = l1)"
  by (cases l) (simp_all add: set_lang_def toggle_language_def init_language_def language_str_def)

text \<open>What happens to the toasts: an entry of the log, a dismissal of one that is there, the effect that forgets old ids.\<close>

datatype toast_event = PushEntry string string string log_kind nat | Dismiss nat | ForgetOld

definition toast_step :: "toast_event \<Rightarrow> toast_layer \<Rightarrow> toast_layer" where
  "toast_step ev s =
     (case ev of
        PushEntry m p st k t \<Rightarrow> s\<lparr>tl_bus := log_push t m p st k (tl_bus s)\<rparr>
      | Dismiss i \<Rightarrow> if i \<in> te_id ` set (visible_toasts s) then dismiss_toast i s else s
      | ForgetOld \<Rightarrow> forget_dismissed s)"

definition toasts_ok :: "toast_layer \<Rightarrow> bool" where
  "toasts_ok s \<longleftrightarrow> log_ok (tl_bus s) \<and> (\<forall>i \<in> tl_dismissed s. i < lb_next_id (tl_bus s))"

lemma visible_ids: "te_id ` set (visible_toasts s) = le_id ` {e \<in> set (lb_entries (tl_bus s)). le_id e \<notin> tl_dismissed s}"
  by (force simp: visible_toasts_def toast_of_def)

lemma log_push_ids:
  "le_id ` set (lb_entries (log_push t m p st k bus)) \<subseteq> insert (lb_next_id bus) (le_id ` set (lb_entries bus))"
  "lb_next_id (log_push t m p st k bus) = lb_next_id bus + 1"
  by (auto simp: log_push_def Let_def dest: in_set_dropD)

lemma log_ok_ids: "log_ok bus \<Longrightarrow> i \<in> le_id ` set (lb_entries bus) \<Longrightarrow> i < lb_next_id bus"
  by (auto simp: log_ok_def sorted_wrt_append)

lemma toast_step_ok:
  assumes "toasts_ok s"
  shows "toasts_ok (toast_step ev s)"
proof (cases ev)
  case (PushEntry m p st k t)
  then show ?thesis using assms by (force simp: toast_step_def toasts_ok_def log_push_ok log_push_ids(2))
next
  case (Dismiss i)
  then show ?thesis using assms log_ok_ids[of "tl_bus s"] by (auto simp: toast_step_def toasts_ok_def dismiss_toast_def visible_ids)
qed (use assms in \<open>auto simp: toast_step_def toasts_ok_def forget_dismissed_def\<close>)

text \<open>An id that is below the counter and shown by no toast stays hidden.\<close>

lemma hidden_step:
  assumes "toasts_ok s" "i < lb_next_id (tl_bus s)" "i \<notin> te_id ` set (visible_toasts s)"
  shows "i < lb_next_id (tl_bus (toast_step ev s)) \<and> i \<notin> te_id ` set (visible_toasts (toast_step ev s))"
proof (cases ev)
  case (PushEntry m p st k t)
  have "e \<in> set (lb_entries (tl_bus s))" if "e \<in> set (lb_entries (log_push t m p st k (tl_bus s)))" "le_id e = i" for e
    using that assms(2) by (auto simp: log_push_def Let_def dest: in_set_dropD split: if_splits)
  then show ?thesis using assms PushEntry by (auto simp: toast_step_def visible_ids log_push_ids(2))
next
  case (Dismiss j)
  then show ?thesis using assms by (auto simp: toast_step_def visible_ids dismiss_toast_def)
qed (use assms in \<open>auto simp: toast_step_def visible_ids forget_dismissed_def\<close>)

lemma hidden_run:
  "toasts_ok s \<Longrightarrow> i < lb_next_id (tl_bus s) \<Longrightarrow> i \<notin> te_id ` set (visible_toasts s) \<Longrightarrow>
    i \<notin> te_id ` set (visible_toasts (fold toast_step evs s))"
proof (induction evs arbitrary: s)
  case (Cons ev evs)
  then show ?case using hidden_step[OF Cons.prems, of ev] toast_step_ok by simp
qed simp

lemma toasts_run: "toasts_ok s \<Longrightarrow> toasts_ok (fold toast_step evs s)"
  by (induction evs arbitrary: s) (simp_all add: toast_step_ok)

definition no_toasts :: toast_layer where
  "no_toasts = \<lparr>tl_bus = \<lparr>lb_entries = [], lb_next_id = 1\<rparr>, tl_dismissed = {}\<rparr>"

text \<open>A dismissed toast stays away. After any history of the log, a toast that is shown and dismissed is never shown again, although the dismissed ids are
  forgotten as soon as their entries leave the log.\<close>

theorem dismissed_toast_stays_away:
  assumes "i \<in> te_id ` set (visible_toasts (fold toast_step evs no_toasts))"
  shows "i \<notin> te_id ` set (visible_toasts (fold toast_step (evs @ Dismiss i # evs') no_toasts))"
proof -
  define s where "s = fold toast_step evs no_toasts"
  have ok: "toasts_ok s" unfolding s_def by (rule toasts_run) (simp add: toasts_ok_def log_ok_def MAX_ENTRIES_def no_toasts_def)
  have i: "i \<in> te_id ` set (visible_toasts s)" using assms by (simp add: s_def)
  then have "i < lb_next_id (tl_bus s)" using ok log_ok_ids[of "tl_bus s" i] by (auto simp: toasts_ok_def visible_ids)
  moreover have d: "toast_step (Dismiss i) s = dismiss_toast i s" using i by (simp add: toast_step_def)
  moreover have "i \<notin> te_id ` set (visible_toasts (dismiss_toast i s))" by (auto simp: visible_ids dismiss_toast_def)
  moreover have "toasts_ok (dismiss_toast i s)" using toast_step_ok[OF ok, of "Dismiss i"] d by simp
  ultimately have "i \<notin> te_id ` set (visible_toasts (fold toast_step evs' (dismiss_toast i s)))"
    by (intro hidden_run) (simp_all add: dismiss_toast_def)
  then show ?thesis by (simp add: s_def[symmetric] d)
qed

lemma dismissed_toast_stays_away_witness:
  "1 \<notin> te_id ` set (visible_toasts (fold toast_step
      ([PushEntry ''GET'' ''/api/users'' ''200 OK'' SuccessEntry 0] @ Dismiss 1 # [ForgetOld]) no_toasts))"
  by (rule dismissed_toast_stays_away)
    (simp add: no_toasts_def toast_step_def visible_ids log_push_def MAX_ENTRIES_def Let_def)

text \<open>The dashboard is a live page: its button waits for the check and for the count.\<close>

definition dashboard_fit :: "dashboard_task \<Rightarrow> dashboard_page \<Rightarrow> bool" where
  "dashboard_fit t p =
     (case t of HealthTask v c _ \<Rightarrow> v = db_health_version p \<and> c = db_count_version p
      | CountTask v c \<Rightarrow> v = db_health_version p \<and> c = db_count_version p)"

definition dashboard_weight :: "dashboard_task \<Rightarrow> nat" where
  "dashboard_weight t = (case t of HealthTask _ _ _ \<Rightarrow> 2 | CountTask _ _ \<Rightarrow> 1)"

lemma health_checked_keeps:
  "health_checked lib v p ui = (p1, ui1) \<Longrightarrow>
     db_health_version p1 = db_health_version p \<and> db_count_version p1 = db_count_version p \<and> db_checking p1 = db_checking p"
  by (auto simp: health_checked_def Let_def split: prod.splits sum.splits if_splits)

lemma users_counted_keeps:
  "users_counted lib c p ui = ((p1, ui1), l) \<Longrightarrow> db_health_version p1 = db_health_version p \<and> db_checking p1 = db_checking p"
  by (auto simp: users_counted_def Let_def split: prod.splits sum.splits if_splits bool.splits)

lemma dashboard_answer_shape:
  assumes "dashboard_fit t p" "dashboard_answer lib t (p, u) = ((p', u'), new, l)"
  shows "length new \<le> 1 \<and> (\<forall>t' \<in> set new. db_checking p \<longrightarrow> db_checking p' \<and> dashboard_fit t' p') \<and> (new = [] \<longrightarrow> \<not> db_checking p')
    \<and> sum_list (map dashboard_weight new) < dashboard_weight t"
  using assms health_checked_keeps[of lib _ p u] users_counted_keeps[of lib _ p u]
  by (cases t) (auto simp: dashboard_answer_def stay_def dashboard_fit_def dashboard_weight_def check_done_def split: prod.splits if_splits)

interpretation dashboard: live_page "\<lambda>_. ()" "\<lambda>_. db_checking" "\<lambda>_. True" dashboard_fit dashboard_click "dashboard_answer lib" dashboard_weight
  for lib
proof (unfold_locales, goal_cases)
  case (1 p c u p' u' new l)
  then show ?case
    by (auto simp: dashboard_click_def run_health_clicked_def dashboard_fit_def stay_def Let_def split: if_splits dashboard_task.splits)
next
  case (2 p t u p' u' new l)
  then show ?case using dashboard_answer_shape[of t p lib u p' u' new l] by auto
next
  case (3 p c u p' u' new l k)
  then show ?case by (auto simp: dashboard_click_def run_health_clicked_def stay_def Let_def split: if_splits)
next
  case (4 p t u p' u' new l k)
  then show ?case using dashboard_answer_shape[of t p lib u p' u' new l] by (cases new) auto
next
  case (5 p t u p' u' new l)
  then show ?case using dashboard_answer_shape[of t p lib u p' u' new l] by simp
qed

text \<open>The check of the dashboard. However often the button is pressed and in whatever order answers come, one check is under way at most, its versions are the
  newest ones, so that no answer is ever dropped as stale, and once it is answered the button is free again.\<close>

theorem dashboard_check_ends:
  "(let s = run_inputs kept dashboard_click (dashboard_answer lib) inps
        \<lparr>ps_page = new_dashboard, ps_tasks = [], ps_mounted = True, ps_ui = ui\<rparr> in
      distinct (map (\<lambda>_. ()) (ps_tasks s)) \<and> list_all (\<lambda>t. dashboard_fit t (ps_page s)) (ps_tasks s))
   \<and> (\<exists>n. let s = run_inputs kept dashboard_click (dashboard_answer lib) (inps @ replicate n (Answer 0))
        \<lparr>ps_page = new_dashboard, ps_tasks = [], ps_mounted = True, ps_ui = ui\<rparr> in
      ps_tasks s = [] \<and> \<not> (ps_mounted s \<and> db_checking (ps_page s)))"
  using dashboard.one_of_a_kind[where p = new_dashboard and keeps = kept and lib = lib and inps = inps and u = ui]
    dashboard.all_flags_down[of new_dashboard kept lib inps ui]
  by (simp add: Let_def new_dashboard_def)

end
