(* ===== verification/Wire.thy ===== *)
theory Wire
  imports WebAuth Float64 Snowflake "HOL-Library.Char_ord" "HOL-Library.List_Lexorder" "HOL-Library.Countable"
begin

text \<open>
  What the application and the server write to each other: the JSON of every request and answer, as the structs of
  \<^verbatim>\<open>client-api/src/types.rs\<close> and of the handlers declare it, and what the other side reads from it. JSON values are a datatype; their text is
  the business of \<^verbatim>\<open>serde_json\<close>, of which \<^verbatim>\<open>json_laws\<close> says what it documents: a text is read back to the value that was written, except that
  a float may come back as another one, by \<^verbatim>\<open>neighbour\<close> one next to it. An array in the place of a struct, which the derived readers accept too, is left out.
\<close>

section \<open>JSON\<close>

datatype json =
  JNull | JBool bool | JInt int | JFloat f64 | JStr string | JArr "json list" | JObj "(string \<times> json) list"

text \<open>The values that can be written: integers of 64 bits, finite floats, each key once.\<close>

primrec writable :: "json \<Rightarrow> bool" where
  "writable JNull = True"
| "writable (JBool b) = True"
| "writable (JInt i) = (i64_min \<le> i \<and> i < 2 ^ 64)"
| "writable (JFloat x) = is_finite x"
| "writable (JStr s) = True"
| "writable (JArr xs) = list_all id (map writable xs)"
| "writable (JObj kvs) = (distinct (map fst kvs) \<and> list_all snd (map (map_prod id writable) kvs))"

primrec nudge :: "(f64 \<Rightarrow> f64) \<Rightarrow> json \<Rightarrow> json" where
  "nudge f JNull = JNull"
| "nudge f (JBool b) = JBool b"
| "nudge f (JInt i) = JInt i"
| "nudge f (JFloat x) = JFloat (f x)"
| "nudge f (JStr s) = JStr s"
| "nudge f (JArr xs) = JArr (map (nudge f) xs)"
| "nudge f (JObj kvs) = JObj (map (map_prod id (nudge f)) kvs)"

text \<open>The library: the text of a value and the value of a text; dates as \<^verbatim>\<open>chrono\<close> writes them.\<close>

record json_lib =
  to_text :: "json \<Rightarrow> string"
  from_text :: "string \<Rightarrow> json option"
  json_error :: "string \<Rightarrow> string"
  date_text :: "int \<Rightarrow> string"
  read_date :: "string \<Rightarrow> int option"

definition json_laws :: "json_lib \<Rightarrow> (f64 \<Rightarrow> f64) \<Rightarrow> bool" where
  "json_laws l f \<longleftrightarrow>
     (\<forall>j. writable j \<longrightarrow> from_text l (to_text l j) = Some (nudge f j) \<and> to_text l j \<noteq> [])
     \<and> (\<forall>t. read_date l (date_text l t) = Some t)"

text \<open>What \<^verbatim>\<open>json_laws\<close> leaves open is what becomes of a float. Reading without \<^verbatim>\<open>float_roundtrip\<close>, \<^verbatim>\<open>serde_json\<close> documents an error of at most one
  unit in the last place, away from the ends of the range; a theorem that speaks of the value of a float asks for it.\<close>

definition neighbour :: "(f64 \<Rightarrow> f64) \<Rightarrow> bool" where
  "neighbour f \<longleftrightarrow>
     (\<forall>x. is_finite x \<and> \<bar>f64_value x\<bar> < 2 powi 1000 \<longrightarrow>
        is_finite (f x) \<and> \<bar>f64_value (f x) - f64_value x\<bar> \<le> 2 powi (- 52) * \<bar>f64_value x\<bar> + 2 powi (- 1074))"

text \<open>\<^verbatim>\<open>serde_json::to_value\<close>: the object of a value keeps its keys in order.\<close>

primrec to_value :: "json \<Rightarrow> json" where
  "to_value JNull = JNull"
| "to_value (JBool b) = JBool b"
| "to_value (JInt i) = JInt i"
| "to_value (JFloat x) = (if is_finite x then JFloat x else JNull)"
| "to_value (JStr s) = JStr s"
| "to_value (JArr xs) = JArr (map to_value xs)"
| "to_value (JObj kvs) = JObj (sort_key fst (map (map_prod id to_value) kvs))"

section \<open>Derived readers\<close>

definition as_str :: "json \<Rightarrow> string option" where
  "as_str j = (case j of JStr s \<Rightarrow> Some s | _ \<Rightarrow> None)"

definition as_bool :: "json \<Rightarrow> bool option" where
  "as_bool j = (case j of JBool b \<Rightarrow> Some b | _ \<Rightarrow> None)"

definition as_int64 :: "json \<Rightarrow> int option" where
  "as_int64 j = (case j of JInt i \<Rightarrow> if in_i64 i then Some i else None | _ \<Rightarrow> None)"

definition as_u64 :: "json \<Rightarrow> nat option" where
  "as_u64 j = (case j of JInt i \<Rightarrow> if 0 \<le> i \<and> i < 2 ^ 64 then Some (nat i) else None | _ \<Rightarrow> None)"

text \<open>An \<^verbatim>\<open>i64\<close> as the nearest float.\<close>

definition f64_of_int :: "int \<Rightarrow> f64" where
  "f64_of_int i = (if i < 0 then negate_f64 (round_f64 (nat (- i)) 1) else round_f64 (nat i) 1)"

definition as_f64 :: "json \<Rightarrow> f64 option" where
  "as_f64 j = (case j of JFloat x \<Rightarrow> Some x | JInt i \<Rightarrow> Some (f64_of_int i) | _ \<Rightarrow> None)"

definition as_option :: "(json \<Rightarrow> 'a option) \<Rightarrow> json \<Rightarrow> 'a option option" where
  "as_option r j = (if j = JNull then Some None else map_option Some (r j))"

definition as_list :: "(json \<Rightarrow> 'a option) \<Rightarrow> json \<Rightarrow> 'a list option" where
  "as_list r j = (case j of JArr xs \<Rightarrow> those (map r xs) | _ \<Rightarrow> None)"

definition as_date :: "json_lib \<Rightarrow> json \<Rightarrow> int option" where
  "as_date l j = Option.bind (as_str j) (read_date l)"

text \<open>A field by its name: a default when it is missing, an error when it is there twice. Other fields are ignored.\<close>

definition field :: "string \<Rightarrow> (json \<Rightarrow> 'a option) \<Rightarrow> 'a option \<Rightarrow> (string \<times> json) list \<Rightarrow> 'a option" where
  "field name r missing kvs =
     (case filter (\<lambda>kv. fst kv = name) kvs of [] \<Rightarrow> missing | [kv] \<Rightarrow> r (snd kv) | _ \<Rightarrow> None)"

definition required :: "string \<Rightarrow> (json \<Rightarrow> 'a option) \<Rightarrow> (string \<times> json) list \<Rightarrow> 'a option" where
  "required name r kvs = field name r None kvs"

definition struct :: "((string \<times> json) list \<Rightarrow> 'a option) \<Rightarrow> json \<Rightarrow> 'a option" where
  "struct r j = (case j of JObj kvs \<Rightarrow> r kvs | _ \<Rightarrow> None)"

section \<open>Requests\<close>

text \<open>What the client writes, field by field. An option that is \<^const>\<open>None\<close> is skipped where its struct says so.\<close>

definition optional :: "string \<Rightarrow> string option \<Rightarrow> (string \<times> json) list" where
  "optional name v = (case v of None \<Rightarrow> [] | Some s \<Rightarrow> [(name, JStr s)])"

definition login_request_json :: "string \<Rightarrow> string \<Rightarrow> bool \<Rightarrow> string option \<Rightarrow> json" where
  "login_request_json email password remember captcha_code =
     JObj ([(''email'', JStr email), (''password'', JStr password), (''remember'', JBool remember)]
       @ optional ''captcha_code'' captcha_code)"

definition register_request_json :: "string \<Rightarrow> string \<Rightarrow> string \<Rightarrow> string \<Rightarrow> bool \<Rightarrow> json" where
  "register_request_json email password name password_confirm remember =
     JObj [(''email'', JStr email), (''password'', JStr password), (''name'', JStr name),
       (''password_confirm'', JStr password_confirm), (''remember'', JBool remember)]"

definition verify_request_json :: "string \<Rightarrow> string \<Rightarrow> json" where
  "verify_request_json email code = JObj [(''email'', JStr email), (''code'', JStr code)]"

definition email_request_json :: "string \<Rightarrow> json" where
  "email_request_json email = JObj [(''email'', JStr email)]"

definition reset_request_json :: "string \<Rightarrow> string \<Rightarrow> string \<Rightarrow> json" where
  "reset_request_json email code new_password =
     JObj [(''email'', JStr email), (''code'', JStr code), (''new_password'', JStr new_password)]"

definition wx_request_json :: "string \<Rightarrow> json" where
  "wx_request_json code = JObj [(''code'', JStr code)]"

definition change_request_json :: "string \<Rightarrow> string \<Rightarrow> json" where
  "change_request_json current new = JObj [(''current_password'', JStr current), (''new_password'', JStr new)]"

definition create_request_json :: "string \<Rightarrow> string \<Rightarrow> string \<Rightarrow> string option \<Rightarrow> json" where
  "create_request_json email password name role =
     JObj ([(''email'', JStr email), (''password'', JStr password), (''name'', JStr name)] @ optional ''role'' role)"

definition update_request_json :: "string option \<Rightarrow> string option \<Rightarrow> string option \<Rightarrow> json" where
  "update_request_json email name role =
     JObj (optional ''email'' email @ optional ''name'' name @ optional ''role'' role)"

definition set_balance_request_json :: "int \<Rightarrow> json" where
  "set_balance_request_json balance = JObj [(''balance'', JInt balance)]"

definition adjust_balance_request_json :: "int \<Rightarrow> json" where
  "adjust_balance_request_json amount = JObj [(''amount'', JInt amount)]"

definition body_json :: "api_body \<Rightarrow> json option" where
  "body_json b =
     (case b of
        NoBody \<Rightarrow> None
      | EmptyObject \<Rightarrow> Some (JObj [])
      | LoginReq e p r c \<Rightarrow> Some (login_request_json e p r c)
      | RegisterReq e p n c r \<Rightarrow> Some (register_request_json e p n c r)
      | VerifyReq e c \<Rightarrow> Some (verify_request_json e c)
      | EmailReq e \<Rightarrow> Some (email_request_json e)
      | ResetReq e c p \<Rightarrow> Some (reset_request_json e c p)
      | WxCodeReq c \<Rightarrow> Some (wx_request_json c)
      | ChangePasswordReq p q \<Rightarrow> Some (change_request_json p q)
      | CreateUserReq e p n r \<Rightarrow> Some (create_request_json e p n r)
      | UpdateUserReq e n r \<Rightarrow> Some (update_request_json e n r)
      | BalanceReq i \<Rightarrow> Some (set_balance_request_json i)
      | AmountReq i \<Rightarrow> Some (adjust_balance_request_json i))"

text \<open>What the handlers read.\<close>

definition read_login_body :: "json \<Rightarrow> login_body option" where
  "read_login_body = struct (\<lambda>kvs.
     Option.bind (required ''email'' as_str kvs) (\<lambda>email.
     Option.bind (required ''password'' as_str kvs) (\<lambda>password.
     Option.bind (field ''remember'' as_bool (Some False) kvs) (\<lambda>remember.
     Option.bind (field ''captcha_code'' (as_option as_str) (Some None) kvs) (\<lambda>code.
     Some \<lparr>lb_email = email, lb_password = password, lb_remember = remember, lb_captcha_code = code\<rparr>)))))"

definition read_register_body :: "json \<Rightarrow> register_body option" where
  "read_register_body = struct (\<lambda>kvs.
     Option.bind (required ''email'' as_str kvs) (\<lambda>email.
     Option.bind (required ''password'' as_str kvs) (\<lambda>password.
     Option.bind (required ''name'' as_str kvs) (\<lambda>name.
     Option.bind (field ''password_confirm'' as_str (Some []) kvs) (\<lambda>confirm.
     Option.bind (field ''remember'' as_bool (Some False) kvs) (\<lambda>_.
     Some \<lparr>rb_email = email, rb_password = password, rb_name = name, rb_password_confirm = confirm\<rparr>))))))"

definition read_verify_body :: "json \<Rightarrow> verify_body option" where
  "read_verify_body = struct (\<lambda>kvs.
     Option.bind (required ''email'' as_str kvs) (\<lambda>email.
     Option.bind (required ''code'' as_str kvs) (\<lambda>code.
     Some \<lparr>vb_email = email, vb_code = code\<rparr>)))"

definition read_email_body :: "json \<Rightarrow> string option" where
  "read_email_body = struct (required ''email'' as_str)"

definition read_reset_body :: "json \<Rightarrow> reset_body option" where
  "read_reset_body = struct (\<lambda>kvs.
     Option.bind (required ''email'' as_str kvs) (\<lambda>email.
     Option.bind (required ''code'' as_str kvs) (\<lambda>code.
     Option.bind (required ''new_password'' as_str kvs) (\<lambda>new_password.
     Some \<lparr>sb_email = email, sb_code = code, sb_new_password = new_password\<rparr>))))"

definition read_wx_body :: "json \<Rightarrow> string option" where
  "read_wx_body = struct (required ''code'' as_str)"

definition read_change_body :: "json \<Rightarrow> change_body option" where
  "read_change_body = struct (\<lambda>kvs.
     Option.bind (required ''current_password'' as_str kvs) (\<lambda>current.
     Option.bind (required ''new_password'' as_str kvs) (\<lambda>new.
     Some \<lparr>pb_current_password = current, pb_new_password = new\<rparr>)))"

definition read_create_body :: "json \<Rightarrow> create_body option" where
  "read_create_body = struct (\<lambda>kvs.
     Option.bind (required ''email'' as_str kvs) (\<lambda>email.
     Option.bind (required ''password'' as_str kvs) (\<lambda>password.
     Option.bind (required ''name'' as_str kvs) (\<lambda>name.
     Option.bind (field ''role'' (as_option as_str) (Some None) kvs) (\<lambda>role.
     Some \<lparr>cb_email = email, cb_password = password, cb_name = name, cb_role = role\<rparr>)))))"

definition read_update_body :: "json \<Rightarrow> update_body option" where
  "read_update_body = struct (\<lambda>kvs.
     Option.bind (field ''email'' (as_option as_str) (Some None) kvs) (\<lambda>email.
     Option.bind (field ''name'' (as_option as_str) (Some None) kvs) (\<lambda>name.
     Option.bind (field ''role'' (as_option as_str) (Some None) kvs) (\<lambda>role.
     Some \<lparr>ub_email = email, ub_name = name, ub_role = role\<rparr>))))"

definition read_balance_body :: "json \<Rightarrow> int option" where
  "read_balance_body = struct (required ''balance'' as_int64)"

definition read_amount_body :: "json \<Rightarrow> int option" where
  "read_amount_body = struct (required ''amount'' as_int64)"

text \<open>The decoders of the handlers: the derived readers on JSON, whatever the library makes of a form or a query.\<close>

definition json_decoder :: "json_lib \<Rightarrow> (json \<Rightarrow> 'a option) \<Rightarrow> 'a decoder \<Rightarrow> 'a decoder" where
  "json_decoder l r d = d\<lparr>from_json := (\<lambda>body. ok_or (json_error l body) (Option.bind (from_text l body) r))\<rparr>"

definition wire_decoders :: "json_lib \<Rightarrow> decoders \<Rightarrow> decoders" where
  "wire_decoders l d = d\<lparr>
     d_login := json_decoder l read_login_body (d_login d),
     d_register := json_decoder l read_register_body (d_register d),
     d_verify := json_decoder l read_verify_body (d_verify d),
     d_email := json_decoder l read_email_body (d_email d),
     d_reset := json_decoder l read_reset_body (d_reset d),
     d_create := json_decoder l read_create_body (d_create d),
     d_update := json_decoder l read_update_body (d_update d),
     d_change := json_decoder l read_change_body (d_change d),
     d_set_balance := json_decoder l read_balance_body (d_set_balance d),
     d_adjust := json_decoder l read_amount_body (d_adjust d),
     d_wx_code := json_decoder l read_wx_body (d_wx_code d)\<rparr>"

section \<open>Answers\<close>

text \<open>The display balance: one division of floats.\<close>

definition f64_over :: "f64 \<Rightarrow> nat \<Rightarrow> f64" where
  "f64_over x n =
     (case x of
        Finite m e \<Rightarrow>
          (let q = (if 0 \<le> e then round_f64 (nat \<bar>m\<bar> * 2 ^ nat e) n else round_f64 (nat \<bar>m\<bar>) (2 ^ nat (- e) * n))
           in if m < 0 then negate_f64 q else q)
      | y \<Rightarrow> y)"

definition display_balance :: "int \<Rightarrow> f64" where
  "display_balance balance = f64_over (f64_of_int balance) (nat BALANCE_SCALE)"

text \<open>What the server writes. Fields that are marked as skipped are left out.\<close>

definition health_json :: "string \<Rightarrow> string \<Rightarrow> json" where
  "health_json st version = JObj [(''status'', JStr st), (''version'', JStr version)]"

definition message_json :: "string \<Rightarrow> json" where
  "message_json msg = JObj [(''message'', JStr msg)]"

definition login_response_json :: "login_response \<Rightarrow> json" where
  "login_response_json r =
     JObj [(''token'', JStr (lo_token r)), (''token_type'', JStr (lo_token_type r)), (''expires_in'', JInt (lo_expires_in r)),
       (''user_id'', JStr (lo_user_id r)), (''role'', JStr (lo_role r)), (''refresh_expires_in'', JInt (lo_refresh_expires_in r))]"

definition register_response_json :: "string \<Rightarrow> string \<Rightarrow> bool \<Rightarrow> json" where
  "register_response_json msg user_id verified =
     JObj [(''message'', JStr msg), (''user_id'', JStr user_id), (''email_verified'', JBool verified)]"

definition token_fields :: "token_reply \<Rightarrow> (string \<times> json) list" where
  "token_fields t =
     [(''token'', JStr (tr_token t)), (''token_type'', JStr (tr_token_type t)), (''expires_in'', JInt (tr_expires_in t)),
      (''user_id'', JStr (tr_user_id t)), (''role'', JStr (tr_role t))]"

definition reset_response_json :: "string \<Rightarrow> token_reply \<Rightarrow> json" where
  "reset_response_json msg t = JObj ((''message'', JStr msg) # token_fields t)"

definition refresh_response_json :: "token_reply \<Rightarrow> int \<Rightarrow> json" where
  "refresh_response_json t refresh_expires_in = JObj (token_fields t @ [(''refresh_expires_in'', JInt refresh_expires_in)])"

definition wx_response_json :: "token_reply \<Rightarrow> json" where
  "wx_response_json t = JObj (token_fields t)"

definition enabled_json :: "bool \<Rightarrow> json" where
  "enabled_json b = JObj [(''enabled'', JBool b)]"

definition id_value :: "id_json \<Rightarrow> json" where
  "id_value i = (case i of JsonI64 v \<Rightarrow> JInt v | JsonU64 n \<Rightarrow> JInt (int n) | JsonStr s \<Rightarrow> JStr s | JsonOther \<Rightarrow> JNull)"

definition user_response_json :: "json_lib \<Rightarrow> user_response \<Rightarrow> json" where
  "user_response_json l r =
     JObj [(''id'', id_value (serialize_id (SnowflakeId (r_id r)))), (''email'', JStr (r_email r)), (''name'', JStr (r_name r)),
       (''role'', JStr (r_role r)), (''email_verified'', JBool (r_email_verified r)),
       (''created_at'', JStr (date_text l (r_created_at r))), (''updated_at'', JStr (date_text l (r_updated_at r))),
       (''balance'', JInt (r_balance r))]"

definition users_json :: "json_lib \<Rightarrow> paginated \<Rightarrow> json" where
  "users_json l p =
     JObj [(''items'', JArr (map (user_response_json l) (pg_items p))), (''total'', JInt (int (pg_total p))),
       (''page'', JInt (int (pg_page p))), (''per_page'', JInt (int (pg_per_page p))), (''total_pages'', JInt (int (pg_total_pages p)))]"

definition new_token_json :: "string \<Rightarrow> string \<Rightarrow> json" where
  "new_token_json msg token = JObj [(''message'', JStr msg), (''new_token'', JStr token)]"

definition balance_json :: "int \<Rightarrow> string \<Rightarrow> json" where
  "balance_json balance msg =
     JObj [(''balance'', JInt balance), (''display_balance'', JFloat (display_balance balance)), (''message'', JStr msg)]"

text \<open>\<^verbatim>\<open>Response::json\<close>, and the two answers to WeChat, which are no JSON.\<close>

definition payload_json :: "json_lib \<Rightarrow> payload \<Rightarrow> json option" where
  "payload_json l p =
     (case p of
        HealthJson st v \<Rightarrow> Some (health_json st v)
      | MessageJson m \<Rightarrow> Some (message_json m)
      | LoginJson r \<Rightarrow> Some (login_response_json r)
      | RegisterJson m i v \<Rightarrow> Some (register_response_json m i v)
      | ResetJson m t \<Rightarrow> Some (reset_response_json m t)
      | RefreshJson t n \<Rightarrow> Some (refresh_response_json t n)
      | WxJson t \<Rightarrow> Some (wx_response_json t)
      | EnabledJson b \<Rightarrow> Some (enabled_json b)
      | UserJson r \<Rightarrow> Some (user_response_json l r)
      | UsersJson r \<Rightarrow> Some (users_json l r)
      | NewTokenJson m t \<Rightarrow> Some (new_token_json m t)
      | BalanceJson b m \<Rightarrow> Some (balance_json b m)
      | TextBody _ \<Rightarrow> None
      | XmlBody _ \<Rightarrow> None)"

text \<open>What the client reads.\<close>

record login_answer =
  la_token :: string
  la_token_type :: string
  la_expires_in :: nat
  la_user_id :: string
  la_role :: string
  la_refresh_expires_in :: "nat option"

record register_answer =
  ga_message :: string
  ga_user_id :: string
  ga_email_verified :: bool

record token_answer =
  ta_token :: string
  ta_token_type :: string
  ta_expires_in :: nat
  ta_user_id :: string
  ta_role :: string

record user_answer =
  ua_id :: string
  ua_email :: string
  ua_name :: string
  ua_role :: string
  ua_created_at :: int
  ua_updated_at :: int
  ua_balance :: int

record users_answer =
  us_items :: "user_answer list"
  us_total :: nat
  us_page :: nat
  us_per_page :: nat
  us_total_pages :: nat

definition read_login_answer :: "json \<Rightarrow> login_answer option" where
  "read_login_answer = struct (\<lambda>kvs.
     Option.bind (required ''token'' as_str kvs) (\<lambda>token.
     Option.bind (required ''token_type'' as_str kvs) (\<lambda>token_type.
     Option.bind (required ''expires_in'' as_u64 kvs) (\<lambda>expires_in.
     Option.bind (required ''user_id'' as_str kvs) (\<lambda>user_id.
     Option.bind (required ''role'' as_str kvs) (\<lambda>role.
     Option.bind (field ''refresh_expires_in'' (as_option as_u64) (Some None) kvs) (\<lambda>refresh.
     Some \<lparr>la_token = token, la_token_type = token_type, la_expires_in = expires_in, la_user_id = user_id,
           la_role = role, la_refresh_expires_in = refresh\<rparr>)))))))"

definition read_register_answer :: "json \<Rightarrow> register_answer option" where
  "read_register_answer = struct (\<lambda>kvs.
     Option.bind (required ''message'' as_str kvs) (\<lambda>msg.
     Option.bind (required ''user_id'' as_str kvs) (\<lambda>user_id.
     Option.bind (field ''email_verified'' as_bool (Some False) kvs) (\<lambda>verified.
     Some \<lparr>ga_message = msg, ga_user_id = user_id, ga_email_verified = verified\<rparr>))))"

definition read_message_answer :: "json \<Rightarrow> string option" where
  "read_message_answer = struct (required ''message'' as_str)"

definition read_token_answer :: "json \<Rightarrow> token_answer option" where
  "read_token_answer = struct (\<lambda>kvs.
     Option.bind (required ''token'' as_str kvs) (\<lambda>token.
     Option.bind (required ''token_type'' as_str kvs) (\<lambda>token_type.
     Option.bind (required ''expires_in'' as_u64 kvs) (\<lambda>expires_in.
     Option.bind (required ''user_id'' as_str kvs) (\<lambda>user_id.
     Option.bind (required ''role'' as_str kvs) (\<lambda>role.
     Some \<lparr>ta_token = token, ta_token_type = token_type, ta_expires_in = expires_in, ta_user_id = user_id, ta_role = role\<rparr>))))))"

definition read_reset_answer :: "json \<Rightarrow> (string \<times> token_answer) option" where
  "read_reset_answer j =
     Option.bind (read_message_answer j) (\<lambda>msg. Option.bind (read_token_answer j) (\<lambda>t. Some (msg, t)))"

definition read_refresh_answer :: "json \<Rightarrow> (token_answer \<times> nat) option" where
  "read_refresh_answer j =
     Option.bind (read_token_answer j) (\<lambda>t.
     Option.bind (struct (required ''refresh_expires_in'' as_u64) j) (\<lambda>n. Some (t, n)))"

definition read_enabled_answer :: "json \<Rightarrow> bool option" where
  "read_enabled_answer = struct (required ''enabled'' as_bool)"

definition read_user_answer :: "json_lib \<Rightarrow> json \<Rightarrow> user_answer option" where
  "read_user_answer l = struct (\<lambda>kvs.
     Option.bind (required ''id'' as_str kvs) (\<lambda>i.
     Option.bind (required ''email'' as_str kvs) (\<lambda>email.
     Option.bind (required ''name'' as_str kvs) (\<lambda>name.
     Option.bind (required ''role'' as_str kvs) (\<lambda>role.
     Option.bind (required ''created_at'' (as_date l) kvs) (\<lambda>created.
     Option.bind (required ''updated_at'' (as_date l) kvs) (\<lambda>updated.
     Option.bind (field ''balance'' as_int64 (Some 0) kvs) (\<lambda>balance.
     Some \<lparr>ua_id = i, ua_email = email, ua_name = name, ua_role = role, ua_created_at = created, ua_updated_at = updated,
           ua_balance = balance\<rparr>))))))))"

definition read_users_answer :: "json_lib \<Rightarrow> json \<Rightarrow> users_answer option" where
  "read_users_answer l = struct (\<lambda>kvs.
     Option.bind (required ''items'' (as_list (read_user_answer l)) kvs) (\<lambda>items.
     Option.bind (required ''total'' as_u64 kvs) (\<lambda>total.
     Option.bind (required ''page'' as_u64 kvs) (\<lambda>pg.
     Option.bind (required ''per_page'' as_u64 kvs) (\<lambda>sz.
     Option.bind (required ''total_pages'' as_u64 kvs) (\<lambda>pages.
     Some \<lparr>us_items = items, us_total = total, us_page = pg, us_per_page = sz, us_total_pages = pages\<rparr>))))))"

definition read_health_answer :: "json \<Rightarrow> (string \<times> string) option" where
  "read_health_answer = struct (\<lambda>kvs.
     Option.bind (required ''status'' as_str kvs) (\<lambda>st.
     Option.bind (required ''version'' as_str kvs) (\<lambda>version. Some (st, version))))"

definition read_new_token_answer :: "json \<Rightarrow> (string \<times> string) option" where
  "read_new_token_answer = struct (\<lambda>kvs.
     Option.bind (required ''message'' as_str kvs) (\<lambda>msg.
     Option.bind (required ''new_token'' as_str kvs) (\<lambda>token. Some (msg, token))))"

definition read_balance_answer :: "json \<Rightarrow> (int \<times> f64 \<times> string) option" where
  "read_balance_answer = struct (\<lambda>kvs.
     Option.bind (required ''balance'' as_int64 kvs) (\<lambda>balance.
     Option.bind (required ''display_balance'' as_f64 kvs) (\<lambda>display.
     Option.bind (required ''message'' as_str kvs) (\<lambda>msg. Some (balance, display, msg)))))"

text \<open>The cached form of a user on the server, which reads back what it wrote.\<close>

definition id_of_value :: "json \<Rightarrow> id_json" where
  "id_of_value j = (case j of JInt v \<Rightarrow> if v < 0 then JsonI64 v else JsonU64 (nat v) | JStr s \<Rightarrow> JsonStr s | _ \<Rightarrow> JsonOther)"

definition read_user_response :: "json_lib \<Rightarrow> json \<Rightarrow> user_response option" where
  "read_user_response l = struct (\<lambda>kvs.
     Option.bind (required ''id'' (\<lambda>j. deserialize_id (id_of_value j)) kvs) (\<lambda>i.
     Option.bind (required ''email'' as_str kvs) (\<lambda>email.
     Option.bind (required ''name'' as_str kvs) (\<lambda>name.
     Option.bind (required ''role'' as_str kvs) (\<lambda>role.
     Option.bind (required ''email_verified'' as_bool kvs) (\<lambda>verified.
     Option.bind (required ''created_at'' (as_date l) kvs) (\<lambda>created.
     Option.bind (required ''updated_at'' (as_date l) kvs) (\<lambda>updated.
     Option.bind (required ''balance'' as_int64 kvs) (\<lambda>balance.
     Some \<lparr>r_id = as_i64 i, r_email = email, r_name = name, r_role = role, r_email_verified = verified,
           r_created_at = created, r_updated_at = updated, r_token_version = 0, r_balance = balance, r_wx_openid = None\<rparr>)))))))))"

definition wire_user_json :: "json_lib \<Rightarrow> user_json" where
  "wire_user_json l = \<lparr>write_user = (\<lambda>r. Some (to_text l (user_response_json l r))),
                       read_user = (\<lambda>s. Option.bind (from_text l s) (read_user_response l))\<rparr>"

section \<open>Reading what was written\<close>

text \<open>A value on its way through \<^verbatim>\<open>to_value\<close> and a text.\<close>

definition sent :: "(f64 \<Rightarrow> f64) \<Rightarrow> json \<Rightarrow> json" where "sent f j = nudge f (to_value j)"

lemma writable_to_value: "writable j \<Longrightarrow> writable (to_value j)"
proof (induction j)
  case (JArr xs)
  then show ?case by (auto simp: list_all_iff)
next
  case (JObj kvs)
  have "distinct (map fst (sort_key fst ys))" if "distinct (map fst ys)" for ys :: "(string \<times> json) list"
    using that by (simp add: distinct_map)
  then have "distinct (map fst (sort_key fst (map (map_prod id to_value) kvs)))" using JObj.prems by (simp add: comp_def)
  moreover have "writable (to_value v)" if "(k, v) \<in> set kvs" for k v
    using JObj.prems JObj.IH[of "(k, v)" v] that by (fastforce simp: list_all_iff)
  ultimately show ?case by (auto simp: list_all_iff)
qed auto

lemma received: "json_laws l f \<Longrightarrow> writable j \<Longrightarrow> from_text l (to_text l (to_value j)) = Some (sent f j)"
  by (simp add: json_laws_def writable_to_value sent_def)

lemmas reads = required_def as_str_def as_bool_def as_int64_def as_u64_def as_option_def as_f64_def as_date_def

lemma requests_read:
  "read_login_body (nudge f (login_request_json e p r c))
     = Some \<lparr>lb_email = e, lb_password = p, lb_remember = r, lb_captcha_code = c\<rparr>"
  "read_register_body (nudge f (register_request_json e p n q r))
     = Some \<lparr>rb_email = e, rb_password = p, rb_name = n, rb_password_confirm = q\<rparr>"
  "read_verify_body (nudge f (verify_request_json e k)) = Some \<lparr>vb_email = e, vb_code = k\<rparr>"
  "read_email_body (nudge f (email_request_json e)) = Some e"
  "read_reset_body (nudge f (reset_request_json e k p)) = Some \<lparr>sb_email = e, sb_code = k, sb_new_password = p\<rparr>"
  "read_wx_body (nudge f (wx_request_json k)) = Some k"
  "read_change_body (nudge f (change_request_json p q)) = Some \<lparr>pb_current_password = p, pb_new_password = q\<rparr>"
  "read_create_body (nudge f (create_request_json e p n c))
     = Some \<lparr>cb_email = e, cb_password = p, cb_name = n, cb_role = c\<rparr>"
  "read_update_body (nudge f (update_request_json oe on c)) = Some \<lparr>ub_email = oe, ub_name = on, ub_role = c\<rparr>"
  "in_i64 i \<Longrightarrow> read_balance_body (nudge f (set_balance_request_json i)) = Some i"
  "in_i64 i \<Longrightarrow> read_amount_body (nudge f (adjust_balance_request_json i)) = Some i"
  by (cases c; cases oe; cases on;
      simp add: read_login_body_def login_request_json_def read_register_body_def register_request_json_def
        read_verify_body_def verify_request_json_def read_email_body_def email_request_json_def read_reset_body_def
        reset_request_json_def read_wx_body_def wx_request_json_def read_change_body_def change_request_json_def
        read_create_body_def create_request_json_def read_update_body_def update_request_json_def read_balance_body_def
        set_balance_request_json_def read_amount_body_def adjust_balance_request_json_def struct_def field_def optional_def reads)+

definition in_u64 :: "int \<Rightarrow> bool" where "in_u64 i \<longleftrightarrow> 0 \<le> i \<and> i < 2 ^ 64"

definition answer_of_login :: "login_response \<Rightarrow> login_answer" where
  "answer_of_login r = \<lparr>la_token = lo_token r, la_token_type = lo_token_type r, la_expires_in = nat (lo_expires_in r),
     la_user_id = lo_user_id r, la_role = lo_role r, la_refresh_expires_in = Some (nat (lo_refresh_expires_in r))\<rparr>"

definition answer_of_token :: "token_reply \<Rightarrow> token_answer" where
  "answer_of_token t = \<lparr>ta_token = tr_token t, ta_token_type = tr_token_type t, ta_expires_in = nat (tr_expires_in t),
     ta_user_id = tr_user_id t, ta_role = tr_role t\<rparr>"

definition answer_of_user :: "user_response \<Rightarrow> user_answer" where
  "answer_of_user r = \<lparr>ua_id = show_int (r_id r), ua_email = r_email r, ua_name = r_name r, ua_role = r_role r,
     ua_created_at = r_created_at r, ua_updated_at = r_updated_at r, ua_balance = r_balance r\<rparr>"

definition answer_of_users :: "paginated \<Rightarrow> users_answer" where
  "answer_of_users p = \<lparr>us_items = map answer_of_user (pg_items p), us_total = pg_total p, us_page = pg_page p,
     us_per_page = pg_per_page p, us_total_pages = pg_total_pages p\<rparr>"

lemma answers_read:
  "read_health_answer (sent f (health_json a b)) = Some (a, b)"
  "read_message_answer (sent f (message_json a)) = Some a"
  "in_u64 (lo_expires_in r) \<Longrightarrow> in_u64 (lo_refresh_expires_in r) \<Longrightarrow>
     read_login_answer (sent f (login_response_json r)) = Some (answer_of_login r)"
  "read_register_answer (sent f (register_response_json a b v))
     = Some \<lparr>ga_message = a, ga_user_id = b, ga_email_verified = v\<rparr>"
  "in_u64 (tr_expires_in t) \<Longrightarrow> read_reset_answer (sent f (reset_response_json a t)) = Some (a, answer_of_token t)"
  "in_u64 (tr_expires_in t) \<Longrightarrow> in_u64 i \<Longrightarrow> read_refresh_answer (sent f (refresh_response_json t i)) = Some (answer_of_token t, nat i)"
  "in_u64 (tr_expires_in t) \<Longrightarrow> read_token_answer (sent f (wx_response_json t)) = Some (answer_of_token t)"
  "read_enabled_answer (sent f (enabled_json v)) = Some v"
  "read_new_token_answer (sent f (new_token_json a b)) = Some (a, b)"
  by (simp_all add: read_health_answer_def health_json_def read_message_answer_def message_json_def read_login_answer_def
      login_response_json_def answer_of_login_def read_register_answer_def register_response_json_def read_reset_answer_def
      reset_response_json_def read_token_answer_def token_fields_def answer_of_token_def read_refresh_answer_def
      refresh_response_json_def wx_response_json_def read_enabled_answer_def enabled_json_def read_new_token_answer_def
      new_token_json_def sent_def struct_def field_def reads in_u64_def)

lemma user_read:
  assumes "json_laws l f" "in_i64 (r_balance r)"
  shows "read_user_answer l (sent f (user_response_json l r)) = Some (answer_of_user r)"
  using assms by (simp add: read_user_answer_def user_response_json_def answer_of_user_def sent_def struct_def field_def reads json_laws_def
      id_value_def serialize_id_def)

lemma those_map: "(\<And>x. x \<in> set xs \<Longrightarrow> g x = Some (h x)) \<Longrightarrow> those (map g xs) = Some (map h xs)"
  by (induction xs) simp_all

lemma users_read:
  assumes "json_laws l f" "\<forall>r \<in> set (pg_items p). in_i64 (r_balance r)"
    and "pg_total p < 2 ^ 64" "pg_page p < 2 ^ 64" "pg_per_page p < 2 ^ 64" "pg_total_pages p < 2 ^ 64"
  shows "read_users_answer l (sent f (users_json l p)) = Some (answer_of_users p)"
proof -
  have n: "int m < 2 ^ 64" if "m < 2 ^ 64" for m using that by simp
  have "those (map (read_user_answer l \<circ> (nudge f \<circ> (to_value \<circ> user_response_json l))) (pg_items p)) = Some (map answer_of_user (pg_items p))"
    by (rule those_map) (use assms(1,2) user_read in \<open>simp add: sent_def\<close>)
  then show ?thesis
    using assms(3-) n by (simp add: read_users_answer_def users_json_def answer_of_users_def sent_def struct_def field_def reads as_list_def)
qed

section \<open>The display balance\<close>

lemma negate_simps [simp]:
  "is_finite (negate_f64 x) = is_finite x" "f64_value (negate_f64 x) = - f64_value x"
  "f64_over (Finite (- m) e) n = (if m = 0 then f64_over (Finite m e) n else negate_f64 (f64_over (Finite m e) n))"
proof -
  have n: "negate_f64 (negate_f64 y) = y" for y by (cases y) (simp_all add: negate_f64_def)
  show "f64_over (Finite (- m) e) n = (if m = 0 then f64_over (Finite m e) n else negate_f64 (f64_over (Finite m e) n))"
    by (auto simp: f64_over_def Let_def n)
qed (cases x; simp add: is_finite_def negate_f64_def f64_value_def)+

lemma f64_over_error:
  assumes "0 \<le> m" "0 < n" "real_of_int m * 2 powi e / real n < 2 powi k" "- 1021 \<le> k" "k \<le> 1000"
  shows "is_finite (f64_over (Finite m e) n) \<and>
    \<bar>f64_value (f64_over (Finite m e) n) - real_of_int m * 2 powi e / real n\<bar> \<le> 1 / 2 * 2 powi (k - 53)"
proof (cases "m = 0")
  case True
  then show ?thesis by (simp add: f64_over_def round_f64_def is_finite_def f64_value_def)
next
  case False
  define num den where "num = (if 0 \<le> e then nat m * 2 ^ nat e else nat m)" and "den = (if 0 \<le> e then n else 2 ^ nat (- e) * n)"
  have q: "f64_over (Finite m e) n = round_f64 num den"
    using assms(1) by (simp add: f64_over_def num_def den_def)
  have v: "real num / real den = real_of_int m * 2 powi e / real n"
    using assms(1,2) by (simp add: num_def den_def power_int_def field_simps)
  have "0 < num" "0 < den" using False assms(1,2) by (simp_all add: num_def den_def)
  then obtain m' e' where r: "round_f64 num den = Finite m' e'" "e' \<le> k - 53"
      "\<bar>real_of_int m' * 2 powi e' - real num / real den\<bar> \<le> 1 / 2 * 2 powi e'"
    using round_f64_error[of num den k, unfolded v] assms(3-) unfolding v by blast
  have "(2 :: real) powi e' \<le> 2 powi (k - 53)" using r(2) by (intro power_int_increasing) simp_all
  then show ?thesis using r v by (simp add: q is_finite_def f64_value_def)
qed

lemma display_of_nat:
  assumes "0 < n" "n \<le> 2 ^ 63"
  shows "\<exists>m e. round_f64 n 1 = Finite m e \<and> is_finite (f64_over (Finite m e) (nat BALANCE_SCALE))
    \<and> \<bar>f64_value (f64_over (Finite m e) (nat BALANCE_SCALE)) - real n / 10 ^ 10\<bar> \<le> 1 / (2 * 10 ^ 6)"
proof -
  have lt: "real n / real 1 < 2 powi 64"
  proof -
    have "real n \<le> real (2 ^ 63)" using assms(2) of_nat_le_iff by blast
    then show ?thesis by simp
  qed
  obtain m e where r: "round_f64 n 1 = Finite m e" "0 \<le> m" "e \<le> 11" "\<bar>real_of_int m * 2 powi e - real n\<bar> \<le> 1 / 2 * 2 powi e"
    using round_f64_error[OF assms(1) _ lt] by auto
  have "(2 :: real) powi e \<le> 2 powi 11" using r(3) by (intro power_int_increasing) simp_all
  then have err: "\<bar>real_of_int m * 2 powi e - real n\<bar> \<le> 1024" using r(4) by simp
  moreover have "real n \<le> 2 ^ 63" using assms(2) by (simp add: of_nat_le_iff[symmetric] del: of_nat_le_iff)
  ultimately have "real_of_int m * 2 powi e / 10 ^ 10 < 2 powi 31" by simp
  then have fin: "is_finite (f64_over (Finite m e) (nat BALANCE_SCALE))"
    and "\<bar>f64_value (f64_over (Finite m e) (nat BALANCE_SCALE)) - real_of_int m * 2 powi e / 10 ^ 10\<bar> \<le> 1 / 2 * 2 powi (31 - 53)"
    using f64_over_error[OF r(2), of "nat BALANCE_SCALE" e 31] by (simp_all add: BALANCE_SCALE_def)
  moreover have "\<bar>real_of_int m * 2 powi e / 10 ^ 10 - real n / 10 ^ 10\<bar> \<le> 1024 / 10 ^ 10"
    using err by (simp add: diff_divide_distrib[symmetric])
  moreover have "1 / 2 * 2 powi (31 - 53) + 1024 / 10 ^ 10 \<le> (1 / (2 * 10 ^ 6) :: real)" by (simp add: power_int_def power_divide)
  ultimately have "\<bar>f64_value (f64_over (Finite m e) (nat BALANCE_SCALE)) - real n / 10 ^ 10\<bar> \<le> 1 / (2 * 10 ^ 6)"
    by (meson abs_via add_mono order_trans)
  then show ?thesis using r(1) fin by blast
qed

text \<open>Two roundings leave the display balance within half a millionth of the balance.\<close>

lemma display_balance_close:
  assumes "in_i64 b"
  shows "is_finite (display_balance b) \<and> \<bar>f64_value (display_balance b) - real_of_int b / 10 ^ 10\<bar> \<le> 1 / (2 * 10 ^ 6)"
proof -
  consider "b = 0" | "0 < b" | "b < 0" by linarith
  then show ?thesis
  proof cases
    case 1
    then show ?thesis by (simp add: display_balance_def f64_of_int_def f64_over_def round_f64_def is_finite_def f64_value_def)
  next
    case 2
    then have "0 < nat b" "nat b \<le> 2 ^ 63" using assms by (simp_all add: in_i64_def i64_max_def nat_le_iff)
    from display_of_nat[OF this] show ?thesis using 2 by (auto simp: display_balance_def f64_of_int_def)
  next
    case 3
    then have "0 < nat (- b)" "nat (- b) \<le> 2 ^ 63" using assms by (simp_all add: in_i64_def i64_min_def nat_le_iff)
    from display_of_nat[OF this] obtain m e where r: "round_f64 (nat (- b)) 1 = Finite m e"
        "is_finite (f64_over (Finite m e) (nat BALANCE_SCALE))"
        "\<bar>f64_value (f64_over (Finite m e) (nat BALANCE_SCALE)) - real_of_int (- b) / 10 ^ 10\<bar> \<le> 1 / (2 * 10 ^ 6)"
      using 3 by auto
    have z: "f64_value (f64_over (Finite 0 e) (nat BALANCE_SCALE)) = 0" by (simp add: f64_over_def round_f64_def f64_value_def)
    have "display_balance b = f64_over (Finite (- m) e) (nat BALANCE_SCALE)"
      using 3 r(1) by (simp add: display_balance_def f64_of_int_def) (simp add: negate_f64_def)
    then have "is_finite (display_balance b)" "f64_value (display_balance b) = - f64_value (f64_over (Finite m e) (nat BALANCE_SCALE))"
      using r(2) z by (cases "m = 0"; simp)+
    moreover have "\<bar>- f64_value (f64_over (Finite m e) (nat BALANCE_SCALE)) - real_of_int b / 10 ^ 10\<bar> \<le> 1 / (2 * 10 ^ 6)"
      using r(3) unfolding of_int_minus minus_divide_left[symmetric] by (simp only: abs_minus_commute[of _ "- _"] diff_minus_eq_add)
    ultimately show ?thesis by simp
  qed
qed

lemma display_read_close:
  assumes "neighbour f" "in_i64 b"
  shows "is_finite (f (display_balance b)) \<and> \<bar>f64_value (f (display_balance b)) - real_of_int b / 10 ^ 10\<bar> \<le> 1 / 10 ^ 6"
proof -
  let ?d = "display_balance b" and ?b = "real_of_int b / 10 ^ 10"
  note d = display_balance_close[OF assms(2)]
  have "\<bar>real_of_int b\<bar> \<le> 2 ^ 63"
    using assms(2) by (simp add: in_i64_def i64_min_def i64_max_def abs_le_iff flip: of_int_minus of_int_le_iff)
  then have "\<bar>?b\<bar> \<le> 2 ^ 63 / 10 ^ 10" by (simp add: divide_right_mono)
  moreover have "(2 :: real) ^ 63 / 10 ^ 10 + 1 / (2 * 10 ^ 6) \<le> 2 ^ 30" by simp
  ultimately have v: "\<bar>f64_value ?d\<bar> \<le> 2 ^ 30" using d by linarith
  moreover have "(2 :: real) ^ 30 < 2 powi 1000" using power_int_strict_increasing[of 30 1000 "2::real"] by simp
  ultimately have f: "is_finite (f ?d)" "\<bar>f64_value (f ?d) - f64_value ?d\<bar> \<le> 2 powi (- 52) * \<bar>f64_value ?d\<bar> + 2 powi (- 1074)"
    using assms(1) d unfolding neighbour_def by (meson order.strict_trans1)+
  have "(2 :: real) powi (- 52) * \<bar>f64_value ?d\<bar> \<le> 2 powi (- 52) * 2 ^ 30" by (rule mult_left_mono[OF v]) simp
  moreover have "(2 :: real) powi (- 1074) \<le> 2 powi (- 52)" by (rule power_int_increasing) simp_all
  moreover have "(2 :: real) powi (- 52) * 2 ^ 30 + 2 powi (- 52) \<le> 1 / (2 * 10 ^ 6)" by (simp add: power_int_def power_divide)
  ultimately have "\<bar>f64_value (f ?d) - f64_value ?d\<bar> \<le> 1 / (2 * 10 ^ 6)" using f(2) by linarith
  then have "\<bar>f64_value (f ?d) - ?b\<bar> \<le> 1 / (2 * 10 ^ 6) + 1 / (2 * 10 ^ 6)"
    using abs_via[of "f64_value (f ?d)" ?b "f64_value ?d"] d by linarith
  then show ?thesis using f(1) by simp
qed

lemma balance_read:
  "in_i64 b \<Longrightarrow> read_balance_answer (sent f (balance_json b a)) = Some (b, f (display_balance b), a)"
  using display_balance_close[of b]
  by (simp add: read_balance_answer_def balance_json_def sent_def struct_def field_def reads)

section \<open>Agreement\<close>

definition body_text :: "json_lib \<Rightarrow> api_body \<Rightarrow> string option" where
  "body_text l b = map_option (to_text l) (body_json b)"

definition reply_text :: "json_lib \<Rightarrow> payload \<Rightarrow> string" where
  "reply_text l p =
     (case p of TextBody t \<Rightarrow> t | XmlBody t \<Rightarrow> t
      | _ \<Rightarrow> (case payload_json l p of Some j \<Rightarrow> to_text l (to_value j) | None \<Rightarrow> []))"

definition answered :: "json_lib \<Rightarrow> (json \<Rightarrow> 'a option) \<Rightarrow> string \<Rightarrow> 'a option" where
  "answered l r text = Option.bind (from_text l text) r"

text \<open>The numbers of an answer are numbers of 64 bits, as their types say.\<close>

definition payload_fits :: "payload \<Rightarrow> bool" where
  "payload_fits p =
     (case p of
        LoginJson r \<Rightarrow> in_u64 (lo_expires_in r) \<and> in_u64 (lo_refresh_expires_in r)
      | ResetJson _ t \<Rightarrow> in_u64 (tr_expires_in t)
      | RefreshJson t i \<Rightarrow> in_u64 (tr_expires_in t) \<and> in_u64 i
      | WxJson t \<Rightarrow> in_u64 (tr_expires_in t)
      | UserJson r \<Rightarrow> in_i64 (r_balance r)
      | UsersJson p \<Rightarrow> (\<forall>r \<in> set (pg_items p). in_i64 (r_balance r)) \<and> pg_total p < 2 ^ 64 \<and> pg_page p < 2 ^ 64
          \<and> pg_per_page p < 2 ^ 64 \<and> pg_total_pages p < 2 ^ 64
      | BalanceJson b _ \<Rightarrow> in_i64 b
      | _ \<Rightarrow> True)"

lemma user_writable: "in_i64 (r_balance r) \<Longrightarrow> writable (user_response_json l r)"
  by (simp add: user_response_json_def id_value_def serialize_id_def in_i64_def i64_max_def)

lemma payload_writable:
  assumes "payload_fits p" "payload_json l p = Some j"
  shows "writable j"
proof -
  have n: "int m < 2 ^ 64" if "m < 2 ^ 64" for m using that by simp
  show ?thesis
    using assms n display_balance_close
    by (cases p) (auto simp: payload_fits_def payload_json_def health_json_def message_json_def login_response_json_def
        register_response_json_def reset_response_json_def refresh_response_json_def wx_response_json_def token_fields_def
        enabled_json_def users_json_def new_token_json_def balance_json_def user_writable list_all_iff in_u64_def in_i64_def
        i64_min_def i64_max_def)
qed

definition body_fits :: "api_body \<Rightarrow> bool" where
  "body_fits b = (case b of BalanceReq i \<Rightarrow> in_i64 i | AmountReq i \<Rightarrow> in_i64 i | _ \<Rightarrow> True)"

lemma body_writable:
  assumes "body_json b = Some j" "body_fits b"
  shows "writable j"
  using assms
  by (cases b) (auto simp: body_fits_def body_json_def login_request_json_def register_request_json_def verify_request_json_def
      email_request_json_def reset_request_json_def wx_request_json_def change_request_json_def create_request_json_def
      update_request_json_def set_balance_request_json_def adjust_balance_request_json_def optional_def in_i64_def i64_max_def
      split: option.splits)

text \<open>A library that satisfies the laws: a value as a row of strokes, one more than its number in a list of all values.\<close>

instance f64 :: countable
  by countable_datatype

instance json :: countable
  by countable_datatype

definition strokes :: json_lib where
  "strokes = \<lparr>to_text = (\<lambda>j. replicate (Suc (to_nat j)) (CHR ''x'')), from_text = (\<lambda>s. Some (from_nat (length s - 1))),
     json_error = id, date_text = (\<lambda>t. replicate (to_nat t) (CHR ''x'')), read_date = (\<lambda>s. Some (from_nat (length s)))\<rparr>"

lemma nudge_id [simp]: "nudge id = id"
proof
  fix j show "nudge id j = id j"
  proof (induction j)
    case (JArr xs)
    then show ?case by (simp add: map_idI)
  next
    case (JObj kvs)
    then have "map_prod id (nudge id) kv = kv" if "kv \<in> set kvs" for kv using that by (cases kv) fastforce
    then have "map (map_prod id (nudge id)) kvs = kvs" by (rule map_idI)
    then show ?case unfolding nudge.simps by simp
  qed simp_all
qed

lemma strokes_laws: "json_laws strokes id"
  by (simp add: json_laws_def strokes_def)

lemma decoder_reads:
  assumes "json_laws l f" "body_text l b = Some text" "body_fits b" "rq_content_type req = Some ''application/json''"
    and "\<And>j. body_json b = Some j \<Longrightarrow> r (nudge f j) = Some a"
  shows "parse_json_or_form (json_decoder l r d) req text = Inr a"
proof -
  obtain j where j: "body_json b = Some j" "text = to_text l j" using assms(2) by (auto simp: body_text_def)
  have "from_text l text = Some (nudge f j)"
    using assms(1) body_writable[OF j(1) assms(3)] j(2) by (simp add: json_laws_def)
  moreover have "\<not> str_contains (to_lower ''application/json'') ''application/x-www-form-urlencoded''" by code_simp
  ultimately show ?thesis
    using assms(4,5) j(1) by (simp add: parse_json_or_form_def json_decoder_def ok_or_def)
qed

text \<open>What the server caches of a user it reads back: the JSON its structs declare satisfies the contract of the cached profile. The id
  survives as a decimal string, and what is kept from the JSON (the version and the WeChat id) comes back empty.\<close>

theorem cached_user_roundtrip:
  assumes "json_laws l f"
  shows "user_json_ok (wire_user_json l)"
  unfolding user_json_ok_def
proof (intro allI impI)
  fix r :: user_response assume r: "in_i64 (r_id r) \<and> in_i64 (r_balance r)"
  have "from_text l (to_text l (user_response_json l r)) = Some (nudge f (user_response_json l r))"
    using assms user_writable r by (simp add: json_laws_def)
  moreover have "read_user_response l (nudge f (user_response_json l r)) = Some (r\<lparr>r_token_version := 0, r_wx_openid := None\<rparr>)"
    using assms r by (simp add: read_user_response_def user_response_json_def struct_def field_def reads json_laws_def id_value_def
        serialize_id_def id_of_value_def deserialize_id_def parse_i64_show_int)
  ultimately show "\<exists>s. write_user (wire_user_json l) r = Some s
      \<and> read_user (wire_user_json l) s = Some (r\<lparr>r_token_version := 0, r_wx_openid := None\<rparr>)"
    by (simp add: wire_user_json_def)
qed

lemma cached_user_roundtrip_witness:
  "user_json_ok (wire_user_json strokes)"
  by (rule cached_user_roundtrip[OF strokes_laws])

text \<open>C24: Every request the client can write is understood by the server: the decoder of the handler reads from its JSON text exactly the
  values the caller gave, a field that was skipped as absent.\<close>

theorem requests_understood:
  assumes "json_laws l f" "body_text l b = Some text" "body_fits b" "rq_content_type req = Some ''application/json''"
  shows "case b of
      LoginReq e p r c \<Rightarrow> parse_json_or_form (d_login (wire_decoders l d)) req text
        = Inr \<lparr>lb_email = e, lb_password = p, lb_remember = r, lb_captcha_code = c\<rparr>
    | RegisterReq e p n q r \<Rightarrow> parse_json_or_form (d_register (wire_decoders l d)) req text
        = Inr \<lparr>rb_email = e, rb_password = p, rb_name = n, rb_password_confirm = q\<rparr>
    | VerifyReq e k \<Rightarrow> parse_json_or_form (d_verify (wire_decoders l d)) req text = Inr \<lparr>vb_email = e, vb_code = k\<rparr>
    | EmailReq e \<Rightarrow> parse_json_or_form (d_email (wire_decoders l d)) req text = Inr e
    | ResetReq e k p \<Rightarrow> parse_json_or_form (d_reset (wire_decoders l d)) req text
        = Inr \<lparr>sb_email = e, sb_code = k, sb_new_password = p\<rparr>
    | WxCodeReq k \<Rightarrow> parse_json_or_form (d_wx_code (wire_decoders l d)) req text = Inr k
    | ChangePasswordReq p q \<Rightarrow> parse_json_or_form (d_change (wire_decoders l d)) req text
        = Inr \<lparr>pb_current_password = p, pb_new_password = q\<rparr>
    | CreateUserReq e p n c \<Rightarrow> parse_json_or_form (d_create (wire_decoders l d)) req text
        = Inr \<lparr>cb_email = e, cb_password = p, cb_name = n, cb_role = c\<rparr>
    | UpdateUserReq e n c \<Rightarrow> parse_json_or_form (d_update (wire_decoders l d)) req text
        = Inr \<lparr>ub_email = e, ub_name = n, ub_role = c\<rparr>
    | BalanceReq i \<Rightarrow> parse_json_or_form (d_set_balance (wire_decoders l d)) req text = Inr i
    | AmountReq i \<Rightarrow> parse_json_or_form (d_adjust (wire_decoders l d)) req text = Inr i
    | _ \<Rightarrow> True"
  using assms(3)
  by (cases b) (auto simp: wire_decoders_def body_json_def body_fits_def requests_read intro!: decoder_reads[OF assms])

lemma requests_understood_witness:
  "\<forall>d. parse_json_or_form (d_login (wire_decoders strokes d))
     \<lparr>rq_method = ''POST'', rq_path = ''/login'', rq_query = [], rq_content_type = Some ''application/json'', rq_authorization = None,
      rq_cookie = None, rq_forwarded_for = None, rq_real_ip = None, rq_peer = None, rq_body = None\<rparr>
     (to_text strokes (login_request_json ''u@x'' ''pw'' True None))
   = Inr \<lparr>lb_email = ''u@x'', lb_password = ''pw'', lb_remember = True, lb_captcha_code = None\<rparr>"
  using requests_understood[OF strokes_laws, of "LoginReq ''u@x'' ''pw'' True None"]
  by (simp add: body_text_def body_json_def body_fits_def)

lemma answered_sent:
  assumes "json_laws l f" "payload_fits p" "payload_json l p = Some j" "r (sent f j) = Some a"
  shows "answered l r (to_text l (to_value j)) = Some a"
  using received[OF assms(1) payload_writable[OF assms(2,3)]] assms(4) by (simp add: answered_def)

text \<open>C25: Every answer of a handler is understood by the client: the type its call expects is read from the JSON text with the values the
  server wrote. Ids arrive as decimal strings, the fields that are kept from clients are not needed; only the display balance may be off, and when
  floats are read to a neighbour, what the client gets is a number within a millionth of the balance.\<close>

theorem replies_understood:
  assumes "json_laws l f" "neighbour f" "payload_fits p"
  shows "case p of
      HealthJson st v \<Rightarrow> answered l read_health_answer (reply_text l p) = Some (st, v)
    | MessageJson m \<Rightarrow> answered l read_message_answer (reply_text l p) = Some m
    | LoginJson r \<Rightarrow> answered l read_login_answer (reply_text l p) = Some (answer_of_login r)
    | RegisterJson m i v \<Rightarrow> answered l read_register_answer (reply_text l p)
        = Some \<lparr>ga_message = m, ga_user_id = i, ga_email_verified = v\<rparr>
    | ResetJson m t \<Rightarrow> answered l read_reset_answer (reply_text l p) = Some (m, answer_of_token t)
    | RefreshJson t i \<Rightarrow> answered l read_refresh_answer (reply_text l p) = Some (answer_of_token t, nat i)
    | WxJson t \<Rightarrow> answered l read_token_answer (reply_text l p) = Some (answer_of_token t)
    | EnabledJson v \<Rightarrow> answered l read_enabled_answer (reply_text l p) = Some v
    | UserJson r \<Rightarrow> answered l (read_user_answer l) (reply_text l p) = Some (answer_of_user r)
    | UsersJson us \<Rightarrow> answered l (read_users_answer l) (reply_text l p) = Some (answer_of_users us)
    | NewTokenJson m t \<Rightarrow> answered l read_new_token_answer (reply_text l p) = Some (m, t)
    | BalanceJson i m \<Rightarrow> answered l read_balance_answer (reply_text l p) = Some (i, f (display_balance i), m)
        \<and> is_finite (f (display_balance i)) \<and> \<bar>f64_value (f (display_balance i)) - real_of_int i / 10 ^ 10\<bar> \<le> 1 / 10 ^ 6
    | _ \<Rightarrow> True"
  using assms(3) display_read_close[OF assms(2)]
  by (cases p) (auto simp: reply_text_def payload_json_def payload_fits_def answers_read user_read[OF assms(1)]
      users_read[OF assms(1)] balance_read intro!: answered_sent[OF assms(1,3)])

lemma neighbour_id: "neighbour id"
  by (simp add: neighbour_def)

lemma replies_understood_witness:
  "answered strokes (read_users_answer strokes) (reply_text strokes (UsersJson \<lparr>pg_items = [response_of (sample_user 3 ''u'' ''user'')],
      pg_total = 1, pg_page = 1, pg_per_page = 10, pg_total_pages = 1\<rparr>))
   = Some \<lparr>us_items = [\<lparr>ua_id = ''3'', ua_email = ''u'', ua_name = ''u'', ua_role = ''user'', ua_created_at = 3, ua_updated_at = 3,
       ua_balance = 10\<rparr>], us_total = 1, us_page = 1, us_per_page = 10, us_total_pages = 1\<rparr>
   \<and> (\<exists>d. answered strokes read_balance_answer (reply_text strokes (BalanceJson 123456789012345 ''ok'')) = Some (123456789012345, d, ''ok'')
        \<and> \<bar>f64_value d - 12345.6789012345\<bar> \<le> 1 / 10 ^ 6)"
proof -
  have "show_int 3 = ''3''" by code_simp
  note law = replies_understood[OF strokes_laws neighbour_id]
  show ?thesis
    using law[of "UsersJson \<lparr>pg_items = [response_of (sample_user 3 ''u'' ''user'')], pg_total = 1, pg_page = 1, pg_per_page = 10, pg_total_pages = 1\<rparr>"]
      law[of "BalanceJson 123456789012345 ''ok''"] \<open>show_int 3 = ''3''\<close>
    by (simp add: payload_fits_def answer_of_users_def answer_of_user_def response_of_def sample_user_def in_i64_def i64_min_def
        i64_max_def)
qed

end
