(* ===== verification/EndToEnd.thy ===== *)
theory EndToEnd
  imports Wire ServerProps
begin

text \<open>
  The application and the server put together: the transport of the client is a deployment of the server, which takes a request from its
  address through the route, the guards and the handler to the rendered answer. What lies between the two (the headers a proxy and the browser add,
  the text of a query and of a cookie, the answers of the framework to unknown paths) is a parameter of the deployment.
\<close>

section \<open>A deployment\<close>

record 'r deployment =
  dp_web :: "'r web"
  dp_json :: json_lib
  dp_origin :: string
  dp_env :: "nat \<Rightarrow> 'r env"
  dp_around :: "nat \<Rightarrow> http_request"
  dp_query :: "(string \<times> nat) list \<Rightarrow> string"
  dp_cookie :: "cookie \<Rightarrow> string"
  dp_header_value :: "string \<Rightarrow> bool"
  dp_read_error :: string
  dp_reasons :: "nat \<Rightarrow> string option"
  dp_fallback :: api_response
  dp_elsewhere :: transport_error

text \<open>The requests served so far, which date the next one, and the state of the server.\<close>

record 'r site =
  st_count :: nat
  st_server :: "'r limiter \<times> 'r srv"

text \<open>The request as it arrives: what the client sets, in what surrounds it.\<close>

definition wire_request :: "'r deployment \<Rightarrow> nat \<Rightarrow> api_request \<Rightarrow> string \<Rightarrow> http_request" where
  "wire_request d n req path =
     (dp_around d n)\<lparr>rq_method := ar_method req, rq_path := path, rq_query := dp_query d (ar_query req),
        rq_content_type := (if body_json (ar_body req) = None then None else Some ''application/json''),
        rq_authorization := ar_authorization req,
        rq_body := Some (case body_text (dp_json d) (ar_body req) of None \<Rightarrow> [] | Some t \<Rightarrow> t)\<rparr>"

text \<open>\<^verbatim>\<open>build_app_router\<close>: the nest decides, and strips its prefix.\<close>

definition serve_path ::
    "'r deployment \<Rightarrow> nat \<Rightarrow> http_request \<Rightarrow> 'r limiter \<times> 'r srv \<Rightarrow> (http_error, reply option) res \<times> 'r limiter \<times> 'r srv" where
  "serve_path d n req s =
     (case strip_prefix (rq_path req) ''/api/public/auth'' of
        Some p \<Rightarrow> serve (AuthRequestTo (dp_web d) (dp_env d n) (dp_read_error d) (req\<lparr>rq_path := p\<rparr>)) s
      | None \<Rightarrow>
          (case strip_prefix (rq_path req) ''/api'' of
             Some p \<Rightarrow> serve (ApiRequestTo (dp_web d) (dp_env d n) (dp_read_error d) (req\<lparr>rq_path := p\<rparr>)) s
           | None \<Rightarrow> (Inr None, s)))"

definition error_json :: "string \<times> string \<Rightarrow> json" where
  "error_json e = to_value (JObj [(''error'', JStr (fst e)), (''message'', JStr (snd e))])"

text \<open>\<^verbatim>\<open>Response::json\<close> and the cookies as headers.\<close>

definition reply_response :: "'r deployment \<Rightarrow> reply \<Rightarrow> json response" where
  "reply_response d r =
     new_response\<lparr>rs_body := (case payload_json (dp_json d) (rp_payload r) of
                              Some j \<Rightarrow> JsonBody (to_value j) | None \<Rightarrow> BytesBody (reply_text (dp_json d) (rp_payload r))),
       rs_headers := map (\<lambda>c. (''set-cookie'', dp_cookie d c)) (rp_cookies r)\<rparr>"

definition rendered :: "'r deployment \<Rightarrow> json response \<Rightarrow> api_response" where
  "rendered d r =
     (let w = response_to_axum (dp_header_value d) (\<lambda>j. Some (to_text (dp_json d) j)) r
      in \<lparr>as_status = w_status w, as_text = Some (w_body w)\<rparr>)"

definition wire_answer :: "'r deployment \<Rightarrow> (http_error, reply option) res \<Rightarrow> api_response" where
  "wire_answer d x =
     (case x of
        Inl e \<Rightarrow> rendered d (response_of_error error_json e)
      | Inr (Some r) \<Rightarrow> rendered d (reply_response d r)
      | Inr None \<Rightarrow> dp_fallback d)"

definition carry_request :: "'r deployment \<Rightarrow> api_request \<Rightarrow> 'r site \<Rightarrow> (transport_error, api_response) res \<times> 'r site" where
  "carry_request d req w =
     (case strip_prefix (ar_url req) (dp_origin d) of
        None \<Rightarrow> (Inl (dp_elsewhere d), w)
      | Some path \<Rightarrow>
          (case serve_path d (st_count w) (wire_request d (st_count w) req path) (st_server w) of
             (x, s) \<Rightarrow> (Inr (wire_answer d x), \<lparr>st_count = st_count w + 1, st_server = s\<rparr>)))"

definition site_net :: "'r deployment \<Rightarrow> 'r site net" where
  "site_net d = \<lparr>net_send = carry_request d, net_sleep = (\<lambda>_ w. w), canonical_reason = dp_reasons d\<rparr>"

section \<open>The application on this transport\<close>

definition read_response :: "json_lib \<Rightarrow> (json \<Rightarrow> 'a option) \<Rightarrow> api_response \<Rightarrow> (transport_error, 'a) res" where
  "read_response l r resp =
     (let text = (case as_text resp of None \<Rightarrow> [] | Some t \<Rightarrow> t)
      in ok_or (DecodeFailed (json_error l text)) (answered l r text))"

definition login_reply_of :: "login_answer \<Rightarrow> login_reply" where
  "login_reply_of a = \<lparr>lg_token = la_token a, lg_expires_in = la_expires_in a, lg_refresh_expires_in = la_refresh_expires_in a\<rparr>"

definition refresh_reply_of :: "token_answer \<times> nat \<Rightarrow> refresh_reply" where
  "refresh_reply_of a = \<lparr>rf_token = ta_token (fst a), rf_expires_in = ta_expires_in (fst a), rf_refresh_expires_in = snd a\<rparr>"

definition profile_of :: "user_answer \<Rightarrow> profile" where
  "profile_of a = \<lparr>pf_id = ua_id a, pf_email = ua_email a, pf_name = ua_name a, pf_role = ua_role a, pf_balance = ua_balance a\<rparr>"

definition map_reader :: "('a \<Rightarrow> 'b) \<Rightarrow> (json \<Rightarrow> 'a option) \<Rightarrow> json \<Rightarrow> 'b option" where
  "map_reader g r j = map_option g (r j)"

definition site_lib :: "'r deployment \<Rightarrow> 'r site web_lib \<Rightarrow> 'r site web_lib" where
  "site_lib d lib =
     (let l = dp_json d in
      lib\<lparr>wl_net := site_net d,
        read_login := read_response l (map_reader login_reply_of read_login_answer),
        read_refresh := read_response l (map_reader refresh_reply_of read_refresh_answer),
        read_profile := read_response l (map_reader profile_of (read_user_answer l)),
        read_registered := read_response l (map_reader ga_email_verified read_register_answer),
        read_message := read_response l (map_reader (\<lambda>_. ()) read_message_answer)\<rparr>)"

lemma site_lib_simps [simp]:
  "wl_net (site_lib d lib) = site_net d"
  "read_login (site_lib d lib) = read_response (dp_json d) (map_reader login_reply_of read_login_answer)"
  "read_profile (site_lib d lib) = read_response (dp_json d) (map_reader profile_of (read_user_answer (dp_json d)))"
  by (simp_all add: site_lib_def Let_def)

section \<open>One call, one request\<close>

definition settled :: "(client_error, 'a) res \<Rightarrow> bool" where
  "settled x \<longleftrightarrow> (case x of Inl e \<Rightarrow> \<not> should_retry e | Inr _ \<Rightarrow> True)"

lemma call_once:
  assumes "net_send net req s = (y, s1)" "settled (outcome net (is_native (cl_platform cl)) json y)"
  shows "send_and_parse net cl json req s = (outcome net (is_native (cl_platform cl)) json y, s1)"
  using assms
  by (cases "cc_max_retries (cl_config cl)") (auto simp: send_and_parse_def settled_def split: sum.splits)

text \<open>A client that is configured for the deployment.\<close>

definition aimed_at :: "'r deployment \<Rightarrow> client \<Rightarrow> bool" where
  "aimed_at d cl \<longleftrightarrow> cc_base_url (cl_config cl) = dp_origin d \<and> dp_origin d \<noteq> [] \<and> last (dp_origin d) \<noteq> CHR ''/''"

lemma aimed_url:
  assumes "aimed_at d cl" "path = CHR ''/'' # c # rest" "c \<noteq> CHR ''/''"
  shows "strip_prefix (build_url (cl_platform cl) (cl_config cl) path) (dp_origin d) = Some path"
proof -
  have "trim_end_slashes (dp_origin d) = dp_origin d"
    using assms(1) by (cases "dp_origin d" rule: rev_cases) (simp_all add: trim_end_slashes_def aimed_at_def)
  then show ?thesis
    using assms by (simp add: build_url_def trim_start_slashes_def aimed_at_def)
qed

text \<open>The answer the server gives to a call.\<close>

definition served :: "'r deployment \<Rightarrow> api_request \<Rightarrow> string \<Rightarrow> 'r site \<Rightarrow> (http_error, reply option) res \<times> 'r limiter \<times> 'r srv" where
  "served d req path w = serve_path d (st_count w) (wire_request d (st_count w) req path) (st_server w)"

lemma carry_request_served:
  assumes "strip_prefix (ar_url req) (dp_origin d) = Some path" "served d req path w = (x, s)"
  shows "net_send (site_net d) req w = (Inr (wire_answer d x), \<lparr>st_count = st_count w + 1, st_server = s\<rparr>)"
  using assms by (simp add: site_net_def carry_request_def served_def)

text \<open>What the libraries of a deployment document: the laws of JSON and of signing, readers and writers as the structs declare them,
  and headers that carry visible text.\<close>

definition visible :: "string \<Rightarrow> bool" where
  "visible s \<longleftrightarrow> list_all (\<lambda>c. 32 < (of_char c :: nat) \<and> (of_char c :: nat) < 127) s"

definition deployed :: "'r deployment \<Rightarrow> (f64 \<Rightarrow> f64) \<Rightarrow> decoders \<Rightarrow> bool" where
  "deployed d f base \<longleftrightarrow>
     json_laws (dp_json d) f \<and> jwt_laws (wb_crypto (dp_web d))
     \<and> wb_decoders (dp_web d) = wire_decoders (dp_json d) base \<and> wb_json (dp_web d) = wire_user_json (dp_json d)
     \<and> (\<forall>c secret t. jwt_encode (wb_crypto (dp_web d)) c secret = Some t \<longrightarrow> t \<noteq> [] \<and> visible t)
     \<and> (\<forall>bytes. visible (hex_encode (wb_crypto (dp_web d)) bytes))
     \<and> (\<forall>c. visible (ck_value c) \<longrightarrow> dp_header_value d (dp_cookie d c))
     \<and> dp_header_value d ''application/json; charset=utf-8''"

lemma rendered_json:
  assumes "deployed d f base" "payload_json (dp_json d) p = Some j" "list_all (\<lambda>c. visible (ck_value c)) cs"
  shows "wire_answer d (Inr (Some \<lparr>rp_payload = p, rp_cookies = cs\<rparr>)) = \<lparr>as_status = 200, as_text = Some (to_text (dp_json d) (to_value j))\<rparr>"
proof -
  have "list_all (\<lambda>c. dp_header_value d (dp_cookie d c)) cs" "dp_header_value d ''application/json; charset=utf-8''"
    using assms(1,3) by (auto simp: deployed_def list_all_iff)
  then show ?thesis
    using assms(2) by (auto simp: wire_answer_def reply_response_def rendered_def response_to_axum_def read_bytes_def content_type_of_def
        extra_headers_def new_response_def list_all_iff)
qed

lemma good_answer:
  assumes "deployed d f base" "payload_fits p" "payload_json (dp_json d) p = Some j" "r (sent f j) = Some a"
    and "list_all (\<lambda>c. visible (ck_value c)) cs"
  shows "outcome net native (read_response (dp_json d) r) (Inr (wire_answer d (Inr (Some \<lparr>rp_payload = p, rp_cookies = cs\<rparr>)))) = Inr a"
proof -
  have "json_laws (dp_json d) f" using assms(1) by (simp add: deployed_def)
  from answered_sent[OF this assms(2,3), of r a, OF assms(4)] show ?thesis
    by (simp add: rendered_json[OF assms(1,3,5)] outcome_def handle_response_def read_response_def ok_or_def)
qed

text \<open>A call that a handler answers: one request, and the value the handler gave.\<close>

lemma call_answered:
  assumes "deployed d f base" "strip_prefix (ar_url req) (dp_origin d) = Some path"
    and "served d req path w = (Inr (Some \<lparr>rp_payload = p, rp_cookies = cs\<rparr>), s)"
    and "payload_fits p" "payload_json (dp_json d) p = Some j" "r (sent f j) = Some a" "list_all (\<lambda>c. visible (ck_value c)) cs"
  shows "send_and_parse (site_net d) cl (read_response (dp_json d) r) req w = (Inr a, \<lparr>st_count = st_count w + 1, st_server = s\<rparr>)"
proof -
  note good = good_answer[OF assms(1,4,5), of r a, OF assms(6,7)]
  show ?thesis
    using call_once[OF carry_request_served[OF assms(2,3)], of cl "read_response (dp_json d) r"] unfolding good
    by (simp add: settled_def)
qed

section \<open>Logging in\<close>

lemma wire_request_simps [simp]:
  "(wire_request d n req x)\<lparr>rq_path := y\<rparr> = wire_request d n req y" "rq_path (wire_request d n req x) = x"
  "rq_method (wire_request d n req x) = ar_method req"
  "rq_authorization (wire_request d n req x) = ar_authorization req"
  by (simp_all add: wire_request_def)

lemma login_path: "strip_prefix ''/api/public/auth/login'' ''/api/public/auth'' = Some ''/login''"
  "find_auth_route ''POST'' ''/login'' = Some (''/login'', ''POST'', Login, ''login'', 20, Some 5)"
  by code_simp+

text \<open>A login that the limiter lets through, on a server without a captcha.\<close>

lemma login_served:
  assumes "deployed d f base" "wb_wechat (dp_web d) = None" "valid_email (dp_web d) e" "p \<noteq> []"
    and "req = request_no_auth cl ''POST'' url (LoginReq e p r c)"
    and "limited (dp_web d) (dp_env d (st_count w)) (make_guard (fst (st_server w)) ''login'' 20 (Some 5))
           ((wire_request d (st_count w) req ''/login'')) (st_server w) = (Inr (), (lm, (b, s)))"
    and "login (wb_crypto (dp_web d)) (wb_auth (dp_web d)) (dp_env d (st_count w))
           \<lparr>lr_email = to_lower e, lr_password = p, lr_remember = r\<rparr> s = (Inr resp, t)"
  shows "served d req ''/api/public/auth/login'' w
    = (Inr (Some \<lparr>rp_payload = LoginJson resp, rp_cookies = login_cookies (dp_web d) (dp_env d (st_count w)) resp\<rparr>), (lm, (b, t)))"
proof -
  let ?w = "dp_web d" and ?e = "dp_env d (st_count w)" and ?q = "wire_request d (st_count w) req ''/login''"
  obtain body where body: "body_text (dp_json d) (LoginReq e p r c) = Some body"
    by (simp add: body_text_def body_json_def)
  have q: "ar_method req = ''POST''" "rq_content_type ?q = Some ''application/json''" "rq_body ?q = Some body"
    using body by (simp_all add: wire_request_def assms(5) request_no_auth_def body_json_def body_text_def)
  have laws: "json_laws (dp_json d) f" "wb_decoders ?w = wire_decoders (dp_json d) base" using assms(1) by (simp_all add: deployed_def)
  have "parse_json_or_form (json_decoder (dp_json d) read_login_body (d_login base)) ?q body
      = Inr \<lparr>lb_email = e, lb_password = p, lb_remember = r, lb_captcha_code = c\<rparr>"
    by (rule decoder_reads[OF laws(1) body _ q(2)]) (auto simp: body_fits_def body_json_def requests_read)
  then have dec: "decoded (d_login (wb_decoders ?w)) ?q body = (retS \<lparr>lb_email = e, lb_password = p, lb_remember = r, lb_captcha_code = c\<rparr>
      :: ('a srv, http_error, login_body) prog)"
    by (simp add: laws(2) wire_decoders_def decoded_def liftE_def retS_def fun_eq_iff)
  have "login_handler ?w ?e ?q body (b, s)
      = (Inr \<lparr>rp_payload = LoginJson resp, rp_cookies = login_cookies ?w ?e resp\<rparr>, (b, t))"
    using assms(2-4,7)
    by (simp add: login_handler_def dec bindS_def retS_def login_inner_def validated_def email_errors_def min_errors_def liftE_def
        login_captcha_def on_snd_def on_error_def)
  then show ?thesis
    using assms(6)
    by (simp add: served_def serve_path_def serve_def serve_auth_def login_path q bindS_def liftE_def retS_def axum_body_def bodyless_def run_public_def on_snd_def)
qed

section \<open>The profile\<close>

lemma show_int_hd: "show_int i \<noteq> CHR ''t'' # s"
proof
  assume e: "show_int i = CHR ''t'' # s"
  have "\<not> is_digit (CHR ''t'')" by (simp add: is_digit_def)
  then show False
    using e show_nat_digits[of "nat i"] by (auto simp: show_int_def split: if_splits)
qed

lemma profile_keys:
  "user_cache_key i \<noteq> token_version_key j" "null_key (user_cache_key i) \<noteq> token_version_key j"
  "token_version_key j \<noteq> user_cache_key i" "token_version_key j \<noteq> null_key (user_cache_key i)"
proof -
  have "show_int i \<noteq> []" by (simp add: show_int_def)
  then have "show_int i @ r \<noteq> CHR ''t'' # s" for r s
    using show_int_hd[of i] by (cases "show_int i") auto
  from this[of "[]"] this[of "'':null''"]
  show "user_cache_key i \<noteq> token_version_key j" "null_key (user_cache_key i) \<noteq> token_version_key j"
    by (simp_all add: user_cache_key_def token_version_key_def null_key_def)
  then show "token_version_key j \<noteq> user_cache_key i" "token_version_key j \<noteq> null_key (user_cache_key i)" by metis+
qed

lemma version_check_elsewhere:
  assumes "redis_laws ops view" "pool (cache_svc env) = Some ops" "cache_time env \<le> t" "k \<noteq> token_version_key uid"
  shows "view (redis (snd (verify_token_version env uid v s))) t k = view (redis s) t k"
proof -
  let ?c = "cache_svc env" and ?t = "cache_time env" and ?k = "token_version_key uid"
  obtain x w where g: "cache_get read_version ?c ?k (?t, redis s) = (x, w)" by (metis prod.exhaust)
  have gv: "fst w = ?t" "view (snd w) = view (redis s)"
    using cache_get_view[OF assms(1,2), of read_version ?k "(?t, redis s)"] g by simp_all
  have st: "view (snd (snd (cache_set write_version ?c ?k n l w'))) t k = view (snd w') t k" if "fst w' = ?t" for n l w'
    by (rule cache_set_view(2)[OF assms(1,2)]) (use assms(3,4) that in simp_all)
  show ?thesis
    using g gv st[of "(?t, snd w)"]
    by (auto simp: verify_token_version_def bindS_def cache_do_def db_stmt_def read_db_def liftE_def ok_or_def retS_def raiseS_def
        case_prod_beta split: sum.split option.split)
qed

text \<open>What the cache holds of a user, if anything, is the current row.\<close>

definition profile_fresh :: "'r redis_view \<Rightarrow> user_json \<Rightarrow> nat \<Rightarrow> user \<Rightarrow> 'r app \<Rightarrow> bool" where
  "profile_fresh view j t u s \<longleftrightarrow>
     view (redis s) t (null_key (user_cache_key (u_id u))) = None
     \<and> (\<forall>y r. view (redis s) t (user_cache_key (u_id u)) = Some y \<longrightarrow> read_user j y = Some r \<longrightarrow>
          answer_of_user r = answer_of_user (response_of u) \<and> in_i64 (r_balance r))"

lemma get_user_fresh:
  assumes "cached_env ops view env" "user_by_id i s = Some u" "profile_fresh view j (cache_time env) u s" "in_i64 (u_balance u)"
  obtains r s' where "get_user env j i s = (Inr (Some r), s')" "answer_of_user r = answer_of_user (response_of u)"
    "in_i64 (r_balance r)" "users s' = users s" "tokens s' = tokens s"
proof -
  let ?c = "cache_svc env" and ?t = "cache_time env" and ?k = "user_cache_key i"
  have laws: "redis_laws ops view" "reliable ops" "pool ?c = Some ops" and q: "\<And>c. \<not> db_err env c"
    using assms(1) by (simp_all add: cached_env_def)
  have i: "u_id u = i" using user_by_id_Some[OF assms(2)] by simp
  obtain x w where g: "cache_get (read_user j) ?c ?k (?t, redis s) = (x, w)" by (metis prod.exhaust)
  have gx: "x = (case view (redis s) ?t ?k of None \<Rightarrow> Inr None
      | Some y \<Rightarrow> (case read_user j y of None \<Rightarrow> Inl Deserialization | Some v \<Rightarrow> Inr (Some v)))"
    using cache_get_reliable[OF laws, of "read_user j" ?k "(?t, redis s)"] g by simp
  have gv: "view (snd w) = view (redis s)"
    using cache_get_view[OF laws(1,3), of "read_user j" ?k "(?t, redis s)"] g by simp
  show thesis
  proof (cases "\<exists>r. x = Inr (Some r)")
    case True
    then obtain r where r: "x = Inr (Some r)" by blast
    then have "answer_of_user r = answer_of_user (response_of u) \<and> in_i64 (r_balance r)"
      using gx assms(3) i by (auto simp: profile_fresh_def split: option.splits)
    then show thesis using that[of r "s\<lparr>redis := snd w\<rparr>"] g r by (simp add: get_user_def bindS_def cache_do_def retS_def)
  next
    case False
    obtain y w2 where e: "cache_exists ?c (null_key ?k) (?t, snd w) = (y, w2)" by (metis prod.exhaust)
    have "y = Inr False"
      using cache_exists_reliable[OF laws, of "null_key ?k" "(?t, snd w)"] e assms(3) gv i by (simp add: profile_fresh_def)
    then show thesis
      using that[of "response_of u"] g e False assms(2,4)
      by (cases x) (auto simp: get_user_def bindS_def cache_do_def db_stmt_def q read_db_def retS_def case_prod_beta response_of_def
          user_by_id_def split: option.splits)
  qed
qed

text \<open>The profile of a live session is the row of its user.\<close>

lemma me_path: "strip_prefix ''/api/users/me'' ''/api/public/auth'' = None" "strip_prefix ''/api/users/me'' ''/api'' = Some ''/users/me''"
  "find_route api_routes ''GET'' ''/users/me'' = Some (False, ''/users/me'', ''GET'', GetMe)"
  "is_health q \<longleftrightarrow> rq_path q = ''/health'' \<or> rq_path q = ''/api/health''"
  by (code_simp, code_simp, code_simp, simp add: is_health_def)

lemma live_claims:
  assumes "db_ok s" "live_session ps k secret env q s claims"
  obtains uid u where "parse_i64 (sub claims) = Some uid" "user_by_id uid s = Some u"
  using assms by (auto simp: live_session_def presented_def Option.bind_eq_Some_conv)

lemma me_served:
  assumes "deployed d f base" "cached_env ops view env" "versions_agree view (cache_time env) s" "db_ok s"
    and "env = dp_env d (st_count w)" "st_server w = (lm, (b, s))"
    and "req = request_with_auth cl ''GET'' url NoBody None"
    and "live_session (wb_parsers (dp_web d)) (wb_crypto (dp_web d)) (jwt_secret (wb_auth (dp_web d))) env
          (wire_request d (st_count w) req ''/users/me'') s claims"
    and "parse_i64 (sub claims) = Some uid" "user_by_id uid s = Some u" "profile_fresh view (wb_json (dp_web d)) (cache_time env) u s"
  shows "\<exists>r s'. served d req ''/api/users/me'' w = (Inr (Some (json_reply (UserJson r))), (lm, (b, s')))
    \<and> answer_of_user r = answer_of_user (response_of u) \<and> in_i64 (r_balance r) \<and> users s' = users s \<and> tokens s' = tokens s"
proof -
  let ?w = "dp_web d" and ?q = "wire_request d (st_count w) req ''/users/me''"
  have q: "ar_method req = ''GET''" by (simp add: assms(7) request_with_auth_def request_no_auth_def)
  have h: "\<not> is_health ?q" by (simp add: is_health_def)
  obtain x s1 where a: "auth_middleware (wb_parsers ?w) (wb_crypto ?w) (jwt_secret (wb_auth ?w)) env ?q s = (x, s1)" by (metis prod.exhaust)
  have x: "x = Inr (Some (auth_user_of claims))"
    using auth_middleware_exact(1)[OF assms(2,3,4) h a] assms(8) by blast
  have same: "users s1 = users s" "tokens s1 = tokens s"
    using auth_middleware_exact(2)[OF assms(2,3,4) h a] by simp_all
  have laws: "redis_laws ops view" "pool (cache_svc env) = Some ops" using assms(2) by (simp_all add: cached_env_def)
  have "view (redis s1) (cache_time env) k = view (redis s) (cache_time env) k" if "\<And>v. k \<noteq> token_version_key v" for k
    using a h version_check_elsewhere[OF laws order_refl that]
    by (auto simp: auth_middleware_def split: option.splits prod.splits sum.splits) (metis snd_conv)+
  then have fresh: "profile_fresh view (wb_json ?w) (cache_time env) u s1"
    using assms(11) profile_keys by (simp add: profile_fresh_def)
  have u: "user_by_id uid s1 = Some u" using assms(10) same by (simp add: user_by_id_def)
  have "in_i64 (u_balance u)"
    using user_by_id_Some[OF assms(10)] assms(4) by (auto simp: db_ok_def users_ok_def row_ok_def in_i64_def i64_min_def i64_max_def)
  from get_user_fresh[OF assms(2) u fresh this] obtain r s' where r: "get_user env (wb_json ?w) uid s1 = (Inr (Some r), s')"
    "answer_of_user r = answer_of_user (response_of u)" "in_i64 (r_balance r)" "users s' = users s1" "tokens s' = tokens s1" .
  have "serve_api ?w env (dp_read_error d) ?q s = (Inr (Some (json_reply (UserJson r))), s')"
    using a x r(1) assms(9)
    by (simp add: serve_api_def me_path(3) q bindS_def liftE_def retS_def axum_body_def bodyless_def run_api_def get_me_def handler_context_def
        own_id_def ok_or_def auth_user_of_def on_error_def found_user_def)
  then show ?thesis
    using r(2-) same assms(5,6)
    by (intro exI[of _ r] exI[of _ s']) (simp add: served_def serve_path_def me_path(1,2) serve_def)
qed

section \<open>A login from the form to the profile\<close>

lemma login_run:
  assumes "login k svc env req s = (Inr resp, t)" "between env = id"
  shows "\<exists>u. may_login env req s u \<and> lo_role resp = u_role u \<and> users t = users s \<and> redis t = redis s
    \<and> lo_expires_in resp = (if lr_remember req then jwt_remember_expiry_seconds svc else jwt_expiry_seconds svc)
    \<and> generate_token k env (show_int (u_id u)) (u_role u) (jwt_secret svc) (lo_expires_in resp) (lr_remember req)
        (u_token_version u) = Some (lo_token resp)
    \<and> (lo_refresh_token resp = [] \<or> lo_refresh_token resp = fst (generate_refresh_token k))
    \<and> (lo_refresh_expires_in resp = 0 \<or> lo_refresh_expires_in resp = refresh_token_expiry_seconds svc)"
proof -
  have b: "between env s = s" using assms(2) by simp
  from assms(1) obtain u raw n where m: "may_login env req s u" "lo_role resp = u_role u"
    and i: "issue_refresh k svc env (u_id u) (lr_remember req) s = (Inr (raw, n), t)"
    and g: "generate_token k env (show_int (u_id u)) (u_role u) (jwt_secret svc) (lo_expires_in resp) (lr_remember req)
        (u_token_version u) = Some (lo_token resp)"
      "lo_expires_in resp = (if lr_remember req then jwt_remember_expiry_seconds svc else jwt_expiry_seconds svc)"
      "lo_refresh_token resp = raw" "lo_refresh_expires_in resp = n"
    by (rule login_cases)
  have ins: "keeps (\<lambda>t. redis t = redis s) (run_stmt (\<lambda>s. case insert_token uid h e n s of DbOk s' \<Rightarrow> DbOk (s', ()) | _ \<Rightarrow> RecordNotUpdated) x y)"
    for uid h e n and x y :: auth_error
    by (auto simp: keeps_def run_stmt_def stmt_result_def insert_token_def split: db_result.splits if_splits)
  have "keeps (\<lambda>t. redis t = redis s) (issue_refresh k svc env (u_id u) (lr_remember req))"
    unfolding issue_refresh_def replace_tokens_txn_def delete_all_refresh_tokens_def store_refresh_token_def Let_def
    by (intro keeps_intros keeps_same_redis keeps_same_redis_txn assms ins)
  then have r: "redis t = redis s" using keepsD[of "\<lambda>t. redis t = redis s" _ s] i by fastforce
  have n: "n = 0 \<or> n = refresh_token_expiry_seconds svc"
    using i by (auto simp: issue_refresh_def Let_def bindS_Inr_conv split: if_splits prod.splits)
  show ?thesis
    using m r n g issue_refresh_cases[OF b i] by (intro exI[of _ u]) (auto simp: replaced_def split: if_splits)
qed

lemma bearer: "t \<noteq> [] \<Longrightarrow> rq_authorization q = Some (''Bearer '' @ t) \<Longrightarrow> request_token ps q = Some t"
proof -
  have "to_lower ''Bearer '' = ''bearer ''" by code_simp
  then show "t \<noteq> [] \<Longrightarrow> rq_authorization q = Some (''Bearer '' @ t) \<Longrightarrow> request_token ps q = Some t"
    by (simp add: request_token_def extract_bearer_token_def)
qed

lemma visible_show_int: "visible (show_int i)"
proof -
  have "visible (show_nat n)" for n
    using show_nat_digits[of n] by (auto simp: visible_def list_all_iff is_digit_def)
  moreover have "visible (CHR ''-'' # s)" if "visible s" for s using that by (simp add: visible_def)
  ultimately show ?thesis by (simp add: show_int_def)
qed

lemma login_cookies_visible:
  assumes "visible (lo_token r)" "visible (lo_refresh_token r)"
  shows "list_all (\<lambda>c. visible (ck_value c)) (login_cookies w env r)"
proof -
  have "visible []" by (simp add: visible_def)
  then show ?thesis
    using assms visible_show_int by (simp add: login_cookies_def session_cookies_def token_cookie_def expiry_cookie_def Let_def)
qed

definition row_user :: "user \<Rightarrow> current_user" where
  "row_user u = \<lparr>cu_id = show_int (u_id u), cu_role = u_role u, cu_name = u_name u, cu_email = u_email u, cu_balance = u_balance u\<rparr>"

definition login_call :: "'s web_state \<Rightarrow> string \<Rightarrow> string \<Rightarrow> bool \<Rightarrow> api_request" where
  "login_call a email password remember =
     request_no_auth (wa_client a) ''POST'' ''/api/public/auth/login'' (LoginReq email password remember None)"

text \<open>The handler lowers the address before the service does.\<close>

definition credentials :: "string \<Rightarrow> string \<Rightarrow> bool \<Rightarrow> login_request" where
  "credentials email password remember = \<lparr>lr_email = to_lower email, lr_password = password, lr_remember = remember\<rparr>"

text \<open>What a login that succeeded hands out, and the session it starts.\<close>

lemma login_texts:
  assumes "deployed d f base" "login (wb_crypto (dp_web d)) (wb_auth (dp_web d)) env req s = (Inr resp, t)" "between env = id"
  shows "lo_token resp \<noteq> []" "visible (lo_token resp)" "visible (lo_refresh_token resp)"
proof -
  let ?k = "wb_crypto (dp_web d)" and ?svc = "wb_auth (dp_web d)"
  obtain u where "may_login env req s u" and u: "generate_token ?k env (show_int (u_id u)) (u_role u) (jwt_secret ?svc) (lo_expires_in resp) (lr_remember req) (u_token_version u)
      = Some (lo_token resp)" "lo_refresh_token resp = [] \<or> lo_refresh_token resp = fst (generate_refresh_token ?k)"
    using login_run[OF assms(2,3)] by blast
  have laws: "\<And>c secret t. jwt_encode ?k c secret = Some t \<Longrightarrow> t \<noteq> [] \<and> visible t" "\<And>bytes. visible (hex_encode ?k bytes)"
    using assms(1) unfolding deployed_def by blast+
  show "lo_token resp \<noteq> []" "visible (lo_token resp)" using u(1) laws(1) unfolding generate_token_def by blast+
  show "visible (lo_refresh_token resp)" using u(2) laws(2) by (auto simp: generate_refresh_token_def Let_def visible_def)
qed

lemma session_after_login:
  assumes "jwt_laws k" "login k svc env req s = (Inr resp, t)" "between env = id" "db_ok s" "\<forall>u \<in> set (users s). in_i64 (u_id u)"
    and "now_secs env2 \<le> now_secs env + lo_expires_in resp + 5" "request_token ps q = Some (lo_token resp)"
  obtains u claims where "may_login env req s u" "u \<in> set (users s)" "users t = users s" "redis t = redis s" "user_by_id (u_id u) t = Some u"
    "parse_i64 (sub claims) = Some (u_id u)" "live_session ps k (jwt_secret svc) env2 q t claims"
proof -
  obtain u where u: "may_login env req s u" "users t = users s" "redis t = redis s"
    "generate_token k env (show_int (u_id u)) (u_role u) (jwt_secret svc) (lo_expires_in resp) (lr_remember req) (u_token_version u) = Some (lo_token resp)"
    using login_run[OF assms(2,3)] by blast
  let ?claims = "\<lparr>sub = show_int (u_id u), exp_at = now_secs env + lo_expires_in resp, iat = now_secs env, iss = ''webshelf-server'',
        aud = ''webshelf'', jwt_role = u_role u, jwt_version = u_token_version u, jwt_remember = lr_remember req\<rparr>"
  have "user_by_email (to_lower (lr_email req)) s = Some u" using u(1) by (simp add: may_login_def)
  note row = user_by_email_id[OF assms(4) this]
  have row_t: "user_by_id (u_id u) t = Some u" using row(3) u(2) by (simp add: user_by_id_def)
  have pid: "parse_i64 (sub ?claims) = Some (u_id u)" using row(1) assms(5) by (simp add: parse_i64_show_int)
  have "validate_jwt k env2 (lo_token resp) (jwt_secret svc) = Some ?claims"
    using assms(1,6) u(4) unfolding jwt_laws_def generate_token_def validate_jwt_def by fastforce
  then have "live_session ps k (jwt_secret svc) env2 q t ?claims"
    using pid row_t assms(7) by (simp add: live_session_def presented_def)
  then show thesis using that u(1-3) row(1) row_t pid by blast
qed

text \<open>The two requests of a login: the form, answered with a token, and the profile of the session.\<close>

lemma login_answered:
  fixes d :: "'r deployment" and a :: "'r site web_state"
  assumes "deployed d f base" "aimed_at d (wa_client a)" "wb_wechat (dp_web d) = None" "valid_email (dp_web d) email" "password \<noteq> []"
    and "in_u64 (jwt_expiry_seconds (wb_auth (dp_web d)))" "in_u64 (jwt_remember_expiry_seconds (wb_auth (dp_web d)))"
      "in_u64 (refresh_token_expiry_seconds (wb_auth (dp_web d)))"
    and "n = st_count (wa_net a)"
    and "limited (dp_web d) (dp_env d n) (make_guard (fst (st_server (wa_net a))) ''login'' 20 (Some 5))
        (wire_request d n (login_call a email password remember) ''/login'') (st_server (wa_net a)) = (Inr (), (lm, (b, s)))"
    and "login (wb_crypto (dp_web d)) (wb_auth (dp_web d)) (dp_env d n) (credentials email password remember) s = (Inr resp, t)"
      "between (dp_env d n) = id"
  shows "send_and_parse (site_net d) (wa_client a) (read_response (dp_json d) (map_reader login_reply_of read_login_answer))
      (login_call a email password remember) (wa_net a)
    = (Inr (login_reply_of (answer_of_login resp)), \<lparr>st_count = n + 1, st_server = (lm, (b, t))\<rparr>)"
proof -
  have "lo_expires_in resp \<in> {jwt_remember_expiry_seconds (wb_auth (dp_web d)), jwt_expiry_seconds (wb_auth (dp_web d))}
      \<and> lo_refresh_expires_in resp \<in> {0, refresh_token_expiry_seconds (wb_auth (dp_web d))}"
    using login_run[OF assms(11,12)] by (auto split: if_splits)
  then have fits: "payload_fits (LoginJson resp)" using assms(6-8) by (auto simp: payload_fits_def in_u64_def)
  have url: "strip_prefix (ar_url (login_call a email password remember)) (dp_origin d) = Some ''/api/public/auth/login''"
    using aimed_url[OF assms(2), of "''/api/public/auth/login''"] by (simp add: login_call_def request_no_auth_def)
  have "served d (login_call a email password remember) ''/api/public/auth/login'' (wa_net a)
      = (Inr (Some \<lparr>rp_payload = LoginJson resp, rp_cookies = login_cookies (dp_web d) (dp_env d n) resp\<rparr>), (lm, (b, t)))"
    using login_served[OF assms(1,3-5), where req = "login_call a email password remember" and w = "wa_net a" and lm = lm and b = b
        and s = s and resp = resp and t = t and c = None and r = remember] assms(9-11)
    by (simp add: login_call_def credentials_def)
  then show ?thesis
    using fits assms(9)
    by (subst call_answered[OF assms(1) url, where p = "LoginJson resp" and a = "login_reply_of (answer_of_login resp)"])
      (auto simp: payload_json_def map_reader_def answers_read payload_fits_def login_cookies_visible[OF login_texts(2,3)[OF assms(1,11,12)]])
qed

lemma profile_answered:
  fixes d :: "'r deployment" and a :: "'r site web_state"
  defines "req \<equiv> \<lambda>a. request_with_auth (wa_client a) ''GET'' ''/api/users/me'' NoBody None"
  assumes "deployed d f base" "aimed_at d (wa_client a)" "n = st_count (wa_net a)" "st_server (wa_net a) = (lm, (b, s))"
    and "cached_env ops view (dp_env d n)" "versions_agree view (cache_time (dp_env d n)) s" "db_ok s"
    and "live_session (wb_parsers (dp_web d)) (wb_crypto (dp_web d)) (jwt_secret (wb_auth (dp_web d))) (dp_env d n)
          (wire_request d n (req a) ''/users/me'') s claims"
    and "parse_i64 (sub claims) = Some uid" "user_by_id uid s = Some u" "profile_fresh view (wb_json (dp_web d)) (cache_time (dp_env d n)) u s"
  shows "\<exists>p s'. get_me_call (site_lib d lib) a = (Inr p, a\<lparr>wa_net := \<lparr>st_count = n + 1, st_server = (lm, (b, s'))\<rparr>\<rparr>)
    \<and> user_of_profile p = row_user u \<and> users s' = users s"
proof -
  obtain r s' where r: "served d (req a) ''/api/users/me'' (wa_net a) = (Inr (Some (json_reply (UserJson r))), (lm, (b, s')))"
    "answer_of_user r = answer_of_user (response_of u)" "in_i64 (r_balance r)" "users s' = users s"
    using me_served[OF assms(2,6-8) _ assms(5) _ _ assms(10-12), where cl = "wa_client a" and url = "''/api/users/me''" and req = "req a"]
      assms(4,9) by (auto simp: req_def)
  have url: "strip_prefix (ar_url (req a)) (dp_origin d) = Some ''/api/users/me''"
    using aimed_url[OF assms(3), of "''/api/users/me''"] by (simp add: req_def request_with_auth_def request_no_auth_def split: option.splits)
  have read: "map_reader profile_of (read_user_answer (dp_json d)) (sent f (user_response_json (dp_json d) r)) = Some (profile_of (answer_of_user r))"
    using user_read r(3) assms(2) by (simp add: map_reader_def deployed_def)
  have "send_and_parse (site_net d) (wa_client a) (read_response (dp_json d) (map_reader profile_of (read_user_answer (dp_json d)))) (req a) (wa_net a)
      = (Inr (profile_of (answer_of_user r)), \<lparr>st_count = n + 1, st_server = (lm, (b, s'))\<rparr>)"
    unfolding assms(4)
    by (rule call_answered[OF assms(2) url, where p = "UserJson r" and cs = "[]" and j = "user_response_json (dp_json d) r"])
      (use r(1,3) read in \<open>simp_all add: payload_fits_def payload_json_def json_reply_def\<close>)
  then have "get_me_call (site_lib d lib) a = (Inr (profile_of (answer_of_user r)), a\<lparr>wa_net := \<lparr>st_count = n + 1, st_server = (lm, (b, s'))\<rparr>\<rparr>)"
    by (simp add: get_me_call_def web_call_def client_get_me_def call_authorized_def req_def)
  moreover have "user_of_profile (profile_of (answer_of_user r)) = row_user u"
    unfolding r(2) by (simp add: user_of_profile_def profile_of_def answer_of_user_def response_of_def row_user_def)
  ultimately show ?thesis using r(4) by blast
qed

text \<open>C6: The way of a login through the whole system. Where the login service accepts the credentials, the application ends up with exactly one
  user: the account of the tables that has this address and this password, with the role, name and balance of its row. It sends two requests, keeps
  the token the server signed, and no account is changed. What it needs is a cache that agrees with the tables, a limiter that lets the request
  through, and a second request before the token expires.\<close>

theorem login_over_the_wire:
  fixes d :: "'r deployment" and a :: "'r site web_state"
  assumes site: "deployed d f base" "aimed_at d (wa_client a)" "wb_wechat (dp_web d) = None"
    and form: "valid_email (dp_web d) email" "password \<noteq> []"
    and expiries: "in_u64 (jwt_expiry_seconds (wb_auth (dp_web d)))" "in_u64 (jwt_remember_expiry_seconds (wb_auth (dp_web d)))"
      "in_u64 (refresh_token_expiry_seconds (wb_auth (dp_web d)))"
    and visit: "n = st_count (wa_net a)"
    and limiter: "limited (dp_web d) (dp_env d n) (make_guard (fst (st_server (wa_net a))) ''login'' 20 (Some 5))
        (wire_request d n (login_call a email password remember) ''/login'') (st_server (wa_net a)) = (Inr (), (lm, (b, s)))"
    and login: "login (wb_crypto (dp_web d)) (wb_auth (dp_web d)) (dp_env d n) (credentials email password remember) s = (Inr resp, t)"
      "between (dp_env d n) = id"
    and tables: "db_ok s" "versions_agree view (cache_time (dp_env d (n + 1))) s"
      "\<forall>u \<in> set (users s). profile_fresh view (wb_json (dp_web d)) (cache_time (dp_env d (n + 1))) u s"
      "\<forall>u \<in> set (users s). in_i64 (u_id u)"
    and second: "cached_env ops view (dp_env d (n + 1))" "now_secs (dp_env d (n + 1)) \<le> now_secs (dp_env d n) + lo_expires_in resp + 5"
  shows "\<exists>u w'. may_login (dp_env d n) (credentials email password remember) s u
    \<and> web_login (site_lib d lib) email password remember None a = (Inr (login_reply_of (answer_of_login resp)), w')
    \<and> wa_user w' = Some (row_user u) \<and> cl_token (wa_client w') = Some (lo_token resp) \<and> br_jwt w' = Some (lo_token resp)
    \<and> st_count (wa_net w') = n + 2 \<and> users (snd (snd (st_server (wa_net w')))) = users s"
proof -
  let ?w = "dp_web d" and ?e2 = "dp_env d (n + 1)" and ?login = "login_reply_of (answer_of_login resp)"
  note call = login_answered[OF site form expiries visit limiter login]
  define a1 where "a1 = keep_session (site_lib d lib) (lo_token resp) (nat (lo_expires_in resp)) (nat (lo_refresh_expires_in resp))
    (a\<lparr>wa_net := \<lparr>st_count = n + 1, st_server = (lm, (b, t))\<rparr>\<rparr>)"
  have a1: "wa_net a1 = \<lparr>st_count = n + 1, st_server = (lm, (b, t))\<rparr>" "wa_client a1 = set_token (lo_token resp) (wa_client a)"
    "br_jwt a1 = Some (lo_token resp)"
    by (simp_all add: a1_def keep_session_def save_token_def save_jwt_def Let_def)
  have aimed: "aimed_at d (wa_client a1)" using site(2) by (simp add: a1 aimed_at_def set_token_def)
  let ?q = "wire_request d (n + 1) (request_with_auth (wa_client a1) ''GET'' ''/api/users/me'' NoBody None) ''/users/me''"
  have q: "request_token (wb_parsers ?w) ?q = Some (lo_token resp)"
    using login_texts(1)[OF site(1) login] by (intro bearer) (simp_all add: request_with_auth_def a1 set_token_def)
  have "jwt_laws (wb_crypto ?w)" using site(1) by (simp add: deployed_def)
  from session_after_login[OF this login tables(1,4) second(2) q] obtain u claims where
    u: "may_login (dp_env d n) (credentials email password remember) s u" "u \<in> set (users s)" "users t = users s" "redis t = redis s"
      "user_by_id (u_id u) t = Some u" "parse_i64 (sub claims) = Some (u_id u)"
      "live_session (wb_parsers ?w) (wb_crypto ?w) (jwt_secret (wb_auth ?w)) ?e2 ?q t claims" .
  have agree: "versions_agree view (cache_time ?e2) t" "profile_fresh view (wb_json ?w) (cache_time ?e2) u t"
    using tables(2,3) u(2-4) by (simp_all add: versions_agree_def profile_fresh_def user_by_id_def)
  have "db_ok t"
    using login_db_ok[OF tables(1), of "dp_env d n" "wb_crypto ?w" "wb_auth ?w" "credentials email password remember"] login by simp
  from profile_answered[OF site(1) aimed _ _ second(1) agree(1) this u(7,6,5) agree(2), of lm b lib] a1(1) obtain p s' where
    p: "get_me_call (site_lib d lib) a1 = (Inr p, a1\<lparr>wa_net := \<lparr>st_count = n + 2, st_server = (lm, (b, s'))\<rparr>\<rparr>)"
      "user_of_profile p = row_user u" "users s' = users t" by auto
  have "web_login (site_lib d lib) email password remember None a
      = (Inr ?login, a1\<lparr>wa_net := \<lparr>st_count = n + 2, st_server = (lm, (b, s'))\<rparr>, wa_user := Some (row_user u)\<rparr>)"
    using call p(1,2)
    by (simp add: web_login_def web_call_def client_login_def call_public_def login_call_def login_reply_of_def answer_of_login_def a1_def)
  then show ?thesis
    using u(1,3) p(3) a1 by (intro exI[of _ u]) (simp add: set_token_def)
qed

section \<open>An error from the service to the page\<close>

text \<open>How the page looks into the body of an error.\<close>

definition text_field :: "json_lib \<Rightarrow> string \<Rightarrow> string \<Rightarrow> string option" where
  "text_field l body key =
     (case from_text l body of Some (JObj kvs) \<Rightarrow> Option.bind (map_of kvs key) as_str | _ \<Rightarrow> None)"

lemma error_fields:
  assumes "json_laws l f"
  shows "text_field l (to_text l (error_json (k, m))) ''error'' = Some k" "text_field l (to_text l (error_json (k, m))) ''message'' = Some m"
proof -
  have "from_text l (to_text l (error_json (k, m))) = Some (sent f (JObj [(''error'', JStr k), (''message'', JStr m)]))"
    unfolding error_json_def fst_conv snd_conv by (rule received[OF assms]) simp
  then show "text_field l (to_text l (error_json (k, m))) ''error'' = Some k" "text_field l (to_text l (error_json (k, m))) ''message'' = Some m"
    by (simp_all add: text_field_def sent_def as_str_def)
qed

lemma rendered_error:
  assumes "deployed d f base"
  shows "wire_answer d (Inl e) = \<lparr>as_status = status e, as_text = Some (to_text (dp_json d) (error_json (error_type e, message e)))\<rparr>"
  using assms by (simp add: wire_answer_def rendered_def response_of_error_def response_to_axum_def new_response_def read_bytes_def
      content_type_of_def extra_headers_def deployed_def)

text \<open>C26: An error on its way to the user. An error of a handler or a guard that is the fault of the request, and no refusal of the limiter, ends the
  call after one request; the page finds the kind and the message the server gave and words them by the status, so that nothing of them is lost.\<close>

theorem error_over_the_wire:
  assumes "deployed d f base" "strip_prefix (ar_url req) (dp_origin d) = Some path" "served d req path w = (Inl e, s)"
    and "400 \<le> status e" "status e < 500" "status e \<noteq> 429"
  shows "\<exists>err. send_and_parse (site_net d) cl json req w = (Inl err, \<lparr>st_count = st_count w + 1, st_server = s\<rparr>)
    \<and> humanize_error (text_field (dp_json d)) err ctx = humanize_other ctx (status e) (error_type e) (message e)"
proof -
  let ?t = "to_text (dp_json d) (error_json (error_type e, message e))"
  have laws: "json_laws (dp_json d) f" using assms(1) by (simp add: deployed_def)
  have "writable (JObj [(''error'', JStr (error_type e)), (''message'', JStr (message e))])" by simp
  then have "?t \<noteq> []" using laws writable_to_value unfolding json_laws_def error_json_def fst_conv snd_conv by blast
  then have o: "outcome (site_net d) nat json (Inr (wire_answer d (Inl e))) = Inl (OtherError (status e) ?t)" for nat
    using assms(4-6) by (simp add: rendered_error[OF assms(1)] outcome_def handle_response_def from_status_def)
  have "send_and_parse (site_net d) cl json req w = (Inl (OtherError (status e) ?t), \<lparr>st_count = st_count w + 1, st_server = s\<rparr>)"
    using call_once[OF carry_request_served[OF assms(2,3)], of cl json] unfolding o by (simp add: settled_def should_retry_def)
  then show ?thesis by (auto simp: humanize_error_def error_fields[OF laws])
qed

definition key_crypto :: crypto where
  "key_crypto = (sample_crypto sample_claims)\<lparr>jwt_encode := (\<lambda>c secret. if c = sample_claims \<and> secret = ''k'' then Some ''t.k'' else None),
     jwt_decode := (\<lambda>t secret. if t = ''t.k'' \<and> secret = ''k'' then Some sample_claims else None)\<rparr>"

definition sample_deployment :: "kv deployment" where
  "sample_deployment =
     \<lparr>dp_web = sample_web\<lparr>wb_decoders := wire_decoders strokes sample_decoders, wb_json := wire_user_json strokes, wb_crypto := key_crypto\<rparr>,
      dp_json = strokes, dp_origin = ''http://s'', dp_env = (\<lambda>_. sample_env), dp_around = (\<lambda>_. sample_request [] []), dp_query = (\<lambda>_. []),
      dp_cookie = ck_value, dp_header_value = (\<lambda>_. True), dp_read_error = [], dp_reasons = (\<lambda>_. None),
      dp_fallback = \<lparr>as_status = 404, as_text = None\<rparr>, dp_elsewhere = TimedOut\<rparr>"

definition sample_browser :: "kv site web_state" where
  "sample_browser =
     \<lparr>wa_client = \<lparr>cl_platform = \<lparr>is_native = True, has_window = False, window_origin = None\<rparr>, cl_config = new_config ''http://s'', cl_token = None\<rparr>,
      wa_user = None, wa_expires_at = None, wa_initialized = True, wa_pending = None, wa_refreshing = False, br_jwt = None, br_expiry = None,
      wa_net = \<lparr>st_count = 0, st_server = sample_server\<rparr>\<rparr>"

lemma key_crypto_laws: "jwt_laws key_crypto"
  by (auto simp: jwt_laws_def key_crypto_def)

lemma sample_deployed: "deployed sample_deployment id sample_decoders"
proof -
  have "97 + b mod 26 < (127 :: nat)" for b using pos_mod_bound[of 26 b] by linarith
  then have h: "visible (hex_encode key_crypto bytes)" for bytes
    by (auto simp: key_crypto_def sample_crypto_def visible_def list_all_iff of_char_of)
  have "visible ''t.k''" by code_simp
  then show ?thesis
    using strokes_laws key_crypto_laws h by (auto simp: deployed_def sample_deployment_def) (auto simp: key_crypto_def split: if_splits)
qed

lemma sample_login:
  "login key_crypto sample_auth sample_env (credentials ''u'' ''u'' False) sample_app =
     (Inr \<lparr>lo_token = ''t.k'', lo_token_type = ''Bearer'', lo_expires_in = 3600, lo_user_id = ''3'', lo_role = ''user'',
           lo_refresh_token = [], lo_refresh_expires_in = 0\<rparr>, sample_app)"
proof -
  have l: "to_lower ''u'' = ''u''" "show_int 3 = ''3''" by code_simp+
  have u: "user_by_email ''u'' sample_app = Some (sample_user 3 ''u'' ''user'')"
    by (simp add: user_by_email_def sample_app_def sample_user_def)
  have g: "generate_token key_crypto sample_env ''3'' ''user'' ''k'' 3600 False 1 = Some ''t.k''"
    by (simp add: generate_token_def key_crypto_def sample_claims_def now_secs_def sample_env_def)
  show ?thesis
    by (simp add: login_def bindS_def db_stmt_def read_db_def l u g Let_def issue_refresh_def credentials_def liftE_def ok_or_def retS_def
        check_credentials_def sample_env_simps sample_user_simps sample_auth_def)
qed

lemma login_over_the_wire_witness:
  "\<forall>lib. \<exists>w'. web_login (site_lib sample_deployment lib) ''u'' ''u'' False None sample_browser
      = (Inr \<lparr>lg_token = ''t.k'', lg_expires_in = 3600, lg_refresh_expires_in = Some 0\<rparr>, w')
    \<and> wa_user w' = Some \<lparr>cu_id = ''3'', cu_role = ''user'', cu_name = ''u'', cu_email = ''u'', cu_balance = 10\<rparr>
    \<and> st_count (wa_net w') = 2"
proof
  fix lib :: "kv site web_lib"
  let ?d = sample_deployment and ?a = sample_browser and ?s = sample_app
  have l: "to_lower ''u'' = ''u''" "show_int 3 = ''3''" by code_simp+
  have aimed: "aimed_at ?d (wa_client ?a)" by (simp add: aimed_at_def sample_deployment_def sample_browser_def new_config_def)
  have web: "wb_wechat (dp_web ?d) = None" "valid_email (dp_web ?d) ''u''" "wb_auth (dp_web ?d) = sample_auth" "wb_crypto (dp_web ?d) = key_crypto"
    "dp_env ?d m = sample_env" for m by (simp_all add: sample_deployment_def sample_web_def)
  have fits: "in_u64 (jwt_expiry_seconds sample_auth)" "in_u64 (jwt_remember_expiry_seconds sample_auth)" "in_u64 (refresh_token_expiry_seconds sample_auth)"
    by (simp_all add: sample_auth_def in_u64_def)
  have limiter: "limited (dp_web ?d) sample_env (make_guard (fst (st_server (wa_net ?a))) ''login'' 20 (Some 5))
      (wire_request ?d 0 (login_call ?a ''u'' ''u'' False) ''/login'') (st_server (wa_net ?a))
    = (Inr (), (disabled_limiter default_rate_limit_config, (False, ?s)))"
    by (simp add: limited_def rate_limit_middleware_def sample_browser_def sample_server_def limiter_is_available_def disabled_limiter_def)
  have fresh: "\<forall>u \<in> set (users ?s). profile_fresh kv_view (wb_json (dp_web ?d)) (cache_time sample_env) u ?s"
    by (simp add: profile_fresh_def kv_view_def sample_app_def)
  have ids: "\<forall>u \<in> set (users ?s). in_i64 (u_id u)" by (simp add: sample_app_def sample_user_def in_i64_def i64_min_def i64_max_def)
  have b: "between sample_env = id" by (simp add: sample_env_simps)
  have "3600 \<le> (3600 :: int)" by simp
  have mail: "user_by_email ''u'' ?s = Some (sample_user 3 ''u'' ''user'')"
    by (simp add: user_by_email_def sample_app_def sample_user_def)
  from login_over_the_wire[of ?d id sample_decoders ?a "''u''" "''u''" 0 False, unfolded web(3-5), OF sample_deployed aimed web(1,2) _ fits _ limiter
      sample_login b sample_app_ok sample_laws(2) fresh ids sample_laws(1), of lib]
  show "\<exists>w'. web_login (site_lib ?d lib) ''u'' ''u'' False None ?a = (Inr \<lparr>lg_token = ''t.k'', lg_expires_in = 3600, lg_refresh_expires_in = Some 0\<rparr>, w')
    \<and> wa_user w' = Some \<lparr>cu_id = ''3'', cu_role = ''user'', cu_name = ''u'', cu_email = ''u'', cu_balance = 10\<rparr> \<and> st_count (wa_net w') = 2"
    by (auto simp: sample_browser_def may_login_def credentials_def l mail login_reply_of_def answer_of_login_def row_user_def sample_user_def)
qed

lemma error_over_the_wire_witness:
  "\<exists>err. fst (send_and_parse (site_net sample_deployment) (wa_client sample_browser) (read_response strokes (read_user_answer strokes))
        (request_with_auth (wa_client sample_browser) ''GET'' ''/api/users/me'' NoBody None) (wa_net sample_browser)) = Inl err
    \<and> humanize_error (text_field strokes) err UserManagement = ''Not logged in or session expired''"
proof -
  let ?d = sample_deployment and ?r = "request_with_auth (wa_client sample_browser) ''GET'' ''/api/users/me'' NoBody None"
  let ?e = "unauthorized ''Missing or invalid Authorization header''"
  have aimed: "aimed_at ?d (wa_client sample_browser)" by (simp add: aimed_at_def sample_deployment_def sample_browser_def new_config_def)
  have url: "strip_prefix (ar_url ?r) (dp_origin ?d) = Some ''/api/users/me''"
    using aimed_url[OF aimed, of "''/api/users/me''"] by (simp add: request_with_auth_def request_no_auth_def)
  have "served ?d ?r ''/api/users/me'' (wa_net sample_browser) = (Inl ?e, sample_server)"
    by (simp add: served_def serve_path_def serve_def serve_api_def me_path(1-3) auth_middleware_def request_token_def extract_bearer_token_def
        extract_jwt_cookie_def cookie_value_def sample_deployment_def sample_web_def sample_browser_def request_with_auth_def request_no_auth_def
        wire_request_def sample_request_def bindS_def sample_server_def)
  from error_over_the_wire[OF sample_deployed url this, of "wa_client sample_browser" "read_response strokes (read_user_answer strokes)" UserManagement]
  show ?thesis by (auto simp: unauthorized_def humanize_other_def sample_deployment_def)
qed

end
