(* ===== verification/Coherence.thy ===== *)
theory Coherence
  imports EndToEnd
begin

text \<open>
  The cache of the server beside its tables, over any sequence of requests that do not interleave. \<^verbatim>\<open>coherent\<close>: a cached profile
  shows what the row of its user shows, a cached version is the version of the row. A request may touch the
  tables first and the cache afterwards; \<^verbatim>\<open>calm\<close> says that it only forgets cached values and leaves what they show alone, and the
  operations that do more drop what they have made stale.
\<close>

section \<open>What is cached of a user\<close>

definition shown :: "user_response \<Rightarrow> int \<times> string \<times> string \<times> string \<times> int \<times> int" where
  "shown r = (r_id r, r_email r, r_name r, r_role r, r_balance r, r_created_at r)"

text \<open>The cached profiles agree with the table from time \<^verbatim>\<open>t\<close> on.\<close>

definition profiles_agree :: "'r redis_view \<Rightarrow> user_json \<Rightarrow> nat \<Rightarrow> 'r app \<Rightarrow> bool" where
  "profiles_agree view j t s \<longleftrightarrow>
     (\<forall>t' \<ge> t. \<forall>i x r. view (redis s) t' (user_cache_key i) = Some x \<longrightarrow> read_user j x = Some r \<longrightarrow>
        (\<exists>u. user_by_id i s = Some u \<and> shown r = shown (response_of u)))"

definition tracked :: "string \<Rightarrow> bool" where
  "tracked k \<longleftrightarrow> (\<exists>i. k = user_cache_key i \<or> k = token_version_key i)"

lemma not_in_show_int:
  assumes "c \<noteq> CHR ''-''" "\<not> is_digit c"
  shows "c \<notin> set (show_int i)"
proof -
  have "c \<notin> set (show_nat n)" for n using show_nat_digits[of n] assms(2) by (auto simp: list_all_iff)
  then show ?thesis using assms(1) by (simp add: show_int_def)
qed

lemma key_chars [simp]:
  "CHR ''p'' \<notin> set (show_int i)" "CHR ''w'' \<notin> set (show_int i)" "CHR ''m'' \<notin> set (show_int i)"
  "CHR ''c'' \<notin> set (show_int i)" "CHR ''l'' \<notin> set (show_int i)" "CHR ''t'' \<notin> set (show_int i)"
  by (rule not_in_show_int, simp, code_simp)+

lemma tracked_chars:
  assumes "tracked k"
  shows "CHR ''p'' \<notin> set k" "CHR ''w'' \<notin> set k" "CHR ''m'' \<notin> set k" "CHR ''c'' \<notin> set k" "CHR ''l'' \<notin> set k"
  using assms by (auto simp: tracked_def user_cache_key_def token_version_key_def)

lemma tracked_keys: "tracked (user_cache_key i)" "tracked (token_version_key i)" "user_cache_key i \<noteq> token_version_key i'"
  "user_cache_key i = user_cache_key i' \<longleftrightarrow> i = i'" "token_version_key i = token_version_key i' \<longleftrightarrow> i = i'"
proof -
  show "user_cache_key i \<noteq> token_version_key i'"
  proof
    assume "user_cache_key i = token_version_key i'"
    then have "CHR ''t'' \<in> set (show_int i)" by (simp add: user_cache_key_def token_version_key_def)
    then show False by simp
  qed
qed (auto simp: tracked_def user_cache_key_def token_version_key_def show_int_inj)

section \<open>Calm steps\<close>

definition forgets :: "'r redis_view \<Rightarrow> nat \<Rightarrow> 'r \<Rightarrow> 'r \<Rightarrow> bool" where
  "forgets view t r r' \<longleftrightarrow> (\<forall>t' \<ge> t. \<forall>k x. tracked k \<longrightarrow> view r' t' k = Some x \<longrightarrow> view r t' k = Some x)"

text \<open>Users outside of \<^verbatim>\<open>P\<close> keep what is shown of them, users outside of \<^verbatim>\<open>V\<close> keep their version.\<close>

definition alike :: "int set \<Rightarrow> int set \<Rightarrow> 'r app \<Rightarrow> 'r app \<Rightarrow> bool" where
  "alike P V s s' \<longleftrightarrow>
     (\<forall>i u. user_by_id i s = Some u \<longrightarrow>
        (i \<notin> P \<longrightarrow> (\<exists>v. user_by_id i s' = Some v \<and> shown (response_of v) = shown (response_of u)))
        \<and> (i \<notin> V \<longrightarrow> (\<exists>v. user_by_id i s' = Some v \<and> u_token_version v = u_token_version u)))"

definition calm :: "'r redis_view \<Rightarrow> nat \<Rightarrow> int set \<Rightarrow> int set \<Rightarrow> 'r app \<Rightarrow> 'r app \<Rightarrow> bool" where
  "calm view t P V s s' \<longleftrightarrow> forgets view t (redis s) (redis s') \<and> alike P V s s'"

lemma forgets_refl [simp]: "forgets view t r r"
  by (simp add: forgets_def)

lemma forgets_trans: "forgets view t r r1 \<Longrightarrow> forgets view t r1 r2 \<Longrightarrow> forgets view t r r2"
  by (simp add: forgets_def)

lemma alike_refl [simp]: "alike P V s s"
  by (simp add: alike_def)

lemma alike_users: "users s' = users s \<Longrightarrow> alike P V s s'"
  by (simp add: alike_def user_by_id_def)

lemma alike_redis [simp]: "alike P V s (s'\<lparr>redis := r\<rparr>) = alike P V s s'" "alike P V (s\<lparr>redis := r\<rparr>) s' = alike P V s s'"
  by (simp_all add: alike_def)

lemma alike_trans: "alike P V s s1 \<Longrightarrow> alike P V s1 s2 \<Longrightarrow> alike P V s s2"
  unfolding alike_def by (metis option.inject)

lemma calm_refl [simp]: "calm view t P V s s"
  by (simp add: calm_def)

lemma calm_trans: "calm view t P V s s1 \<Longrightarrow> calm view t P V s1 s2 \<Longrightarrow> calm view t P V s s2"
  unfolding calm_def by (blast intro: forgets_trans alike_trans)

lemma calm_mono: "calm view t P V s s' \<Longrightarrow> P \<subseteq> P' \<Longrightarrow> V \<subseteq> V' \<Longrightarrow> calm view t P' V' s s'"
  unfolding calm_def alike_def by blast

lemma alike_rollback: "alike P V s (rollback s s')"
  by (rule alike_users) simp

text \<open>Rows that are rewritten one by one.\<close>

lemma row_of_map:
  assumes "users s' = map g (users s)" "\<And>u. u_id (g u) = u_id u"
  shows "user_by_id k s' = map_option g (user_by_id k s)"
  using assms by (simp add: user_by_id_def find_map_inv)

lemma alike_map:
  assumes "users s' = map (\<lambda>v. if u_id v = i \<and> p v then f v else v) (users s)" "\<And>u. u_id (f u) = u_id u"
    and "i \<in> P \<or> (\<forall>u. shown (response_of (f u)) = shown (response_of u))" "i \<in> V \<or> (\<forall>u. u_token_version (f u) = u_token_version u)"
  shows "alike P V s s'"
proof -
  have u: "user_by_id k s' = map_option (\<lambda>v. if u_id v = i \<and> p v then f v else v) (user_by_id k s)" for k
    by (rule row_of_map[OF assms(1)]) (simp add: assms(2))
  show ?thesis
    unfolding alike_def u using assms(3,4) user_by_id_Some[of _ s] by (auto split: if_splits) 
qed


lemma alike_append: "users s' = users s @ us \<Longrightarrow> alike P V s s'"
  by (auto simp: alike_def user_by_id_def find_append split: option.split)

text \<open>Columns nobody sees in a profile, the version left alone unless \<^verbatim>\<open>V\<close> allows it.\<close>

definition unseen :: "(user \<Rightarrow> user) \<Rightarrow> bool" where
  "unseen f \<longleftrightarrow> (\<forall>u. shown (response_of (f u)) = shown (response_of u) \<and> u_token_version (f u) = u_token_version u)"

lemma unseen_columns [simp]:
  "unseen (code_columns env h)" "unseen (\<lambda>u. (code_columns env h u)\<lparr>u_updated_at := n\<rparr>)" "unseen (auto_columns env)"
  "unseen (verified_columns env)" "unseen (reset_code_columns env h)"
  "unseen (\<lambda>u. u\<lparr>u_verification_failed_attempts := u_verification_failed_attempts u + 1\<rparr>)"
  "unseen (\<lambda>u. u\<lparr>u_password_reset_failed_attempts := u_password_reset_failed_attempts u + 1\<rparr>)"
  by (simp_all add: unseen_def shown_def response_of_def code_columns_def auto_columns_def verified_columns_def reset_code_columns_def)

lemma alike_unseen:
  assumes "users s' = map (\<lambda>v. if p v then f v else v) (users s)" "unseen f"
  shows "alike P V s s'"
proof -
  have f: "u_id (f u) = u_id u" for u using assms(2) by (simp add: unseen_def shown_def response_of_def)
  have "user_by_id k s' = map_option (\<lambda>v. if p v then f v else v) (user_by_id k s)" for k
    by (rule row_of_map[OF assms(1)]) (simp add: f)
  then show ?thesis using assms(2) by (auto simp: alike_def unseen_def)
qed

section \<open>Statements are calm\<close>

lemma keeps_calm_step: "(\<And>s. calm view t P V s (snd (m s))) \<Longrightarrow> keeps (calm view t P V s0) m"
  by (auto simp: keeps_def intro: calm_trans)

lemma keeps_alike_step: "(\<And>s. redis (snd (m s)) = redis s \<and> alike P V s (snd (m s))) \<Longrightarrow> keeps (calm view t P V s0) m"
  by (rule keeps_calm_step) (simp add: calm_def)

lemma calm_txn:
  assumes "keeps (calm view t P V s0) body"
  shows "keeps (calm view t P V s0) (in_txn env err bc cc body)"
proof (rule keepsI)
  fix s assume s: "calm view t P V s0 s"
  have b: "calm view t P V s0 (snd (body s))" by (rule keepsD[OF assms s])
  have r: "calm view t P V s0 (rollback s (snd (body s)))"
    using s b by (simp add: calm_def rollback_def alike_def user_by_id_def)
  show "calm view t P V s0 (snd (in_txn env err bc cc body s))"
    using s b r by (cases "body s") (auto simp: in_txn_def split: sum.split)
qed

lemma calm_statements:
  "keeps (calm view t P V s0) m \<Longrightarrow> keeps (calm view t P V s0) (db_stmt env err c m)"
  "keeps (calm view t P V s0) (read_db f)"
  "keeps (calm view t P V s0) (write_db (delete_tokens p))"
  "keeps (calm view t P V s0) (run_stmt (\<lambda>s. case insert_token u h e n s of DbOk s' \<Rightarrow> DbOk (s', ()) | _ \<Rightarrow> RecordNotUpdated) a b)"
  "unseen g \<Longrightarrow> keeps (calm view t P V s0) (many q g)"
  "unseen g \<Longrightarrow> keeps (calm view t P V s0) (run_stmt (update_user_row i g) c1 c2)"
  "keeps (calm view t P V s0) (run_stmt (\<lambda>s. case insert_user row s of
      DbOk s' \<Rightarrow> DbOk (s', row) | UniqueViolation \<Rightarrow> UniqueViolation | RecordNotUpdated \<Rightarrow> RecordNotUpdated | OutOfRange \<Rightarrow> OutOfRange) a' b')"
proof -
  show "keeps (calm view t P V s0) m \<Longrightarrow> keeps (calm view t P V s0) (db_stmt env err c m)" by (simp add: keeps_def db_stmt_def)
  show "keeps (calm view t P V s0) (read_db f)" by (simp add: keeps_def read_db_def)
  show "keeps (calm view t P V s0) (write_db (delete_tokens p))"
    by (rule keeps_alike_step) (simp add: write_db_def delete_tokens_def alike_users)
  show "keeps (calm view t P V s0) (run_stmt (\<lambda>s. case insert_token u h e n s of DbOk s' \<Rightarrow> DbOk (s', ()) | _ \<Rightarrow> RecordNotUpdated) a b)"
    by (rule keeps_alike_step) (auto simp: run_stmt_def stmt_result_def insert_token_def alike_users split: db_result.splits if_splits)
  show "unseen g \<Longrightarrow> keeps (calm view t P V s0) (many q g)"
    by (rule keeps_alike_step) (auto simp: many_def update_many_def case_prod_beta intro: alike_unseen)
  show "unseen g \<Longrightarrow> keeps (calm view t P V s0) (run_stmt (update_user_row i g) c1 c2)"
    by (rule keeps_alike_step)
      (auto simp: run_stmt_def stmt_result_def update_user_row_def split: db_result.splits option.splits intro: alike_unseen)
  show "keeps (calm view t P V s0) (run_stmt (\<lambda>s. case insert_user row s of
      DbOk s' \<Rightarrow> DbOk (s', row) | UniqueViolation \<Rightarrow> UniqueViolation | RecordNotUpdated \<Rightarrow> RecordNotUpdated | OutOfRange \<Rightarrow> OutOfRange) a' b')"
    by (rule keeps_alike_step)
      (auto simp: run_stmt_def stmt_result_def insert_user_def split: db_result.splits if_splits intro: alike_append)
qed

lemma calm_interfere: "serial env \<Longrightarrow> keeps (calm view t P V s0) (interfere env)"
  by (simp add: keeps_def interfere_def serial_def)

text \<open>The pool reaches the server whose view is \<^verbatim>\<open>view\<close>.\<close>

definition pooled :: "'r redis_ops \<Rightarrow> 'r redis_view \<Rightarrow> 'r env \<Rightarrow> bool" where
  "pooled ops view env \<longleftrightarrow> redis_laws ops view \<and> reliable ops \<and> pool (cache_svc env) = Some ops"

lemma calm_cache_step:
  "(\<And>r. forgets view (cache_time env) r (snd (snd (m (cache_svc env) (cache_time env, r))))) \<Longrightarrow>
    keeps (calm view (cache_time env) P V s0) (cache_do env m)"
  by (rule keeps_calm_step) (auto simp: cache_do_def calm_def case_prod_beta)

lemma calm_cache:
  assumes "pooled ops view env"
  shows "keeps (calm view (cache_time env) P V s0) (cache_do env (\<lambda>c. cache_get de c key))"
    and "keeps (calm view (cache_time env) P V s0) (cache_do env (\<lambda>c. cache_exists c key))"
    and "\<not> tracked key \<Longrightarrow> keeps (calm view (cache_time env) P V s0) (cache_do env (\<lambda>c. cache_set ser c key v ttl))"
    and "keeps (calm view (cache_time env) P V s0) (drop_cache env key)"
proof -
  let ?t = "cache_time env" and ?c = "cache_svc env"
  have laws: "redis_laws ops view" "reliable ops" "pool ?c = Some ops" using assms by (simp_all add: pooled_def)
  show "keeps (calm view ?t P V s0) (cache_do env (\<lambda>c. cache_get de c key))"
    by (rule calm_cache_step) (simp add: forgets_def cache_get_view[OF laws(1,3)])
  show "keeps (calm view ?t P V s0) (cache_do env (\<lambda>c. cache_exists c key))"
    by (rule calm_cache_step) (simp add: forgets_def cache_exists_view[OF laws(1,3)])
  show "keeps (calm view ?t P V s0) (cache_do env (\<lambda>c. cache_set ser c key v ttl))" if "\<not> tracked key"
  proof (rule calm_cache_step)
    fix r
    have "view (snd (snd (cache_set ser ?c key v ttl (?t, r)))) t' k = view r t' k" if "?t \<le> t'" "tracked k" for t' k
      using cache_set_view(2)[OF laws(1,3), of "(?t, r)" t' k key ser v ttl] that \<open>\<not> tracked key\<close> by auto
    then show "forgets view ?t r (snd (snd (cache_set ser ?c key v ttl (?t, r))))" by (simp add: forgets_def)
  qed
  have "keeps (calm view ?t P V s0) (cache_do env (\<lambda>c. cache_invalidate c key))"
  proof (rule calm_cache_step)
    fix r
    obtain r' where r: "cache_invalidate ?c key (?t, r) = (Inr (), (?t, r'))"
      and v: "\<And>t k. ?t \<le> t \<Longrightarrow> view r' t k = (if k = key \<or> k = null_key key then None else view r t k)"
      by (rule cache_invalidate_reliable[OF laws, of key "(?t, r)"]) simp
    show "forgets view ?t r (snd (snd (cache_invalidate ?c key (?t, r))))" by (simp add: r forgets_def v)
  qed
  then show "keeps (calm view ?t P V s0) (drop_cache env key)"
    unfolding drop_cache_def by (intro keeps_intros)
qed

lemma calm_drop_counts: "pooled ops view env \<Longrightarrow> keeps (calm view (cache_time env) P V s0) (drop_counts env)"
  unfolding drop_counts_def by (intro keeps_intros calm_cache(4))

lemma count_untracked: "\<not> tracked (user_count_cache_key role)"
  using tracked_chars(4)[of "user_count_cache_key role"] by (auto simp: user_count_cache_key_def)

lemmas calm_service = keeps_intros calm_statements calm_txn calm_interfere calm_cache calm_drop_counts count_untracked


lemma calm_login: "serial env \<Longrightarrow> keeps (calm view t P V s0) (login k svc env rq)"
  unfolding login_def issue_refresh_def replace_tokens_txn_def delete_all_refresh_tokens_def store_refresh_token_def Let_def
  by (intro calm_service)

lemma calm_finds:
  "keeps (calm view t P V s0) (find_user_by_email env e)" "keeps (calm view t P V s0) (reset_find_user env e)"
  "keeps (calm view t P V s0) (mail_code cs email code)"
  "keeps (calm view t P V s0) (increment_failed_attempts env uid)" "keeps (calm view t P V s0) (increment_reset_attempts env uid)"
  unfolding find_user_by_email_def reset_find_user_def mail_code_def increment_failed_attempts_def increment_reset_attempts_def
  by (intro calm_service unseen_columns)+

lemma calm_codes:
  assumes "serial env"
  shows "keeps (calm view t P V s0) (send_verification_email cs env email)" "keeps (calm view t P V s0) (auto_verify env email)"
    "keeps (calm view t P V s0) (verify_email cs env email code)" "keeps (calm view t P V s0) (resend_code cs env email)"
    "keeps (calm view t P V s0) (request_reset cs env email)"
  unfolding send_verification_email_def auto_verify_def verify_email_def resend_code_def request_reset_def
    store_verification_code_def Let_def
  by (intro calm_service calm_finds unseen_columns assms)+

lemma calm_tokens:
  "keeps (calm view t P V s0) (rotate_refresh_token env h h' e)" "keeps (calm view t P V s0) (delete_refresh_token env h)"
  unfolding rotate_refresh_token_def swap_refresh_token_def delete_refresh_token_def
  by (intro calm_service)+

lemma calm_users:
  assumes "pooled ops view env"
  shows "keeps (calm view (cache_time env) P V s0) (create_user env ci actor)"
    and "keeps (calm view (cache_time env) P V s0) (list_users env pp actor)"
  unfolding create_user_def list_users_def Let_def
  by (intro calm_service calm_cache[OF assms] calm_drop_counts[OF assms])+

text \<open>A password reset leaves what a profile shows alone; the versions it raises.\<close>

lemma calm_reset:
  assumes "serial env"
  shows "keeps (calm view t P UNIV s0) (reset_password cs env email code pw)"
proof -
  have "keeps (calm view t P UNIV s0) (reset_txn env uid h)" for uid h
  proof (rule keeps_alike_step)
    fix s :: "'a app"
    have "keeps (\<lambda>t. redis t = redis s) (reset_txn env uid h)"
      unfolding reset_txn_def by (intro keeps_intros keeps_same_redis keeps_same_redis_txn)
    then have r: "redis (snd (reset_txn env uid h s)) = redis s" by (rule keepsD) simp
    have "same_tables s (snd (reset_txn env uid h s)) \<or> (\<exists>u. reset_done env uid h u s (snd (reset_txn env uid h s)))"
      using wp_reset_txn[of env uid h s] by (auto simp: wp_def split: prod.splits sum.splits option.splits)
    then show "redis (snd (reset_txn env uid h s)) = redis s \<and> alike P UNIV s (snd (reset_txn env uid h s))"
    proof
      assume "\<exists>u. reset_done env uid h u s (snd (reset_txn env uid h s))"
      then show ?thesis
        by (auto simp: reset_done_def consumed_columns_def shown_def response_of_def intro!: alike_map)
    qed (simp add: r same_tables_def alike_users)
  qed
  then show ?thesis
    unfolding reset_password_def commit_reset_def by (intro calm_service calm_finds assms)
qed


section \<open>Coherence\<close>

text \<open>The versions are part of it where \<^verbatim>\<open>C\<close> says so.\<close>

definition coherent :: "'r redis_view \<Rightarrow> user_json \<Rightarrow> bool \<Rightarrow> nat \<Rightarrow> 'r app \<Rightarrow> bool" where
  "coherent view j C t s \<longleftrightarrow> profiles_agree view j t s \<and> (C \<longrightarrow> versions_agree view t s)"

text \<open>A step that has dropped what it made stale.\<close>

definition gone :: "'r redis_view \<Rightarrow> nat \<Rightarrow> int set \<Rightarrow> int set \<Rightarrow> 'r \<Rightarrow> bool" where
  "gone view t P V r \<longleftrightarrow>
     (\<forall>t' \<ge> t. (\<forall>i \<in> P. view r t' (user_cache_key i) = None) \<and> (\<forall>i \<in> V. view r t' (token_version_key i) = None))"

definition kept_up :: "'r redis_view \<Rightarrow> nat \<Rightarrow> bool \<Rightarrow> 'r app \<Rightarrow> 'r app \<Rightarrow> bool" where
  "kept_up view t C s s' \<longleftrightarrow> (\<exists>P V. calm view t P V s s' \<and> gone view t P (if C then V else {}) (redis s'))"

lemma kept_upI: "calm view t P V s s' \<Longrightarrow> gone view t P V (redis s') \<Longrightarrow> kept_up view t C s s'"
  unfolding kept_up_def gone_def by (intro exI[of _ P] exI[of _ V]) simp

lemma kept_up_calm: "calm view t {} {} s s' \<Longrightarrow> kept_up view t C s s'" "calm view t {} UNIV s s' \<Longrightarrow> \<not> C \<Longrightarrow> kept_up view t C s s'"
  unfolding kept_up_def gone_def by fastforce+

lemma gone_forgets: "gone view t P V r \<Longrightarrow> forgets view t r r' \<Longrightarrow> gone view t P V r'"
  unfolding gone_def forgets_def by (metis not_None_eq tracked_keys(1,2))

lemma gone_add:
  "gone view t (P - {i}) V r \<Longrightarrow> \<forall>t' \<ge> t. view r t' (user_cache_key i) = None \<Longrightarrow> gone view t P V r"
  "gone view t P (V - {i}) r \<Longrightarrow> \<forall>t' \<ge> t. view r t' (token_version_key i) = None \<Longrightarrow> gone view t P V r"
  unfolding gone_def by (metis Diff_iff singletonD)+

lemma coherent_kept:
  assumes "coherent view j C t s" "kept_up view t C s s'"
  shows "coherent view j C t s'"
proof -
  obtain P V where c: "forgets view t (redis s) (redis s')" "alike P V s s'" and g: "gone view t P (if C then V else {}) (redis s')"
    using assms(2) by (auto simp: kept_up_def calm_def)
  have old: "view (redis s) t' k = Some x" if "t \<le> t'" "tracked k" "view (redis s') t' k = Some x" for t' k x
    using c(1) that by (simp add: forgets_def)
  have "profiles_agree view j t s'"
    unfolding profiles_agree_def
  proof (intro allI impI)
    fix t' i x r assume a: "t \<le> t'" "view (redis s') t' (user_cache_key i) = Some x" "read_user j x = Some r"
    then have "i \<notin> P" using g by (auto simp: gone_def)
    obtain u where "user_by_id i s = Some u" "shown r = shown (response_of u)"
      using assms(1) old[OF a(1) tracked_keys(1) a(2)] a unfolding coherent_def profiles_agree_def by blast
    then show "\<exists>u. user_by_id i s' = Some u \<and> shown r = shown (response_of u)"
      using c(2) \<open>i \<notin> P\<close> unfolding alike_def by metis
  qed
  moreover have "versions_agree view t s'" if C
    unfolding versions_agree_def
  proof (intro allI impI)
    fix t' i x assume a: "t \<le> t'" "view (redis s') t' (token_version_key i) = Some x"
    then have "i \<notin> V" using g that by (auto simp: gone_def)
    moreover obtain u where "user_by_id i s = Some u" "read_version x = Some (u_token_version u)"
      using assms(1) versions_agreeD[of view t s t' i x] a(1) old[OF a(1) tracked_keys(2) a(2)] \<open>C\<close> by (auto simp: coherent_def)
    ultimately show "\<exists>u v. user_by_id i s' = Some u \<and> read_version x = Some v \<and> v = u_token_version u"
      using c(2) unfolding alike_def by metis
  qed
  ultimately show ?thesis by (simp add: coherent_def)
qed

text \<open>Later, less is cached.\<close>

lemma coherent_later: "coherent view j C t s \<Longrightarrow> t \<le> t' \<Longrightarrow> coherent view j C t' s"
  unfolding coherent_def profiles_agree_def versions_agree_def by (meson order_trans)

section \<open>Operations that drop\<close>

lemma wp_drop_key:
  assumes "pooled ops view env"
    and "\<And>r. forgets view (cache_time env) (redis s) r \<Longrightarrow> (\<forall>t' \<ge> cache_time env. view r t' key = None) \<Longrightarrow> Q () (s\<lparr>redis := r\<rparr>)"
  shows "wp (drop_cache env key) Q E s"
proof -
  have laws: "redis_laws ops view" "reliable ops" "pool (cache_svc env) = Some ops" using assms(1) by (simp_all add: pooled_def)
  obtain r where r: "cache_invalidate (cache_svc env) key (cache_time env, redis s) = (Inr (), (cache_time env, r))"
    and v: "\<And>t k. cache_time env \<le> t \<Longrightarrow> view r t k = (if k = key \<or> k = null_key key then None else view (redis s) t k)"
    by (rule cache_invalidate_reliable[OF laws, of key "(cache_time env, redis s)"]) simp
  have "Q () (s\<lparr>redis := r\<rparr>)" by (rule assms(2)) (auto simp: forgets_def v)
  then show ?thesis by (simp add: wp_def drop_cache_run r)
qed

lemma wp_drop_profile:
  assumes "pooled ops view env" "calm view (cache_time env) P V old s" "gone view (cache_time env) (P - {i}) V' (redis s)"
    and "\<And>s'. calm view (cache_time env) P V old s' \<Longrightarrow> gone view (cache_time env) P V' (redis s') \<Longrightarrow> Q () s'"
  shows "wp (drop_cache env (user_cache_key i)) Q E s"
proof (rule wp_drop_key[OF assms(1)], rule assms(4))
  fix r assume f: "forgets view (cache_time env) (redis s) r" and n: "\<forall>t' \<ge> cache_time env. view r t' (user_cache_key i) = None"
  show "calm view (cache_time env) P V old (s\<lparr>redis := r\<rparr>)"
    using assms(2) f by (auto simp: calm_def intro: forgets_trans)
  show "gone view (cache_time env) P V' (redis (s\<lparr>redis := r\<rparr>))"
    using gone_add(1)[OF gone_forgets[OF assms(3) f] n] by simp
qed

lemma wp_drop_version:
  assumes "pooled ops view env" "calm view (cache_time env) P V old s" "gone view (cache_time env) P (V - {i}) (redis s)"
    and "\<And>s'. calm view (cache_time env) P V old s' \<Longrightarrow> gone view (cache_time env) P V (redis s') \<Longrightarrow> Q () s'"
  shows "wp (drop_cache env (token_version_key i)) Q E s"
proof (rule wp_drop_key[OF assms(1)], rule assms(4))
  fix r assume f: "forgets view (cache_time env) (redis s) r" and n: "\<forall>t' \<ge> cache_time env. view r t' (token_version_key i) = None"
  show "calm view (cache_time env) P V old (s\<lparr>redis := r\<rparr>)"
    using assms(2) f by (auto simp: calm_def intro: forgets_trans)
  show "gone view (cache_time env) P V (redis (s\<lparr>redis := r\<rparr>))"
    using gone_add(2)[OF gone_forgets[OF assms(3) f] n] by simp
qed


section \<open>Changes of a row\<close>

lemma alike_row:
  assumes "update_user_row i f s = DbOk (s', v)" "\<And>u. u_id (f u) = u_id u"
    and "i \<in> P \<or> (\<forall>u. shown (response_of (f u)) = shown (response_of u))" "i \<in> V \<or> (\<forall>u. u_token_version (f u) = u_token_version u)"
  shows "alike P V s s'" "redis s' = redis s" "user_by_id i s' = Some v"
proof -
  obtain u where u: "user_by_id i s = Some u" "v = f u" "s' = s\<lparr>users := map (\<lambda>v. if u_id v = i then f v else v) (users s)\<rparr>"
    using assms(1) by (auto simp: update_user_row_def split: option.splits if_splits)
  show "redis s' = redis s" by (simp add: u)
  show "alike P V s s'" by (rule alike_map[where p = "\<lambda>_. True"]) (use assms(2-) u in simp_all)
  have "find (\<lambda>u. u_id u = i) (map (\<lambda>v. if u_id v = i then f v else v) us) = map_option f (find (\<lambda>u. u_id u = i) us)" for us
    by (induction us) (simp_all add: assms(2))
  then show "user_by_id i s' = Some v" using u by (simp add: user_by_id_def)
qed

lemma alike_bump:
  assumes "bump_token_version i s = DbOk s'" "i \<in> V"
  shows "alike P V s s'" "redis s' = redis s"
proof -
  have s': "s' = s\<lparr>users := map (\<lambda>u. if u_id u = i then u\<lparr>u_token_version := u_token_version u + 1\<rparr> else u) (users s)\<rparr>"
    using assms(1) by (auto simp: bump_token_version_def split: if_splits)
  then show "redis s' = redis s" by simp
  show "alike P V s s'"
    by (rule alike_map[where p = "\<lambda>_. True" and i = i and f = "\<lambda>u. u\<lparr>u_token_version := u_token_version u + 1\<rparr>"]) (use assms(2) s' in \<open>simp_all add: shown_def response_of_def\<close>)
qed

lemma calm_same: "users s' = users s \<Longrightarrow> redis s' = redis s \<Longrightarrow> calm view t P V s s'"
  by (simp add: calm_def alike_users)

lemma calm_role_change:
  assumes "role_change_txn env i input s = (r, s')"
  shows "case r of Inl e \<Rightarrow> calm view t {} {} s s' | Inr _ \<Rightarrow> calm view t {i} {i} s s' \<and> user_by_id i s' \<noteq> None"
proof (cases r)
  case (Inl e)
  then show ?thesis using role_change_txn_cases[OF assms] by (simp add: calm_same)
next
  case (Inr x)
  then obtain s1 u where b: "bump_token_version i s = DbOk s1"
    and w: "update_user_row i (update_columns env input) s1 = DbOk (s', u)"
    using role_change_txn_cases[OF assms] by auto
  have "\<And>u. u_id (update_columns env input u) = u_id u" by (simp add: update_columns_def)
  then have "alike {i} {i} s1 s'" "redis s' = redis s1" "user_by_id i s' = Some u" using alike_row[OF w] by blast+
  note a = this alike_bump(1)[OF b, where P = "{i}" and V = "{i}"] alike_bump(2)[OF b insertI1]
  show ?thesis using Inr a by (auto simp: calm_def intro: alike_trans)
qed

lemma calm_password:
  assumes "password_txn env i h s = (r, s')"
  shows "case r of Inl e \<Rightarrow> calm view t {} {} s s' | Inr _ \<Rightarrow> calm view t {} {i} s s' \<and> user_by_id i s' \<noteq> None"
proof (cases r)
  case (Inl e)
  then show ?thesis using password_txn_cases[OF assms] by (simp add: calm_same)
next
  case (Inr x)
  then obtain s1 s2 u where b: "bump_token_version i s = DbOk s1"
    and w: "update_user_row i (password_columns env h) s1 = DbOk (s2, u)" "s' = delete_tokens (\<lambda>t. rt_user_id t = i) s2"
    using password_txn_cases[OF assms] by auto
  have "\<And>u. u_id (password_columns env h u) = u_id u" "\<And>u. shown (response_of (password_columns env h u)) = shown (response_of u)"
    "\<And>u. u_token_version (password_columns env h u) = u_token_version u"
    by (simp_all add: password_columns_def shown_def response_of_def)
  then have a: "alike {} {i} s1 s2" "redis s2 = redis s1" "user_by_id i s2 = Some u" using alike_row[OF w(1)] by blast+
  have "alike {} {i} s s2" using alike_trans[OF alike_bump(1)[OF b insertI1] a(1)] .
  moreover have "users s' = users s2" "redis s' = redis s2" using w(2) by (simp_all add: delete_tokens_def)
  ultimately show ?thesis
    using Inr a(2,3) alike_bump(2)[OF b insertI1] by (auto simp: calm_def alike_def user_by_id_def)
qed


lemma wp_role_change_calm:
  assumes "\<And>e s'. calm view t {} {} s s' \<Longrightarrow> E e s'" "\<And>s'. calm view t {i} {i} s s' \<Longrightarrow> user_by_id i s' \<noteq> None \<Longrightarrow> Q () s'"
  shows "wp (role_change_txn env i input) Q E s"
  by (rule wpI) (use assms calm_role_change[of env i input s, where view = view and t = t] in fastforce)+

lemma wp_password_calm:
  assumes "\<And>e s'. calm view t {} {} s s' \<Longrightarrow> E e s'" "\<And>s'. calm view t {} {i} s s' \<Longrightarrow> user_by_id i s' \<noteq> None \<Longrightarrow> Q () s'"
  shows "wp (password_txn env i h) Q E s"
  by (rule wpI) (use assms calm_password[of env i h s, where view = view and t = t] in fastforce)+

lemma gone_empty [simp]: "gone view t {} {} r"
  by (simp add: gone_def)

text \<open>What the two statements after a commit need: the row is there, and the query does not fail.\<close>

definition requery_ok :: "'r env \<Rightarrow> bool" where
  "requery_ok env \<longleftrightarrow> \<not> db_err env ''Failed to re-query user after role change'' \<and> \<not> db_err env ''Failed to re-query user after password change''"

definition steady :: "'r redis_ops \<Rightarrow> 'r redis_view \<Rightarrow> 'r env \<Rightarrow> bool" where
  "steady ops view env \<longleftrightarrow> pooled ops view env \<and> serial env \<and> requery_ok env"

lemma wp_Pair [wp_simps]: "wp (Pair (Inr a)) Q E s = Q a s"
  by (simp add: wp_def)

lemma kept_update:
  assumes "steady ops view env"
  shows "kept_up view (cache_time env) C s (snd (update_user env i input actor s))"
proof (rule wp_snd)
  let ?t = "cache_time env" and ?K = "kept_up view (cache_time env) C s"
  have pool: "pooled ops view env" and serial: "between env s = s" and ok: "\<not> db_err env ''Failed to re-query user after role change''"
    using assms by (simp_all add: steady_def serial_def requery_ok_def)
  have same: "?K s" by (rule kept_up_calm) simp
  have changed: "wp (finish_update env i input True) (\<lambda>_. ?K) (\<lambda>_. ?K) s"
    unfolding finish_update_def apply_update_def
    by (simp only: wp_simps if_True serial, rule wp_role_change_calm[where view = view and t = ?t])
      (auto simp: wp_simps ok ok_or_def kept_up_calm split: option.split
        intro!: wp_drop_profile[OF pool, where V' = "{}"] wp_drop_version[OF pool] kept_upI)
  have stmt: "calm view ?t {i} {} s s'" if "update_user_row i (update_columns env input) s = DbOk (s', u)" for s' u
    using alike_row[OF that, where P = "{i}" and V = "{}"] by (simp add: calm_def update_columns_def)
  have plain: "wp (finish_update env i input False) (\<lambda>_. ?K) (\<lambda>_. ?K) s"
    unfolding finish_update_def apply_update_def
    by (auto simp: wp_simps serial same split: db_result.split
        intro!: wp_drop_profile[OF pool, where V' = "{}"] kept_upI stmt)
  have finish: "wp (finish_update env i input b) (\<lambda>_. ?K) (\<lambda>_. ?K) s" for b by (cases b) (simp_all add: changed plain)
  show "wp (update_user env i input actor) (\<lambda>_. ?K) (\<lambda>_. ?K) s"
    using finish by (simp add: update_user_def wp_simps same split: option.split)
qed


lemma kept_rollback: "redis s' = redis s \<Longrightarrow> kept_up view t C s (rollback s s')"
  by (rule kept_up_calm(1)) (simp add: calm_def alike_users rollback_def)

lemma wp_write_balance:
  assumes "\<And>u s'. calm view t {i} {} s s' \<Longrightarrow> redis s' = redis s \<Longrightarrow> Q u s'" "\<And>e. E e s"
  shows "wp (write_balance env ctx i b) Q E s"
  using alike_row[where i = i and s = s and P = "{i}" and V = "{}"] assms
  by (auto simp: write_balance_def wp_simps calm_def split: db_result.split)

lemma kept_balance:
  assumes "pooled ops view env"
  shows "kept_up view (cache_time env) C s (snd (set_balance env i b actor s))"
    and "kept_up view (cache_time env) C s (snd (adjust_balance env i m actor s))"
proof -
  let ?K = "kept_up view (cache_time env) C s"
  note intros = wp_drop_profile[OF assms, where old = s and P = "{i}" and V = "{}" and V' = "{}"] wp_write_balance[where view = view and t = "cache_time env"]
  have same: "?K s" by (simp add: kept_up_calm)
  show "kept_up view (cache_time env) C s (snd (set_balance env i b actor s))"
    by (rule wp_snd, (auto simp: set_balance_def wp_simps same kept_rollback split: option.split sum.split intro!: intros)[1]) (blast intro: kept_upI)+
  show "kept_up view (cache_time env) C s (snd (adjust_balance env i m actor s))"
    by (rule wp_snd, (auto simp: adjust_balance_def wp_simps same kept_rollback split: option.split sum.split intro!: intros)[1]) (blast intro: kept_upI)+
qed

lemma kept_password:
  assumes "steady ops view env"
  shows "kept_up view (cache_time env) C s (snd (change_password env i p q s))"
proof (rule wp_snd)
  let ?t = "cache_time env" and ?K = "kept_up view (cache_time env) C s"
  have pool: "pooled ops view env" and serial: "between env s = s" and ok: "\<not> db_err env ''Failed to re-query user after password change''"
    using assms by (simp_all add: steady_def serial_def requery_ok_def)
  have same: "?K s" by (simp add: kept_up_calm)
  show "wp (change_password env i p q) (\<lambda>_. ?K) (\<lambda>_. ?K) s"
    by (auto simp: change_password_def wp_simps serial same ok ok_or_def kept_up_calm split: option.split sum.split
        intro!: wp_password_calm[where view = view and t = ?t] wp_drop_profile[OF pool, where old = s and P = "{}" and V = "{i}" and V' = "{}"]
          wp_drop_version[OF pool, where old = s and P = "{}" and V = "{i}"]) (blast intro: kept_upI)+
qed

lemma wp_drop_counts_calm:
  assumes "pooled ops view env" "calm view (cache_time env) P V old s" "gone view (cache_time env) P V (redis s)"
    and "\<And>s'. calm view (cache_time env) P V old s' \<Longrightarrow> gone view (cache_time env) P V (redis s') \<Longrightarrow> Q () s'"
  shows "wp (drop_counts env) Q E s"
proof -
  have key: "wp (drop_cache env key) R E x"
    if "calm view (cache_time env) P V old x" "gone view (cache_time env) P V (redis x)"
      and "\<And>s'. calm view (cache_time env) P V old s' \<Longrightarrow> gone view (cache_time env) P V (redis s') \<Longrightarrow> R () s'" for key R x
    by (rule wp_drop_key[OF assms(1)], rule that(3))
      (use that(1,2) in \<open>auto simp: calm_def intro: forgets_trans gone_forgets\<close>)
  show ?thesis
    unfolding drop_counts_def wp_bindS by (intro key assms)
qed

lemma wp_delete_users:
  "wp (\<lambda>s. case delete_users p s of (n, s') \<Rightarrow> (Inr n, s')) Q E s = Q (fst (delete_users p s)) (snd (delete_users p s))"
  by (simp add: wp_def case_prod_beta)

lemma kept_delete:
  assumes "steady ops view env"
  shows "kept_up view (cache_time env) C s (snd (delete_user env i actor aid s))"
proof (rule wp_snd)
  let ?t = "cache_time env" and ?K = "kept_up view (cache_time env) C s"
  have pool: "pooled ops view env" and serial: "between env s = s" using assms by (simp_all add: steady_def serial_def)
  have same: "?K s" by (simp add: kept_up_calm)
  have d: "calm view ?t {i} {i} s (snd (delete_users p s))" if p: "\<And>u. p u \<Longrightarrow> u_id u = i" for p
  proof -
    have "user_by_id k (snd (delete_users p s)) = user_by_id k s" if "k \<noteq> i" for k
      using that p by (auto simp: user_by_id_def delete_users_def intro!: find_filter)
    then show ?thesis by (simp add: calm_def alike_def) (simp add: delete_users_def)
  qed
  have n: "?K (snd (delete_users p s))" if "fst (delete_users p s) = 0" for p
    using that by (intro kept_up_calm(1) calm_same) (auto simp: delete_users_def filter_empty_conv filter_id_conv)
  show "wp (delete_user env i actor aid) (\<lambda>_. ?K) (\<lambda>_. ?K) s"
    by (auto simp: delete_user_def wp_simps wp_delete_users serial same n ok_or_def split: option.split sum.split
        intro!: d wp_drop_profile[OF pool, where old = s and P = "{i}" and V = "{i}" and V' = "{}"] wp_drop_version[OF pool, where old = s and P = "{i}" and V = "{i}"]
          wp_drop_counts_calm[OF pool, where old = s and P = "{i}" and V = "{i}"]) (blast intro: kept_upI)+
qed

lemma alike_revoked: "revoked i s s' \<Longrightarrow> alike {} {i} s s'"
  by (rule alike_map[where p = "\<lambda>_. True" and i = i and f = "\<lambda>u. u\<lparr>u_token_version := u_token_version u + 1\<rparr>"])
    (simp_all add: revoked_def shown_def response_of_def)

lemma kept_revoke:
  assumes "pooled ops view env"
  shows "kept_up view (cache_time env) C s (snd (bindS (on_error e1 (revoke_all_sessions env i)) (\<lambda>_.
    bindS (drop_cache env (token_version_key i)) (\<lambda>_. retS r)) s))"
proof -
  obtain x s1 where x: "revoke_all_sessions env i s = (x, s1)" by (metis prod.exhaust)
  show ?thesis
  proof (cases x)
    case (Inl e)
    then have "users s1 = users s" "redis s1 = redis s"
      using wp_revoke_all_sessions[of env i s] x by (simp_all add: wp_def same_tables_def)
    then show ?thesis using Inl x by (simp add: bindS_def on_error_def kept_up_calm calm_same)
  next
    case (Inr u)
    then have "revoked i s s1" using revoke_cases[OF x] Inr by simp
    then have c: "calm view (cache_time env) {} {i} s s1" using alike_revoked by (auto simp: calm_def revoked_def)
    have "wp (bindS (drop_cache env (token_version_key i)) (\<lambda>_. retS r)) (\<lambda>_. kept_up view (cache_time env) C s)
        (\<lambda>_. kept_up view (cache_time env) C s) s1"
      by (auto simp: wp_simps c intro!: wp_drop_version[OF assms, where old = s and P = "{}" and V = "{i}"]) (blast intro: kept_upI)
    from wp_snd[OF this] show ?thesis using Inr x by (simp add: bindS_def on_error_def)
  qed
qed


section \<open>Operations that cache\<close>

lemma coherent_view:
  "view r = view (redis s) \<Longrightarrow> coherent view j C t (s\<lparr>redis := r\<rparr>) = coherent view j C t s"
  by (simp add: coherent_def profiles_agree_def versions_agree_def)

lemma coherent_entry:
  assumes "coherent view j C t s" "user_by_id i s = Some u"
    and "\<And>t' k. t \<le> t' \<Longrightarrow> view r t' k = (if k = key then if t' < e then Some y else None else view (redis s) t' k)"
    and "\<And>q. key = user_cache_key i \<Longrightarrow> read_user j y = Some q \<Longrightarrow> shown q = shown (response_of u)"
    and "key = user_cache_key i \<or> key = token_version_key i \<and> read_version y = Some (u_token_version u)"
  shows "coherent view j C t (s\<lparr>redis := r\<rparr>)"
proof -
  have "profiles_agree view j t (s\<lparr>redis := r\<rparr>)"
    unfolding profiles_agree_def
  proof (intro allI impI)
    fix t' k x p assume a: "t \<le> t'" "view (redis (s\<lparr>redis := r\<rparr>)) t' (user_cache_key k) = Some x" "read_user j x = Some p"
    show "\<exists>u. user_by_id k (s\<lparr>redis := r\<rparr>) = Some u \<and> shown p = shown (response_of u)"
    proof (cases "user_cache_key k = key")
      case True
      then have "k = i" using assms(5) tracked_keys by metis
      moreover have "x = y" using a(2) assms(3)[OF a(1)] True by (simp split: if_splits)
      ultimately show ?thesis using assms(2) assms(4)[of p] a(3) True by simp
    next
      case False
      then have "view (redis s) t' (user_cache_key k) = Some x" using a(2) assms(3)[OF a(1)] by simp
      then show ?thesis using assms(1) a unfolding coherent_def profiles_agree_def by simp
    qed
  qed
  moreover have "versions_agree view t (s\<lparr>redis := r\<rparr>)" if C
    unfolding versions_agree_def
  proof (intro allI impI)
    fix t' k x assume a: "t \<le> t'" "view (redis (s\<lparr>redis := r\<rparr>)) t' (token_version_key k) = Some x"
    show "\<exists>u v. user_by_id k (s\<lparr>redis := r\<rparr>) = Some u \<and> read_version x = Some v \<and> v = u_token_version u"
    proof (cases "token_version_key k = key")
      case True
      then have "k = i" "read_version y = Some (u_token_version u)" using assms(5) tracked_keys by metis+
      moreover have "x = y" using a(2) assms(3)[OF a(1)] True by (simp split: if_splits)
      ultimately show ?thesis using assms(2) by simp
    next
      case False
      then have "view (redis s) t' (token_version_key k) = Some x" using a(2) assms(3)[OF a(1)] by simp
      then show ?thesis using assms(1) a(1) \<open>C\<close> unfolding coherent_def versions_agree_def by simp
    qed
  qed
  ultimately show ?thesis by (simp add: coherent_def)
qed

lemma wp_cache_get:
  assumes "pooled ops view env" "\<And>x r. view r = view (redis s) \<Longrightarrow> Q x (s\<lparr>redis := r\<rparr>)"
  shows "wp (cache_do env (\<lambda>c. cache_get de c key)) Q E s"
  using assms(1) by (auto simp: wp_def cache_do_def pooled_def case_prod_beta cache_get_view(2) intro: assms(2))

lemma wp_cache_exists:
  assumes "pooled ops view env" "\<And>x r. view r = view (redis s) \<Longrightarrow> Q x (s\<lparr>redis := r\<rparr>)"
  shows "wp (cache_do env (\<lambda>c. cache_exists c key)) Q E s"
  using assms(1) by (auto simp: wp_def cache_do_def pooled_def case_prod_beta cache_exists_view(2) intro: assms(2))

lemma wp_cache_set:
  assumes "pooled ops view env" "ser v = Some y" "0 < ttl"
    and "\<And>x r. (\<And>t k. cache_time env \<le> t \<Longrightarrow>
      view r t k = (if k = key then if t < cache_time env + ttl then Some y else None else view (redis s) t k)) \<Longrightarrow> Q x (s\<lparr>redis := r\<rparr>)"
  shows "wp (cache_do env (\<lambda>c. cache_set ser c key v ttl)) Q E s"
proof -
  have laws: "redis_laws ops view" "reliable ops" "pool (cache_svc env) = Some ops" using assms(1) by (simp_all add: pooled_def)
  obtain r where r: "cache_set ser (cache_svc env) key v ttl (cache_time env, redis s) = (Inr (), (cache_time env, r))"
    "\<And>t k. cache_time env \<le> t \<Longrightarrow> view r t k = (if k = key then if t < cache_time env + ttl then Some y else None else view (redis s) t k)"
    by (rule cache_set_reliable[OF laws, where ser = ser and v = v and json = y and ttl = ttl and key = key and w = "(cache_time env, redis s)"])
      (use assms(2,3) in simp_all)
  show ?thesis using assms(4)[OF r(2)] r(1) by (simp add: wp_def cache_do_def)
qed

lemma wp_keeps: "keeps I m \<Longrightarrow> I s \<Longrightarrow> wp m (\<lambda>_. I) (\<lambda>_. I) s"
  by (auto simp: wp_def keeps_def split: prod.split sum.split)

lemma null_untracked: "\<not> tracked (null_key k)"
  using tracked_chars(5)[of "null_key k"] by (auto simp: null_key_def)

lemma kept_get_user:
  assumes "pooled ops view env" "user_json_ok j" "coherent view j C (cache_time env) s"
    and "db_ok s" "\<forall>u \<in> set (users s). in_i64 (u_id u)"
  shows "coherent view j C (cache_time env) (snd (get_user env j i s))"
proof (rule wp_snd)
  let ?t = "cache_time env" and ?K = "coherent view j C (cache_time env)"
  have marker: "wp (cache_do env (\<lambda>c. cache_set_null c (user_cache_key i) n)) (\<lambda>_. ?K) (\<lambda>_. ?K) x" if "?K x" for n x
  proof -
    have "cache_set_null c (user_cache_key i) n = cache_set (\<lambda>_. Some ''1'') c (null_key (user_cache_key i)) () n" for c :: "'a cache"
      by (rule ext) (simp add: cache_set_null_def cache_set_def split: prod.split option.split)
    then show ?thesis
      using wp_keeps[OF calm_cache(3)[OF assms(1) null_untracked] calm_refl, where s = x]
      by (simp only:) (rule wp_mono, assumption, (rule coherent_kept[OF that kept_up_calm(1)], assumption)+)
  qed
  have store: "wp (cache_do env (\<lambda>c. cache_set (write_user j) c (user_cache_key i) (response_of u) USER_CACHE_TTL_SECS)) (\<lambda>_. ?K) (\<lambda>_. ?K) (s\<lparr>redis := r\<rparr>)"
    if u: "user_by_id i s = Some u" and r: "view r = view (redis s)" for u r
  proof -
    have "in_i64 (r_id (response_of u))" "in_i64 (r_balance (response_of u))"
      using user_by_id_Some[OF u] assms(4,5) by (auto simp: response_of_def db_ok_def users_ok_def row_ok_def in_i64_def i64_min_def i64_max_def)
    then obtain y where y: "write_user j (response_of u) = Some y"
      "read_user j y = Some ((response_of u)\<lparr>r_token_version := 0, r_wx_openid := None\<rparr>)"
      using assms(2) unfolding user_json_ok_def by blast
    have k: "?K (s\<lparr>redis := r\<rparr>)" using assms(3) coherent_view[OF r] by simp
    show ?thesis
      by (rule wp_cache_set[OF assms(1), where ser = "write_user j" and y = y], rule y(1), simp add: USER_CACHE_TTL_SECS_def,
          rule coherent_entry[OF k, where i = i and u = u and y = y and key = "user_cache_key i" and e = "?t + USER_CACHE_TTL_SECS"])
        (use u y in \<open>auto simp: shown_def\<close>)
  qed
  show "wp (get_user env j i) (\<lambda>_. ?K) (\<lambda>_. ?K) s"
    using assms(3)
    by (auto simp: get_user_def wp_simps coherent_view split: sum.split option.split
        intro!: wp_cache_get[OF assms(1)] wp_cache_exists[OF assms(1)] wp_mono[OF marker] wp_mono[OF store])
qed


lemma kept_check:
  assumes "pooled ops view env" "coherent view j C (cache_time env) s" "db_ok s"
  shows "coherent view j C (cache_time env) (snd (verify_token_version env i v s))"
proof (rule wp_snd)
  let ?t = "cache_time env" and ?K = "coherent view j C (cache_time env)"
  have store: "wp (cache_do env (\<lambda>c. cache_set write_version c (token_version_key i) (u_token_version u) TOKEN_VERSION_TTL_SECS)) (\<lambda>_. ?K) (\<lambda>_. ?K)
      (s\<lparr>redis := r\<rparr>)" if u: "user_by_id i s = Some u" and r: "view r = view (redis s)" for u r
  proof -
    have y: "write_version (u_token_version u) = Some (show_int (u_token_version u))"
      "read_version (show_int (u_token_version u)) = Some (u_token_version u)"
      using row_version[OF assms(3) u] by (simp_all add: write_version_def read_write_version)
    have k: "?K (s\<lparr>redis := r\<rparr>)" using assms(2) coherent_view[OF r] by simp
    show ?thesis
      by (rule wp_cache_set[OF assms(1), where ser = write_version], rule y(1), simp add: TOKEN_VERSION_TTL_SECS_def,
          rule coherent_entry[OF k, where i = i and u = u and y = "show_int (u_token_version u)" and key = "token_version_key i"
            and e = "?t + TOKEN_VERSION_TTL_SECS"])
        (use u y tracked_keys(3) in \<open>auto simp: tracked_keys(3)[symmetric]\<close>)
  qed
  show "wp (verify_token_version env i v) (\<lambda>_. ?K) (\<lambda>_. ?K) s"
    using assms(2)
    by (auto simp: verify_token_version_def wp_simps coherent_view ok_or_def split: sum.split option.split
        intro!: wp_cache_get[OF assms(1)] wp_mono[OF store])
qed


section \<open>The other tenants of the server\<close>

text \<open>What Redis documents of INCR, beyond \<^verbatim>\<open>redis_laws\<close>: whatever the value of its key, it leaves the other keys alone.\<close>

definition incr_local :: "'r redis_ops \<Rightarrow> 'r redis_view \<Rightarrow> bool" where
  "incr_local ops view \<longleftrightarrow>
     (\<forall>now k r n r'. srv_incr ops now k r = Some (n, r') \<longrightarrow> (\<forall>t k'. now \<le> t \<longrightarrow> k' \<noteq> k \<longrightarrow> view r' t k' = view r t k'))"

lemma kv_incr_local: "incr_local kv_ops kv_view"
  by (auto simp: incr_local_def kv_ops_def kv_view_def split: option.splits)

lemma forgets_view: "view r = view r' \<Longrightarrow> forgets view t r r'"
  by (simp add: forgets_def)

lemma forgets_exchange:
  assumes "redis_laws ops view" "\<And>r. forgets view t r (snd (f r))"
  shows "forgets view t r (snd (exchange ops f r))"
proof -
  obtain r0 where "view r0 = view r" "snd (exchange ops f r) = r0 \<or> snd (exchange ops f r) = snd (f r0)"
    by (rule exchange_state[OF assms(1), of r f])
  then show ?thesis using assms(2)[of r0] by (auto simp: forgets_def)
qed

lemma forgets_commands:
  assumes "redis_laws ops view"
  shows "forgets view t r (snd (cmd_get ops t k r))" "\<not> tracked k \<Longrightarrow> forgets view t r (snd (cmd_setex ops t k n v r))"
    "forgets view t r (snd (cmd_del ops t ks r))" "\<not> tracked k \<Longrightarrow> forgets view t r (snd (cmd_set_nx_ex ops t k v n r))"
proof -
  have nx: "\<not> tracked k \<Longrightarrow> srv_set_nx_ex ops t k v n r = Some (b, r') \<Longrightarrow> forgets view t r r'" for r b r'
    using redis_set_nx[OF assms] by (cases b) (auto simp: forgets_def split: if_splits)
  show "\<not> tracked k \<Longrightarrow> forgets view t r (snd (cmd_set_nx_ex ops t k v n r))"
    unfolding cmd_set_nx_ex_def by (rule forgets_exchange[OF assms]) (auto split: option.split intro: nx)
  have setex: "\<not> tracked k \<Longrightarrow> srv_setex ops t k n v r = Some r' \<Longrightarrow> forgets view t r r'" for r r'
    using redis_setex[OF assms] by (auto simp: forgets_def)
  show "forgets view t r (snd (cmd_get ops t k r))"
    unfolding cmd_get_def by (rule forgets_exchange[OF assms]) simp
  show "forgets view t r (snd (cmd_del ops t ks r))"
    unfolding cmd_del_def by (rule forgets_exchange[OF assms]) (auto simp: forgets_def redis_del_all_view[OF assms])
  show "\<not> tracked k \<Longrightarrow> forgets view t r (snd (cmd_setex ops t k n v r))"
    unfolding cmd_setex_def by (rule forgets_exchange[OF assms]) (auto split: option.split intro: setex)
qed

lemma forgets_incr:
  assumes "redis_laws ops view" "incr_local ops view" "\<not> tracked k"
  shows "srv_incr ops t k r = Some (n, r') \<Longrightarrow> forgets view t r r'"
    and "0 < n' \<Longrightarrow> forgets view t r (srv_expire ops t k n' r)"
proof -
  show "srv_incr ops t k r = Some (n, r') \<Longrightarrow> forgets view t r r'"
    using assms(2,3) unfolding incr_local_def forgets_def by metis
  show "0 < n' \<Longrightarrow> forgets view t r (srv_expire ops t k n' r)"
    using assms(3) by (auto simp: forgets_def redis_expire[OF assms(1)])
qed

text \<open>The limiter counts under keys with a \<^verbatim>\<open>p\<close> or an \<^verbatim>\<open>m\<close>, which no cached user has.\<close>

definition limits_on :: "'r redis_ops \<Rightarrow> 'r limiter \<Rightarrow> bool" where
  "limits_on ops l \<longleftrightarrow> rl_client l = None \<or> rl_client l = Some ops"

lemma forgets_check:
  assumes "redis_laws ops view" "incr_local ops view" "limits_on ops (fst w)" "0 < win" "CHR ''p'' \<in> set key \<or> CHR ''m'' \<in> set key"
  shows "forgets view t (snd w) (snd (snd (rate_check t key n win w))) \<and> limits_on ops (fst (snd (rate_check t key n win w)))"
proof -
  obtain x l r where c: "limiter_conn (fst w) (snd w) = (x, l, r)" by (metis prod.exhaust)
  have l: "rl_client l = rl_client (fst w)" "rl_config l = rl_config (fst w)" using limiter_conn_result(1,2)[OF c] by simp_all
  have "\<not> tracked (build_key (rl_config l) key)"
    using tracked_chars(1,3)[of "build_key (rl_config l) key"] assms(5) by (auto simp: build_key_def)
  note frame = forgets_incr[OF assms(1,2) this]
  have f: "forgets view t r (snd (inc_and_expire ops t (build_key (rl_config l) key) win r))" for r
    using assms(4) by (auto simp: inc_and_expire_def split: option.split dest: frame(1) intro: forgets_trans[OF _ frame(2)])
  have "forgets view t (snd w) (snd (snd (check_limit t key n win (fst w) (snd w))))
      \<and> limits_on ops (fst (snd (check_limit t key n win (fst w) (snd w))))"
  proof (cases x)
    case (Inl e)
    have "view r = view (snd w) \<or> r = snd w"
      using assms(3) limiter_conn_result(4)[OF c _ assms(1)] c by (auto simp: limits_on_def limiter_conn_def)
    then show ?thesis using Inl c l assms(3) by (auto simp: check_limit_def limits_on_def forgets_view)
  next
    case (Inr o1)
    then have o1: "o1 = ops" "view r = view (snd w)"
      using assms(3) limiter_conn_result(3)[OF c, of o1] limiter_conn_result(4)[OF c _ assms(1)] by (auto simp: limits_on_def)
    have "forgets view t (snd w) (snd (exchange ops (inc_and_expire ops t (build_key (rl_config l) key) win) r))"
      using forgets_exchange[OF assms(1) f] forgets_view[OF o1(2)[symmetric]] by (blast intro: forgets_trans)
    then show ?thesis
      using Inr o1 c l assms(3) by (auto simp: check_limit_def limits_on_def split: prod.splits option.splits)
  qed
  then show ?thesis by (auto simp: rate_check_def split: prod.split sum.split)
qed


lemma forgets_limited:
  assumes "redis_laws ops view" "incr_local ops view" "limits_on ops (fst w)"
  shows "forgets view t (snd w) (snd (snd (rate_limit_middleware ps t (make_guard l pre n em) req w)))
    \<and> limits_on ops (fst (snd (rate_limit_middleware ps t (make_guard l pre n em) req w)))"
proof -
  let ?ok = "\<lambda>w'. forgets view t (snd w) (snd w') \<and> limits_on ops (fst w')"
  have chk: "?ok (snd (rate_check t key n 600 w'))" if "?ok w'" "CHR ''p'' \<in> set key \<or> CHR ''m'' \<in> set key" for w' key n
    using forgets_check[OF assms(1,2), of w' 600 key t n] that by (auto intro: forgets_trans)
  let ?g = "make_guard l pre n em"
  define m1 where "m1 = (case client_ip req of None \<Rightarrow> (Inr (), w)
      | Some ip \<Rightarrow> rate_check t (g_key_prefix ?g @ '':ip:'' @ ip) (ip_max_requests ?g) (ip_window_seconds ?g) w)"
  obtain x w1 where m1: "m1 = (x, w1)" by (metis prod.exhaust)
  have "?ok w" using assms(3) by simp
  then have "?ok (snd m1)" using chk by (auto simp: m1_def make_guard_def split: option.split)
  then have ok1: "?ok w1" by (simp add: m1)
  have mail: "?ok (snd (rate_check t (g_key_prefix ?g @ '':email:'' @ e) k (email_window_seconds ?g) w1))" for e k
    using chk[OF ok1] by (simp add: make_guard_def)
  have "rate_limit_middleware ps t ?g req w = (if \<not> limiter_is_available (fst w) then (Inr (), w) else
      (case m1 of (Inl e, w1) \<Rightarrow> (Inl e, w1)
         | (Inr _, w1) \<Rightarrow>
             (case email_max_requests ?g of
                None \<Rightarrow> (Inr (), w1)
              | Some email_max \<Rightarrow>
                  (case rq_body req of
                     None \<Rightarrow> (Inl (internal_err unexpected), w1)
                   | Some body \<Rightarrow>
                       (case extract_email_from_body ps body of
                          None \<Rightarrow> (Inr (), w1)
                        | Some email \<Rightarrow>
                            rate_check t (g_key_prefix ?g @ '':email:'' @ email) email_max (email_window_seconds ?g) w1)))))"
    by (simp only: rate_limit_middleware_def m1_def)
  then show ?thesis
    using mail ok1 \<open>?ok w\<close> by (simp add: m1 split: sum.split option.split)
qed

text \<open>The captcha store works on keys that begin with \<^verbatim>\<open>wechat:\<close>.\<close>

definition stores_on :: "'r redis_ops \<Rightarrow> 'r redis_captcha \<Rightarrow> bool" where
  "stores_on ops c \<longleftrightarrow> rc_client c = None \<or> rc_client c = Some ops"

definition since :: "'r redis_view \<Rightarrow> nat \<Rightarrow> 'r \<Rightarrow> bool \<times> 'r \<Rightarrow> bool" where
  "since view t r w \<longleftrightarrow> forgets view t r (snd w)"

lemma since_conn:
  assumes "redis_laws ops view" "stores_on ops c" "\<And>r. forgets view t r (snd (f ops r))"
  shows "keeps (since view t was) (with_conn c no_conn failed f)"
proof (rule keepsI)
  fix w assume w: "since view t was w"
  obtain x b r where c: "captcha_conn c w = (x, (b, r))" by (metis prod.exhaust)
  have "view r = view (snd w)" "x = None \<or> x = Some ops"
    using c assms(2) exchange_read[OF assms(1), of "\<lambda>r. (Some (), r)" "snd w"]
    by (auto simp: captcha_conn_def stores_on_def split: if_splits option.splits prod.splits)
  then have "forgets view t was r" "x = None \<or> x = Some ops"
    using w forgets_view[of view "snd w" r t] by (auto simp: since_def intro: forgets_trans)
  then show "since view t was (snd (with_conn c no_conn failed f w))"
    using c assms(3)[of r] by (auto simp: with_conn_def since_def split: prod.splits option.splits intro: forgets_trans)
qed


lemma since_captcha:
  assumes "redis_laws ops view" "incr_local ops view" "stores_on ops c" "CHR ''w'' \<in> set key"
  shows "keeps (since view t was) (get_opt c t key')"
    and "keeps (since view t was) (incr_failed_attempts (redis_captcha_store c) t key)"
    and "keeps (since view t was) (delete_captcha (redis_captcha_store c) t key)"
    and "keeps (since view t was) (peek_captcha (redis_captcha_store c) t key)"
    and "keeps (since view t was) (consume_captcha (redis_captcha_store c) t key)"
    and "keeps (since view t was) (reset_failed_attempts (redis_captcha_store c) t key)"
proof -
  have "\<not> tracked (attempts_key key)" using assms(4) tracked_chars(2)[of "attempts_key key"] by (auto simp: attempts_key_def)
  note frame = forgets_incr[OF assms(1,2) this]
  note cmds = forgets_commands[OF assms(1)] and conn = since_conn[OF assms(1,3)]
  show get: "keeps (since view t was) (get_opt c t key')" for key'
    unfolding get_opt_def by (rule conn) (rule cmds)
  have del: "keeps (since view t was) (del_key c t key')" for key'
    unfolding del_key_def by (rule conn) (rule cmds)
  show peek: "keeps (since view t was) (peek_captcha (redis_captcha_store c) t key)"
    unfolding redis_captcha_store_def redis_peek_captcha_def by (simp, intro keeps_intros get)
  show "keeps (since view t was) (reset_failed_attempts (redis_captcha_store c) t key)"
    by (simp add: redis_captcha_store_def del)
  show "keeps (since view t was) (delete_captcha (redis_captcha_store c) t key)"
    using peek unfolding redis_captcha_store_def redis_delete_captcha_def by (simp, intro keeps_intros del)
  have "forgets view t r (snd (exchange ops (consume_captcha_script ops t key) r))" for r
    by (rule forgets_exchange[OF assms(1)])
      (auto simp: consume_captcha_script_def forgets_def Let_def redis_del_all_view[OF assms(1)] redis_del_view[OF assms(1)]
        split: option.split if_splits)
  then show "keeps (since view t was) (consume_captcha (redis_captcha_store c) t key)"
    unfolding redis_captcha_store_def redis_consume_captcha_def by (simp, intro keeps_intros conn)
  have i: "forgets view t r (snd (exchange ops (\<lambda>r. case srv_incr ops t (attempts_key key) r of
      None \<Rightarrow> (None, r) | Some (n, r') \<Rightarrow> (Some n, r')) r))" for r
    by (rule forgets_exchange[OF assms(1)]) (auto split: option.split dest: frame(1))
  have e: "forgets view t r (snd (exchange ops (\<lambda>r. (Some (), srv_expire ops t (attempts_key key) 600 r)) r))" for r
    by (rule forgets_exchange[OF assms(1)]) (simp add: frame(2))
  show "keeps (since view t was) (incr_failed_attempts (redis_captcha_store c) t key)"
    unfolding redis_captcha_store_def incr_key_def by (simp, intro keeps_intros conn i e)
qed

lemma since_generate:
  assumes "redis_laws ops view" "stores_on ops c"
  shows "keeps (since view t was) (generate_captcha (redis_captcha_store c) cfg rng t acc openid)"
proof -
  have free: "\<not> tracked (captcha_key acc openid)" "\<not> tracked (code_index_key a code)" for a code
    using tracked_chars(2)[of "captcha_key acc openid"] tracked_chars(2)[of "code_index_key a code"]
    by (auto simp: captcha_key_def code_index_key_def)
  note cmds = forgets_commands[OF assms(1)] and conn = since_conn[OF assms]
  have "keeps (since view t was) (set_nx_ex c t (captcha_key acc openid) v n)" "keeps (since view t was) (set_ex c t (code_index_key a code) v n)"
    "keeps (since view t was) (del_key c t key)" for v n a code key
    unfolding set_nx_ex_def set_ex_def del_key_def by (rule conn, rule cmds, rule free)+ (rule conn, rule cmds)
  then show ?thesis
    unfolding generate_captcha_def redis_captcha_store_def redis_set_captcha_nx_def Let_def by (simp, intro keeps_intros)
qed

lemma since_login:
  assumes "redis_laws ops view" "incr_local ops view" "stores_on ops c"
  shows "keeps (\<lambda>w. since view t was (fst w)) (verify_and_login (redis_captcha_store c) (db_binding_store env) cfg t acc openid code)"
proof -
  have "CHR ''w'' \<in> set (captcha_key acc openid)" by (simp add: captcha_key_def)
  note parts = since_captcha[OF assms this]
  have v: "keeps (since view t was) (verify_for_openid (redis_captcha_store c) cfg t acc openid code)"
    unfolding verify_for_openid_def wrong_captcha_def right_captcha_def Let_def by (intro keeps_intros parts)
  have f: "keeps (\<lambda>w. since view t was (fst w)) (on_fst m)" if "keeps (since view t was) m" for m :: "(bool \<times> 'a, wechat_error, string) prog"
    using that by (auto simp: keeps_def on_fst_def split: prod.split) (metis snd_conv)
  have b: "keeps (\<lambda>w. since view t was (fst w)) (on_snd m)" for m :: "('c, wechat_error, 'd) prog"
    by (auto simp: keeps_def on_snd_def split: prod.split)
  show ?thesis unfolding verify_and_login_def by (intro keeps_intros f v b)
qed


section \<open>Every request\<close>

definition rows_fine :: "'r app \<Rightarrow> bool" where
  "rows_fine s \<longleftrightarrow> db_ok s \<and> (\<forall>u \<in> set (users s). in_i64 (u_id u))"

definition cache_env :: "'r redis_ops \<Rightarrow> 'r redis_view \<Rightarrow> user_json \<Rightarrow> 'r env \<Rightarrow> bool" where
  "cache_env ops view j env \<longleftrightarrow> steady ops view env \<and> incr_local ops view \<and> user_json_ok j \<and> in_i64 (new_id env)"

definition coherent_inv :: "'r redis_ops \<Rightarrow> 'r redis_view \<Rightarrow> user_json \<Rightarrow> bool \<Rightarrow> 'r env \<Rightarrow> 'r app \<Rightarrow> bool" where
  "coherent_inv ops view j C env s \<longleftrightarrow> (cache_env ops view j env \<longrightarrow> rows_fine s \<and> coherent view j C (cache_time env) s)"

text \<open>A server whose parts share one Redis.\<close>

definition tied :: "'r redis_ops \<Rightarrow> user_json \<Rightarrow> 'r web \<Rightarrow> bool" where
  "tied ops j w \<longleftrightarrow> wb_json w = j \<and> (\<forall>wx. wb_wechat w = Some wx \<longrightarrow> stores_on ops (wx_store wx))"

lemma keeps_coherent:
  assumes "serial env \<Longrightarrow> keeps db_ok m" "\<And>s. serial env \<Longrightarrow> db_ok s \<Longrightarrow> grows env s (snd (m s))"
    and "\<And>s. cache_env ops view j env \<Longrightarrow> rows_fine s \<Longrightarrow> coherent view j C (cache_time env) s \<Longrightarrow> coherent view j C (cache_time env) (snd (m s))"
  shows "keeps (coherent_inv ops view j C env) m"
proof (rule keepsI)
  fix s assume s: "coherent_inv ops view j C env s"
  show "coherent_inv ops view j C env (snd (m s))"
    unfolding coherent_inv_def
  proof (intro impI)
    assume e: "cache_env ops view j env"
    then have i: "rows_fine s" "coherent view j C (cache_time env) s" and env: "serial env" "in_i64 (new_id env)"
      using s by (auto simp: coherent_inv_def cache_env_def steady_def)
    have "grows env s (snd (m s))" using assms(2) env i(1) by (simp add: rows_fine_def)
    then have "\<forall>u \<in> set (users (snd (m s))). in_i64 (u_id u)"
      using i(1) env(2) unfolding grows_def rows_fine_def by metis
    moreover have "db_ok (snd (m s))" using keepsD[OF assms(1)[OF env(1)]] i(1) by (simp add: rows_fine_def)
    ultimately show "rows_fine (snd (m s)) \<and> coherent view j C (cache_time env) (snd (m s))"
      using assms(3)[OF e i] by (simp add: rows_fine_def)
  qed
qed

lemma coherent_calm:
  assumes "keeps (calm view t {} {} s) m" "coherent view j C t s"
  shows "coherent view j C t (snd (m s))"
  by (rule coherent_kept[OF assms(2) kept_up_calm(1)[OF keepsD[OF assms(1)]]]) simp

lemma coherent_reset:
  assumes "serial env" "\<not> C" "coherent view j C t s"
  shows "coherent view j C t (snd (reset_password cs env email code pw s))"
  by (rule coherent_kept[OF assms(3) kept_up_calm(2)[OF keepsD[OF calm_reset[OF assms(1)]] assms(2)]]) simp

lemma coherent_forgets:
  assumes "forgets view t (redis s) r" "coherent view j C t s"
  shows "coherent view j C t (s\<lparr>redis := r\<rparr>)"
  by (rule coherent_kept[OF assms(2) kept_up_calm(1)]) (simp add: calm_def assms(1))

lemma coherent_inv_forgets:
  "(cache_env ops view j env \<Longrightarrow> forgets view (cache_time env) (redis s) r) \<Longrightarrow> coherent_inv ops view j C env s \<Longrightarrow>
    coherent_inv ops view j C env (s\<lparr>redis := r\<rparr>)"
  by (auto simp: coherent_inv_def rows_fine_def intro: coherent_forgets)

lemma coherent_captcha:
  assumes "stores_on ops (wx_store wx)"
  shows "keeps (of_snd (coherent_inv ops view j C env)) (captcha_user wx env code)"
proof -
  let ?I = "coherent_inv ops view j C env" and ?t = "cache_time env"
  have "keeps (of_snd ?I) (on_captcha (get_opt (wx_store wx) ?t key))" for key
  proof (rule keepsI)
    fix w :: "'a srv" assume w: "of_snd ?I w"
    obtain x b r where g: "get_opt (wx_store wx) ?t key (fst w, redis (snd w)) = (x, (b, r))" by (metis prod.exhaust)
    have "forgets view ?t (redis (snd w)) r" if "cache_env ops view j env"
      using keepsD[OF since_captcha(1)[where key = "''w''" and was = "redis (snd w)" and view = view and ops = ops and c = "wx_store wx"
            and t = ?t and key' = key], of "(fst w, redis (snd w))"]
        that assms g by (simp add: since_def cache_env_def steady_def pooled_def)
    then show "of_snd ?I (snd (on_captcha (get_opt (wx_store wx) ?t key) w))"
      using coherent_inv_forgets[of ops view j env "snd w" r C] w by (simp add: on_captcha_def g of_snd_def)
  qed
  moreover have "keeps (of_snd ?I) (on_wechat (verify_and_login (redis_captcha_store (wx_store wx)) (db_binding_store env) cfg ?t acc openid code))"
    for cfg acc openid
  proof (rule keepsI)
    fix w :: "'a srv" assume w: "of_snd ?I w"
    let ?w0 = "((fst w, redis (snd w)), snd w)"
    let ?r = "verify_and_login (redis_captcha_store (wx_store wx)) (db_binding_store env) cfg ?t acc openid code ?w0"
    obtain x c r s where r: "?r = (x, ((c, r), s))" by (metis prod.exhaust)
    have "s = snd w" using captcha_login_users[of "redis_captcha_store (wx_store wx)" env cfg ?t acc openid code ?w0] r by simp
    moreover have "forgets view ?t (redis (snd w)) r" if "cache_env ops view j env"
      using keepsD[OF since_login[where was = "redis (snd w)" and view = view and ops = ops and c = "wx_store wx" and t = ?t and env = env
            and cfg = cfg and acc = acc and openid = openid and code = code], of ?w0]
        that assms r by (simp add: since_def cache_env_def steady_def pooled_def)
    ultimately show "of_snd ?I (snd (on_wechat (verify_and_login (redis_captcha_store (wx_store wx)) (db_binding_store env) cfg ?t acc openid code) w))"
      using coherent_inv_forgets[of ops view j env "snd w" r C] w r by (simp add: on_wechat_def of_snd_def)
  qed
  ultimately show ?thesis unfolding captcha_user_def by (intro keeps_intros)
qed

lemma coherent_generation:
  assumes "stores_on ops (wx_store wx)"
  shows "keeps (of_snd (coherent_inv ops view j C env))
    (on_captcha (generate_captcha (redis_captcha_store (wx_store wx)) cfg rng (cache_time env) acc openid))"
proof (rule keepsI)
  let ?m = "generate_captcha (redis_captcha_store (wx_store wx)) cfg rng (cache_time env) acc openid"
  fix w :: "'a srv" assume w: "of_snd (coherent_inv ops view j C env) w"
  obtain x b r where g: "?m (fst w, redis (snd w)) = (x, (b, r))" by (metis prod.exhaust)
  have "forgets view (cache_time env) (redis (snd w)) r" if "cache_env ops view j env"
    using keepsD[OF since_generate[where was = "redis (snd w)" and view = view and ops = ops and c = "wx_store wx"
          and t = "cache_time env" and cfg = cfg and rng = rng and acc = acc and openid = openid], of "(fst w, redis (snd w))"]
      that assms g by (simp add: since_def cache_env_def steady_def pooled_def)
  then show "of_snd (coherent_inv ops view j C env) (snd (on_captcha ?m w))"
    using coherent_inv_forgets[of ops view j env "snd w" r C] w by (simp add: on_captcha_def g of_snd_def)
qed

definition limits_fine :: "'r redis_ops \<Rightarrow> 'r redis_view \<Rightarrow> user_json \<Rightarrow> 'r env \<Rightarrow> 'r limiter \<Rightarrow> bool" where
  "limits_fine ops view j env l \<longleftrightarrow> (cache_env ops view j env \<longrightarrow> limits_on ops l)"

lemma coherent_limited:
  "keeps (served_by (limits_fine ops view j env) (coherent_inv ops view j C env)) (\<lambda>s. limited w env (make_guard (fst s) pre n em) req s)"
proof (rule keepsI)
  let ?t = "cache_time env" and ?I = "served_by (limits_fine ops view j env) (coherent_inv ops view j C env)"
  fix s :: "'a limiter \<times> 'a srv" assume s: "?I s"
  obtain x l r where m: "rate_limit_middleware (wb_parsers w) ?t (make_guard (fst s) pre n em) req (fst s, redis (snd (snd s))) = (x, (l, r))"
    by (metis prod.exhaust)
  have "forgets view ?t (redis (snd (snd s))) r \<and> limits_on ops l" if "cache_env ops view j env"
    using forgets_limited[of ops view "(fst s, redis (snd (snd s)))" ?t "wb_parsers w" "fst s" pre n em req] m s that
    by (simp add: cache_env_def steady_def pooled_def served_by_def limits_fine_def)
  then show "?I (snd (limited w env (make_guard (fst s) pre n em) req s))"
    using s coherent_inv_forgets[of ops view j env "snd (snd s)" r C] by (simp add: limited_def m served_by_def limits_fine_def)
qed

lemma pooled_env: "cache_env ops view j env \<Longrightarrow> pooled ops view env" "cache_env ops view j env \<Longrightarrow> steady ops view env"
  "cache_env ops view j env \<Longrightarrow> serial env"
  by (simp_all add: cache_env_def steady_def)

lemma coherent_steps:
  assumes "cache_env ops view j env" "rows_fine s" "coherent view j C (cache_time env) s"
  shows "coherent view j C (cache_time env) (snd (get_user env j uid s))"
    "coherent view j C (cache_time env) (snd (verify_token_version env uid v s))"
    "coherent view j C (cache_time env) (snd (update_user env uid ui actor s))"
    "coherent view j C (cache_time env) (snd (delete_user env uid actor aid s))"
    "coherent view j C (cache_time env) (snd (set_balance env uid b actor s))"
    "coherent view j C (cache_time env) (snd (adjust_balance env uid b actor s))"
    "coherent view j C (cache_time env) (snd (change_password env uid p q s))"
    "coherent view j C (cache_time env) (snd (bindS (on_error (e1 :: auth_error \<Rightarrow> http_error) (revoke_all_sessions env uid)) (\<lambda>_.
      bindS (drop_cache env (token_version_key uid)) (\<lambda>_. retS (r :: reply))) s))"
  using assms pooled_env[OF assms(1)]
  by (auto simp: cache_env_def rows_fine_def intro!: kept_get_user kept_check
      intro: coherent_kept[OF assms(3)] kept_update kept_delete kept_balance kept_password kept_revoke)

lemmas calm_operations = calm_login calm_codes calm_tokens calm_users

lemmas tables_kept = login_db_ok create_user_db_ok send_verification_db_ok auto_verify_db_ok
    verify_email_db_ok resend_code_db_ok request_reset_db_ok reset_password_db_ok rotate_db_ok delete_refresh_db_ok
    revoke_db_ok list_users_db_ok get_user_db_ok get_user_scoped_db_ok update_user_db_ok delete_user_db_ok
    set_balance_db_ok adjust_balance_db_ok change_password_db_ok verify_token_version_db_ok

lemma coherent_calm_operation:
  assumes "serial env \<Longrightarrow> keeps db_ok m" "\<And>s. serial env \<Longrightarrow> db_ok s \<Longrightarrow> grows env s (snd (m s))"
    and "\<And>s. cache_env ops view j env \<Longrightarrow> keeps (calm view (cache_time env) {} {} s) m"
  shows "keeps (coherent_inv ops view j C env) m"
  by (rule keeps_coherent[OF assms(1,2)]) (auto intro: coherent_calm assms(3))

interpretation coherence: served_invariant "coherent_inv ops view j C env" env "tied ops j" "limits_fine ops view j env"
    "\<lambda>e. C \<longrightarrow> e \<noteq> ResetPassword" for ops view j C env
proof -
  let ?I = "coherent_inv ops view j C env"
  have calm: "keeps ?I (login k svc env rq)" "keeps ?I (create_user env ci actor)" "keeps ?I (send_verification_email cs env email)"
    "keeps ?I (auto_verify env email)" "keeps ?I (verify_email cs env email code)" "keeps ?I (resend_code cs env email)"
    "keeps ?I (request_reset cs env email)" "keeps ?I (rotate_refresh_token env h h' e)" "keeps ?I (delete_refresh_token env h)"
    "keeps ?I (list_users env pp actor)" for k svc rq ci actor cs email code h h' e pp
    by (rule coherent_calm_operation, (simp add: keeps_def serial_def tables_kept; fail),
        (rule growsD keeps_serial keeps_create keeps_reads; assumption?)+, (rule calm_operations pooled_env; assumption?)+)+
  have writes: "keeps ?I (get_user env j uid)" "keeps ?I (verify_token_version env uid v)" "keeps ?I (update_user env uid ui actor)"
    "keeps ?I (delete_user env uid actor aid)" "keeps ?I (adjust_balance env uid m actor)"
    "keeps ?I (change_password env uid p q)" for uid v ui actor aid m p q
    by (rule keeps_coherent, (simp add: keeps_def serial_def tables_kept; fail),
        (rule growsD keeps_serial keeps_reads keeps_balance grows_update_user; assumption?)+, (rule coherent_steps; assumption))+
  have set: "b \<le> i64_max \<Longrightarrow> keeps ?I (set_balance env uid b actor)" for b uid actor
    by (rule keeps_coherent, (simp add: keeps_def serial_def tables_kept; fail),
        (rule growsD keeps_balance; assumption?)+, (rule coherent_steps; assumption))
  have revoke: "keeps ?I (bindS (on_error (e1 :: auth_error \<Rightarrow> http_error) (revoke_all_sessions env uid)) (\<lambda>_.
      bindS (drop_cache env (token_version_key uid)) (\<lambda>_. retS (r :: reply))))" for e1 uid r
    by (rule keeps_coherent, intro keeps_intros keeps_redis(1), (simp add: keeps_def revoke_db_ok; fail), simp,
        rule growsD, intro keeps_intros keeps_revoke keeps_stmts, (rule coherent_steps; assumption))
  have reset: "keeps ?I (reset_password cs env email code pw)" if "C \<longrightarrow> ResetPassword \<noteq> ResetPassword" for cs email code pw
    by (rule keeps_coherent, (simp add: keeps_def serial_def tables_kept; fail), rule growsD, rule keeps_serial, assumption,
        rule coherent_reset) (use that pooled_env in auto)
  have reads: "keeps ?I (get_user env (wb_json w) uid)" "keeps ?I (get_user_scoped env (wb_json w) uid actor)" if "tied ops j w" for w uid actor
  proof -
    have "wb_json w = j" using that by (simp add: tied_def)
    then show g: "keeps ?I (get_user env (wb_json w) uid)" for uid by (simp add: writes)
    show "keeps ?I (get_user_scoped env (wb_json w) uid actor)"
      unfolding get_user_scoped_def by (intro keeps_intros g)
  qed
  have captcha: "keeps (of_snd ?I) (captcha_user wx env code)" if "tied ops j w" "wb_wechat w = Some wx" for w wx code
    using that by (intro coherent_captcha) (simp add: tied_def)
  have generation: "keeps (of_snd ?I) (on_captcha (generate_captcha (redis_captcha_store (wx_store wx)) (wx_login_config wx) rng
      (cache_time env) acc openid))" if "tied ops j w" "wb_wechat w = Some wx" for w wx rng acc openid
    using that by (intro coherent_generation) (simp add: tied_def)
  show "served_invariant ?I env (tied ops j) (limits_fine ops view j env) (\<lambda>e. C \<longrightarrow> e \<noteq> ResetPassword)"
    by unfold_locales (rule calm writes(2-) set revoke reset reads captcha generation coherent_limited; assumption?)+
qed


section \<open>Any run of the server\<close>

text \<open>Requests one after the other, at times that do not go back.\<close>

definition request_times :: "nat \<Rightarrow> 'r request_kind list \<Rightarrow> nat list" where
  "request_times t qs = t # map (\<lambda>q. cache_time (request_env q)) qs"

definition cacheable :: "'r redis_ops \<Rightarrow> 'r redis_view \<Rightarrow> user_json \<Rightarrow> bool \<Rightarrow> 'r request_kind \<Rightarrow> bool" where
  "cacheable ops view j C q \<longleftrightarrow> cache_env ops view j (request_env q) \<and> tied ops j (request_web q)
     \<and> decoders_ok (wb_decoders (request_web q)) \<and> admits (\<lambda>e. C \<longrightarrow> e \<noteq> ResetPassword) q"

definition well_cached :: "'r redis_ops \<Rightarrow> 'r redis_view \<Rightarrow> user_json \<Rightarrow> bool \<Rightarrow> nat \<Rightarrow> 'r limiter \<times> 'r srv \<Rightarrow> bool" where
  "well_cached ops view j C t s \<longleftrightarrow> limits_on ops (fst s) \<and> rows_fine (snd (snd s)) \<and> coherent view j C t (snd (snd s))"

lemma request_well_cached:
  assumes "well_cached ops view j C t s" "cacheable ops view j C q" "t \<le> cache_time (request_env q)"
  shows "well_cached ops view j C (cache_time (request_env q)) (snd (serve q s))"
proof -
  let ?env = "request_env q" and ?I = "coherent_inv ops view j C (request_env q)"
  have env: "cache_env ops view j ?env" using assms(2) by (simp add: cacheable_def)
  have "served_by (limits_fine ops view j ?env) ?I s"
    using assms(1,3) coherent_later by (auto simp: served_by_def limits_fine_def coherent_inv_def well_cached_def)
  then have "served_by (limits_fine ops view j ?env) ?I (snd (serve q s))"
    by (intro serve_keeps_under[OF coherence.served_invariant_axioms]) (use assms(2) in \<open>simp_all add: cacheable_def\<close>)
  then show ?thesis using env by (simp add: served_by_def limits_fine_def coherent_inv_def well_cached_def)
qed

lemma run_well_cached:
  assumes "well_cached ops view j C t s" "\<forall>q \<in> set qs. cacheable ops view j C q" "sorted (request_times t qs)"
  shows "well_cached ops view j C (last (request_times t qs)) (serve_all qs s)"
  using assms
proof (induction qs arbitrary: s t)
  case Nil
  then show ?case by (simp add: serve_all_def request_times_def)
next
  case (Cons q qs)
  have "well_cached ops view j C (cache_time (request_env q)) (snd (serve q s))"
    using Cons.prems by (intro request_well_cached) (auto simp: request_times_def)
  then have "well_cached ops view j C (last (request_times (cache_time (request_env q)) qs)) (serve_all qs (snd (serve q s)))"
    using Cons.prems by (intro Cons.IH) (auto simp: request_times_def)
  then show ?case by (simp add: serve_all_def request_times_def)
qed

lemma run_coherent:
  assumes "well_cached ops view j C t s" "\<forall>q \<in> set qs. cacheable ops view j C q" "sorted (request_times t qs)"
    and "last (request_times t qs) \<le> t'"
  shows "coherent view j C t' (snd (snd (serve_all qs s)))" "db_ok (snd (snd (serve_all qs s)))"
proof -
  have w: "coherent view j C (last (request_times t qs)) (snd (snd (serve_all qs s)))" "rows_fine (snd (snd (serve_all qs s)))"
    using run_well_cached[OF assms(1-3)] by (simp_all add: well_cached_def)
  show "coherent view j C t' (snd (snd (serve_all qs s)))" by (rule coherent_later[OF w(1) assms(4)])
  show "db_ok (snd (snd (serve_all qs s)))" using w(2) by (simp add: rows_fine_def)
qed

text \<open>An empty server of keys is well cached.\<close>

lemma well_cached_empty:
  assumes "\<And>t k. view (redis (snd (snd s))) t k = None" "limits_on ops (fst s)" "rows_fine (snd (snd s))"
  shows "well_cached ops view j C t s"
  using assms by (simp add: well_cached_def coherent_def profiles_agree_def versions_agree_def)


section \<open>What a reader of the cache gets\<close>

lemma get_user_shown:
  assumes "pooled ops view env" "profiles_agree view j (cache_time env) s" "get_user env j i s = (Inr (Some r), s')"
  shows "\<exists>u. user_by_id i s = Some u \<and> shown r = shown (response_of u)"
proof -
  have laws: "redis_laws ops view" "pool (cache_svc env) = Some ops" using assms(1) by (simp_all add: pooled_def)
  obtain x w where g: "cache_get (read_user j) (cache_svc env) (user_cache_key i) (cache_time env, redis s) = (x, w)" by (metis prod.exhaust)
  show ?thesis
  proof (cases "\<exists>p. x = Inr (Some p)")
    case True
    then have x: "x = Inr (Some r)" using assms(3) g by (auto simp: get_user_def bindS_def cache_do_def retS_def)
    obtain y where "view (redis s) (cache_time env) (user_cache_key i) = Some y" "read_user j y = Some r"
      using cache_get_hit[OF laws g[unfolded x]] by auto
    then show ?thesis using assms(2) unfolding profiles_agree_def by blast
  next
    case False
    then show ?thesis
      using assms(3) g
      by (cases x) (auto simp: get_user_def bindS_def cache_do_def retS_def db_stmt_def read_db_def case_prod_beta
          split: option.splits if_splits)
  qed
qed

text \<open>C4: the profile a user sees is never stale. Start with a cache that agrees with the tables, say an empty one, and let any requests
  follow each other, one at a time, successful or not, password resets included. As long as Redis is reached, so that a dropped key is gone, and the two
  queries behind the commit of an update and of a password change do not fail (\<^verbatim>\<open>requery_ok\<close>; every other
  statement may), a later lookup of a profile answers with the id, address, name, role and balance the row has at that moment, never with those of an earlier one and never for an account that is gone.\<close>

theorem profile_never_stale:
  assumes "well_cached ops view j False t s" "\<forall>q \<in> set qs. cacheable ops view j False q" "sorted (request_times t qs)"
    and "pooled ops view env" "last (request_times t qs) \<le> cache_time env"
    and "get_user env j i (snd (snd (serve_all qs s))) = (Inr (Some r), s')"
  shows "\<exists>u. user_by_id i (snd (snd (serve_all qs s))) = Some u \<and> r_id r = u_id u \<and> r_email r = u_email u \<and> r_name r = u_name u
    \<and> r_role r = u_role u \<and> r_balance r = u_balance u"
  using get_user_shown[OF assms(4) _ assms(6)] run_coherent(1)[OF assms(1-3,5)]
  by (auto simp: coherent_def shown_def response_of_def)

text \<open>C5: who is let in. After any requests one after the other, none of them a password reset, under the same conditions on Redis and on the
  two queries, the middleware lets a request pass exactly when
  its token is signed, in time and carries the current version of a user that exists, whatever the cache still holds; with \<^verbatim>\<open>reset_leaves_old_sessions\<close>
  the exception is needed, with \<^verbatim>\<open>failed_requery_keeps_sessions\<close> the condition on the queries.\<close>

theorem sessions_exact_throughout:
  assumes "well_cached ops view j True t s" "\<forall>q \<in> set qs. cacheable ops view j True q" "sorted (request_times t qs)"
    and "cached_env ops view env" "last (request_times t qs) \<le> cache_time env" "\<not> is_health req"
  shows "fst (auth_middleware ps k secret env req (snd (snd (serve_all qs s)))) = Inr a
    \<longleftrightarrow> (\<exists>claims. live_session ps k secret env req (snd (snd (serve_all qs s))) claims \<and> a = Some (auth_user_of claims))"
proof -
  note run = run_coherent[OF assms(1-3,5)]
  have "versions_agree view (cache_time env) (snd (snd (serve_all qs s)))" using run(1) by (simp add: coherent_def)
  from auth_middleware_exact(1)[OF assms(4) this run(2) assms(6) prod.collapse[symmetric]] show ?thesis .
qed

lemma drop_succeeds: "drop_cache env key s \<noteq> (Inl e, s')"
  by (auto simp: drop_cache_def cache_do_def bindS_def split: prod.splits)

text \<open>C20: why the statement after the commit matters. When a password change is committed and only the query behind it fails, the caller is told that
  it failed; the new password and version are in the table, but the cached version was not dropped: as long as it lives, the old tokens
  are still let in and a token with the new version is not.\<close>

theorem failed_requery_keeps_sessions:
  assumes "serial env" "db_ok s" "change_password env i p q s = (Inl (Internal ''Failed to re-query user after password change''), s')"
    and "cached_env ops view env2" "versions_agree view (cache_time env2) s" "user_by_id i s = Some u"
    and "view (redis s) (cache_time env2) (token_version_key i) \<noteq> None"
  shows "\<exists>v. user_by_id i s' = Some v \<and> hash_password env q = Some (u_password_hash v) \<and> u_token_version v = u_token_version u + 1
    \<and> fst (verify_token_version env2 i (u_token_version u) s') = Inr () \<and> fst (verify_token_version env2 i (u_token_version v) s') \<noteq> Inr ()"
proof -
  have txn: "e \<noteq> Internal ''Failed to re-query user after password change''" if "password_txn env i h s = (Inl e, t)" for h e t
  proof -
    have "wp (password_txn env i h) (\<lambda>_ _. True) (\<lambda>e _. e \<noteq> Internal ''Failed to re-query user after password change'') s"
      by (auto simp: password_txn_def wp_simps split: db_result.split)
    from wp_Inl[OF this that] show ?thesis .
  qed
  obtain h where h: "hash_password env q = Some h" and tx: "password_txn env i h s = (Inr (), s')"
    using assms(1,3,6)
    by (auto simp: change_password_def bindS_Inl_conv db_stmt_def read_db_def interfere_def serial_def drop_succeeds
        split: if_splits dest: txn)
  have changed: "password_done env i h s s'" using wp_Inr[OF wp_password_done[OF assms(2)] tx] .
  have "redis s' = redis s"
    using password_txn_cases[OF tx] bump_token_version_ok(3)[OF _ assms(2)]
    by (auto simp: update_user_row_def delete_tokens_def split: option.splits if_splits)
  then show ?thesis
    using changed h assms(6) cached_version_decides[OF assms(4,5,6) _ assms(7), of s'] by (auto simp: password_done_def password_columns_def)
qed


section \<open>Concrete runs\<close>

definition cached_web :: "kv web" where
  "cached_web = sample_web\<lparr>wb_json := wire_user_json strokes\<rparr>"

text \<open>User 3 logs out everywhere, and the administrator looks at the list meanwhile.\<close>

definition cached_requests :: "kv request_kind list" where
  "cached_requests =
     [ApiRequestTo cached_web sample_env [] (sample_request ''POST'' ''/users/me/logout-all''),
      ApiRequestTo cached_web (sample_env\<lparr>now := 2000000\<rparr>) [] (sample_request ''GET'' ''/users'')]"

text \<open>The version of user 3 is cached when the change of its password runs into a failing query behind its commit.\<close>

definition requery_fails :: "kv env" where
  "requery_fails = sample_env\<lparr>db_err := \<lambda>c. c = ''Failed to re-query user after password change''\<rparr>"

definition cached_app :: "kv app" where
  "cached_app = sample_app\<lparr>redis := [token_version_key 3 \<mapsto> (''1'', Some 1030)]\<rparr>"

lemma cached_run:
  "well_cached kv_ops kv_view (wire_user_json strokes) C 0 sample_server" "\<forall>q \<in> set cached_requests. cacheable kv_ops kv_view (wire_user_json strokes) C q"
  "sorted (request_times 0 cached_requests)" "last (request_times 0 cached_requests) = 2000"
proof -
  show "well_cached kv_ops kv_view (wire_user_json strokes) C 0 sample_server"
    by (rule well_cached_empty)
      (auto simp: sample_server_def sample_app_ok limits_on_def disabled_limiter_def rows_fine_def kv_view_def,
        auto simp: sample_app_def sample_user_def in_i64_def i64_min_def i64_max_def)
  have "user_json_ok (wire_user_json strokes)" by (rule cached_user_roundtrip[OF strokes_laws])
  then show "\<forall>q \<in> set cached_requests. cacheable kv_ops kv_view (wire_user_json strokes) C q"
    using sample_web_ok
    by (auto simp: cached_requests_def cacheable_def request_env_def request_web_def cache_env_def steady_def pooled_def kv_laws kv_reliable
        kv_incr_local serial_def requery_ok_def sample_env_def tied_def cached_web_def admits_def in_i64_def i64_min_def i64_max_def sample_web_def)
  show "sorted (request_times 0 cached_requests)" "last (request_times 0 cached_requests) = 2000"
    by (simp_all add: request_times_def cached_requests_def request_env_def cache_time_def sample_env_def)
qed

definition health_request :: "kv request_kind" where
  "health_request = ApiRequestTo cached_web sample_env [] (sample_request ''GET'' ''/health'')"

lemma health_run: "serve_all [health_request] sample_server = sample_server"
proof -
  have r: "find_route api_routes ''GET'' ''/health'' = Some (False, ''/health'', ''GET'', Health)" by code_simp
  have "rq_path (sample_request ''GET'' ''/health'') = ''/health''" "rq_method (sample_request ''GET'' ''/health'') = ''GET''"
    "axum_body [] (sample_request ''GET'' ''/health'') = Inr []"
    by (simp_all add: sample_request_def axum_body_def bodyless_def)
  then show ?thesis
    by (simp add: serve_all_def serve_def health_request_def sample_server_def serve_api_def r bindS_def auth_middleware_def is_health_def
        liftE_def run_api_def health_check_def retS_def)
qed

lemma profile_never_stale_witness:
  "\<exists>r s'. get_user (sample_env\<lparr>now := 3000000\<rparr>) (wire_user_json strokes) 3 (snd (snd (serve_all [health_request] sample_server))) = (Inr (Some r), s')
     \<and> r_email r = u_email (sample_user 3 ''u'' ''user'') \<and> r_role r = ''user''"
proof -
  let ?j = "wire_user_json strokes" and ?env = "sample_env\<lparr>now := 3000000\<rparr>"
  have c: "\<forall>q \<in> set [health_request]. cacheable kv_ops kv_view ?j False q"
    using cached_run(2)[of False] by (simp add: cached_requests_def health_request_def cacheable_def request_env_def request_web_def)
      (simp add: admits_def)
  have t: "sorted (request_times 0 [health_request])" "last (request_times 0 [health_request]) \<le> cache_time ?env"
    by (simp_all add: request_times_def health_request_def request_env_def cache_time_def sample_env_def)
  have p: "pooled kv_ops kv_view ?env" by (simp add: pooled_def kv_laws kv_reliable sample_env_def)
  have u: "user_by_id 3 (snd (snd sample_server)) = Some (sample_user 3 ''u'' ''user'')"
    using sample_user_three by (simp add: sample_server_def)
  have e: "cached_env kv_ops kv_view ?env" by (simp add: cached_env_def kv_laws kv_reliable sample_env_def)
  have f: "profile_fresh kv_view ?j (cache_time ?env) (sample_user 3 ''u'' ''user'') (snd (snd sample_server))"
    by (simp add: profile_fresh_def sample_server_def sample_app_def kv_view_def)
  have "in_i64 (u_balance (sample_user 3 ''u'' ''user''))" by (simp add: sample_user_def in_i64_def i64_min_def i64_max_def)
  then obtain r s' where g: "get_user ?env ?j 3 (snd (snd (serve_all [health_request] sample_server))) = (Inr (Some r), s')"
    unfolding health_run by (rule get_user_fresh[OF e u f])
  from profile_never_stale[OF cached_run(1) c t(1) p t(2) g] u
  show ?thesis using g unfolding health_run by (auto simp: sample_user_def)
qed

lemma sessions_exact_throughout_witness:
  "\<forall>a. fst (auth_middleware (wb_parsers cached_web) (wb_crypto cached_web) ''k'' (sample_env\<lparr>now := 3000000\<rparr>) (sample_request ''GET'' ''/users'')
      (snd (snd (serve_all cached_requests sample_server)))) = Inr a
    \<longleftrightarrow> (\<exists>claims. live_session (wb_parsers cached_web) (wb_crypto cached_web) ''k'' (sample_env\<lparr>now := 3000000\<rparr>) (sample_request ''GET'' ''/users'')
          (snd (snd (serve_all cached_requests sample_server))) claims \<and> a = Some (auth_user_of claims))"
  by (rule allI, rule sessions_exact_throughout[OF cached_run(1-3)])
    (auto simp: cached_run(4) cached_env_def kv_laws kv_reliable sample_env_def cache_time_def is_health_def sample_request_def)

lemma failed_requery_keeps_sessions_witness:
  "\<exists>s'. change_password requery_fails 3 ''u'' ''New-Pass1'' cached_app
      = (Inl (Internal ''Failed to re-query user after password change''), s')
    \<and> fst (verify_token_version sample_env 3 1 s') = Inr () \<and> fst (verify_token_version sample_env 3 2 s') \<noteq> Inr ()"
proof -
  have u: "user_by_id 3 cached_app = Some (sample_user 3 ''u'' ''user'')"
    using sample_user_three by (simp add: cached_app_def user_by_id_def)
  have one: "read_version ''1'' = Some 1" by code_simp
  have a: "versions_agree kv_view t cached_app" for t
    using u one by (auto simp: versions_agree_def kv_view_def version_key_inj cached_app_def sample_user_def user_by_id_def split: if_splits)
  have c: "kv_view (redis cached_app) (cache_time sample_env) (token_version_key 3) \<noteq> None"
    by (simp add: cached_app_def kv_view_def cache_time_def sample_env_def)
  obtain s' where r: "change_password requery_fails 3 ''u'' ''New-Pass1'' cached_app
      = (Inl (Internal ''Failed to re-query user after password change''), s')"
    by (simp add: change_password_def password_txn_def in_txn_def bindS_def db_stmt_def read_db_def write_db_def
        run_stmt_def stmt_result_def bump_stmt_def bump_token_version_def update_user_row_def user_by_id_def interfere_def
        clashes_def i32_max_def password_columns_def delete_tokens_def
        require_password_def validate_password_def is_lower_def is_upper_def is_digit_def is_punct_def Let_def
        cached_app_def requery_fails_def sample_app_def sample_env_def sample_user_def sample_token_def)
  have "serial requery_fails" "db_ok cached_app" using sample_app_ok by (simp_all add: requery_fails_def cached_app_def serial_def sample_env_def db_ok_def)
  from failed_requery_keeps_sessions[OF this r sample_laws(1) a u c] r
  show ?thesis by (auto simp: sample_user_def)
qed

end
