(* ===== verification/Spec2Isabelle.thy ===== *)
theory Spec2Isabelle
  imports Prelude Redis Lock Cache RateLimit Snowflake Validator Database UserService UserProps AuthService AuthProps Verification PasswordReset CodeProps ApiErrors Middleware Captcha WechatStore CaptchaProps Adapters WechatApi Handlers ApiHandlers Routes Served Sessions ServerProps Access DbRouter ApiClient WebAuth Email Startup Float64 UsersPage Pages AuthPages AccountPages PageProps Shell Wire EndToEnd Coherence
begin

text \<open>
  Webshelf: a user administration with accounts, mailed codes, WeChat logins, balances and sessions. A server in Rust (\<^verbatim>\<open>src/server\<close>)
  runs on axum or salvo (\<^verbatim>\<open>src/crates/webshelf-axum\<close>, \<^verbatim>\<open>webshelf-salvo\<close>) over PostgreSQL and Redis; a web application (\<^verbatim>\<open>src/app/web\<close>)
  talks to it through a client library (\<^verbatim>\<open>src/app/client-api\<close>). This library models both and proves what each part promises and what they
  promise together. Names in the theories are the names of the code, as far as Isabelle allows it; where a name was taken, a prefix or a
  word was added.

  \<^bold>\<open>How operations are modelled.\<close> An operation that can fail and change state is a \<^verbatim>\<open>prog\<close> of Prelude: a function from the state to an error or a value
  and the new state. \<^verbatim>\<open>wp\<close> and the collection \<^verbatim>\<open>wp_simps\<close> reduce a property of an operation along its structure. Integers that the code keeps in
  64 bits are integers with their wrap-around and their checks written out (\<^verbatim>\<open>wrap_i64\<close>, \<^verbatim>\<open>checked_add_i64\<close>), or words where the code shifts
  and masks (Snowflake). Strings are lists of characters, read as the bytes of the text. Loops that may not end are partial functions into
  options (the spin loops of Snowflake) and their end is a theorem; retries and polls are structural recursions on the
  tries that are left.

  \<^bold>\<open>What is outside.\<close> Code that is not in the repository is a parameter: the commands of Redis (\<^verbatim>\<open>redis_ops\<close>, whose laws are the hypothesis
  \<^verbatim>\<open>redis_laws\<close>, with \<^verbatim>\<open>kv_ops\<close> as the instance that satisfies them), the connection to PostgreSQL (whether a statement or a
  commit fails is chosen by the environment, and \<^verbatim>\<open>between\<close> lets other requests change the tables between two statements), argon2 and the signing of
  tokens, the texts of JSON and the decoders of XML, SMTP, clocks and random numbers, the browser and its network, the framework that runs the pages.
  A theorem that needs a law of such a parameter names it as a hypothesis and has a witness with a concrete instance.

  \<^bold>\<open>The server, from the stores up.\<close>
  \<^item> Redis: the commands as an interface, exchanges that may be lost, an executable store. Lock (\<^verbatim>\<open>services/lock.rs\<close>): acquisition with
    retries, release by script, the guard. Cache (\<^verbatim>\<open>services/cache.rs\<close>): typed values, negative markers, read-through with and
    without the lock. RateLimit (\<^verbatim>\<open>crates/distributed-ratelimit\<close>): the window script and the limiter.
  \<^item> Snowflake (\<^verbatim>\<open>utils/snowflake.rs\<close>): ids as 64-bit words, the generator of one caller, the same code as steps on shared atomics for
    several callers, and the registry of workers.
  \<^item> Database (\<^verbatim>\<open>repositories\<close>, \<^verbatim>\<open>migrations\<close>): the tables of users and refresh tokens with their constraints; \<^verbatim>\<open>db_ok\<close> is the invariant.
    DbRouter (\<^verbatim>\<open>utils/db_router.rs\<close>): which statements are writes, replicas with circuit breakers, strategies, fallback.
  \<^item> UserService, AuthService, Verification, PasswordReset (\<^verbatim>\<open>services/*.rs\<close>) over these, with Validator for passwords and Email (\<^verbatim>\<open>crates/emailserver\<close>) for mails.
    UserProps, AuthProps and CodeProps hold their properties.
  \<^item> Captcha, WechatApi (\<^verbatim>\<open>crates/wechat-api\<close>) and WechatStore (\<^verbatim>\<open>services/wechat.rs\<close>): codes, logins, callbacks, menus; CaptchaProps refines the store
    on Redis to two abstract maps.
  \<^item> ApiErrors (\<^verbatim>\<open>utils/error.rs\<close>), Middleware, Adapters (both frameworks), Handlers and ApiHandlers (\<^verbatim>\<open>handlers/*.rs\<close>), Routes (\<^verbatim>\<open>routes\<close>): a
    request from its route to its answer. Startup (\<^verbatim>\<open>utils/config.rs\<close>, \<^verbatim>\<open>migrations.rs\<close>, \<^verbatim>\<open>bootstrap/mod.rs\<close>): the configuration and the start.
  \<^item> Served, Sessions and ServerProps: what every request keeps, and sequences of requests of any clients: under \<^verbatim>\<open>/api\<close>, under
    \<^verbatim>\<open>/api/public/auth\<close> and to the callback of WeChat. Access: which accounts a request can reach, from its route to the rows.

  \<^bold>\<open>The application, from the client up.\<close>
  \<^item> ApiClient (\<^verbatim>\<open>client-api\<close>): configuration, addresses, every endpoint, the loop of attempts. WebAuth (\<^verbatim>\<open>web/src/auth\<close>, \<^verbatim>\<open>api\<close>, guards and the log):
    the session, its storage and its expiry.
  \<^item> Pages: a page with tasks that are answered later, as steps; the interfaces \<^verbatim>\<open>guarded_page\<close> and \<^verbatim>\<open>live_page\<close>. AuthPages, AccountPages and Shell
    (\<^verbatim>\<open>web/src/views\<close>, \<^verbatim>\<open>main.rs\<close>, \<^verbatim>\<open>ui\<close>, \<^verbatim>\<open>crates/i18n\<close>) model the pages, PageProps their properties. UsersPage (\<^verbatim>\<open>views/users.rs\<close>) is the page of the administration;
    it reads amounts with Float64, the binary floating point it needs.

  \<^bold>\<open>Both together.\<close> Wire gives the JSON of every request and answer as the structs on both sides declare it (\<^verbatim>\<open>client-api/src/types.rs\<close>, the structs of the
  handlers, \<^verbatim>\<open>repositories/user.rs\<close>), what the other side reads from it, and the display balance, for a reader of floats that is off by a neighbour (\<^verbatim>\<open>neighbour\<close>). EndToEnd makes a deployment of the server the transport of the
  client (\<^verbatim>\<open>build_app_router\<close>, \<^verbatim>\<open>webshelf-runtime/src/response.rs\<close>): an address, a nest, a route, the guards, the handler, the rendered answer, and its reading.
  Coherence follows the cached profiles and versions beside the tables over any sequence of requests.

  \<^bold>\<open>The interfaces.\<close> \<^verbatim>\<open>captcha_contract\<close> (Captcha) is what a login needs of a store, interpreted on the store in memory and the one on Redis.
  \<^verbatim>\<open>served_invariant\<close> (Served) is what the services promise to the handlers under a configuration, a limiter and a choice of public endpoints, and
  \<^verbatim>\<open>service_invariant\<close> its special case for all of them: Sessions interprets the latter on the invariant of the tables and on the versions of
  tokens, Coherence the former on the agreement of the cache with the tables. \<^verbatim>\<open>guarded_page\<close> and \<^verbatim>\<open>live_page\<close> (Pages) are the discipline of flags of
  a page, interpreted on the verification, reset, forgotten password, settings and dashboard pages; the landing page does not have it, which \<^verbatim>\<open>landing_mode_defeats_guard\<close> shows.

  \<^bold>\<open>What the theorems show.\<close>
  \<^item> Of the whole server: every sequence of requests keeps the tables well formed; under \<^verbatim>\<open>/api\<close> only a token that passes the version check changes them,
    and when the cache agrees with the table that is a live session;
    the version of a user's tokens changes with the credentials, so that an ended session is rejected when nothing fails or interferes; protected
    accounts stay out of reach of all but their owners;
    while Redis is reached and no query behind a commit fails, the cache never shows a stale profile after requests that do not interleave,
    and without password resets the sessions let in are exactly the live ones.
  \<^item> Of each service: what an operation returns and leaves on every branch, balances exactly and within range, codes with five attempts and
    a cooldown, refresh tokens for one rotation, one holder of a lock, ids that increase, a router that keeps its invariant.
  \<^item> Of the application: a session that is consistent through every operation, calls that end, pages that ask only for what
    the roles allow and never hang, amounts that survive binary floating point.
  \<^item> Of both: the server understands every request of the client and the client every answer; a login goes from the form to the row of the table and
    back to the page; errors reach the page with their kind and message.
  \<^item> What does not hold is stated as well: ids that two callers share, an adjustment applied twice after a lost answer, sessions that outlive a
    password reset or a failed query behind a commit, a start against a configured default account, a verified account that is
    sent back to the login, guesses of a captcha that nobody counts.

  \<^bold>\<open>Bounds and fuel.\<close> No theorem rests on fuel: retries count down from their configured number, the attempts of a call are its retries plus one,
  and the loops on a clock are shown to return when the clock moves (\<^verbatim>\<open>snowflake_generate_returns\<close>). \<^verbatim>\<open>answers_finish\<close> needs as many answers as the pending
  tasks weigh, which is at most two for each.

  \<^bold>\<open>Not modelled, and why.\<close> Rendering, styles, texts of the translations and the Chinese versions of error messages (no state depends on
  them); the runtimes that accept connections and wait for signals; logging and tracing; hashing and signing themselves; the metrics and background tasks of
  the router beyond its breakers; the desktop and mobile shells. A replica answers like its primary, without
  the lag of replication. Requests to the server interleave inside the services through \<^verbatim>\<open>between\<close>; the theorems over
  sequences of requests that speak of versions or of the cache, and those on the accounts a request can reach, take one request after the other. A
  transaction is one step of the tables, and a commit that fails has not been applied (a lost acknowledgement is not). \<^verbatim>\<open>db_ok\<close> says nothing of the lengths
  of texts and of the ids of refresh tokens, which a sequence of the database fills, and \<^verbatim>\<open>INCR\<close> counts without an upper bound. The framework answers HEAD from the
  routes of GET and drops the body, which stays in the model; letters are changed in case for ASCII only. Tasks of a page interleave freely; the
  operations of the session inside one task, with the network in between, are one step.
\<close>

end
